(* ===== verification/Prelude.thy ===== *)
theory Prelude
  imports Main "HOL-Library.Word"
begin

text \<open>
  Shared vocabulary of the development.

  A Rust \<open>&str\<close> or \<open>&[u8]\<close> is a \<open>bytes\<close> value: a list of HOL characters, each of
  which is one byte. A Rust call that can panic returns an \<open>outcome\<close>: \<open>Panic\<close> for the
  panic, \<open>Return\<close> for a normal return. \<open>u32\<close> values are machine words; \<open>usize\<close>
  indices into a slice are natural numbers, since no slice is longer than the address
  space.

  The collections \<open>str_simps\<close>, \<open>lex_bounds\<close> and \<open>map_simps\<close> gather
  the facts on strings, scanner bounds and maps that the components share.
\<close>

named_theorems str_simps
named_theorems lex_bounds
named_theorems map_simps

type_synonym bytes = string
type_synonym u32 = "32 word"
type_synonym u64 = "64 word"

abbreviation byte :: "char \<Rightarrow> nat" where
  "byte c \<equiv> of_char c"

section \<open>Panics\<close>

datatype 'a outcome = Panic | Return 'a

fun bind_outcome :: "'a outcome \<Rightarrow> ('a \<Rightarrow> 'b outcome) \<Rightarrow> 'b outcome" where
  "bind_outcome Panic f = Panic"
| "bind_outcome (Return x) f = f x"

definition assert_outcome :: "bool \<Rightarrow> 'a outcome \<Rightarrow> 'a outcome" where
  "assert_outcome b m = (if b then m else Panic)"

lemma assert_outcome_simps [simp]:
  "assert_outcome True m = m"
  "assert_outcome False m = Panic"
  by (simp_all add: assert_outcome_def)

lemma bind_outcome_Return_iff [simp]:
  "bind_outcome m f = Return y \<longleftrightarrow> (\<exists>x. m = Return x \<and> f x = Return y)"
  by (cases m) auto

lemma map_outcome_Return_iff [simp]:
  "map_outcome f m = Return y \<longleftrightarrow> (\<exists>x. m = Return x \<and> y = f x)"
  by (cases m) auto

lemma assert_outcome_Return_iff [simp]:
  "assert_outcome b m = Return y \<longleftrightarrow> b \<and> m = Return y"
  by (simp add: assert_outcome_def)

lemma not_Panic_iff: "m \<noteq> Panic \<longleftrightarrow> (\<exists>x. m = Return x)"
  by (cases m) auto

section \<open>Rust results\<close>

text \<open>A \<open>Result<T, E>\<close> is a sum with the error on the left; \<open>?\<close> is \<open>bind_result\<close>.\<close>

fun bind_result :: "'e + 'a \<Rightarrow> ('a \<Rightarrow> 'e + 'b) \<Rightarrow> 'e + 'b" where
  "bind_result (Inl e) f = Inl e"
| "bind_result (Inr x) f = f x"

lemma bind_result_Inr_iff [simp]:
  "bind_result m f = Inr y \<longleftrightarrow> (\<exists>x. m = Inr x \<and> f x = Inr y)"
  by (cases m) auto

text \<open>\<open>iter().map(f).collect::<Result<Vec<_>, _>>()\<close>: the first error wins.\<close>

fun map_result :: "('a \<Rightarrow> 'e + 'b) \<Rightarrow> 'a list \<Rightarrow> 'e + 'b list" where
  "map_result f [] = Inr []"
| "map_result f (x # xs) =
     bind_result (f x) (\<lambda>y. bind_result (map_result f xs) (\<lambda>ys. Inr (y # ys)))"

lemma map_result_cong [fundef_cong]:
  assumes "xs = ys" and "\<And>x. x \<in> set ys \<Longrightarrow> f x = g x"
  shows "map_result f xs = map_result g ys"
  using assms by (induction xs arbitrary: ys) auto

lemma map_result_Inr_iff:
  "map_result f xs = Inr ys \<longleftrightarrow> list_all2 (\<lambda>x y. f x = Inr y) xs ys"
  by (induction xs arbitrary: ys) (auto simp: list_all2_Cons1)

lemma map_result_Inl:
  "map_result f xs = Inl e \<Longrightarrow> \<exists>x \<in> set xs. f x = Inl e"
proof (induction xs)
  case (Cons x xs)
  then show ?case by (cases "f x"; cases "map_result f xs") auto
qed simp

section \<open>Byte classes of \<open>core::u8\<close>\<close>

definition is_ascii :: "char \<Rightarrow> bool" where
  "is_ascii c \<longleftrightarrow> byte c < 128"

definition is_ascii_digit :: "char \<Rightarrow> bool" where
  "is_ascii_digit c \<longleftrightarrow> 48 \<le> byte c \<and> byte c \<le> 57"

definition is_ascii_uppercase :: "char \<Rightarrow> bool" where
  "is_ascii_uppercase c \<longleftrightarrow> 65 \<le> byte c \<and> byte c \<le> 90"

definition is_ascii_lowercase :: "char \<Rightarrow> bool" where
  "is_ascii_lowercase c \<longleftrightarrow> 97 \<le> byte c \<and> byte c \<le> 122"

definition is_ascii_alphabetic :: "char \<Rightarrow> bool" where
  "is_ascii_alphabetic c \<longleftrightarrow> is_ascii_uppercase c \<or> is_ascii_lowercase c"

definition is_ascii_alphanumeric :: "char \<Rightarrow> bool" where
  "is_ascii_alphanumeric c \<longleftrightarrow> is_ascii_alphabetic c \<or> is_ascii_digit c"

text \<open>\<open>u8::is_ascii_whitespace\<close>: space, tab, line feed, form feed, carriage return.\<close>

definition is_ascii_whitespace :: "char \<Rightarrow> bool" where
  "is_ascii_whitespace c \<longleftrightarrow> byte c \<in> {32, 9, 10, 12, 13}"

lemmas ascii_class_defs =
  is_ascii_digit_def is_ascii_uppercase_def is_ascii_lowercase_def is_ascii_alphabetic_def
  is_ascii_alphanumeric_def is_ascii_whitespace_def

lemma ascii_classes_ascii:
  "is_ascii_alphanumeric c \<Longrightarrow> is_ascii c"
  "is_ascii_digit c \<Longrightarrow> is_ascii c"
  "is_ascii_alphabetic c \<Longrightarrow> is_ascii c"
  "is_ascii_whitespace c \<Longrightarrow> is_ascii c"
  by (auto simp: ascii_class_defs is_ascii_def)

abbreviation LF :: char where "LF \<equiv> CHR 0x0A"
abbreviation CR :: char where "CR \<equiv> CHR 0x0D"
abbreviation quote_char :: char where "quote_char \<equiv> CHR 0x22"
abbreviation backslash_char :: char where "backslash_char \<equiv> CHR 0x5C"
abbreviation apostrophe_char :: char where "apostrophe_char \<equiv> CHR 0x27"

section \<open>Slices\<close>

text \<open>\<open>bytes.get(i)\<close>.\<close>

definition get_at :: "'a list \<Rightarrow> nat \<Rightarrow> 'a option" where
  "get_at xs i = (if i < length xs then Some (xs ! i) else None)"

lemma get_at_Some_iff [simp]: "get_at xs i = Some x \<longleftrightarrow> i < length xs \<and> xs ! i = x"
  by (auto simp: get_at_def)

lemma get_at_None_iff [simp]: "get_at xs i = None \<longleftrightarrow> length xs \<le> i"
  by (auto simp: get_at_def)

text \<open>\<open>xs[a..b]\<close> for \<open>a \<le> b \<le> xs.len()\<close>.\<close>

definition slice :: "'a list \<Rightarrow> nat \<Rightarrow> nat \<Rightarrow> 'a list" where
  "slice xs a b = take (b - a) (drop a xs)"

lemma length_slice [simp]: "b \<le> length xs \<Longrightarrow> length (slice xs a b) = b - a"
  by (simp add: slice_def)

lemma slice_append: "a \<le> b \<Longrightarrow> b \<le> c \<Longrightarrow> slice xs a b @ slice xs b c = slice xs a c"
proof -
  assume ab: "a \<le> b" and bc: "b \<le> c"
  have "take (c - a) (drop a xs) = take (b - a) (drop a xs) @ take (c - b) (drop (b - a) (drop a xs))"
    using ab bc by (metis Nat.add_diff_assoc2 add.commute le_add_diff_inverse take_add)
  then show ?thesis using ab by (simp add: slice_def)
qed

lemma slice_full [simp]: "slice xs 0 (length xs) = xs"
  by (simp add: slice_def)

lemma slice_same [simp]: "slice xs a a = []"
  by (simp add: slice_def)

text \<open>The scanning loop \<open>while end < bytes.len() && p(bytes[end]) { end += 1; }\<close>.\<close>

function skip_while :: "('a \<Rightarrow> bool) \<Rightarrow> 'a list \<Rightarrow> nat \<Rightarrow> nat" where
  "skip_while p bs i = (if i < length bs \<and> p (bs ! i) then skip_while p bs (Suc i) else i)"
  by pat_completeness auto
termination
  by (relation "measure (\<lambda>(p, bs, i). length bs - i)") auto

declare skip_while.simps [simp del]

lemma skip_while_step:
  "i < length bs \<Longrightarrow> p (bs ! i) \<Longrightarrow> skip_while p bs i = skip_while p bs (Suc i)"
  by (simp add: skip_while.simps [of p bs i])

lemma skip_while_done: "\<not> (i < length bs \<and> p (bs ! i)) \<Longrightarrow> skip_while p bs i = i"
  by (subst skip_while.simps) auto

text \<open>The loop is characterised by its result: the first index from \<open>i\<close> where \<open>p\<close> fails.\<close>

lemma skip_while_spec:
  "i \<le> skip_while p bs i
   \<and> (i \<le> length bs \<longrightarrow> skip_while p bs i \<le> length bs)
   \<and> (\<forall>k. i \<le> k \<longrightarrow> k < skip_while p bs i \<longrightarrow> k < length bs \<and> p (bs ! k))
   \<and> (skip_while p bs i < length bs \<longrightarrow> \<not> p (bs ! skip_while p bs i))"
proof (induction p bs i rule: skip_while.induct)
  case (1 p bs i)
  show ?case
  proof (cases "i < length bs \<and> p (bs ! i)")
    case True
    let ?e = "skip_while p bs (Suc i)"
    from 1 True have IH: "Suc i \<le> ?e" "Suc i \<le> length bs \<Longrightarrow> ?e \<le> length bs"
      "\<And>k. Suc i \<le> k \<Longrightarrow> k < ?e \<Longrightarrow> k < length bs \<and> p (bs ! k)"
      "?e < length bs \<Longrightarrow> \<not> p (bs ! ?e)"
      by auto
    have "k < length bs \<and> p (bs ! k)" if "i \<le> k" and "k < ?e" for k
      using that True IH(3) [of k] by (cases "k = i") auto
    moreover have "skip_while p bs i = ?e" using True skip_while_step by blast
    ultimately show ?thesis using True IH(1,2,4) by (simp add: Suc_le_eq)
  next
    case False
    then have "skip_while p bs i = i" using skip_while_done by blast
    with False show ?thesis by simp
  qed
qed

lemma skip_while_ge [lex_bounds]: "i \<le> skip_while p bs i"
  using skip_while_spec [of i p bs] by blast

lemma skip_while_decreases:
  "i < j \<Longrightarrow> i < length bs \<Longrightarrow> length bs - skip_while p bs j < length bs - i"
  using skip_while_ge [of j p bs] by simp

lemma skip_while_le [lex_bounds]: "i \<le> length bs \<Longrightarrow> skip_while p bs i \<le> length bs"
  using skip_while_spec [of i p bs] by blast

lemma skip_while_all: "i \<le> k \<Longrightarrow> k < skip_while p bs i \<Longrightarrow> k < length bs \<and> p (bs ! k)"
  using skip_while_spec [of i p bs] by blast

lemma skip_while_stop: "skip_while p bs i < length bs \<Longrightarrow> \<not> p (bs ! skip_while p bs i)"
  using skip_while_spec [of i p bs] by blast

lemma skip_while_eqI:
  assumes "i \<le> e" and "e \<le> length bs" and "\<And>k. i \<le> k \<Longrightarrow> k < e \<Longrightarrow> p (bs ! k)"
    and "e < length bs \<Longrightarrow> \<not> p (bs ! e)"
  shows "skip_while p bs i = e"
proof (rule antisym)
  show "skip_while p bs i \<le> e"
    using assms skip_while_all [of i e p bs] by (cases "e < skip_while p bs i") auto
  show "e \<le> skip_while p bs i"
  proof (rule ccontr)
    assume "\<not> e \<le> skip_while p bs i"
    then have "skip_while p bs i < e" by simp
    with assms(2,3) skip_while_stop [of p bs i] skip_while_ge [of i p bs] show False by auto
  qed
qed

section \<open>Joining\<close>

text \<open>\<open>[String]::join\<close>.\<close>

fun join :: "'a list \<Rightarrow> 'a list list \<Rightarrow> 'a list" where
  "join sep [] = []"
| "join sep [x] = x"
| "join sep (x # y # zs) = x @ sep @ join sep (y # zs)"

lemma join_Cons: "xs \<noteq> [] \<Longrightarrow> join sep (x # xs) = x @ sep @ join sep xs"
  by (cases xs) auto

lemma set_join: "set (join sep xs) \<subseteq> set sep \<union> (\<Union>x \<in> set xs. set x)"
  by (induction sep xs rule: join.induct) auto

text \<open>\<open>str::strip_prefix\<close>.\<close>

fun strip_prefix :: "'a list \<Rightarrow> 'a list \<Rightarrow> 'a list option" where
  "strip_prefix [] s = Some s"
| "strip_prefix (p # ps) [] = None"
| "strip_prefix (p # ps) (c # s) = (if p = c then strip_prefix ps s else None)"

lemma strip_prefix_Some_iff [str_simps]: "strip_prefix p s = Some r \<longleftrightarrow> s = p @ r"
  by (induction p s rule: strip_prefix.induct) auto

lemma strip_prefix_append [simp]: "strip_prefix p (p @ r) = Some r"
  by (simp add: strip_prefix_Some_iff)

definition strip_suffix :: "'a list \<Rightarrow> 'a list \<Rightarrow> 'a list option" where
  "strip_suffix p s = map_option rev (strip_prefix (rev p) (rev s))"

lemma strip_suffix_Some_iff [str_simps]: "strip_suffix p s = Some r \<longleftrightarrow> s = r @ p"
  by (auto simp: strip_suffix_def strip_prefix_Some_iff) (metis rev_append rev_rev_ident)+

end
