(* ===== verification/Utf8.thy ===== *)
theory Utf8
  imports Prelude
begin

text \<open>
  Rust's \<open>str\<close>: a byte sequence that is valid UTF-8, with character boundaries. What
  the source uses of \<open>core::str\<close> is modelled here: the validity invariant every
  \<open>&str\<close> carries, \<open>is_char_boundary\<close>, iteration by \<open>chars()\<close>, and the
  UTF-8 and UTF-16 widths of a \<open>char\<close>.
\<close>

section \<open>Validity\<close>

definition is_cont :: "char \<Rightarrow> bool" where
  "is_cont c \<longleftrightarrow> 128 \<le> byte c \<and> byte c < 192"

text \<open>Number of bytes of the scalar value that starts with this byte (\<open>char::len_utf8\<close>).\<close>

definition lead_width :: "char \<Rightarrow> nat" where
  "lead_width c = (if byte c < 128 then 1 else if byte c < 224 then 2 else if byte c < 240 then 3 else 4)"

text \<open>One scalar value at the head of a byte list, as in table 3-7 of the Unicode standard.\<close>

definition scalar2 :: "char \<Rightarrow> char \<Rightarrow> bool" where
  "scalar2 a b \<longleftrightarrow> 194 \<le> byte a \<and> byte a < 224 \<and> is_cont b"

definition scalar3 :: "char \<Rightarrow> char \<Rightarrow> char \<Rightarrow> bool" where
  "scalar3 a b c \<longleftrightarrow> 224 \<le> byte a \<and> byte a < 240 \<and> is_cont b \<and> is_cont c
     \<and> (byte a = 224 \<longrightarrow> 160 \<le> byte b) \<and> (byte a = 237 \<longrightarrow> byte b < 160)"

definition scalar4 :: "char \<Rightarrow> char \<Rightarrow> char \<Rightarrow> char \<Rightarrow> bool" where
  "scalar4 a b c d \<longleftrightarrow> 240 \<le> byte a \<and> byte a < 245 \<and> is_cont b \<and> is_cont c \<and> is_cont d
     \<and> (byte a = 240 \<longrightarrow> 144 \<le> byte b) \<and> (byte a = 244 \<longrightarrow> byte b < 144)"

fun utf8 :: "bytes \<Rightarrow> bool" where
  "utf8 [] = True"
| "utf8 (a # s) =
     (if is_ascii a then utf8 s
      else case s of
        [] \<Rightarrow> False
      | b # s2 \<Rightarrow> if scalar2 a b then utf8 s2
          else (case s2 of
            [] \<Rightarrow> False
          | c # s3 \<Rightarrow> if scalar3 a b c then utf8 s3
              else (case s3 of
                [] \<Rightarrow> False
              | d # s4 \<Rightarrow> scalar4 a b c d \<and> utf8 s4)))"

declare utf8.simps(2) [simp del]

lemma lead_width_pos [simp]: "0 < lead_width c"
  by (simp add: lead_width_def)

text \<open>
  The case analysis every proof about valid text uses: a nonempty valid text is one scalar
  value, whose length its first byte determines, and a valid rest.
\<close>

lemma utf8_Cons_cases [consumes 1, case_names one two three four]:
  assumes "utf8 (a # s)"
  obtains (one) "is_ascii a" "utf8 s" "lead_width a = 1"
  | (two) b s2 where "s = b # s2" "scalar2 a b" "utf8 s2" "lead_width a = 2"
  | (three) b c s3 where "s = b # c # s3" "scalar3 a b c" "utf8 s3" "lead_width a = 3"
  | (four) b c d s4 where "s = b # c # d # s4" "scalar4 a b c d" "utf8 s4" "lead_width a = 4"
  using assms
  by (auto simp: utf8.simps(2) lead_width_def is_ascii_def scalar2_def scalar3_def scalar4_def
      split: list.splits if_splits)

lemma scalar_cont:
  "scalar2 a b \<Longrightarrow> is_cont b"
  "scalar3 a b c \<Longrightarrow> is_cont b \<and> is_cont c"
  "scalar4 a b c d \<Longrightarrow> is_cont b \<and> is_cont c \<and> is_cont d"
  by (simp_all add: scalar2_def scalar3_def scalar4_def)

lemma scalar_not_ascii:
  "scalar2 a b \<Longrightarrow> \<not> is_ascii a \<and> \<not> is_cont a"
  "scalar3 a b c \<Longrightarrow> \<not> is_ascii a \<and> \<not> is_cont a"
  "scalar4 a b c d \<Longrightarrow> \<not> is_ascii a \<and> \<not> is_cont a"
  by (simp_all add: scalar2_def scalar3_def scalar4_def is_ascii_def is_cont_def)

lemma ascii_not_cont: "is_ascii c \<Longrightarrow> \<not> is_cont c"
  by (simp add: is_ascii_def is_cont_def)

lemma utf8_ascii_Cons [simp]: "is_ascii a \<Longrightarrow> utf8 (a # s) \<longleftrightarrow> utf8 s"
  by (simp add: utf8.simps(2))

lemma utf8_head_not_cont: "utf8 (a # s) \<Longrightarrow> \<not> is_cont a"
  by (erule utf8_Cons_cases) (auto simp: ascii_not_cont scalar_not_ascii)

lemma utf8_scalar:
  "scalar2 a b \<Longrightarrow> utf8 (a # b # s) = utf8 s"
  "scalar3 a b c \<Longrightarrow> utf8 (a # b # c # s) = utf8 s"
  "scalar4 a b c d \<Longrightarrow> utf8 (a # b # c # d # s) = utf8 s"
  by (auto simp: utf8.simps(2) is_ascii_def scalar2_def scalar3_def scalar4_def)

lemma utf8_induct [consumes 1, case_names Nil one two three four]:
  assumes "utf8 s"
    and "P []"
    and "\<And>a s. is_ascii a \<Longrightarrow> utf8 s \<Longrightarrow> P s \<Longrightarrow> P (a # s)"
    and "\<And>a b s. scalar2 a b \<Longrightarrow> utf8 s \<Longrightarrow> P s \<Longrightarrow> P (a # b # s)"
    and "\<And>a b c s. scalar3 a b c \<Longrightarrow> utf8 s \<Longrightarrow> P s \<Longrightarrow> P (a # b # c # s)"
    and "\<And>a b c d s. scalar4 a b c d \<Longrightarrow> utf8 s \<Longrightarrow> P s \<Longrightarrow> P (a # b # c # d # s)"
  shows "P s"
  using assms(1)
proof (induction s rule: length_induct)
  case (1 s)
  show ?case
  proof (cases s)
    case (Cons a r)
    with "1.prems" have "utf8 (a # r)" by simp
    then show ?thesis
      by (cases rule: utf8_Cons_cases) (use 1 Cons assms(3-) in auto)
  qed (simp add: assms(2))
qed

lemma utf8_append: "utf8 s \<Longrightarrow> utf8 (s @ t) = utf8 t"
  by (induction s rule: utf8_induct) (auto simp: utf8_scalar)

lemma utf8_all_ascii: "\<forall>c \<in> set s. is_ascii c \<Longrightarrow> utf8 s"
  by (induction s) auto

section \<open>Character boundaries\<close>

text \<open>\<open>str::is_char_boundary\<close>.\<close>

definition is_char_boundary :: "bytes \<Rightarrow> nat \<Rightarrow> bool" where
  "is_char_boundary text i \<longleftrightarrow>
     (if i = 0 then True
      else if length text \<le> i then i = length text
      else \<not> is_cont (text ! i))"

lemma is_char_boundary_0 [simp]: "is_char_boundary text 0"
  by (simp add: is_char_boundary_def)

lemma is_char_boundary_length [simp]: "is_char_boundary text (length text)"
  by (simp add: is_char_boundary_def)

lemma is_char_boundary_le: "is_char_boundary text i \<Longrightarrow> i \<le> length text"
  by (auto simp: is_char_boundary_def split: if_splits)

text \<open>The boundaries of a valid text are the offsets at which it splits into valid texts.\<close>

lemma boundary_Suc_iff:
  assumes "utf8 s"
  shows "is_char_boundary (c # s) (Suc i) \<longleftrightarrow>
    (if i = 0 then True else is_char_boundary s i)"
proof (cases s)
  case (Cons a r)
  then have "\<not> is_cont a" using assms utf8_head_not_cont by blast
  with Cons show ?thesis by (auto simp: is_char_boundary_def)
qed (auto simp: is_char_boundary_def)

lemma boundary_prefix:
  assumes "utf8 s" and "p \<noteq> []" and "\<forall>c \<in> set (tl p). is_cont c"
  shows "is_char_boundary (p @ s) i \<longleftrightarrow>
    i = 0 \<or> (length p \<le> i \<and> is_char_boundary s (i - length p))"
proof (cases "i < length p")
  case True
  show ?thesis
  proof (cases i)
    case (Suc j)
    with True have "p ! i \<in> set (tl p)"
      by (metis Suc_less_eq assms(2) length_Suc_conv list.collapse list.sel(3) nth_Cons_Suc nth_mem)
    with True assms(3) Suc show ?thesis by (auto simp: is_char_boundary_def nth_append)
  qed simp
next
  case False
  have "\<not> is_cont (s ! 0)" if "s \<noteq> []"
    using that assms(1) utf8_head_not_cont by (cases s) auto
  with False assms(2) show ?thesis
    by (auto simp: is_char_boundary_def nth_append)
qed

lemma boundary_chunk:
  assumes "utf8 s" and "p \<noteq> []" and "\<forall>c \<in> set (tl p). is_cont c" and "utf8 (p @ s)"
    and IH: "\<And>i. is_char_boundary s i \<longleftrightarrow> i \<le> length s \<and> utf8 (drop i s)"
  shows "is_char_boundary (p @ s) i \<longleftrightarrow> i \<le> length (p @ s) \<and> utf8 (drop i (p @ s))"
proof -
  consider "i = 0" | "0 < i" "i < length p" | "length p \<le> i" by linarith
  then show ?thesis
  proof cases
    case 2
    then obtain c r where cr: "drop i p = c # r" by (metis Cons_nth_drop_Suc)
    have "c \<in> set (drop i p)" using cr by simp
    then have "c \<in> set (tl p)"
      using 2 by (metis Suc_pred drop_Suc in_set_dropD)
    then have "\<not> utf8 (drop i (p @ s))"
      using assms(3) cr 2 utf8_head_not_cont by auto
    with 2 show ?thesis using boundary_prefix [OF assms(1-3), of i] by simp
  next
    case 3
    then have "i \<noteq> 0" using assms(2) by (cases p) simp_all
    moreover have "drop i (p @ s) = drop (i - length p) s" using 3 by simp
    ultimately show ?thesis
      using 3 boundary_prefix [OF assms(1-3), of i] IH [of "i - length p"]
      by (simp add: le_diff_conv add.commute)
  qed (use assms(4) in simp)
qed

lemma boundary_iff_drop:
  "utf8 text \<Longrightarrow> is_char_boundary text i \<longleftrightarrow> i \<le> length text \<and> utf8 (drop i text)"
proof (induction "text" arbitrary: i rule: utf8_induct)
  case Nil
  then show ?case by (auto simp: is_char_boundary_def)
next
  case (one a s)
  then show ?case using boundary_chunk [of s "[a]" i] by simp
next
  case (two a b s)
  then show ?case using boundary_chunk [of s "[a, b]" i] scalar_cont(1) [of a b]
    by (simp add: utf8_scalar)
next
  case (three a b c s)
  then show ?case using boundary_chunk [of s "[a, b, c]" i] scalar_cont(2) [of a b c]
    by (simp add: utf8_scalar)
next
  case (four a b c d s)
  then show ?case using boundary_chunk [of s "[a, b, c, d]" i] scalar_cont(3) [of a b c d]
    by (simp add: utf8_scalar)
qed

lemma boundary_drop: "utf8 text \<Longrightarrow> is_char_boundary text i \<Longrightarrow> utf8 (drop i text)"
  by (simp add: boundary_iff_drop)

text \<open>Stepping over one \<open>char\<close> leads from a boundary to a boundary.\<close>

lemma utf8_width_step:
  assumes "utf8 (c # s)"
  shows "lead_width c \<le> length (c # s)" and "utf8 (drop (lead_width c) (c # s))"
  using assms by (cases rule: utf8_Cons_cases; simp)+

lemma boundary_width:
  assumes "utf8 text" and "is_char_boundary text i" and "i < length text"
  shows "i + lead_width (text ! i) \<le> length text"
    and "is_char_boundary text (i + lead_width (text ! i))"
proof -
  have d: "drop i text = text ! i # drop (Suc i) text" using assms(3) by (simp add: Cons_nth_drop_Suc)
  with assms have "utf8 (text ! i # drop (Suc i) text)" by (simp add: boundary_iff_drop)
  note w = utf8_width_step [OF this]
  from w(1) d show 1: "i + lead_width (text ! i) \<le> length text"
    using assms(3) by (simp add: Suc_le_eq)
  have "drop (i + lead_width (text ! i)) text = drop (lead_width (text ! i)) (drop i text)"
    by (simp add: add.commute)
  with w(2) d have "utf8 (drop (i + lead_width (text ! i)) text)" by simp
  with 1 assms(1) show "is_char_boundary text (i + lead_width (text ! i))"
    by (simp add: boundary_iff_drop)
qed

text \<open>An ASCII byte of a valid text is a \<open>char\<close> of its own: both its ends are boundaries.\<close>

lemma boundary_ascii:
  assumes "utf8 text" and "i < length text" and "is_ascii (text ! i)"
  shows "is_char_boundary text i" and "is_char_boundary text (Suc i)"
proof -
  show b: "is_char_boundary text i"
    using assms ascii_not_cont by (simp add: is_char_boundary_def)
  have "lead_width (text ! i) = 1" using assms(3) by (simp add: lead_width_def is_ascii_def)
  with boundary_width [OF assms(1) b assms(2)] show "is_char_boundary text (Suc i)" by simp
qed

lemma boundary_not_cont:
  "i < length text \<Longrightarrow> \<not> is_cont (text ! i) \<Longrightarrow> is_char_boundary text i"
  by (simp add: is_char_boundary_def)

lemma utf8_take:
  assumes "utf8 text" and "is_char_boundary text i"
  shows "utf8 (take i text)"
  using assms
proof (induction "text" arbitrary: i rule: utf8_induct)
  case Nil
  then show ?case by simp
next
  case (one a s)
  then show ?case using boundary_prefix [of s "[a]" i] by (cases "i = 0") (auto simp: take_Cons')
next
  case (two a b s)
  then show ?case using boundary_prefix [of s "[a, b]" i] scalar_cont(1) [of a b]
    by (cases "i = 0") (auto simp: take_Cons' utf8_scalar numeral_eq_Suc)
next
  case (three a b c s)
  then show ?case using boundary_prefix [of s "[a, b, c]" i] scalar_cont(2) [of a b c]
    by (cases "i = 0") (auto simp: take_Cons' utf8_scalar numeral_eq_Suc)
next
  case (four a b c d s)
  then show ?case using boundary_prefix [of s "[a, b, c, d]" i] scalar_cont(3) [of a b c d]
    by (cases "i = 0") (auto simp: take_Cons' utf8_scalar numeral_eq_Suc)
qed

section \<open>Iterating over \<open>char\<close>s\<close>

text \<open>\<open>s.chars()\<close>, each \<open>char\<close> given by its UTF-8 bytes.\<close>

fun chars :: "bytes \<Rightarrow> bytes list" where
  "chars [] = []"
| "chars (c # s) = (c # take (lead_width c - 1) s) # chars (drop (lead_width c - 1) s)"

text \<open>\<open>char::len_utf16\<close>: two code units for the scalars beyond the basic plane.\<close>

definition len_utf16 :: "bytes \<Rightarrow> nat" where
  "len_utf16 ch = (if length ch = 4 then 2 else 1)"

lemma concat_chars [simp]: "concat (chars s) = s"
  by (induction s rule: chars.induct) auto

lemma chars_nonempty: "ch \<in> set (chars s) \<Longrightarrow> ch \<noteq> []"
  by (induction s rule: chars.induct) auto

lemma chars_ascii: "\<forall>c \<in> set s. is_ascii c \<Longrightarrow> chars s = map (\<lambda>c. [c]) s"
  by (induction s) (simp_all add: lead_width_def is_ascii_def)

lemma chars_append: "utf8 s \<Longrightarrow> chars (s @ t) = chars s @ chars t"
proof (induction s rule: utf8_induct)
  case (one a s)
  then show ?case by (simp add: lead_width_def is_ascii_def)
next
  case (two a b s)
  then show ?case by (simp add: lead_width_def scalar2_def numeral_eq_Suc)
next
  case (three a b c s)
  then show ?case by (simp add: lead_width_def scalar3_def numeral_eq_Suc)
next
  case (four a b c d s)
  then show ?case by (simp add: lead_width_def scalar4_def numeral_eq_Suc)
qed simp

end
