(* ===== verification/Contracts.thy ===== *)
theory Contracts
  imports Utf8
begin

unbundle bit_operations_syntax

text \<open>
  The protocol-neutral contracts of \<open>crates/rua-common/src/core.rs\<close>: file, root and project
  identities, logical module paths, byte ranges, diagnostic codes with their rendering,
  severity and category, structured diagnostics, and the builtin tables. The \<open>cfg\<close>
  part of that file is the theory \<open>Cfg\<close>.
\<close>

section \<open>Identities\<close>

datatype FileId = FileId (FileId_index: u32)
datatype SourceRootId = SourceRootId (SourceRootId_index: u32)
datatype ProjectId = ProjectId (ProjectId_index: u32)

section \<open>Module paths\<close>

definition ident_start :: "char \<Rightarrow> bool" where
  "ident_start c \<longleftrightarrow> c = CHR ''_'' \<or> is_ascii_alphabetic c"

definition ident_continue :: "char \<Rightarrow> bool" where
  "ident_continue c \<longleftrightarrow> c = CHR ''_'' \<or> is_ascii_alphanumeric c"

fun valid_identifier :: "bytes \<Rightarrow> bool" where
  "valid_identifier [] = False"
| "valid_identifier (c # s) = (ident_start c \<and> list_all ident_continue s)"

datatype ModulePath = ModulePath (segments: "bytes list")

datatype InvalidModulePath = InvalidModulePath

definition ModulePath_new :: "bytes list \<Rightarrow> InvalidModulePath + ModulePath" where
  "ModulePath_new segs =
     (if list_all valid_identifier segs then Inr (ModulePath segs) else Inl InvalidModulePath)"

definition ModulePath_child :: "ModulePath \<Rightarrow> bytes \<Rightarrow> InvalidModulePath + ModulePath" where
  "ModulePath_child p name = ModulePath_new (segments p @ [name])"

definition is_root :: "ModulePath \<Rightarrow> bool" where
  "is_root p \<longleftrightarrow> segments p = []"

definition ModulePath_display :: "ModulePath \<Rightarrow> bytes" where
  "ModulePath_display p = join ''::'' (segments p)"

definition wf_module_path :: "ModulePath \<Rightarrow> bool" where
  "wf_module_path p \<longleftrightarrow> list_all valid_identifier (segments p)"

lemma ModulePath_new_wf: "ModulePath_new segs = Inr p \<Longrightarrow> wf_module_path p \<and> segments p = segs"
  by (auto simp: ModulePath_new_def wf_module_path_def split: if_splits)

lemma ident_start_continue: "ident_start c \<Longrightarrow> ident_continue c"
  by (auto simp: ident_start_def ident_continue_def is_ascii_alphanumeric_def)

lemma ident_continue_ascii: "ident_continue c \<Longrightarrow> is_ascii c"
  by (auto simp: ident_continue_def ascii_classes_ascii) (simp add: is_ascii_def)

lemma valid_identifier_continue: "valid_identifier s \<Longrightarrow> list_all ident_continue s"
  by (cases s) (auto simp: ident_start_continue)

lemma valid_identifier_nonempty: "valid_identifier s \<Longrightarrow> s \<noteq> []"
  by (cases s) auto

section \<open>Text ranges\<close>

record TextRange =
  range_start :: u32
  range_end :: u32

text \<open>\<open>TextRange::new\<close> asserts its bounds are ordered.\<close>

definition TextRange_new :: "u32 \<Rightarrow> u32 \<Rightarrow> TextRange outcome" where
  "TextRange_new s e =
     assert_outcome (s \<le> e) (Return \<lparr>range_start = s, range_end = e\<rparr>)"

text \<open>
  \<open>TextRange::at\<close> adds in \<open>u32\<close>. Where the sum overflows, a checked build panics at the
  addition and an unchecked one panics at the assertion, because the wrapped sum is
  below \<open>s\<close>; the model wraps.
\<close>

definition TextRange_at :: "u32 \<Rightarrow> u32 \<Rightarrow> TextRange outcome" where
  "TextRange_at s len = TextRange_new s (s + len)"

definition range_len :: "TextRange \<Rightarrow> u32" where
  "range_len r = range_end r - range_start r"

definition range_is_empty :: "TextRange \<Rightarrow> bool" where
  "range_is_empty r \<longleftrightarrow> range_start r = range_end r"

definition range_contains :: "TextRange \<Rightarrow> u32 \<Rightarrow> bool" where
  "range_contains r x \<longleftrightarrow> range_start r \<le> x \<and> x < range_end r"

definition contains_range :: "TextRange \<Rightarrow> TextRange \<Rightarrow> bool" where
  "contains_range r r' \<longleftrightarrow> range_start r \<le> range_start r' \<and> range_end r' \<le> range_end r"

lemma TextRange_new_Return:
  "TextRange_new s e = Return r \<longleftrightarrow> s \<le> e \<and> r = \<lparr>range_start = s, range_end = e\<rparr>"
  by (auto simp: TextRange_new_def)

lemma u32_sum_le_iff: "(s :: u32) \<le> s + len \<longleftrightarrow> unat s + unat len < 2 ^ 32"
  using no_olen_add_nat [of s len] by simp

lemma TextRange_at_Return:
  "TextRange_at s len = Return r \<longleftrightarrow>
     unat s + unat len < 2 ^ 32 \<and> r = \<lparr>range_start = s, range_end = s + len\<rparr>"
  by (auto simp: TextRange_at_def TextRange_new_Return u32_sum_le_iff)

end
