(* ===== verification/Strings.thy ===== *)
theory Strings
  imports Utf8
begin

text \<open>
  The searching, splitting and replacing methods of \<open>str\<close> the source uses with an ASCII
  pattern, for which bytes and characters agree: \<open>split\<close>, \<open>rsplit_once\<close>,
  \<open>split_once\<close>, \<open>replace\<close>, \<open>lines\<close> and decimal printing.
\<close>

section \<open>Splitting\<close>

text \<open>\<open>str::split(char)\<close>: never empty; the parts are what lies between the separators.\<close>

fun split_char :: "'a \<Rightarrow> 'a list \<Rightarrow> 'a list list" where
  "split_char c [] = [[]]"
| "split_char c (x # xs) =
     (if x = c then [] # split_char c xs
      else case split_char c xs of [] \<Rightarrow> [[x]] | p # ps \<Rightarrow> (x # p) # ps)"

lemma split_char_nonempty [simp]: "split_char c s \<noteq> []"
  by (cases s) (auto split: list.splits)

lemma join_split_char: "join [c] (split_char c s) = s"
proof (induction s)
  case (Cons x xs)
  then show ?case
    by (cases "split_char c xs"; cases "tl (split_char c xs)") (auto simp: join_Cons)
qed simp

lemma split_char_parts: "p \<in> set (split_char c s) \<Longrightarrow> c \<notin> set p \<and> set p \<subseteq> set s"
  by (induction s arbitrary: p) (fastforce split: list.splits if_splits)+

lemma split_char_single: "c \<notin> set s \<Longrightarrow> split_char c s = [s]"
  by (induction s) auto

lemma split_char_append: "split_char c (s @ c # t) = split_char c s @ split_char c t"
  by (induction s) (auto split: list.splits)

lemma split_char_join:
  "ps \<noteq> [] \<Longrightarrow> \<forall>p \<in> set ps. c \<notin> set p \<Longrightarrow> split_char c (join [c] ps) = ps"
proof (induction ps)
  case (Cons p ps)
  then show ?case
    by (cases ps) (simp_all add: split_char_single split_char_append)
qed simp

text \<open>\<open>str::rsplit_once(char)\<close> and \<open>str::split_once(char)\<close>.\<close>

definition rsplit_once :: "'a \<Rightarrow> 'a list \<Rightarrow> ('a list \<times> 'a list) option" where
  "rsplit_once c s =
     (if c \<in> set s
      then Some (rev (tl (dropWhile (\<lambda>x. x \<noteq> c) (rev s))), rev (takeWhile (\<lambda>x. x \<noteq> c) (rev s)))
      else None)"

definition split_once :: "'a \<Rightarrow> 'a list \<Rightarrow> ('a list \<times> 'a list) option" where
  "split_once c s =
     (if c \<in> set s then Some (takeWhile (\<lambda>x. x \<noteq> c) s, tl (dropWhile (\<lambda>x. x \<noteq> c) s)) else None)"

lemma split_once_append: "c \<notin> set a \<Longrightarrow> split_once c (a @ c # b) = Some (a, b)"
  by (induction a) (auto simp: split_once_def)

lemma split_once_Some_iff [str_simps]:
  "split_once c s = Some (a, b) \<longleftrightarrow> s = a @ c # b \<and> c \<notin> set a"
proof
  assume eq: "split_once c s = Some (a, b)"
  then have "c \<in> set s" by (auto simp: split_once_def split: if_splits)
  then obtain a' b' where "s = a' @ c # b'" "c \<notin> set a'" by (metis split_list_first)
  with eq split_once_append [of c a' b'] show "s = a @ c # b \<and> c \<notin> set a" by simp
qed (use split_once_append in auto)

lemma split_once_None_iff [str_simps]: "split_once c s = None \<longleftrightarrow> c \<notin> set s"
  by (simp add: split_once_def)

lemma rsplit_once_append: "c \<notin> set b \<Longrightarrow> rsplit_once c (a @ c # b) = Some (a, b)"
  using split_once_append [of c "rev b" "rev a"] by (simp add: rsplit_once_def split_once_def)

lemma rsplit_once_Some_iff [str_simps]:
  "rsplit_once c s = Some (a, b) \<longleftrightarrow> s = a @ c # b \<and> c \<notin> set b"
proof
  assume eq: "rsplit_once c s = Some (a, b)"
  then have "c \<in> set s" by (auto simp: rsplit_once_def split: if_splits)
  then obtain a' b' where "s = a' @ c # b'" "c \<notin> set b'" by (metis split_list_last)
  with eq rsplit_once_append [of c b' a'] show "s = a @ c # b \<and> c \<notin> set b" by simp
qed (use rsplit_once_append in auto)

lemma rsplit_once_None_iff [str_simps]: "rsplit_once c s = None \<longleftrightarrow> c \<notin> set s"
  by (simp add: rsplit_once_def)

section \<open>Replacing\<close>

text \<open>\<open>str::replace\<close> for a nonempty pattern, and for one character.\<close>

function replace_all :: "'a list \<Rightarrow> 'a list \<Rightarrow> 'a list \<Rightarrow> 'a list" where
  "replace_all pat rep [] = []"
| "replace_all pat rep (x # xs) =
     (case strip_prefix pat (x # xs) of
        Some rest \<Rightarrow> if pat = [] then x # xs else rep @ replace_all pat rep rest
      | None \<Rightarrow> x # replace_all pat rep xs)"
  by pat_completeness auto
termination
proof (relation "measure (\<lambda>(pat, rep, s). length s)")
  fix pat rep :: "'a list" and x xs rest
  assume "strip_prefix pat (x # xs) = Some rest" and "pat \<noteq> []"
  then have "x # xs = pat @ rest" by (simp add: strip_prefix_Some_iff)
  then have "length (x # xs) = length pat + length rest" by simp
  with \<open>pat \<noteq> []\<close> show "((pat, rep, rest), pat, rep, x # xs) \<in> measure (\<lambda>(pat, rep, s). length s)"
    by (cases pat) simp_all
qed auto

definition replace_char :: "'a \<Rightarrow> 'a \<Rightarrow> 'a list \<Rightarrow> 'a list" where
  "replace_char a b s = map (\<lambda>c. if c = a then b else c) s"

lemma replace_char_id: "a \<notin> set s \<Longrightarrow> replace_char a b s = s"
  by (induction s) (auto simp: replace_char_def)

lemma replace_char_append [simp]: "replace_char a b (s @ t) = replace_char a b s @ replace_char a b t"
  by (simp add: replace_char_def)

lemma replace_char_Cons [simp]:
  "replace_char a b (x # t) = (if x = a then b else x) # replace_char a b t"
  by (simp add: replace_char_def)

lemma replace_char_removes: "a \<noteq> b \<Longrightarrow> a \<notin> set (replace_char a b s)"
  by (auto simp: replace_char_def)

text \<open>\<open>str::contains(char)\<close>, \<open>starts_with\<close> and \<open>ends_with\<close> for a string pattern.\<close>

definition starts_with :: "'a list \<Rightarrow> 'a list \<Rightarrow> bool" where
  "starts_with p s \<longleftrightarrow> take (length p) s = p"

definition ends_with :: "'a list \<Rightarrow> 'a list \<Rightarrow> bool" where
  "ends_with p s \<longleftrightarrow> starts_with (rev p) (rev s)"

lemma starts_with_iff: "starts_with p s \<longleftrightarrow> (\<exists>r. s = p @ r)"
  by (metis append_eq_conv_conj append_take_drop_id starts_with_def)

lemma ends_with_iff: "ends_with p s \<longleftrightarrow> (\<exists>r. s = r @ p)"
  unfolding ends_with_def starts_with_iff by (metis rev_append rev_rev_ident)

section \<open>Trimming and lines\<close>

text \<open>\<open>trim_end_matches\<close> and \<open>trim_matches\<close> for a set of ASCII characters; \<open>str::lines\<close>.\<close>

definition trim_end_chars :: "char set \<Rightarrow> bytes \<Rightarrow> bytes" where
  "trim_end_chars cs s = rev (dropWhile (\<lambda>c. c \<in> cs) (rev s))"

definition trim_chars :: "char set \<Rightarrow> bytes \<Rightarrow> bytes" where
  "trim_chars cs s = trim_end_chars cs (dropWhile (\<lambda>c. c \<in> cs) s)"

definition chomp_cr :: "bytes \<Rightarrow> bytes" where
  "chomp_cr s = (if s \<noteq> [] \<and> last s = CR then butlast s else s)"

definition str_lines :: "bytes \<Rightarrow> bytes list" where
  "str_lines s = (let parts = split_char LF s in
     map chomp_cr (butlast parts) @ (if last parts = [] then [] else [last parts]))"

section \<open>Decimal numbers\<close>

text \<open>\<open>format!("{n}")\<close> of an unsigned integer.\<close>

definition digit :: "nat \<Rightarrow> char" where
  "digit d = ''0123456789'' ! (d mod 10)"

fun show_nat :: "nat \<Rightarrow> bytes" where
  "show_nat n = (if n < 10 then [digit n] else show_nat (n div 10) @ [digit n])"

declare show_nat.simps [simp del]

definition nat_of_digits :: "bytes \<Rightarrow> nat" where
  "nat_of_digits s = foldl (\<lambda>v c. 10 * v + (byte c - 48)) 0 s"

lemma byte_digit: "byte (digit d) = 48 + d mod 10"
proof -
  have "byte (''0123456789'' ! k) = 48 + k" if "k < 10" for k
    using that by (auto simp: numeral_eq_Suc less_Suc_eq)
  from this [of "d mod 10"] show ?thesis by (simp add: digit_def)
qed

lemma digit_is_ascii_digit [simp]: "is_ascii_digit (digit d)"
proof -
  have "d mod 10 < 10" by simp
  then have "d mod 10 \<le> 9" by linarith
  then show ?thesis unfolding is_ascii_digit_def byte_digit by linarith
qed

lemma nat_of_digits_show: "nat_of_digits (show_nat n) = n"
proof (induction n rule: show_nat.induct)
  case (1 n)
  show ?case
  proof (cases "n < 10")
    case True
    then show ?thesis by (simp add: show_nat.simps nat_of_digits_def byte_digit)
  next
    case False
    from 1 [OF False] have "nat_of_digits (show_nat n) = 10 * (n div 10) + n mod 10"
      using False by (subst show_nat.simps) (simp add: nat_of_digits_def byte_digit)
    then show ?thesis by simp
  qed
qed

lemma show_nat_inject [simp]: "show_nat m = show_nat n \<longleftrightarrow> m = n"
  using nat_of_digits_show by metis

lemma show_nat_digits: "list_all is_ascii_digit (show_nat n)"
proof (induction n rule: show_nat.induct)
  case (1 n)
  then show ?case by (subst show_nat.simps) auto
qed

lemma show_nat_nonempty [simp]: "show_nat n \<noteq> []"
  by (subst show_nat.simps) simp

end
