(* ===== verification/Diagnostics.thy ===== *)
theory Diagnostics
  imports Contracts Strings
begin

text \<open>
  The diagnostic half of \<open>crates/rua-common/src/core.rs\<close>: the stable diagnostic codes with
  their numbers, rendered form, severity and category, the structured diagnostic without
  presentation text, and the builtin manifest (builtin types, values and traits, the hashed
  identities of standard-library symbols). The properties tie the separate tables together.
\<close>

section \<open>Diagnostic codes\<close>

datatype (plugins only: code) DiagnosticCode =
  ParseUnexpectedToken | ParseUnterminatedString | ParseUnterminatedComment | ParseExpectedItem
  | ParseMissingDelimiter | ParseResourceLimit | NameUnresolved | NameDuplicateDefinition
  | NamePrivateAccess | NameModuleNotFound | NameAmbiguousImport | NameUnknownMember
  | NameModuleCycle | NameInvalidModulePath | NameInvalidDeclaration | TypeMismatch
  | TypeExpectedBool | TypeNotCallable | TypeArgumentCount | TypeNotIterable | TypeInvalidUnary
  | TypeInvalidBinary | TypeInvalidTry | TypeUnsatisfiedTraitBound | TypeUnknownField
  | TypeUnknownMethod | TypeMissingMatchArm | TypeImmutableAssignment | TypeInvalidFfiAdapter
  | TypeInvalidBreak | TypeInvalidOptionalChain | AnnotationUnresolved | AnnotationInvalidTarget
  | AnnotationInvalidSchema | AnnotationInvalidArguments | AnnotationDuplicate
  | AnnotationRuntimePrivate | LintUnusedVariable | LintRedundantMut | LintUnreachableCode
  | LintUnusedFunction | LintInfiniteLoop | LintUnsafeTableMutation | HostSourceRead
  | HostProjectInvalid | HostBuiltinInvalid

text \<open>The explicit discriminant of each code.\<close>

primrec code_number :: "DiagnosticCode \<Rightarrow> nat" where
  "code_number ParseUnexpectedToken = 1"
| "code_number ParseUnterminatedString = 2"
| "code_number ParseUnterminatedComment = 3"
| "code_number ParseExpectedItem = 4"
| "code_number ParseMissingDelimiter = 5"
| "code_number ParseResourceLimit = 6"
| "code_number NameUnresolved = 100"
| "code_number NameDuplicateDefinition = 101"
| "code_number NamePrivateAccess = 102"
| "code_number NameModuleNotFound = 103"
| "code_number NameAmbiguousImport = 104"
| "code_number NameUnknownMember = 105"
| "code_number NameModuleCycle = 106"
| "code_number NameInvalidModulePath = 107"
| "code_number NameInvalidDeclaration = 108"
| "code_number TypeMismatch = 200"
| "code_number TypeExpectedBool = 201"
| "code_number TypeNotCallable = 202"
| "code_number TypeArgumentCount = 203"
| "code_number TypeNotIterable = 204"
| "code_number TypeInvalidUnary = 205"
| "code_number TypeInvalidBinary = 206"
| "code_number TypeInvalidTry = 207"
| "code_number TypeUnsatisfiedTraitBound = 208"
| "code_number TypeUnknownField = 209"
| "code_number TypeUnknownMethod = 210"
| "code_number TypeMissingMatchArm = 211"
| "code_number TypeImmutableAssignment = 212"
| "code_number TypeInvalidFfiAdapter = 213"
| "code_number TypeInvalidBreak = 214"
| "code_number TypeInvalidOptionalChain = 215"
| "code_number AnnotationUnresolved = 250"
| "code_number AnnotationInvalidTarget = 251"
| "code_number AnnotationInvalidSchema = 252"
| "code_number AnnotationInvalidArguments = 253"
| "code_number AnnotationDuplicate = 254"
| "code_number AnnotationRuntimePrivate = 255"
| "code_number LintUnusedVariable = 300"
| "code_number LintRedundantMut = 301"
| "code_number LintUnreachableCode = 302"
| "code_number LintUnusedFunction = 303"
| "code_number LintInfiniteLoop = 304"
| "code_number LintUnsafeTableMutation = 305"
| "code_number HostSourceRead = 400"
| "code_number HostProjectInvalid = 401"
| "code_number HostBuiltinInvalid = 402"

primrec as_str :: "DiagnosticCode \<Rightarrow> bytes" where
  "as_str ParseUnexpectedToken = ''E0001''"
| "as_str ParseUnterminatedString = ''E0002''"
| "as_str ParseUnterminatedComment = ''E0003''"
| "as_str ParseExpectedItem = ''E0004''"
| "as_str ParseMissingDelimiter = ''E0005''"
| "as_str ParseResourceLimit = ''E0006''"
| "as_str NameUnresolved = ''E0100''"
| "as_str NameDuplicateDefinition = ''E0101''"
| "as_str NamePrivateAccess = ''E0102''"
| "as_str NameModuleNotFound = ''E0103''"
| "as_str NameAmbiguousImport = ''E0104''"
| "as_str NameUnknownMember = ''E0105''"
| "as_str NameModuleCycle = ''E0106''"
| "as_str NameInvalidModulePath = ''E0107''"
| "as_str NameInvalidDeclaration = ''E0108''"
| "as_str TypeMismatch = ''E0200''"
| "as_str TypeExpectedBool = ''E0201''"
| "as_str TypeNotCallable = ''E0202''"
| "as_str TypeArgumentCount = ''E0203''"
| "as_str TypeNotIterable = ''E0204''"
| "as_str TypeInvalidUnary = ''E0205''"
| "as_str TypeInvalidBinary = ''E0206''"
| "as_str TypeInvalidTry = ''E0207''"
| "as_str TypeUnsatisfiedTraitBound = ''E0208''"
| "as_str TypeUnknownField = ''E0209''"
| "as_str TypeUnknownMethod = ''E0210''"
| "as_str TypeMissingMatchArm = ''E0211''"
| "as_str TypeImmutableAssignment = ''E0212''"
| "as_str TypeInvalidFfiAdapter = ''E0213''"
| "as_str TypeInvalidBreak = ''E0214''"
| "as_str TypeInvalidOptionalChain = ''E0215''"
| "as_str AnnotationUnresolved = ''E0250''"
| "as_str AnnotationInvalidTarget = ''E0251''"
| "as_str AnnotationInvalidSchema = ''E0252''"
| "as_str AnnotationInvalidArguments = ''E0253''"
| "as_str AnnotationDuplicate = ''E0254''"
| "as_str AnnotationRuntimePrivate = ''E0255''"
| "as_str LintUnusedVariable = ''W0300''"
| "as_str LintRedundantMut = ''W0301''"
| "as_str LintUnreachableCode = ''W0302''"
| "as_str LintUnusedFunction = ''W0303''"
| "as_str LintInfiniteLoop = ''W0304''"
| "as_str LintUnsafeTableMutation = ''W0305''"
| "as_str HostSourceRead = ''E0400''"
| "as_str HostProjectInvalid = ''E0401''"
| "as_str HostBuiltinInvalid = ''E0402''"

definition error_code :: "DiagnosticCode \<Rightarrow> bytes" where
  "error_code c = as_str c"

datatype DiagnosticSeverity = SeverityError | SeverityWarning

definition severity :: "DiagnosticCode \<Rightarrow> DiagnosticSeverity" where
  "severity c =
     (if c \<in> {LintUnusedVariable, LintRedundantMut, LintUnreachableCode,
              LintUnusedFunction, LintInfiniteLoop, LintUnsafeTableMutation}
      then SeverityWarning else SeverityError)"

datatype DiagnosticCategory =
  ParseCategory | NameResolutionCategory | TypeCategory | AnnotationCategory | LintCategory
| HostCategory

primrec category :: "DiagnosticCode \<Rightarrow> DiagnosticCategory" where
  "category ParseUnexpectedToken = ParseCategory"
| "category ParseUnterminatedString = ParseCategory"
| "category ParseUnterminatedComment = ParseCategory"
| "category ParseExpectedItem = ParseCategory"
| "category ParseMissingDelimiter = ParseCategory"
| "category ParseResourceLimit = ParseCategory"
| "category NameUnresolved = NameResolutionCategory"
| "category NameDuplicateDefinition = NameResolutionCategory"
| "category NamePrivateAccess = NameResolutionCategory"
| "category NameModuleNotFound = NameResolutionCategory"
| "category NameAmbiguousImport = NameResolutionCategory"
| "category NameUnknownMember = NameResolutionCategory"
| "category NameModuleCycle = NameResolutionCategory"
| "category NameInvalidModulePath = NameResolutionCategory"
| "category NameInvalidDeclaration = NameResolutionCategory"
| "category TypeMismatch = TypeCategory"
| "category TypeExpectedBool = TypeCategory"
| "category TypeNotCallable = TypeCategory"
| "category TypeArgumentCount = TypeCategory"
| "category TypeNotIterable = TypeCategory"
| "category TypeInvalidUnary = TypeCategory"
| "category TypeInvalidBinary = TypeCategory"
| "category TypeInvalidTry = TypeCategory"
| "category TypeUnsatisfiedTraitBound = TypeCategory"
| "category TypeUnknownField = TypeCategory"
| "category TypeUnknownMethod = TypeCategory"
| "category TypeMissingMatchArm = TypeCategory"
| "category TypeImmutableAssignment = TypeCategory"
| "category TypeInvalidFfiAdapter = TypeCategory"
| "category TypeInvalidBreak = TypeCategory"
| "category TypeInvalidOptionalChain = TypeCategory"
| "category AnnotationUnresolved = AnnotationCategory"
| "category AnnotationInvalidTarget = AnnotationCategory"
| "category AnnotationInvalidSchema = AnnotationCategory"
| "category AnnotationInvalidArguments = AnnotationCategory"
| "category AnnotationDuplicate = AnnotationCategory"
| "category AnnotationRuntimePrivate = AnnotationCategory"
| "category LintUnusedVariable = LintCategory"
| "category LintRedundantMut = LintCategory"
| "category LintUnreachableCode = LintCategory"
| "category LintUnusedFunction = LintCategory"
| "category LintInfiniteLoop = LintCategory"
| "category LintUnsafeTableMutation = LintCategory"
| "category HostSourceRead = HostCategory"
| "category HostProjectInvalid = HostCategory"
| "category HostBuiltinInvalid = HostCategory"

section \<open>Structured diagnostics\<close>

record DiagnosticArgument =
  arg_name :: bytes
  arg_value :: bytes

record StructuredDiagnostic =
  sd_code :: DiagnosticCode
  sd_file :: "FileId option"
  sd_range :: "TextRange option"
  sd_arguments :: "DiagnosticArgument list"

definition StructuredDiagnostic_new ::
    "DiagnosticCode \<Rightarrow> FileId option \<Rightarrow> TextRange option \<Rightarrow> StructuredDiagnostic" where
  "StructuredDiagnostic_new c file r =
     \<lparr>sd_code = c, sd_file = file, sd_range = r, sd_arguments = []\<rparr>"

definition with_argument :: "StructuredDiagnostic \<Rightarrow> bytes \<Rightarrow> bytes \<Rightarrow> StructuredDiagnostic" where
  "with_argument d name value =
     d\<lparr>sd_arguments := sd_arguments d @ [\<lparr>arg_name = name, arg_value = value\<rparr>]\<rparr>"

section \<open>Builtins\<close>

datatype BuiltinId =
  TypeString | TypeOption | TypeResult | TypeVec | TypeHashMap | TypeIter
| VariantOptionSome | VariantOptionNone | VariantResultOk | VariantResultErr

text \<open>\<open>StdSymbolId::new\<close>: the 64-bit FNV-1a hash of the canonical path.\<close>

datatype StdSymbolId = StdSymbolId (StdSymbolId_get: u64)

definition fnv_prime :: u64 where
  "fnv_prime = 0x100000001b3"

definition fnv_step :: "u64 \<Rightarrow> char \<Rightarrow> u64" where
  "fnv_step value c = (value XOR of_nat (byte c)) * fnv_prime"

definition StdSymbolId_new :: "bytes \<Rightarrow> StdSymbolId" where
  "StdSymbolId_new canonical_path =
     StdSymbolId (foldl fnv_step 0xcbf29ce484222325 canonical_path)"

datatype BuiltinTraitId =
  TraitCopy | TraitClone | TraitDebug | TraitDisplay | TraitDefault | TraitPartialEq | TraitEq
  | TraitPartialOrd | TraitOrd | TraitHash | TraitSized | TraitSend | TraitSync | TraitAdd
  | TraitSub | TraitMul | TraitDiv | TraitRem | TraitNeg | TraitNot | TraitIterator
  | TraitIntoIterator | TraitToString | TraitFrom | TraitInto

primrec trait_name :: "BuiltinTraitId \<Rightarrow> bytes" where
  "trait_name TraitCopy = ''Copy''"
| "trait_name TraitClone = ''Clone''"
| "trait_name TraitDebug = ''Debug''"
| "trait_name TraitDisplay = ''Display''"
| "trait_name TraitDefault = ''Default''"
| "trait_name TraitPartialEq = ''PartialEq''"
| "trait_name TraitEq = ''Eq''"
| "trait_name TraitPartialOrd = ''PartialOrd''"
| "trait_name TraitOrd = ''Ord''"
| "trait_name TraitHash = ''Hash''"
| "trait_name TraitSized = ''Sized''"
| "trait_name TraitSend = ''Send''"
| "trait_name TraitSync = ''Sync''"
| "trait_name TraitAdd = ''Add''"
| "trait_name TraitSub = ''Sub''"
| "trait_name TraitMul = ''Mul''"
| "trait_name TraitDiv = ''Div''"
| "trait_name TraitRem = ''Rem''"
| "trait_name TraitNeg = ''Neg''"
| "trait_name TraitNot = ''Not''"
| "trait_name TraitIterator = ''Iterator''"
| "trait_name TraitIntoIterator = ''IntoIterator''"
| "trait_name TraitToString = ''ToString''"
| "trait_name TraitFrom = ''From''"
| "trait_name TraitInto = ''Into''"

definition trait_table :: "(bytes \<times> BuiltinTraitId) list" where
  "trait_table =
    [(''Copy'', TraitCopy), (''Clone'', TraitClone), (''Debug'', TraitDebug)
     , (''Display'', TraitDisplay), (''Default'', TraitDefault), (''PartialEq'', TraitPartialEq)
     , (''Eq'', TraitEq), (''PartialOrd'', TraitPartialOrd), (''Ord'', TraitOrd)
     , (''Hash'', TraitHash), (''Sized'', TraitSized), (''Send'', TraitSend)
     , (''Sync'', TraitSync), (''Add'', TraitAdd), (''Sub'', TraitSub), (''Mul'', TraitMul)
     , (''Div'', TraitDiv), (''Rem'', TraitRem), (''Neg'', TraitNeg), (''Not'', TraitNot)
     , (''Iterator'', TraitIterator), (''IntoIterator'', TraitIntoIterator)
     , (''ToString'', TraitToString), (''From'', TraitFrom), (''Into'', TraitInto)]"

definition builtin_trait :: "bytes \<Rightarrow> BuiltinTraitId option" where
  "builtin_trait name = map_of trait_table name"

definition BUILTIN_TYPES :: "(BuiltinId \<times> bytes) list" where
  "BUILTIN_TYPES =
    [(TypeString, ''String''),
     (TypeOption, ''Option''),
     (TypeResult, ''Result''),
     (TypeVec, ''Vec''),
     (TypeHashMap, ''HashMap''),
     (TypeIter, ''Iter'')]"

definition builtin_type :: "bytes \<Rightarrow> BuiltinId option" where
  "builtin_type name = map_option fst (find (\<lambda>spec. snd spec = name) BUILTIN_TYPES)"

definition builtin_value :: "bytes \<Rightarrow> BuiltinId option" where
  "builtin_value name =
     (if name = ''Some'' then Some VariantOptionSome
      else if name = ''None'' then Some VariantOptionNone
      else if name = ''Ok'' then Some VariantResultOk
      else if name = ''Err'' then Some VariantResultErr
      else None)"

definition is_transparent_iterator_adapter :: "bytes \<Rightarrow> bool" where
  "is_transparent_iterator_adapter name \<longleftrightarrow>
     name \<in> {''map'', ''filter'', ''filter_map'', ''enumerate'', ''take'', ''skip''}"

datatype TableMutationKind =
  ArrayDelete | ArrayCurrentDelete | ArrayLength | HashAssign | HashInsert

fun mutation_message :: "TableMutationKind \<Rightarrow> bytes" where
  "mutation_message ArrayDelete =
     ''deleting an array element while iterating may shift elements and skip values''"
| "mutation_message ArrayCurrentDelete =
     ''deleting the current array element while iterating may corrupt the iterator and skip elements''"
| "mutation_message ArrayLength =
     ''changing an array's length while iterating may skip elements or visit newly added values''"
| "mutation_message HashAssign =
     ''assigning a value while iterating a hash table may add a new key and trigger rehashing''"
| "mutation_message HashInsert =
     ''inserting a key while iterating a hash table may trigger rehashing and invalidate the iterator''"

section \<open>The tables agree\<close>

text \<open>Four decimal digits.\<close>

definition four_digits :: "nat \<Rightarrow> bytes" where
  "four_digits n =
     [digit (n div 1000), digit (n div 100), digit (n div 10), digit n]"

text \<open>The hundreds of the number decide the category.\<close>

definition category_of_number :: "nat \<Rightarrow> DiagnosticCategory" where
  "category_of_number n =
     (if n < 100 then ParseCategory else if n < 200 then NameResolutionCategory
      else if n < 250 then TypeCategory else if n < 300 then AnnotationCategory
      else if n < 400 then LintCategory else HostCategory)"

lemma digits_value_four:
  assumes "n < 10000"
  shows "nat_of_digits (four_digits n) = n"
proof -
  have d: "n div 100 = n div 10 div 10" "n div 1000 = n div 10 div 10 div 10"
    by (simp_all add: div_mult2_eq [symmetric])
  have 1: "10 * (n div 10) + n mod 10 = n"
    and 2: "10 * (n div 10 div 10) + n div 10 mod 10 = n div 10"
    and 3: "10 * (n div 10 div 10 div 10) + n div 10 div 10 mod 10 = n div 10 div 10"
    by (rule mult_div_mod_eq)+
  have 4: "n div 10 div 10 div 10 mod 10 = n div 10 div 10 div 10"
    using assms by (intro mod_less) (simp add: div_mult2_eq [symmetric])
  have "nat_of_digits (four_digits n) =
      10 * (10 * (10 * (n div 10 div 10 div 10 mod 10) + n div 10 div 10 mod 10) + n div 10 mod 10) + n mod 10"
    by (simp only: nat_of_digits_def four_digits_def foldl.simps byte_digit d) simp
  then show ?thesis by (simp only: 1 2 3 4)
qed

lemma as_str_number:
  "as_str c = (if severity c = SeverityWarning then CHR ''W'' else CHR ''E'') # four_digits (code_number c)"
  by (cases c) (simp_all add: severity_def four_digits_def digit_def)

lemma code_number_bound: "0 < code_number c \<and> code_number c < 10000"
  by (cases c) simp_all

text \<open>
  The code tables agree: every diagnostic code renders as \<open>E\<close> or \<open>W\<close>, as its
  severity says, and the four decimal digits of its number, which also determines its category.
\<close>

theorem diagnostic_code_rendering:
  "as_str c = (case severity c of SeverityError \<Rightarrow> CHR ''E'' | SeverityWarning \<Rightarrow> CHR ''W'')
                # four_digits (code_number c)
   \<and> nat_of_digits (tl (as_str c)) = code_number c
   \<and> category c = category_of_number (code_number c)
   \<and> (severity c = SeverityWarning \<longleftrightarrow> category c = LintCategory)"
proof -
  have "category c = category_of_number (code_number c)"
    and "severity c = SeverityWarning \<longleftrightarrow> category c = LintCategory"
    by (cases c; simp add: category_of_number_def severity_def)+
  then show ?thesis
    using as_str_number [of c] digits_value_four code_number_bound [of c]
    by (cases "severity c") simp_all
qed

section \<open>Builtin names\<close>

lemma trait_table_names: "(n, t) \<in> set trait_table \<Longrightarrow> trait_name t = n"
  by (auto simp: trait_table_def)

text \<open>
  Trait names round trip: \<open>builtin_trait\<close> finds exactly the trait whose \<open>name\<close> is the
  given text, so no two builtin traits share a name.
\<close>

theorem builtin_trait_roundtrip: "builtin_trait n = Some t \<longleftrightarrow> n = trait_name t"
proof
  assume "builtin_trait n = Some t"
  then show "n = trait_name t"
    by (auto simp: builtin_trait_def dest: map_of_SomeD trait_table_names)
next
  assume "n = trait_name t"
  then show "builtin_trait n = Some t"
    by (cases t) (simp_all add: builtin_trait_def trait_table_def)
qed

section \<open>Symbol identities\<close>

definition fnv_prime_inverse :: u64 where
  "fnv_prime_inverse = 0xce965057aff6957b"

lemma fnv_prime_invertible: "fnv_prime * fnv_prime_inverse = 1"
  by (simp add: fnv_prime_def fnv_prime_inverse_def)

lemma fnv_prime_cancel: "a * fnv_prime = b * fnv_prime \<longleftrightarrow> a = b"
proof
  assume "a * fnv_prime = b * fnv_prime"
  then have "a * (fnv_prime * fnv_prime_inverse) = b * (fnv_prime * fnv_prime_inverse)"
    by (simp only: mult.assoc [symmetric])
  then show "a = b" by (simp add: fnv_prime_invertible)
qed simp

lemma xor_cancel_right: "(a :: u64) XOR c = b XOR c \<longleftrightarrow> a = b"
proof
  assume "a XOR c = b XOR c"
  then have "(a XOR c) XOR c = (b XOR c) XOR c" by (rule arg_cong)
  then show "a = b" by (simp add: xor.assoc)
qed simp

lemma xor_cancel_left: "(c :: u64) XOR a = c XOR b \<longleftrightarrow> a = b"
  using xor_cancel_right [of a c b] by (simp only: xor.commute)

lemma byte_word_inject: "(of_nat (byte c) :: u64) = of_nat (byte d) \<longleftrightarrow> c = d"
proof
  assume eq: "(of_nat (byte c) :: u64) = of_nat (byte d)"
  have "unat (of_nat (byte x) :: u64) = byte x" for x :: char
  proof -
    have "byte x < 256" by (rule nat_of_char_less_256)
    then have "byte x < 2 ^ 64" by (rule less_trans) simp
    then have "byte x mod 2 ^ 64 = byte x" by (rule mod_less)
    then show ?thesis by (simp add: unat_of_nat)
  qed
  with eq have "(byte c :: nat) = byte d" by metis
  then show "c = d" by simp
qed simp

lemma fnv_step_inject:
  "fnv_step a c = fnv_step b d \<longleftrightarrow> a XOR of_nat (byte c) = b XOR of_nat (byte d)"
  by (simp add: fnv_step_def fnv_prime_cancel)

lemma fnv_fold_inject: "foldl fnv_step a s = foldl fnv_step b s \<longleftrightarrow> a = b"
  by (induction s arbitrary: a b) (simp_all add: fnv_step_inject xor_cancel_right)

text \<open>
  Two canonical paths that differ in exactly one byte never share a symbol identity: each
  step of the hash is a bijection of the 64-bit state, whatever byte it absorbs.
\<close>

theorem StdSymbolId_single_byte:
  assumes "c \<noteq> d"
  shows "StdSymbolId_new (p @ c # s) \<noteq> StdSymbolId_new (p @ d # s)"
  using assms
  by (simp add: StdSymbolId_new_def fnv_fold_inject fnv_step_inject xor_cancel_left byte_word_inject
     )

lemma StdSymbolId_single_byte_witness:
  "StdSymbolId_new (''std::vec::pus'' @ CHR ''h'' # []) \<noteq> StdSymbolId_new (''std::vec::pus'' @ CHR ''H'' # [])"
  by (rule StdSymbolId_single_byte) simp

end
