(* ===== verification/Btree.thy ===== *)
theory Btree
  imports Prelude "HOL-Library.Product_Lexorder" "HOL-Library.List_Lexorder" "HOL-Library.Char_ord"
begin

text \<open>
  Maps and sets whose iteration order the program observes: \<open>BTreeMap\<close> and \<open>BTreeSet\<close> of
  the standard library, as lists in ascending key order. The locale \<open>ordered_map\<close> is the
  contract the clients use (a lookup sees the last insertion, iteration is ascending and
  shows exactly the bindings); its lemmas say that a map is its bindings, so the order of
  insertions of different keys is not observable. Strings are ordered by their bytes, as
  in Rust.
\<close>

section \<open>The contract\<close>

locale ordered_map =
  fixes empty_map :: "'m"
    and insert_entry :: "'k::linorder \<Rightarrow> 'v \<Rightarrow> 'm \<Rightarrow> 'm"
    and get_entry :: "'m \<Rightarrow> 'k \<Rightarrow> 'v option"
    and map_entries :: "'m \<Rightarrow> ('k \<times> 'v) list"
    and invar :: "'m \<Rightarrow> bool"
  assumes invar_empty: "invar empty_map"
    and invar_insert: "invar m \<Longrightarrow> invar (insert_entry k v m)"
    and get_empty: "get_entry empty_map k = None"
    and get_insert: "invar m \<Longrightarrow> get_entry (insert_entry k v m) = (get_entry m)(k \<mapsto> v)"
    and entries_ascend: "invar m \<Longrightarrow> sorted_wrt (<) (map fst (map_entries m))"
    and entries_get: "invar m \<Longrightarrow> (k, v) \<in> set (map_entries m) \<longleftrightarrow> get_entry m k = Some v"
begin

lemma entries_distinct: "invar m \<Longrightarrow> distinct (map_entries m)"
  using entries_ascend [of m] by (auto simp: strict_sorted_iff distinct_map)

lemma entries_eqI:
  assumes "invar m" and "invar m'" and "get_entry m = get_entry m'"
  shows "map_entries m = map_entries m'"
proof (rule map_sorted_distinct_set_unique)
  show "inj_on fst (set (map_entries m) \<union> set (map_entries m'))"
    by (auto simp: inj_on_def entries_get assms)
  show "sorted (map fst (map_entries m))" "distinct (map fst (map_entries m))"
    using entries_ascend [OF assms(1)] by (simp_all add: strict_sorted_iff)
  show "sorted (map fst (map_entries m'))" "distinct (map fst (map_entries m'))"
    using entries_ascend [OF assms(2)] by (simp_all add: strict_sorted_iff)
  show "set (map_entries m) = set (map_entries m')"
    by (auto simp: entries_get assms)
qed

text \<open>The order of two insertions of different keys is not observable.\<close>

lemma insert_commute:
  assumes "invar m" and "k \<noteq> k'"
  shows "map_entries (insert_entry k v (insert_entry k' v' m))
         = map_entries (insert_entry k' v' (insert_entry k v m))"
  using assms by (intro entries_eqI) (auto simp: invar_insert get_insert fun_upd_twist)

lemma insert_entries_subset:
  assumes "invar m"
  shows "set (map_entries (insert_entry k v m)) \<subseteq> insert (k, v) (set (map_entries m))"
  by (auto simp: entries_get invar_insert assms get_insert split: if_splits)

end

section \<open>The representation\<close>

fun btree_insert :: "'k::linorder \<Rightarrow> 'v \<Rightarrow> ('k \<times> 'v) list \<Rightarrow> ('k \<times> 'v) list" where
  "btree_insert k v [] = [(k, v)]"
| "btree_insert k v ((k', v') # m) =
     (if k < k' then (k, v) # (k', v') # m
      else if k = k' then (k, v) # m
      else (k', v') # btree_insert k v m)"

definition btree_wf :: "('k::linorder \<times> 'v) list \<Rightarrow> bool" where
  "btree_wf m \<longleftrightarrow> sorted_wrt (<) (map fst m)"

lemma map_of_btree_insert [map_simps]: "map_of (btree_insert k v m) = (map_of m)(k \<mapsto> v)"
  by (induction k v m rule: btree_insert.induct) (auto simp: fun_eq_iff)

lemma fst_set_btree_insert: "fst ` set (btree_insert k v m) = insert k (fst ` set m)"
  by (induction k v m rule: btree_insert.induct) auto

lemma btree_wf_Nil [simp]: "btree_wf []"
  by (simp add: btree_wf_def)

lemma btree_wf_insert: "btree_wf m \<Longrightarrow> btree_wf (btree_insert k v m)"
proof (induction k v m rule: btree_insert.induct)
  case (2 k v k' v' m)
  have "\<forall>x \<in> fst ` set (btree_insert k v m). k' < x"
    if "k' < k" using 2(2) that unfolding fst_set_btree_insert by (auto simp: btree_wf_def)
  with 2 show ?case by (auto simp: btree_wf_def)
qed (simp add: btree_wf_def)

interpretation btree: ordered_map "[]" btree_insert map_of "\<lambda>m. m" btree_wf
proof
  show "(k, v) \<in> set m \<longleftrightarrow> map_of m k = Some v" if "btree_wf m" for m :: "('a \<times> 'b) list" and k v
    using that map_of_eq_Some_iff by (fastforce simp: btree_wf_def strict_sorted_iff)
  show "sorted_wrt (<) (map fst m)" if "btree_wf m" for m :: "('a \<times> 'b) list"
    using that by (simp add: btree_wf_def)
qed (simp_all add: btree_wf_insert map_of_btree_insert)

text \<open>\<open>BTreeSet\<close>: insertion keeps the list ascending.\<close>

definition bset_insert :: "'a::linorder \<Rightarrow> 'a list \<Rightarrow> 'a list" where
  "bset_insert x xs = insort_insert x xs"

lemma set_bset_insert [simp]: "set (bset_insert x xs) = insert x (set xs)"
  by (simp add: bset_insert_def set_insort_insert)

lemma bset_insert_ascends: "sorted_wrt (<) xs \<Longrightarrow> sorted_wrt (<) (bset_insert x xs)"
  by (simp add: strict_sorted_iff bset_insert_def sorted_insort_insert distinct_insort_insert)

end
