(* ===== verification/Builtins.thy ===== *)
theory Builtins
  imports Diagnostics Btree
begin

text \<open>
  The builtin metadata of \<open>crates/ruac/src/builtins/mod.rs\<close> and the builtin tables it is
  keyed by: the code-generation rule of each builtin variant, the runtime modules, the
  language items, and the queries on them. Reading the standard library's own sources is
  left to the host.
\<close>

section \<open>Code-generation rules\<close>

datatype CodegenRule = RuleNil | RuleInlineArg | RuleTableCtor "bytes option" | RuleTaggedResult bool

definition CodegenRules_default :: "BuiltinId \<rightharpoonup> CodegenRule" where
  "CodegenRules_default =
     Map.empty(VariantOptionNone \<mapsto> RuleNil, VariantOptionSome \<mapsto> RuleInlineArg,
       VariantResultOk \<mapsto> RuleTaggedResult True, VariantResultErr \<mapsto> RuleTaggedResult False)"

section \<open>Runtime modules and language items\<close>

datatype StdDispatch = DispatchMethod | DispatchModule

record RuntimeModule =
  rt_runtime :: bytes
  rt_export :: "bytes option"
  rt_alias :: bytes
  rt_abi :: "u32 option"
  rt_dispatch :: StdDispatch

datatype LanguageItem =
  LangOption | LangOptionSome | LangOptionNone | LangOptionMap | LangOptionUnwrap
| LangOptionExpect | LangOptionUnwrapOr | LangOptionIsSome | LangOptionIsNone
| LangResult | LangResultOk | LangResultErr | LangResultMap | LangResultUnwrap
| LangResultExpect | LangResultUnwrapOr | LangResultIsOk | LangResultIsErr

definition LanguageItem_ALL :: "(LanguageItem \<times> bytes) list" where
  "LanguageItem_ALL =
     [(LangOption, ''option''), (LangOptionSome, ''option_some''),
      (LangOptionNone, ''option_none''), (LangOptionMap, ''option_map''),
      (LangOptionUnwrap, ''option_unwrap''), (LangOptionExpect, ''option_expect''),
      (LangOptionUnwrapOr, ''option_unwrap_or''), (LangOptionIsSome, ''option_is_some''),
      (LangOptionIsNone, ''option_is_none''), (LangResult, ''result''),
      (LangResultOk, ''result_ok''), (LangResultErr, ''result_err''),
      (LangResultMap, ''result_map''), (LangResultUnwrap, ''result_unwrap''),
      (LangResultExpect, ''result_expect''), (LangResultUnwrapOr, ''result_unwrap_or''),
      (LangResultIsOk, ''result_is_ok''), (LangResultIsErr, ''result_is_err'')]"

record StandardMetadata =
  sm_runtime_modules :: "u32 \<rightharpoonup> RuntimeModule"
  sm_named_runtime_modules :: "bytes \<rightharpoonup> RuntimeModule"
  sm_runtime_helpers :: "bytes \<rightharpoonup> RuntimeModule"
  sm_language_items :: "(bytes \<times> LanguageItem) list"

definition StandardMetadata_default :: StandardMetadata where
  "StandardMetadata_default =
     \<lparr>sm_runtime_modules = Map.empty, sm_named_runtime_modules = Map.empty,
      sm_runtime_helpers = Map.empty, sm_language_items = []\<rparr>"

definition sm_runtime_module :: "StandardMetadata \<Rightarrow> u32 \<Rightarrow> RuntimeModule option" where
  "sm_runtime_module sm semantic_file = sm_runtime_modules sm semantic_file"

definition sm_named_runtime_module :: "StandardMetadata \<Rightarrow> bytes \<Rightarrow> RuntimeModule option" where
  "sm_named_runtime_module sm name = sm_named_runtime_modules sm name"

definition sm_runtime_helper :: "StandardMetadata \<Rightarrow> bytes \<Rightarrow> RuntimeModule option" where
  "sm_runtime_helper sm name = sm_runtime_helpers sm name"

text \<open>The language-item loop of \<open>parse_standard_library\<close>; \<open>lang_item\<close> is the manifest lookup.\<close>

datatype LangItemError = MissingLangItem bytes | SharedLangItemPath bytes

fun install_lang_items ::
    "(bytes \<Rightarrow> bytes option) \<Rightarrow> (LanguageItem \<times> bytes) list \<Rightarrow> (bytes \<times> LanguageItem) list
     \<Rightarrow> LangItemError + (bytes \<times> LanguageItem) list" where
  "install_lang_items lang_item [] table = Inr table"
| "install_lang_items lang_item ((item, key) # rest) table =
     (case lang_item key of
        None \<Rightarrow> Inl (MissingLangItem key)
      | Some path \<Rightarrow>
          if map_of table path \<noteq> None then Inl (SharedLangItemPath path)
          else install_lang_items lang_item rest (btree_insert path item table))"

end
