(* ===== verification/Cfg.thy ===== *)
theory Cfg
  imports Contracts
begin

text \<open>
  Conditional compilation, \<open>crates/rua-common/src/core.rs\<close> lines 84 to 330: the options a
  build sets, the attribute syntax, the translation of an attribute argument to a
  \<open>CfgExpr\<close>, its evaluation, and \<open>expand_cfg_attributes\<close>, whose queue of pending
  attributes is spliced in place by \<open>cfg_attr\<close> under a limit of 256 expansions. The
  queue loop is proved equal to a recursive reading of the attributes.
\<close>

section \<open>Options\<close>

record CfgOptions =
  cfg_flags :: "bytes set"
  cfg_values :: "bytes \<Rightarrow> bytes set option"

definition CfgOptions_default :: CfgOptions where
  "CfgOptions_default = \<lparr>cfg_flags = {}, cfg_values = Map.empty\<rparr>"

definition insert_flag :: "bytes \<Rightarrow> CfgOptions \<Rightarrow> CfgOptions" where
  "insert_flag name opts = opts\<lparr>cfg_flags := insert name (cfg_flags opts)\<rparr>"

definition insert_value :: "bytes \<Rightarrow> bytes \<Rightarrow> CfgOptions \<Rightarrow> CfgOptions" where
  "insert_value key val opts = opts\<lparr>cfg_values :=
     (cfg_values opts)(key \<mapsto> insert val (case cfg_values opts key of None \<Rightarrow> {} | Some vs \<Rightarrow> vs))\<rparr>"

definition insert_feature :: "bytes \<Rightarrow> CfgOptions \<Rightarrow> CfgOptions" where
  "insert_feature feature = insert_value ''feature'' feature"

definition has_flag :: "CfgOptions \<Rightarrow> bytes \<Rightarrow> bool" where
  "has_flag opts name \<longleftrightarrow> name \<in> cfg_flags opts"

definition has_value :: "CfgOptions \<Rightarrow> bytes \<Rightarrow> bytes \<Rightarrow> bool" where
  "has_value opts key val \<longleftrightarrow> (case cfg_values opts key of None \<Rightarrow> False | Some vs \<Rightarrow> val \<in> vs)"

section \<open>Conditions and attributes\<close>

datatype CfgExpr =
  CfgBool bool
| CfgFlag bytes
| CfgKeyValue bytes bytes
| CfgAll "CfgExpr list"
| CfgAny "CfgExpr list"
| CfgNot CfgExpr

fun matches :: "CfgOptions \<Rightarrow> CfgExpr \<Rightarrow> bool" where
  "matches opts (CfgBool b) = b"
| "matches opts (CfgFlag name) = has_flag opts name"
| "matches opts (CfgKeyValue key val) = has_value opts key val"
| "matches opts (CfgAll es) = list_all (matches opts) es"
| "matches opts (CfgAny es) = list_ex (matches opts) es"
| "matches opts (CfgNot e) = (\<not> matches opts e)"

text \<open>\<open>i64\<close> literals are 64-bit words; nothing here computes with them.\<close>

datatype MetaValue =
  MetaString bytes
| MetaBool bool
| MetaInteger u64
| MetaFloat bytes
| MetaPath bytes
| MetaValues "MetaValue list"

datatype MetaItem =
  MetaWord bytes
| MetaNameValue bytes MetaValue
| MetaList bytes "MetaItem list"
| MetaLiteral MetaValue

record Attribute =
  attr_name :: bytes
  attr_items :: "MetaItem list"

definition Attribute_new :: "bytes \<Rightarrow> MetaItem list \<Rightarrow> Attribute" where
  "Attribute_new name items = \<lparr>attr_name = name, attr_items = items\<rparr>"

datatype CfgError = CfgError bytes

text \<open>\<open>cfg_expr\<close>: a condition as written to the expression it means.\<close>

fun cfg_expr :: "MetaItem \<Rightarrow> CfgError + CfgExpr" where
  "cfg_expr (MetaLiteral (MetaBool b)) = Inr (CfgBool b)"
| "cfg_expr (MetaWord name) = Inr (CfgFlag name)"
| "cfg_expr (MetaNameValue name (MetaString val)) = Inr (CfgKeyValue name val)"
| "cfg_expr (MetaNameValue name (MetaBool b)) =
     Inr (if b then CfgFlag name else CfgNot (CfgFlag name))"
| "cfg_expr (MetaList name items) =
     (if name = ''all'' then bind_result (map_result cfg_expr items) (\<lambda>es. Inr (CfgAll es))
      else if name = ''any'' then bind_result (map_result cfg_expr items) (\<lambda>es. Inr (CfgAny es))
      else if name = ''not'' then
        (case items of
           [item] \<Rightarrow> bind_result (cfg_expr item) (\<lambda>e. Inr (CfgNot e))
         | _ \<Rightarrow> Inl (CfgError ''not requires exactly one condition''))
      else Inl (CfgError (''unsupported cfg predicate `'' @ name
                          @ ''`; expected all, any, or not'')))"
| "cfg_expr _ =
     Inl (CfgError ''cfg conditions only accept flags, string key/value pairs, and booleans'')"

definition single_cfg_argument :: "Attribute \<Rightarrow> CfgError + CfgExpr" where
  "single_cfg_argument a =
     (case attr_items a of
        [item] \<Rightarrow> cfg_expr item
      | _ \<Rightarrow> Inl (CfgError ''cfg requires exactly one condition''))"

fun attribute_from_meta :: "MetaItem \<Rightarrow> CfgError + Attribute" where
  "attribute_from_meta (MetaWord name) = Inr (Attribute_new name [])"
| "attribute_from_meta (MetaList name items) = Inr (Attribute_new name items)"
| "attribute_from_meta (MetaNameValue name val) =
     Inr (Attribute_new name [MetaNameValue name val])"
| "attribute_from_meta (MetaLiteral _) =
     Inl (CfgError ''cfg_attr result must be an attribute, not a literal'')"

section \<open>Expansion\<close>

definition MAX_EXPANSIONS :: nat where
  "MAX_EXPANSIONS = 256"

definition limit_error :: CfgError where
  "limit_error = CfgError ''cfg_attr expansion limit exceeded''"

definition condition_error :: CfgError where
  "condition_error = CfgError ''cfg_attr requires a condition and at least one attribute''"

text \<open>
  \<open>for item in nested.iter().rev() { queue.push_front(attribute_from_meta(item)?); }\<close>, over
  the reversed items.
\<close>

fun push_front_all :: "MetaItem list \<Rightarrow> Attribute list \<Rightarrow> CfgError + Attribute list" where
  "push_front_all [] queue = Inr queue"
| "push_front_all (item # items) queue =
     bind_result (attribute_from_meta item) (\<lambda>a. push_front_all items (a # queue))"

record expansion =
  ex_queue :: "Attribute list"
  ex_retained :: "Attribute list"
  ex_active :: bool

text \<open>The \<open>match attribute.name.as_str()\<close>, after the attribute was taken off the queue.\<close>

definition expand_step :: "CfgOptions \<Rightarrow> Attribute \<Rightarrow> expansion \<Rightarrow> CfgError + expansion" where
  "expand_step opts a st =
     (if attr_name a = ''cfg'' then
        bind_result (single_cfg_argument a)
          (\<lambda>e. Inr (st\<lparr>ex_active := ex_active st \<and> matches opts e\<rparr>))
      else if attr_name a = ''cfg_attr'' then
        (case attr_items a of
           [] \<Rightarrow> Inl condition_error
         | condition # nested \<Rightarrow>
             if nested = [] then Inl condition_error
             else bind_result (cfg_expr condition)
               (\<lambda>e. if matches opts e
                    then bind_result (push_front_all (rev nested) (ex_queue st))
                           (\<lambda>queue. Inr (st\<lparr>ex_queue := queue\<rparr>))
                    else Inr st))
      else Inr (st\<lparr>ex_retained := ex_retained st @ [a]\<rparr>))"

function expand_loop :: "CfgOptions \<Rightarrow> nat \<Rightarrow> expansion \<Rightarrow> CfgError + expansion" where
  "expand_loop opts expansions st =
     (case ex_queue st of
        [] \<Rightarrow> Inr st
      | a # queue \<Rightarrow>
          if expansions + 1 > MAX_EXPANSIONS then Inl limit_error
          else bind_result (expand_step opts a (st\<lparr>ex_queue := queue\<rparr>))
                 (expand_loop opts (expansions + 1)))"
  by pat_completeness auto
termination
  by (relation "measure (\<lambda>(opts, expansions, st). MAX_EXPANSIONS - expansions)") auto

declare expand_loop.simps [simp del]

record ExpandedAttributes =
  active :: bool
  attributes :: "Attribute list"

definition expand_cfg_attributes ::
    "Attribute list \<Rightarrow> CfgOptions \<Rightarrow> CfgError + ExpandedAttributes" where
  "expand_cfg_attributes attrs opts =
     bind_result (expand_loop opts 0 \<lparr>ex_queue = attrs, ex_retained = [], ex_active = True\<rparr>)
       (\<lambda>st. Inr \<lparr>active = ex_active st, attributes = ex_retained st\<rparr>)"

section \<open>Expansion read recursively\<close>

text \<open>
  What one attribute asks for: a condition, the attributes a \<open>cfg_attr\<close> stands for (none
  when its condition fails), or to be kept.
\<close>

datatype cfg_action = Require bool | Splice "Attribute list" | Keep

definition cfg_action_of :: "CfgOptions \<Rightarrow> Attribute \<Rightarrow> CfgError + cfg_action" where
  "cfg_action_of opts a =
     (if attr_name a = ''cfg'' then
        bind_result (single_cfg_argument a) (\<lambda>e. Inr (Require (matches opts e)))
      else if attr_name a = ''cfg_attr'' then
        (case attr_items a of
           [] \<Rightarrow> Inl condition_error
         | condition # nested \<Rightarrow>
             if nested = [] then Inl condition_error
             else bind_result (cfg_expr condition)
               (\<lambda>e. if matches opts e
                    then bind_result (push_front_all (rev nested) []) (\<lambda>attrs. Inr (Splice attrs))
                    else Inr (Splice [])))
      else Inr Keep)"

fun apply_action :: "Attribute \<Rightarrow> expansion \<Rightarrow> cfg_action \<Rightarrow> expansion" where
  "apply_action a st (Require b) = st\<lparr>ex_active := ex_active st \<and> b\<rparr>"
| "apply_action a st (Splice attrs) = st\<lparr>ex_queue := attrs @ ex_queue st\<rparr>"
| "apply_action a st Keep = st\<lparr>ex_retained := ex_retained st @ [a]\<rparr>"

lemma push_front_all_queue:
  "push_front_all items queue = bind_result (push_front_all items []) (\<lambda>attrs. Inr (attrs @ queue))"
proof (induction items arbitrary: queue)
  case (Cons item items)
  show ?case
  proof (cases "attribute_from_meta item")
    case (Inr a)
    with Cons.IH [of "a # queue"] Cons.IH [of "[a]"] show ?thesis
      by (cases "push_front_all items []") simp_all
  qed simp
qed simp

lemma expand_step_action:
  "expand_step opts a st = bind_result (cfg_action_of opts a) (\<lambda>act. Inr (apply_action a st act))"
proof -
  note queue = push_front_all_queue [of _ "ex_queue st"]
  show ?thesis
  proof (cases "attr_name a = ''cfg_attr''")
    case True
    show ?thesis
    proof (cases "attr_items a")
      case (Cons c nested)
      with True show ?thesis
        by (cases "cfg_expr c"; cases "push_front_all (rev nested) []")
           (simp_all add: expand_step_def cfg_action_of_def queue)
    qed (use True in \<open>simp add: expand_step_def cfg_action_of_def\<close>)
  next
    case False
    then show ?thesis
      by (cases "single_cfg_argument a") (simp_all add: expand_step_def cfg_action_of_def)
  qed
qed

text \<open>
  The weight of an attribute bounds how many attributes it can expand to; it shrinks when a
  \<open>cfg_attr\<close> is replaced by the attributes in it.
\<close>

fun item_weight :: "MetaItem \<Rightarrow> nat" where
  "item_weight (MetaList _ (_ # items)) = 1 + sum_list (map item_weight items)"
| "item_weight _ = 1"

definition attr_weight :: "Attribute \<Rightarrow> nat" where
  "attr_weight a = 1 + sum_list (map item_weight (tl (attr_items a)))"

definition attrs_weight :: "Attribute list \<Rightarrow> nat" where
  "attrs_weight attrs = sum_list (map attr_weight attrs)"

lemma attrs_weight_simps [simp]:
  "attrs_weight [] = 0"
  "attrs_weight (a # as) = attr_weight a + attrs_weight as"
  "attrs_weight (as @ bs) = attrs_weight as + attrs_weight bs"
  by (simp_all add: attrs_weight_def)

lemma attr_weight_pos [simp]: "0 < attr_weight a"
  by (simp add: attr_weight_def)

lemma attribute_from_meta_weight: "attribute_from_meta item = Inr a \<Longrightarrow> attr_weight a = item_weight item"
  by (cases item rule: item_weight.cases) (auto simp: attr_weight_def Attribute_new_def)

lemma push_front_all_weight:
  "push_front_all items queue = Inr attrs \<Longrightarrow>
   attrs_weight attrs = sum_list (map item_weight items) + attrs_weight queue"
  by (induction items arbitrary: queue) (auto dest: attribute_from_meta_weight)

lemma Splice_weight:
  assumes "cfg_action_of opts a = Inr (Splice attrs)"
  shows "attrs_weight attrs < attr_weight a"
proof (cases "attr_items a")
  case (Cons c nested)
  with assms have "attrs = [] \<or> push_front_all (rev nested) [] = Inr attrs"
    by (auto simp: cfg_action_of_def split: if_splits)
  with Cons push_front_all_weight [of "rev nested" "[]" attrs] show ?thesis
    by (auto simp: attr_weight_def rev_map [symmetric] sum_list_rev)
qed (use assms in \<open>auto simp: cfg_action_of_def split: if_splits\<close>)

text \<open>
  The reading of a list of attributes: how many attributes are looked at, and either the first
  error or the conjunction of the conditions with the attributes kept.
\<close>

type_synonym cfg_reading = "nat \<times> (CfgError + bool \<times> Attribute list)"

fun then_reading :: "cfg_reading \<Rightarrow> cfg_reading \<Rightarrow> cfg_reading" where
  "then_reading (n, Inl e) r = (n, Inl e)"
| "then_reading (n, Inr (b, kept)) (m, Inl e) = (n + m, Inl e)"
| "then_reading (n, Inr (b, kept)) (m, Inr (c, kept')) = (n + m, Inr (b \<and> c, kept @ kept'))"

fun reading_of :: "Attribute \<Rightarrow> (Attribute list \<Rightarrow> cfg_reading) \<Rightarrow> cfg_action \<Rightarrow> cfg_reading" where
  "reading_of a f (Require b) = (1, Inr (b, []))"
| "reading_of a f Keep = (1, Inr (True, [a]))"
| "reading_of a f (Splice attrs) = (case f attrs of (n, r) \<Rightarrow> (n + 1, r))"

lemma reading_of_cong [fundef_cong]:
  assumes "a = a'" and "act = act'" and "\<And>attrs. act' = Splice attrs \<Longrightarrow> f attrs = g attrs"
  shows "reading_of a f act = reading_of a' g act'"
  using assms by (cases act) auto

function read_attrs :: "CfgOptions \<Rightarrow> Attribute list \<Rightarrow> cfg_reading" where
  "read_attrs opts [] = (0, Inr (True, []))"
| "read_attrs opts (a # as) =
     (case cfg_action_of opts a of
        Inl e \<Rightarrow> (1, Inl e)
      | Inr act \<Rightarrow> then_reading (reading_of a (read_attrs opts) act) (read_attrs opts as))"
  by pat_completeness auto
termination
  by (relation "measure (\<lambda>(opts, as). attrs_weight as)") (auto dest: Splice_weight simp: trans_less_add1)

declare read_attrs.simps(2) [simp del]

lemma then_reading_assoc: "then_reading (then_reading x y) z = then_reading x (then_reading y z)"
  by (cases "(x, y)" rule: then_reading.cases; cases z; cases "snd z") (auto split: prod.splits)

lemma then_reading_unit [simp]:
  "then_reading (0, Inr (True, [])) r = r"
  by (cases r; cases "snd r") auto

lemma read_attrs_append:
  "read_attrs opts (as @ bs) = then_reading (read_attrs opts as) (read_attrs opts bs)"
  by (induction as) (simp_all add: read_attrs.simps(2) then_reading_assoc split: sum.splits)

lemma then_reading_count: "fst (then_reading x y) \<le> fst x + fst y"
  by (cases "(x, y)" rule: then_reading.cases) auto

lemma read_attrs_count: "fst (read_attrs opts as) \<le> attrs_weight as"
proof (induction opts as rule: read_attrs.induct)
  case (2 opts a as)
  show ?case
  proof (cases "cfg_action_of opts a")
    case (Inr act)
    have "fst (reading_of a (read_attrs opts) act) \<le> attr_weight a"
    proof (cases act)
      case (Splice attrs)
      with "2.IH"(1) [OF Inr Splice] Splice_weight [of opts a attrs] Inr show ?thesis
        by (auto split: prod.splits)
    qed (simp_all add: Suc_le_eq)
    with "2.IH"(2) [OF Inr] then_reading_count [of "reading_of a (read_attrs opts) act" "read_attrs opts as"] Inr
    show ?thesis by (simp add: read_attrs.simps(2))
  qed (simp add: read_attrs.simps(2) Suc_le_eq)
qed simp

lemma then_reading_ge: "fst x \<le> fst (then_reading x y)"
  by (cases "(x, y)" rule: then_reading.cases) auto

lemma reading_of_pos: "0 < fst (reading_of a f act)"
  by (cases act) (auto split: prod.splits)

lemma read_attrs_Cons_pos: "0 < fst (read_attrs opts (a # as))"
proof (cases "cfg_action_of opts a")
  case (Inr act)
  with reading_of_pos [of a "read_attrs opts" act]
    then_reading_ge [of "reading_of a (read_attrs opts) act" "read_attrs opts as"]
  show ?thesis by (simp add: read_attrs.simps(2))
qed (simp add: read_attrs.simps(2))

text \<open>The queue loop and the recursive reading agree, from any state of the loop.\<close>

definition loop_result :: "nat \<Rightarrow> expansion \<Rightarrow> cfg_reading \<Rightarrow> CfgError + expansion" where
  "loop_result k st r =
     (if MAX_EXPANSIONS < k + fst r then Inl limit_error
      else case snd r of
        Inl e \<Rightarrow> Inl e
      | Inr (b, kept) \<Rightarrow> Inr \<lparr>ex_queue = [], ex_retained = ex_retained st @ kept,
                            ex_active = ex_active st \<and> b\<rparr>)"

lemma loop_result_error: "fst r = 1 \<Longrightarrow> snd r = Inl e \<Longrightarrow> k < MAX_EXPANSIONS \<Longrightarrow> loop_result k st r = Inl e"
  by (simp add: loop_result_def)

lemma loop_result_step:
  assumes "cfg_action_of opts a = Inr act"
  shows "loop_result (k + 1) (apply_action a (st\<lparr>ex_queue := queue\<rparr>) act)
      (read_attrs opts (ex_queue (apply_action a (st\<lparr>ex_queue := queue\<rparr>) act)))
    = loop_result k st (read_attrs opts (a # queue))"
proof (cases act)
  case (Require b)
  with assms show ?thesis
    by (cases "read_attrs opts queue"; cases "snd (read_attrs opts queue)")
       (auto simp: loop_result_def read_attrs.simps(2))
next
  case Keep
  with assms show ?thesis
    by (cases "read_attrs opts queue"; cases "snd (read_attrs opts queue)")
       (auto simp: loop_result_def read_attrs.simps(2))
next
  case (Splice attrs)
  with assms show ?thesis
    by (cases "(read_attrs opts attrs, read_attrs opts queue)" rule: then_reading.cases)
       (auto simp: loop_result_def read_attrs.simps(2) read_attrs_append)
qed

lemma expand_loop_reading:
  "k \<le> MAX_EXPANSIONS \<Longrightarrow> expand_loop opts k st = loop_result k st (read_attrs opts (ex_queue st))"
proof (induction opts k st rule: expand_loop.induct)
  case (1 opts k st)
  show ?case
  proof (cases "ex_queue st")
    case Nil
    with "1.prems" show ?thesis by (subst expand_loop.simps) (simp add: loop_result_def)
  next
    case (Cons a queue)
    show ?thesis
    proof (cases "k + 1 > MAX_EXPANSIONS")
      case True
      with Cons read_attrs_Cons_pos [of opts a queue] show ?thesis by (subst expand_loop.simps) (simp add: loop_result_def)
    next
      case False
      show ?thesis
      proof (cases "cfg_action_of opts a")
        case (Inl e)
        with Cons False show ?thesis
          by (subst expand_loop.simps)
             (simp add: expand_step_action loop_result_error read_attrs.simps(2) loop_result_def)
      next
        case (Inr act)
        let ?st = "apply_action a (st\<lparr>ex_queue := queue\<rparr>) act"
        have "expand_loop opts k st = expand_loop opts (k + 1) ?st"
          using Cons False Inr by (subst expand_loop.simps) (simp add: expand_step_action)
        also have "\<dots> = loop_result (k + 1) ?st (read_attrs opts (ex_queue ?st))"
          using "1.IH" [OF Cons False, of ?st] False by simp
        also have "\<dots> = loop_result k st (read_attrs opts (a # queue))"
          by (rule loop_result_step [OF Inr])
        finally show ?thesis using Cons by simp
      qed
    qed
  qed
qed

text \<open>
  C12. Expanding \<open>cfg_attr\<close> through the queue is the recursive reading of the attributes: the
  conditions met are conjoined, the other attributes are kept in source order, the first error
  in that order is reported, and the limit error appears exactly when more than 256 attributes
  are looked at, which takes attributes that weigh more than 256.
\<close>

theorem expand_cfg_attributes_reading:
  "expand_cfg_attributes attrs opts =
     (case read_attrs opts attrs of (n, r) \<Rightarrow>
        if 256 < n then Inl limit_error
        else case r of Inl e \<Rightarrow> Inl e | Inr (b, kept) \<Rightarrow> Inr \<lparr>active = b, attributes = kept\<rparr>)
   \<and> fst (read_attrs opts attrs) \<le> attrs_weight attrs"
  using read_attrs_count [of opts attrs]
  by (cases "read_attrs opts attrs"; cases "snd (read_attrs opts attrs)")
     (auto simp: expand_cfg_attributes_def expand_loop_reading loop_result_def MAX_EXPANSIONS_def)

section \<open>Conditions read directly\<close>

text \<open>The truth of a condition as written, without the intermediate expression.\<close>

fun eval_condition :: "CfgOptions \<Rightarrow> MetaItem \<Rightarrow> bool option" where
  "eval_condition opts (MetaLiteral (MetaBool b)) = Some b"
| "eval_condition opts (MetaWord name) = Some (name \<in> cfg_flags opts)"
| "eval_condition opts (MetaNameValue name (MetaString val)) = Some (has_value opts name val)"
| "eval_condition opts (MetaNameValue name (MetaBool b)) = Some ((name \<in> cfg_flags opts) = b)"
| "eval_condition opts (MetaList name items) =
     (if name = ''all'' then map_option (list_all id) (those (map (eval_condition opts) items))
      else if name = ''any'' then map_option (list_ex id) (those (map (eval_condition opts) items))
      else if name = ''not'' then
        (case items of [item] \<Rightarrow> map_option Not (eval_condition opts item) | _ \<Rightarrow> None)
      else None)"
| "eval_condition opts _ = None"

definition accepted :: "'e + 'a \<Rightarrow> ('a \<Rightarrow> 'b) \<Rightarrow> 'b option" where
  "accepted r f = (case r of Inl _ \<Rightarrow> None | Inr x \<Rightarrow> Some (f x))"

lemma accepted_map_result:
  assumes "\<And>x. x \<in> set xs \<Longrightarrow> accepted (f x) g = h x"
  shows "accepted (map_result f xs) (map g) = those (map h xs)"
  using assms
proof (induction xs)
  case (Cons x xs)
  from Cons.prems [of x, symmetric] Cons.IH [OF Cons.prems, symmetric] show ?case
    by (cases "f x"; cases "map_result f xs") (auto simp: accepted_def)
qed (simp add: accepted_def)

lemma accepted_bind_result:
  "accepted (bind_result m (\<lambda>x. Inr (c x))) g = accepted m (g \<circ> c)"
  by (cases m) (simp_all add: accepted_def)

lemma accepted_comp: "accepted m (k \<circ> g) = map_option k (accepted m g)"
  by (cases m) (simp_all add: accepted_def)

text \<open>
  C13. Compiling a condition and evaluating the expression is reading the condition directly;
  in particular \<open>cfg_expr\<close> rejects exactly the conditions that have no reading.
\<close>

theorem cfg_expr_meaning: "accepted (cfg_expr item) (matches opts) = eval_condition opts item"
proof (induction opts item rule: eval_condition.induct)
  case (5 opts name items)
  have lists: "matches opts \<circ> CfgAll = list_all id \<circ> map (matches opts)"
    "matches opts \<circ> CfgAny = list_ex id \<circ> map (matches opts)"
    "matches opts \<circ> CfgNot = Not \<circ> matches opts"
    by (auto simp: fun_eq_iff list_all_iff list_ex_iff)
  note simps = accepted_bind_result lists accepted_comp
  consider "name = ''all''" | "name = ''any''" | "name = ''not''" "length items = 1"
    | "name = ''not''" "length items \<noteq> 1"
    | "name \<noteq> ''all''" "name \<noteq> ''any''" "name \<noteq> ''not''" by blast
  then show ?case
  proof cases
    case 1
    with "5.IH"(1) accepted_map_result [of items cfg_expr "matches opts" "eval_condition opts"]
    show ?thesis by (simp add: simps)
  next
    case 2
    with "5.IH"(2) accepted_map_result [of items cfg_expr "matches opts" "eval_condition opts"]
    show ?thesis by (simp add: simps)
  next
    case 3
    then obtain item where "items = [item]" by (auto simp: length_Suc_conv)
    with 3 "5.IH"(3) show ?thesis by (simp add: simps)
  next
    case 4
    then show ?thesis by (cases items rule: remdups_adj.cases) (auto simp: accepted_def)
  qed (auto simp: accepted_def)
qed (auto simp: accepted_def has_flag_def)

end
