(* ===== verification/Token_Kind.thy ===== *)
theory Token_Kind
  imports Contracts
begin

text \<open>
  The token kinds of the shared lexer (\<open>TokenKind\<close> of
  \<open>crates/rua-common/src/lex.rs\<close>) and their classification and rendering. A constructor
  named like a HOL constant carries the suffix \<open>Tok\<close>. The enumeration has a theory of its
  own because it is the slowest datatype of the development to construct; only its code
  equations are generated.
\<close>

section \<open>Tokens\<close>

datatype (plugins only: code) TokenKind =
  Whitespace | LineComment | BlockComment | KwFn | KwLet | KwMut | KwIf | KwElse | KwWhile |
  KwLoop | KwFor | KwIn | KwReturn | KwBreak | KwContinue | KwDyn | KwTrue | KwFalse |
  KwStruct | KwEnum | KwTrait | KwImpl | KwPub | KwUse | KwMod | KwAs | KwMatch | KwSelf |
  KwExtern | LuaBlock | Ident | IntTok | FloatTok | Str | Plus | PlusEq | Minus | MinusEq |
  Star | StarEq | Slash | SlashEq | Percent | PercentEq | EqTok | EqEq | NeTok | LtTok | LeTok
  | GtTok | GeTok | AndAnd | OrOr | NotTok | Amp | Pipe | Question | QuestionQuestion |
  QuestionDot | Arrow | FatArrow | ColonColon | Colon | Semi | Comma | Dot | DotDot | DotDotEq
  | Hash | LParen | RParen | LBrace | RBrace | LBracket | RBracket | Eof | Unknown

definition is_trivia :: "TokenKind \<Rightarrow> bool" where
  "is_trivia k \<longleftrightarrow> k = Whitespace \<or> k = LineComment \<or> k = BlockComment"

definition is_comment :: "TokenKind \<Rightarrow> bool" where
  "is_comment k \<longleftrightarrow> k = LineComment \<or> k = BlockComment"

primrec user_string :: "TokenKind \<Rightarrow> bytes" where
  "user_string Whitespace = ''<whitespace>''"
| "user_string LineComment = ''<comment>''"
| "user_string BlockComment = ''<comment>''"
| "user_string KwFn = ''fn''"
| "user_string KwLet = ''let''"
| "user_string KwMut = ''mut''"
| "user_string KwIf = ''if''"
| "user_string KwElse = ''else''"
| "user_string KwWhile = ''while''"
| "user_string KwLoop = ''loop''"
| "user_string KwFor = ''for''"
| "user_string KwIn = ''in''"
| "user_string KwReturn = ''return''"
| "user_string KwBreak = ''break''"
| "user_string KwContinue = ''continue''"
| "user_string KwDyn = ''dyn''"
| "user_string KwTrue = ''true''"
| "user_string KwFalse = ''false''"
| "user_string KwStruct = ''struct''"
| "user_string KwEnum = ''enum''"
| "user_string KwTrait = ''trait''"
| "user_string KwImpl = ''impl''"
| "user_string KwPub = ''pub''"
| "user_string KwUse = ''use''"
| "user_string KwMod = ''mod''"
| "user_string KwAs = ''as''"
| "user_string KwMatch = ''match''"
| "user_string KwSelf = ''self''"
| "user_string KwExtern = ''extern''"
| "user_string LuaBlock = ''lua! { ... }''"
| "user_string Ident = ''<ident>''"
| "user_string IntTok = ''<int>''"
| "user_string FloatTok = ''<float>''"
| "user_string Str = ''<string>''"
| "user_string Plus = ''+''"
| "user_string PlusEq = ''+=''"
| "user_string Minus = ''-''"
| "user_string MinusEq = ''-=''"
| "user_string Star = ''*''"
| "user_string StarEq = ''*=''"
| "user_string Slash = ''/''"
| "user_string SlashEq = ''/=''"
| "user_string Percent = ''%''"
| "user_string PercentEq = ''%=''"
| "user_string EqTok = ''=''"
| "user_string EqEq = ''==''"
| "user_string NeTok = ''!=''"
| "user_string LtTok = ''<''"
| "user_string LeTok = ''<=''"
| "user_string GtTok = ''>''"
| "user_string GeTok = ''>=''"
| "user_string AndAnd = ''&&''"
| "user_string OrOr = ''||''"
| "user_string NotTok = ''!''"
| "user_string Amp = ''&''"
| "user_string Pipe = ''|''"
| "user_string Question = ''?''"
| "user_string QuestionQuestion = ''??''"
| "user_string QuestionDot = ''?.''"
| "user_string Arrow = ''->''"
| "user_string FatArrow = ''=>''"
| "user_string ColonColon = ''::''"
| "user_string Colon = '':''"
| "user_string Semi = '';''"
| "user_string Comma = '',''"
| "user_string Dot = ''.''"
| "user_string DotDot = ''..''"
| "user_string DotDotEq = ''..=''"
| "user_string Hash = ''#''"
| "user_string LParen = ''(''"
| "user_string RParen = '')''"
| "user_string LBrace = ''{''"
| "user_string RBrace = ''}''"
| "user_string LBracket = ''[''"
| "user_string RBracket = '']''"
| "user_string Eof = ''<eof>''"
| "user_string Unknown = ''<unknown>''"

fun keyword_kind :: "bytes \<Rightarrow> TokenKind" where
  "keyword_kind word =
     (if word = ''fn'' then KwFn else 
      if word = ''let'' then KwLet else 
      if word = ''mut'' then KwMut else 
      if word = ''if'' then KwIf else 
      if word = ''else'' then KwElse else 
      if word = ''while'' then KwWhile else 
      if word = ''loop'' then KwLoop else 
      if word = ''for'' then KwFor else 
      if word = ''in'' then KwIn else 
      if word = ''return'' then KwReturn else 
      if word = ''break'' then KwBreak else 
      if word = ''continue'' then KwContinue else 
      if word = ''dyn'' then KwDyn else 
      if word = ''true'' then KwTrue else 
      if word = ''false'' then KwFalse else 
      if word = ''struct'' then KwStruct else 
      if word = ''enum'' then KwEnum else 
      if word = ''trait'' then KwTrait else 
      if word = ''impl'' then KwImpl else 
      if word = ''pub'' then KwPub else 
      if word = ''use'' then KwUse else 
      if word = ''mod'' then KwMod else 
      if word = ''as'' then KwAs else 
      if word = ''match'' then KwMatch else 
      if word = ''self'' then KwSelf else 
      if word = ''extern'' then KwExtern else 
      Ident)"

declare keyword_kind.simps [simp del]

end
