(* ===== verification/Lex.thy ===== *)
theory Lex
  imports Token_Kind
begin

text \<open>
  The shared lossless lexer, \<open>crates/rua-common/src/lex.rs\<close>. \<open>lex_step\<close> is the
  \<open>match bytes[cursor]\<close> of \<open>lex_with_limit\<close> with one definition per kind of token,
  \<open>lex_loop\<close> its outer loop, \<open>lex_with_limit\<close> and \<open>lex\<close> the entry points.
  Offsets are byte offsets, as in the code. \<open>Panic\<close> stands for a \<open>str\<close> slice off a
  character boundary, for the underflow of the Lua block depth and for the assertions of
  \<open>LexToken::new\<close> and \<open>TextRange\<close>; \<open>Lex_Props\<close> shows that none is reachable.
\<close>

section \<open>Lexer errors and tokens\<close>

datatype LexErrorKind =
  UnknownCharacter | UnterminatedString | UnterminatedBlockComment | UnterminatedLuaBlock

fun lex_error_message :: "LexErrorKind \<Rightarrow> bytes" where
  "lex_error_message UnknownCharacter = ''unknown character''"
| "lex_error_message UnterminatedString = ''unterminated string''"
| "lex_error_message UnterminatedBlockComment = ''unterminated block comment''"
| "lex_error_message UnterminatedLuaBlock = ''unterminated lua block''"

record LexToken =
  tok_kind :: TokenKind
  tok_range :: TextRange
  tok_error :: "LexErrorKind option"

datatype TokenLimitError = TokenLimitError (limit_range: TextRange)

definition u32_max :: nat where
  "u32_max = 2 ^ 32 - 1"

definition LexToken_new ::
    "TokenKind \<Rightarrow> nat \<Rightarrow> nat \<Rightarrow> LexErrorKind option \<Rightarrow> LexToken outcome" where
  "LexToken_new kind start len err =
     assert_outcome (start \<le> u32_max \<and> len \<le> u32_max)
       (map_outcome (\<lambda>r. \<lparr>tok_kind = kind, tok_range = r, tok_error = err\<rparr>)
         (TextRange_at (of_nat start) (of_nat len)))"

section \<open>Bytes of a name, a number and white space\<close>

definition is_name_start :: "char \<Rightarrow> bool" where
  "is_name_start b \<longleftrightarrow> b = CHR ''_'' \<or> is_ascii_alphabetic b"

definition is_name_continue :: "char \<Rightarrow> bool" where
  "is_name_continue b \<longleftrightarrow> b = CHR ''_'' \<or> is_ascii_alphanumeric b"

definition is_lex_space :: "char \<Rightarrow> bool" where
  "is_lex_space b \<longleftrightarrow> byte b \<in> {32, 9, 10, 13, 11, 12}"

definition is_number_digit :: "char \<Rightarrow> bool" where
  "is_number_digit b \<longleftrightarrow> is_ascii_digit b \<or> b = CHR ''_''"

text \<open>\<open>bytes.get(i) == Some(&c)\<close>.\<close>

definition at :: "bytes \<Rightarrow> nat \<Rightarrow> char \<Rightarrow> bool" where
  "at bs i c \<longleftrightarrow> get_at bs i = Some c"

lemma at_iff [simp]: "at bs i c \<longleftrightarrow> i < length bs \<and> bs ! i = c"
  by (auto simp: at_def)

text \<open>\<open>&text[a..b]\<close> on a \<open>str\<close>: panics off a character boundary.\<close>

definition str_slice :: "bytes \<Rightarrow> nat \<Rightarrow> nat \<Rightarrow> bytes outcome" where
  "str_slice s a b =
     assert_outcome (a \<le> b \<and> is_char_boundary s a \<and> is_char_boundary s b) (Return (slice s a b))"

text \<open>\<open>text[offset..].chars().next().map_or(1, char::len_utf8)\<close>.\<close>

definition char_width :: "bytes \<Rightarrow> nat \<Rightarrow> nat outcome" where
  "char_width s i =
     assert_outcome (is_char_boundary s i)
       (Return (case get_at s i of None \<Rightarrow> 1 | Some c \<Rightarrow> lead_width c))"

lemma char_width_pos: "char_width s i = Return w \<Longrightarrow> 0 < w"
  by (auto simp: char_width_def split: option.splits)

section \<open>Comments and strings\<close>

text \<open>
  A block comment nests. One iteration of the loop over its bytes, from offset \<open>e\<close> at
  depth \<open>depth\<close>, and the loop: the end offset and the depth left open.
\<close>

definition block_comment_step :: "bytes \<Rightarrow> nat \<Rightarrow> nat \<Rightarrow> (nat \<times> nat) outcome" where
  "block_comment_step s e depth =
     (if s ! e = CHR ''/'' \<and> at s (e + 1) CHR ''*'' then Return (e + 2, depth + 1)
      else if s ! e = CHR ''*'' \<and> at s (e + 1) CHR ''/'' then Return (e + 2, depth - 1)
      else map_outcome (\<lambda>w. (e + w, depth)) (char_width s e))"

lemma block_comment_step_progress [lex_bounds]:
  "block_comment_step s e depth = Return (e', depth') \<Longrightarrow> e < e'"
  by (auto simp: block_comment_step_def split: if_splits dest: char_width_pos)

function block_comment_loop :: "bytes \<Rightarrow> nat \<Rightarrow> nat \<Rightarrow> (nat \<times> nat) outcome" where
  "block_comment_loop s e depth =
     (if e < length s \<and> 0 < depth then
        (case block_comment_step s e depth of
           Panic \<Rightarrow> Panic
         | Return (e', depth') \<Rightarrow> block_comment_loop s e' depth')
      else Return (e, depth))"
  by pat_completeness auto
termination
  by (relation "measure (\<lambda>(s, e, depth). length s - e)") (auto dest: block_comment_step_progress)

declare block_comment_loop.simps [simp del]

text \<open>
  One iteration over a string literal: \<open>Inl\<close> leaves the loop with the end offset and
  whether a closing quote was seen, \<open>Inr\<close> goes on.
\<close>

definition string_step :: "bytes \<Rightarrow> nat \<Rightarrow> (nat \<times> bool + nat) outcome" where
  "string_step s e =
     (if s ! e = quote_char then Return (Inl (e + 1, True))
      else if s ! e = backslash_char then
        (if e + 1 < length s then map_outcome (\<lambda>w. Inr (e + 1 + w)) (char_width s (e + 1))
         else Return (Inr (e + 1)))
      else if s ! e = LF \<or> s ! e = CR then Return (Inl (e, False))
      else map_outcome (\<lambda>w. Inr (e + w)) (char_width s e))"

lemma string_step_progress [lex_bounds]: "string_step s e = Return (Inr e') \<Longrightarrow> e < e'"
  by (auto simp: string_step_def split: if_splits dest: char_width_pos)

function string_loop :: "bytes \<Rightarrow> nat \<Rightarrow> (nat \<times> bool) outcome" where
  "string_loop s e =
     (if e < length s then
        (case string_step s e of
           Panic \<Rightarrow> Panic
         | Return (Inl r) \<Rightarrow> Return r
         | Return (Inr e') \<Rightarrow> string_loop s e')
      else Return (e, False))"
  by pat_completeness auto
termination
  by (relation "measure (\<lambda>(s, e). length s - e)") (auto dest: string_step_progress)

declare string_loop.simps [simp del]

section \<open>Numbers\<close>

definition number_fraction :: "bytes \<Rightarrow> nat \<times> bool \<Rightarrow> nat \<times> bool" where
  "number_fraction s st = (case st of (e, f) \<Rightarrow>
     if e < length s \<and> s ! e = CHR ''.'' \<and> \<not> at s (e + 1) CHR ''.''
        \<and> \<not> (case get_at s (e + 1) of None \<Rightarrow> False | Some b \<Rightarrow> is_name_start b)
     then (skip_while is_number_digit s (e + 1), True)
     else (e, f))"

definition number_exponent :: "bytes \<Rightarrow> nat \<times> bool \<Rightarrow> nat \<times> bool" where
  "number_exponent s st = (case st of (e, f) \<Rightarrow>
     if e < length s \<and> (s ! e = CHR ''e'' \<or> s ! e = CHR ''E'') then
       let e1 = e + 1;
           e2 = (if e1 < length s \<and> (s ! e1 = CHR ''+'' \<or> s ! e1 = CHR ''-'') then e1 + 1 else e1)
       in (skip_while is_number_digit s e2, True)
     else (e, f))"

text \<open>The digits before a fraction or exponent; a leading dot already makes a float.\<close>

definition number_mantissa :: "bytes \<Rightarrow> nat \<Rightarrow> nat \<times> bool" where
  "number_mantissa s start =
     (if s ! start = CHR ''.'' then (skip_while is_number_digit s (start + 1), True)
      else (skip_while is_number_digit s start, False))"

definition lex_number :: "bytes \<Rightarrow> nat \<Rightarrow> TokenKind \<times> nat" where
  "lex_number s start =
     (if s ! start \<noteq> CHR ''.'' \<and> s ! start = CHR ''0''
         \<and> (case get_at s (start + 1) of None \<Rightarrow> False | Some b \<Rightarrow> b \<in> set ''xXbB'')
      then (IntTok, skip_while is_name_continue s (start + 2))
      else (case number_exponent s (number_fraction s (number_mantissa s start)) of
              (e, is_float) \<Rightarrow> (if is_float then FloatTok else IntTok, e)))"

section \<open>Raw Lua blocks\<close>

text \<open>\<open>skip_lua_quoted\<close>: past a quoted Lua string that starts here, if one does.\<close>

function lua_quoted_loop :: "bytes \<Rightarrow> char \<Rightarrow> nat \<Rightarrow> nat" where
  "lua_quoted_loop s q i =
     (if i < length s then
        if s ! i = backslash_char then lua_quoted_loop s q (min (i + 2) (length s))
        else if s ! i = q then i + 1
        else lua_quoted_loop s q (i + 1)
      else length s)"
  by pat_completeness auto
termination
  by (relation "measure (\<lambda>(s, q, i). length s - i)") auto

declare lua_quoted_loop.simps [simp del]

definition skip_lua_quoted :: "bytes \<Rightarrow> nat \<Rightarrow> nat option" where
  "skip_lua_quoted s start = (case get_at s start of
     None \<Rightarrow> None
   | Some q \<Rightarrow> if q \<noteq> apostrophe_char \<and> q \<noteq> quote_char then None
              else Some (lua_quoted_loop s q (start + 1)))"

text \<open>The inner loop of \<open>skip_lua_long_bracket\<close>: up to \<open>n\<close> further equals signs.\<close>

fun match_equals :: "bytes \<Rightarrow> nat \<Rightarrow> nat \<Rightarrow> nat \<times> bool" where
  "match_equals s 0 close = (close, True)"
| "match_equals s (Suc n) close =
     (if at s close CHR ''='' then match_equals s n (close + 1) else (close, False))"

function long_bracket_loop :: "bytes \<Rightarrow> nat \<Rightarrow> nat \<Rightarrow> nat" where
  "long_bracket_loop s level i =
     (if i < length s then
        (case match_equals s level (i + 1) of (close, matched) \<Rightarrow>
           if s ! i = CHR '']'' \<and> matched \<and> at s close CHR '']'' then close + 1
           else long_bracket_loop s level (i + 1))
      else length s)"
  by pat_completeness auto
termination
  by (relation "measure (\<lambda>(s, level, i). length s - i)") auto

declare long_bracket_loop.simps [simp del]

definition skip_lua_long_bracket :: "bytes \<Rightarrow> nat \<Rightarrow> nat option" where
  "skip_lua_long_bracket s start =
     (if \<not> at s start CHR ''['' then None
      else let i = skip_while (\<lambda>c. c = CHR ''='') s (start + 1) in
        if \<not> at s i CHR ''['' then None
        else Some (long_bracket_loop s (i - start - 1) (i + 1)))"

text \<open>Every scanner of a Lua construct moves past the byte it starts at and stays in the text.\<close>

lemma lua_quoted_loop_bounds:
  "i \<le> length s \<Longrightarrow> i \<le> lua_quoted_loop s q i \<and> lua_quoted_loop s q i \<le> length s"
proof (induction s q i rule: lua_quoted_loop.induct)
  case (1 s q i)
  then show ?case by (subst (1 2) lua_quoted_loop.simps) (auto simp: Let_def)
qed

lemma skip_lua_quoted_bounds [lex_bounds]:
  "skip_lua_quoted s i = Some e \<Longrightarrow> i < e \<and> e \<le> length s"
  using lua_quoted_loop_bounds [of "i + 1" s "s ! i"]
  by (simp add: skip_lua_quoted_def get_at_def Let_def split: if_splits)

lemma match_equals_bounds: "match_equals s n i = (e, m) \<Longrightarrow> i \<le> e"
  by (induction s n i rule: match_equals.induct) (auto split: if_splits)

lemma long_bracket_loop_bounds:
  "i \<le> length s \<Longrightarrow> i \<le> long_bracket_loop s level i \<and> long_bracket_loop s level i \<le> length s"
proof (induction s level i rule: long_bracket_loop.induct)
  case (1 s level i)
  obtain e m where em: "match_equals s level (i + 1) = (e, m)" by (cases "match_equals s level (i + 1)")
  from match_equals_bounds [OF em] have "i + 1 \<le> e" .
  with 1 em show ?case by (subst (1 2) long_bracket_loop.simps) auto
qed

lemma skip_lua_long_bracket_bounds [lex_bounds]:
  assumes "skip_lua_long_bracket s i = Some e"
  shows "i < e \<and> e \<le> length s"
proof -
  let ?j = "skip_while (\<lambda>c. c = CHR ''='') s (i + 1)"
  have "i + 1 \<le> ?j" by (rule skip_while_ge)
  moreover have "?j < length s" and "e = long_bracket_loop s (?j - i - 1) (?j + 1)"
    using assms by (auto simp: skip_lua_long_bracket_def Let_def split: if_splits)
  ultimately show ?thesis using long_bracket_loop_bounds [of "?j + 1" s "?j - i - 1"] by simp
qed

definition is_line_end :: "char \<Rightarrow> bool" where
  "is_line_end b \<longleftrightarrow> b = LF \<or> b = CR"

text \<open>
  One iteration of the main loop of \<open>lex_lua_block\<close>, at offset \<open>i\<close> and brace depth
  \<open>depth\<close>: \<open>Inl\<close> returns the end of the block, \<open>Inr\<close> goes on.
\<close>

definition lua_brace_step :: "bytes \<Rightarrow> nat \<Rightarrow> nat \<Rightarrow> (nat + nat \<times> nat) outcome" where
  "lua_brace_step s i depth =
     (if s ! i = CHR ''{'' then Return (Inr (i + 1, depth + 1))
      else if s ! i = CHR ''}'' then
        assert_outcome (0 < depth)
          (Return (if depth - 1 = 0 then Inl (i + 1) else Inr (i + 1, depth - 1)))
      else Return (Inr (i + 1, depth)))"

definition lua_block_step :: "bytes \<Rightarrow> nat \<Rightarrow> nat \<Rightarrow> (nat + nat \<times> nat) outcome" where
  "lua_block_step s i depth =
     (case skip_lua_quoted s i of
        Some e \<Rightarrow> Return (Inr (e, depth))
      | None \<Rightarrow>
          if s ! i = CHR ''-'' \<and> at s (i + 1) CHR ''-'' then
            Return (Inr (case skip_lua_long_bracket s (i + 2) of
                           Some e \<Rightarrow> e
                         | None \<Rightarrow> skip_while (\<lambda>b. \<not> is_line_end b) s (i + 2), depth))
          else
            (case skip_lua_long_bracket s i of
               Some e \<Rightarrow> Return (Inr (e, depth))
             | None \<Rightarrow> lua_brace_step s i depth))"

lemma lua_block_step_progress [lex_bounds]:
  "lua_block_step s i depth = Return (Inr (i', depth')) \<Longrightarrow> i < i' \<and> (i < length s \<longrightarrow> i' \<le> length s)"
  using skip_while_ge [of "i + 2" "\<lambda>b. \<not> is_line_end b" s]
    skip_while_le [of "i + 2" s "\<lambda>b. \<not> is_line_end b"]
  by (auto simp: lua_block_step_def lua_brace_step_def
      split: option.splits if_splits dest: skip_lua_quoted_bounds skip_lua_long_bracket_bounds)

function lua_block_loop :: "bytes \<Rightarrow> nat \<Rightarrow> nat \<Rightarrow> (nat \<times> LexErrorKind option) outcome" where
  "lua_block_loop s i depth =
     (if i < length s then
        (case lua_block_step s i depth of
           Panic \<Rightarrow> Panic
         | Return (Inl e) \<Rightarrow> Return (e, None)
         | Return (Inr (i', depth')) \<Rightarrow> lua_block_loop s i' depth')
      else Return (length s, Some UnterminatedLuaBlock))"
  by pat_completeness auto
termination
  by (relation "measure (\<lambda>(s, i, depth). length s - i)") (auto dest: lua_block_step_progress)

declare lua_block_loop.simps [simp del]

definition lex_lua_block :: "bytes \<Rightarrow> nat \<Rightarrow> (nat \<times> LexErrorKind option) option outcome" where
  "lex_lua_block s start =
     (if length s < start + 4 \<or> slice s start (start + 4) \<noteq> ''lua!'' then Return None
      else if 0 < start \<and> is_name_continue (s ! (start - 1)) then Return None
      else
        let i = skip_while is_ascii_whitespace s (start + 4) in
        if \<not> at s i CHR ''{'' then Return None
        else map_outcome Some (lua_block_loop s i 0))"

section \<open>One token\<close>

type_synonym lexeme = "TokenKind \<times> nat \<times> LexErrorKind option"

definition simple :: "TokenKind \<Rightarrow> nat \<Rightarrow> nat \<Rightarrow> lexeme" where
  "simple kind cursor len = (kind, cursor + len, None)"

text \<open>The bytes \<open>p\<close> stand at offset \<open>i\<close>, inside the text.\<close>

definition starts_at :: "bytes \<Rightarrow> nat \<Rightarrow> bytes \<Rightarrow> bool" where
  "starts_at s i p \<longleftrightarrow> take (length p) (drop i s) = p"

text \<open>
  The arms for operators and delimiters, in the order of the source: an arm applies when its
  first byte is \<open>bytes[cursor]\<close> and its guards find the other bytes after it. \<open>None\<close>
  is the last arm, \<open>_\<close>.
\<close>

definition punct_table :: "(bytes \<times> TokenKind) list" where
  "punct_table =
    [(''+='', PlusEq), (''+'', Plus), (''->'', Arrow), (''-='', MinusEq), (''-'', Minus),
     (''*='', StarEq), (''*'', Star), (''/='', SlashEq), (''/'', Slash), (''%='', PercentEq),
     (''%'', Percent), (''<='', LeTok), (''<'', LtTok), (''>='', GeTok), (''>'', GtTok),
     (''=='', EqEq), (''=>'', FatArrow), (''='', EqTok), (''!='', NeTok), (''!'', NotTok),
     (''&&'', AndAnd), (''&'', Amp), (''||'', OrOr), (''|'', Pipe), (''..='', DotDotEq),
     (''..'', DotDot), (''.'', Dot), (''::'', ColonColon), ('':'', Colon), ('';'', Semi),
     ('','', Comma), (''??'', QuestionQuestion), (''?.'', QuestionDot), (''?'', Question),
     (''#'', Hash), (''('', LParen), ('')'', RParen), (''{'', LBrace), (''}'', RBrace),
     (''['', LBracket), ('']'', RBracket)]"

definition lex_punct :: "bytes \<Rightarrow> nat \<Rightarrow> lexeme option" where
  "lex_punct s cursor =
     (case find (\<lambda>(p, kind). starts_at s cursor p) punct_table of
        None \<Rightarrow> None
      | Some (p, kind) \<Rightarrow> Some (simple kind cursor (length p)))"

definition lex_word :: "bytes \<Rightarrow> nat \<Rightarrow> lexeme outcome" where
  "lex_word s cursor =
     (let e = skip_while is_name_continue s (cursor + 1)
      in map_outcome (\<lambda>w. (keyword_kind w, e, None)) (str_slice s cursor e))"

definition lex_block_comment :: "bytes \<Rightarrow> nat \<Rightarrow> lexeme outcome" where
  "lex_block_comment s cursor =
     map_outcome (\<lambda>(e, depth).
         (BlockComment, e, if depth \<noteq> 0 then Some UnterminatedBlockComment else None))
       (block_comment_loop s (cursor + 2) 1)"

definition lex_string :: "bytes \<Rightarrow> nat \<Rightarrow> lexeme outcome" where
  "lex_string s cursor =
     map_outcome (\<lambda>(e, terminated).
         (Str, e, if terminated then None else Some UnterminatedString))
       (string_loop s (cursor + 1))"

definition lex_unknown :: "bytes \<Rightarrow> nat \<Rightarrow> lexeme outcome" where
  "lex_unknown s cursor =
     map_outcome (\<lambda>w. (Unknown, cursor + w, Some UnknownCharacter)) (char_width s cursor)"

definition number_start :: "bytes \<Rightarrow> nat \<Rightarrow> bool" where
  "number_start s cursor \<longleftrightarrow> is_ascii_digit (s ! cursor)
     \<or> (s ! cursor = CHR ''.''
        \<and> (case get_at s (cursor + 1) of None \<Rightarrow> False | Some c \<Rightarrow> is_ascii_digit c))"

text \<open>The \<open>match bytes[cursor]\<close> of \<open>lex_with_limit\<close>: kind, end offset and error.\<close>

definition lex_step :: "bytes \<Rightarrow> nat \<Rightarrow> lexeme outcome" where
  "lex_step s cursor =
     (if is_lex_space (s ! cursor) then
        Return (Whitespace, skip_while is_lex_space s (cursor + 1), None)
      else if starts_at s cursor ''//'' then
        Return (LineComment, skip_while (\<lambda>c. \<not> is_line_end c) s (cursor + 2), None)
      else if starts_at s cursor ''/*'' then lex_block_comment s cursor
      else if s ! cursor = quote_char then lex_string s cursor
      else if starts_at s cursor ''lua!'' then
        (case lex_lua_block s cursor of
           Panic \<Rightarrow> Panic
         | Return (Some (e, err)) \<Rightarrow> Return (LuaBlock, e, err)
         | Return None \<Rightarrow> lex_word s cursor)
      else if is_name_start (s ! cursor) then lex_word s cursor
      else if number_start s cursor then
        (case lex_number s cursor of (kind, e) \<Rightarrow> Return (kind, e, None))
      else
        (case lex_punct s cursor of
           Some l \<Rightarrow> Return l
         | None \<Rightarrow> lex_unknown s cursor))"

section \<open>Every step makes progress\<close>

lemma block_comment_loop_ge: "block_comment_loop s e d = Return (e', d') \<Longrightarrow> e \<le> e'"
proof (induction s e d rule: block_comment_loop.induct)
  case (1 s e d)
  show ?case
  proof (cases "e < length s \<and> 0 < d")
    case True
    with "1.prems" obtain e1 d1 where st: "block_comment_step s e d = Return (e1, d1)"
      and lp: "block_comment_loop s e1 d1 = Return (e', d')"
      by (subst (asm) block_comment_loop.simps) (auto split: outcome.splits)
    from "1.IH" [OF True st refl lp] block_comment_step_progress [OF st] show ?thesis by simp
  next
    case False
    with "1.prems" show ?thesis by (subst (asm) block_comment_loop.simps) auto
  qed
qed

lemma string_step_exit: "string_step s e = Return (Inl (e', t)) \<Longrightarrow> e \<le> e'"
  by (auto simp: string_step_def split: if_splits)

lemma string_loop_ge: "string_loop s e = Return (e', t) \<Longrightarrow> e \<le> e'"
proof (induction s e rule: string_loop.induct)
  case (1 s e)
  show ?case
  proof (cases "\<exists>e1. e < length s \<and> string_step s e = Return (Inr e1)")
    case True
    then obtain e1 where len: "e < length s" and st: "string_step s e = Return (Inr e1)" by blast
    with "1.prems" have "string_loop s e1 = Return (e', t)" by (subst (asm) string_loop.simps) simp
    from "1.IH" [OF len st refl this] string_step_progress [OF st] show ?thesis by simp
  next
    case False
    with "1.prems" show ?thesis
      by (subst (asm) string_loop.simps)
         (auto dest: string_step_exit split: if_splits outcome.splits sum.splits)
  qed
qed

lemma lua_block_step_exit:
  "lua_block_step s i d = Return (Inl e) \<Longrightarrow> e = i + 1 \<and> s ! i = CHR ''}''"
  by (auto simp: lua_block_step_def lua_brace_step_def split: option.splits if_splits)

lemma lua_block_loop_ge: "lua_block_loop s i d = Return (e, err) \<Longrightarrow> i \<le> length s \<Longrightarrow> i \<le> e"
proof (induction s i d rule: lua_block_loop.induct)
  case (1 s i d)
  show ?case
  proof (cases "\<exists>i1 d1. i < length s \<and> lua_block_step s i d = Return (Inr (i1, d1))")
    case True
    then obtain i1 d1 where len: "i < length s" and st: "lua_block_step s i d = Return (Inr (i1, d1))"
      by blast
    with "1.prems"(1) have "lua_block_loop s i1 d1 = Return (e, err)"
      by (subst (asm) lua_block_loop.simps) simp
    from "1.IH" [OF len st refl refl this] lua_block_step_progress [OF st] len show ?thesis by simp
  next
    case False
    with "1.prems" show ?thesis
      by (subst (asm) lua_block_loop.simps)
         (auto dest: lua_block_step_exit split: if_splits outcome.splits sum.splits)
  qed
qed

lemma number_fraction_ge: "fst st \<le> fst (number_fraction s st)"
  using skip_while_ge [of "fst st + 1" is_number_digit s]
  by (auto simp: number_fraction_def split: prod.splits)

lemma number_exponent_ge: "fst st \<le> fst (number_exponent s st)"
  using skip_while_ge [of "fst st + 1" is_number_digit s] skip_while_ge [of "fst st + 2" is_number_digit s]
  by (auto simp: number_exponent_def Let_def split: prod.splits)

lemma number_mantissa_gt:
  assumes "start < length s" and "is_ascii_digit (s ! start) \<or> s ! start = CHR ''.''"
  shows "start < fst (number_mantissa s start)"
proof (cases "s ! start = CHR ''.''")
  case True
  then show ?thesis using skip_while_ge [of "start + 1" is_number_digit s] by (simp add: number_mantissa_def)
next
  case False
  with assms have "skip_while is_number_digit s start = skip_while is_number_digit s (Suc start)"
    by (intro skip_while_step) (simp_all add: is_number_digit_def)
  with False show ?thesis
    using skip_while_ge [of "Suc start" is_number_digit s] by (simp add: number_mantissa_def)
qed

lemma lex_number_progress:
  assumes "start < length s" and "is_ascii_digit (s ! start) \<or> s ! start = CHR ''.''"
    and "lex_number s start = (kind, e)"
  shows "start < e"
proof -
  let ?m = "number_mantissa s start"
  have "start < fst (number_exponent s (number_fraction s ?m))"
    using number_mantissa_gt [OF assms(1,2)] number_fraction_ge [of ?m s]
      number_exponent_ge [of "number_fraction s ?m" s] by linarith
  moreover have "start < skip_while is_name_continue s (start + 2)"
    using skip_while_ge [of "start + 2" is_name_continue s] by simp
  ultimately show ?thesis
    using assms(3) by (auto simp: lex_number_def split: if_splits prod.splits)
qed

lemma starts_at_bounds:
  assumes "starts_at s i p"
  shows "i \<le> length s \<Longrightarrow> i + length p \<le> length s" and "k < length p \<Longrightarrow> s ! (i + k) = p ! k"
proof -
  have eq: "take (length p) (drop i s) = p" using assms by (simp add: starts_at_def)
  then have "length (take (length p) (drop i s)) = length p" by simp
  then show "i \<le> length s \<Longrightarrow> i + length p \<le> length s" by (simp add: min_def split: if_splits)
  assume k: "k < length p"
  with eq have "drop i s ! k = p ! k" by (metis nth_take)
  moreover have "i \<le> length s"
    using k eq by (metis drop_eq_Nil length_0_conv linorder_le_cases not_less_zero take_Nil)
  ultimately show "s ! (i + k) = p ! k" by simp
qed

lemma punct_table_ascii:
  "(p, kind) \<in> set punct_table \<Longrightarrow> p \<noteq> [] \<and> list_all is_ascii p \<and> user_string kind = p"
  by (auto simp: punct_table_def is_ascii_def)

lemma lex_punct_bounds:
  assumes "cursor < length s" and "lex_punct s cursor = Some (kind, e, err)"
  shows "cursor < e" and "e \<le> length s" and "err = None"
    and "cursor \<le> k \<Longrightarrow> k < e \<Longrightarrow> is_ascii (s ! k)"
proof -
  obtain p where p: "(p, kind) \<in> set punct_table" "starts_at s cursor p"
    and e: "e = cursor + length p" and err: "err = None"
    using assms(2) by (auto simp: lex_punct_def simple_def find_Some_iff split: option.splits)
      (metis nth_mem)
  note tab = punct_table_ascii [OF p(1)]
  from tab e show "cursor < e" by simp
  from starts_at_bounds(1) [OF p(2)] assms(1) e show "e \<le> length s" by simp
  from err show "err = None" .
  assume "cursor \<le> k" "k < e"
  then have "s ! k = p ! (k - cursor)" and "k - cursor < length p"
    using starts_at_bounds(2) [OF p(2), of "k - cursor"] e by auto
  with tab show "is_ascii (s ! k)" by (simp add: list_all_length)
qed

text \<open>Every token is at least one byte long, on any input; so the outer loop stops.\<close>

lemma lex_word_progress: "lex_word s cursor = Return (kind, e, err) \<Longrightarrow> cursor < e"
  using skip_while_ge [of "cursor + 1" is_name_continue s] by (auto simp: lex_word_def Let_def)

lemma lex_lua_block_progress:
  assumes "lex_lua_block s cursor = Return (Some (e, err))"
  shows "cursor < e"
proof -
  let ?i = "skip_while is_ascii_whitespace s (cursor + 4)"
  from assms have "lua_block_loop s ?i 0 = Return (e, err)" and "?i < length s"
    by (auto simp: lex_lua_block_def Let_def split: if_splits)
  with lua_block_loop_ge [of s ?i 0 e err] skip_while_ge [of "cursor + 4" is_ascii_whitespace s]
  show ?thesis by linarith
qed

lemma lex_step_progress:
  assumes "lex_step s cursor = Return (kind, e, err)" and "cursor < length s"
  shows "cursor < e"
proof -
  have sk: "cursor < skip_while p s (Suc cursor)" "cursor < skip_while p s (Suc (Suc cursor))" for p
    using skip_while_ge [of "Suc cursor" p s] skip_while_ge [of "Suc (Suc cursor)" p s] by simp_all
  have num: "cursor < e'" if "number_start s cursor" "lex_number s cursor = (k', e')" for k' e'
    using that assms(2) lex_number_progress [of cursor s k' e'] by (auto simp: number_start_def)
  from assms sk show ?thesis
    by (auto simp: lex_step_def lex_block_comment_def lex_string_def lex_unknown_def
        split: if_splits option.splits outcome.splits prod.splits
        dest: num lex_lua_block_progress lex_word_progress block_comment_loop_ge string_loop_ge
          char_width_pos lex_punct_bounds(1))
qed

section \<open>The lexer\<close>

function lex_loop :: "bytes \<Rightarrow> nat \<Rightarrow> nat \<Rightarrow> LexToken list \<Rightarrow> (TokenLimitError + LexToken list) outcome" where
  "lex_loop s max_tokens cursor tokens =
     (if cursor < length s then
        (case lex_step s cursor of
           Panic \<Rightarrow> Panic
         | Return (kind, e, err) \<Rightarrow>
             if length tokens = max_tokens then
               map_outcome (\<lambda>r. Inl (TokenLimitError r))
                 (TextRange_at (of_nat cursor) (of_nat (e - cursor)))
             else
               (case LexToken_new kind cursor (e - cursor) err of
                  Panic \<Rightarrow> Panic
                | Return tok \<Rightarrow> lex_loop s max_tokens e (tokens @ [tok])))
      else Return (Inr tokens))"
  by pat_completeness auto
termination
  by (relation "measure (\<lambda>(s, max_tokens, cursor, tokens). length s - cursor)")
     (auto dest: lex_step_progress)

declare lex_loop.simps [simp del]

definition lex_with_limit :: "bytes \<Rightarrow> nat \<Rightarrow> (TokenLimitError + LexToken list) outcome" where
  "lex_with_limit s max_tokens = lex_loop s max_tokens 0 []"

definition usize_max :: nat where
  "usize_max = 2 ^ 64 - 1"

text \<open>\<open>lex\<close> expects the unlimited run to succeed; on a limit error it would panic.\<close>

definition lex :: "bytes \<Rightarrow> LexToken list outcome" where
  "lex s = bind_outcome (lex_with_limit s usize_max)
     (\<lambda>r. case r of Inl _ \<Rightarrow> Panic | Inr tokens \<Rightarrow> Return tokens)"

end
