(* ===== verification/Lex_Props.thy ===== *)
theory Lex_Props
  imports Lex
begin

text \<open>
  Correctness of the shared lexer: on every valid UTF-8 text below 4 GiB it returns, its
  tokens tile the text without gap or overlap on character boundaries, and the token budget
  only cuts the run short. The scanners are treated one by one; each lemma says that the
  scanner does not panic and stops on a character boundary.
\<close>

section \<open>Scanners on valid text\<close>

lemma skip_ascii_boundary:
  assumes "utf8 s" and "is_char_boundary s i" and ascii: "\<And>c. p c \<Longrightarrow> is_ascii c"
  shows "is_char_boundary s (skip_while p s i)"
proof (cases "skip_while p s i = i")
  case False
  let ?e = "skip_while p s i"
  from False skip_while_ge [of i p s] have lt: "i < ?e" by linarith
  then have "?e - 1 < length s \<and> p (s ! (?e - 1))"
    by (intro skip_while_all [of i]) auto
  with boundary_ascii(2) [OF assms(1), of "?e - 1"] ascii lt show ?thesis by auto
qed (use assms in simp)

lemma skip_to_ascii_boundary:
  assumes "utf8 s" and "i \<le> length s" and ascii: "\<And>c. \<not> p c \<Longrightarrow> is_ascii c"
  shows "is_char_boundary s (skip_while p s i)"
proof (cases "skip_while p s i < length s")
  case True
  with skip_while_stop [of p s i] ascii have "is_ascii (s ! skip_while p s i)" by blast
  with True assms(1) show ?thesis by (intro boundary_ascii(1))
next
  case False
  with skip_while_le [OF assms(2), of p] have "skip_while p s i = length s" by linarith
  then show ?thesis by simp
qed

lemma name_continue_ascii: "is_name_continue c \<Longrightarrow> is_ascii c"
  by (auto simp: is_name_continue_def ascii_classes_ascii) (simp add: is_ascii_def)

lemma name_start_ascii: "is_name_start c \<Longrightarrow> is_ascii c"
  by (auto simp: is_name_start_def ascii_classes_ascii) (simp add: is_ascii_def)

lemma number_digit_ascii: "is_number_digit c \<Longrightarrow> is_ascii c"
  by (auto simp: is_number_digit_def ascii_classes_ascii) (simp add: is_ascii_def)

lemma lex_space_ascii: "is_lex_space c \<Longrightarrow> is_ascii c"
  by (auto simp: is_lex_space_def is_ascii_def)

lemma line_end_ascii: "is_line_end c \<Longrightarrow> is_ascii c"
  by (auto simp: is_line_end_def is_ascii_def)

lemmas lex_class_ascii =
  name_continue_ascii name_start_ascii number_digit_ascii lex_space_ascii line_end_ascii

lemma char_width_at_boundary:
  assumes "utf8 s" and "is_char_boundary s i" and "i < length s"
  shows "char_width s i = Return (lead_width (s ! i))"
    and "is_char_boundary s (i + lead_width (s ! i))"
  using assms boundary_width by (simp_all add: char_width_def get_at_def)

lemma boundary_after_ascii:
  "utf8 s \<Longrightarrow> i < length s \<Longrightarrow> is_ascii (s ! i) \<Longrightarrow> j = Suc i \<Longrightarrow> is_char_boundary s j"
  using boundary_ascii(2) by blast

lemma block_comment_step_total:
  assumes "utf8 s" and "is_char_boundary s e" and "e < length s"
  shows "\<exists>e' d'. block_comment_step s e d = Return (e', d') \<and> is_char_boundary s e'"
proof -
  have "is_char_boundary s (e + 2)" if "e + 1 < length s" "is_ascii (s ! (e + 1))"
    using boundary_after_ascii [OF assms(1), of "e + 1" "e + 2"] that by simp
  then show ?thesis
    using char_width_at_boundary [OF assms]
    by (auto simp: block_comment_step_def is_ascii_def)
qed

lemma block_comment_loop_total:
  "utf8 s \<Longrightarrow> is_char_boundary s e \<Longrightarrow>
   \<exists>e' d'. block_comment_loop s e d = Return (e', d') \<and> is_char_boundary s e'"
proof (induction s e d rule: block_comment_loop.induct)
  case (1 s e d)
  show ?case
  proof (cases "e < length s \<and> 0 < d")
    case True
    with block_comment_step_total [OF "1.prems", of d] obtain e1 d1
      where st: "block_comment_step s e d = Return (e1, d1)" and b: "is_char_boundary s e1" by blast
    from "1.IH" [OF True st refl "1.prems"(1) b] True st show ?thesis
      by (subst block_comment_loop.simps) simp
  next
    case False
    with "1.prems" show ?thesis by (subst block_comment_loop.simps) auto
  qed
qed

lemma string_step_total:
  assumes "utf8 s" and "is_char_boundary s e" and "e < length s"
  shows "(\<exists>e' t. string_step s e = Return (Inl (e', t)) \<and> is_char_boundary s e')
       \<or> (\<exists>e'. string_step s e = Return (Inr e') \<and> is_char_boundary s e')"
proof -
  have suc: "is_char_boundary s (e + 1)" if "is_ascii (s ! e)"
    using boundary_after_ascii [OF assms(1,3) that] by simp
  show ?thesis
    using suc assms(2) char_width_at_boundary [OF assms] char_width_at_boundary [OF assms(1), of "e + 1"]
    by (auto simp: string_step_def is_ascii_def)
qed

lemma string_loop_total:
  "utf8 s \<Longrightarrow> is_char_boundary s e \<Longrightarrow>
   \<exists>e' t. string_loop s e = Return (e', t) \<and> is_char_boundary s e'"
proof (induction s e rule: string_loop.induct)
  case (1 s e)
  show ?case
  proof (cases "e < length s")
    case True
    from string_step_total [OF "1.prems" True] show ?thesis
    proof
      assume "\<exists>e' t. string_step s e = Return (Inl (e', t)) \<and> is_char_boundary s e'"
      with True show ?thesis by (subst string_loop.simps) auto
    next
      assume "\<exists>e'. string_step s e = Return (Inr e') \<and> is_char_boundary s e'"
      then obtain e1 where st: "string_step s e = Return (Inr e1)" and b: "is_char_boundary s e1" by blast
      from "1.IH" [OF True st refl "1.prems"(1) b] True st show ?thesis
        by (subst string_loop.simps) simp
    qed
  next
    case False
    with "1.prems" show ?thesis by (subst string_loop.simps) auto
  qed
qed

text \<open>The brace depth of a Lua block cannot underflow: it is positive after the first brace.\<close>

definition lua_depth_ok :: "bytes \<Rightarrow> nat \<Rightarrow> nat \<Rightarrow> bool" where
  "lua_depth_ok s i depth \<longleftrightarrow> 0 < depth \<or> at s i CHR ''{''"

lemma lua_block_step_total:
  assumes "lua_depth_ok s i d" and "i < length s"
  shows "lua_block_step s i d = Return (Inl (i + 1))
    \<or> (\<exists>i' d'. lua_block_step s i d = Return (Inr (i', d')) \<and> 0 < d')"
proof (cases "0 < d")
  case True
  then show ?thesis
    by (auto simp: lua_block_step_def lua_brace_step_def split: option.splits)
next
  case False
  with assms have brace: "s ! i = CHR ''{''" by (simp add: lua_depth_ok_def)
  then have "skip_lua_quoted s i = None" and "skip_lua_long_bracket s i = None"
    by (simp_all add: skip_lua_quoted_def skip_lua_long_bracket_def get_at_def)
  with brace show ?thesis by (simp add: lua_block_step_def lua_brace_step_def)
qed

lemma lua_block_loop_total:
  "utf8 s \<Longrightarrow> lua_depth_ok s i d \<Longrightarrow>
   \<exists>e err. lua_block_loop s i d = Return (e, err) \<and> is_char_boundary s e"
proof (induction s i d rule: lua_block_loop.induct)
  case (1 s i d)
  show ?case
  proof (cases "i < length s")
    case True
    from lua_block_step_total [OF "1.prems"(2) True] show ?thesis
    proof
      assume st: "lua_block_step s i d = Return (Inl (i + 1))"
      then have "s ! i = CHR ''}''" by (auto dest: lua_block_step_exit)
      then have "is_char_boundary s (i + 1)"
        using boundary_after_ascii [OF "1.prems"(1) True] by (simp add: is_ascii_def)
      with True st show ?thesis by (subst lua_block_loop.simps) simp
    next
      assume "\<exists>i' d'. lua_block_step s i d = Return (Inr (i', d')) \<and> 0 < d'"
      then obtain i1 d1 where st: "lua_block_step s i d = Return (Inr (i1, d1))" and "0 < d1" by blast
      then have "lua_depth_ok s i1 d1" by (simp add: lua_depth_ok_def)
      from "1.IH" [OF True st refl refl "1.prems"(1) this] True st show ?thesis
        by (subst lua_block_loop.simps) simp
    qed
  next
    case False
    then show ?thesis by (subst lua_block_loop.simps) simp
  qed
qed

section \<open>One token on valid text\<close>

lemma lex_word_total:
  assumes "utf8 s" and "is_char_boundary s i" and "i < length s" and "is_name_start (s ! i)"
  shows "\<exists>k e. lex_word s i = Return (k, e, None) \<and> is_char_boundary s e \<and> e \<le> length s"
proof -
  have "is_char_boundary s (i + 1)"
    using boundary_after_ascii [OF assms(1,3)] name_start_ascii assms(4) by simp
  then have "is_char_boundary s (skip_while is_name_continue s (i + 1))"
    by (rule skip_ascii_boundary [OF assms(1)]) (rule name_continue_ascii)
  with assms(2) skip_while_ge [of "i + 1" is_name_continue s] show ?thesis
    by (auto simp: lex_word_def Let_def str_slice_def dest: is_char_boundary_le)
qed

lemma number_fraction_boundary:
  assumes "utf8 s" and "is_char_boundary s (fst st)"
  shows "is_char_boundary s (fst (number_fraction s st))"
proof -
  have "is_char_boundary s (skip_while is_number_digit s (e + 1))" if "e < length s" "s ! e = CHR ''.''" for e
    using that boundary_after_ascii [OF assms(1), of e "e + 1"] lex_class_ascii(3)
    by (intro skip_ascii_boundary [OF assms(1)]) (auto simp: is_ascii_def)
  with assms(2) show ?thesis by (auto simp: number_fraction_def split: prod.splits)
qed

lemma number_exponent_boundary:
  assumes "utf8 s" and "is_char_boundary s (fst st)"
  shows "is_char_boundary s (fst (number_exponent s st))"
proof -
  have suc: "is_char_boundary s (Suc e)" if "e < length s" "is_ascii (s ! e)" for e
    using boundary_after_ascii [OF assms(1) that] by simp
  have "is_char_boundary s (skip_while is_number_digit s e)" if "is_char_boundary s e" for e
    using that by (intro skip_ascii_boundary [OF assms(1)] lex_class_ascii(3))
  with assms(2) suc show ?thesis
    by (auto simp: number_exponent_def Let_def is_ascii_def split: prod.splits)
qed

lemma number_mantissa_boundary:
  assumes "utf8 s" and "is_char_boundary s i" and "i < length s"
  shows "is_char_boundary s (fst (number_mantissa s i))"
proof -
  have "is_char_boundary s (i + 1)" if "s ! i = CHR ''.''"
    using that boundary_after_ascii [OF assms(1,3)] by (simp add: is_ascii_def)
  with assms(2) show ?thesis
    by (auto simp: number_mantissa_def intro!: skip_ascii_boundary [OF assms(1)] lex_class_ascii(3))
qed

lemma lex_number_boundary:
  assumes "utf8 s" and "is_char_boundary s i" and "i < length s" and "lex_number s i = (k, e)"
  shows "is_char_boundary s e"
proof -
  let ?m = "number_mantissa s i"
  have "is_char_boundary s (fst (number_exponent s (number_fraction s ?m)))"
    by (intro number_exponent_boundary number_fraction_boundary number_mantissa_boundary assms)
  moreover have "is_char_boundary s (skip_while is_name_continue s (i + 2))"
    if "i + 1 < length s" "s ! (i + 1) \<in> set ''xXbB''"
    using that boundary_after_ascii [OF assms(1), of "i + 1" "i + 2"]
    by (intro skip_ascii_boundary [OF assms(1)] lex_class_ascii(1)) (auto simp: is_ascii_def)
  ultimately show ?thesis
    using assms(4) by (auto simp: lex_number_def split: if_splits prod.splits option.splits)
qed

lemma ascii_run_boundary:
  assumes "utf8 s" and "i < e" and "e \<le> length s" and "is_ascii (s ! (e - 1))"
  shows "is_char_boundary s e"
  using boundary_after_ascii [OF assms(1), of "e - 1" e] assms by simp

lemma starts_at_ascii_boundary:
  assumes "utf8 s" and "i < length s" and "starts_at s i p" and "p \<noteq> []" and "list_all is_ascii p"
  shows "is_char_boundary s (i + length p)"
proof (rule ascii_run_boundary [OF assms(1), of i])
  show "i < i + length p" using assms(4) by simp
  show "i + length p \<le> length s" using starts_at_bounds(1) [OF assms(3)] assms(2) by simp
  have "s ! (i + (length p - 1)) = p ! (length p - 1)"
    using starts_at_bounds(2) [OF assms(3), of "length p - 1"] assms(4) by simp
  moreover have "i + length p - 1 = i + (length p - 1)" using assms(4) by (cases p) simp_all
  ultimately show "is_ascii (s ! (i + length p - 1))" using assms(4,5) by (simp add: list_all_length)
qed

lemma lex_lua_block_total:
  assumes "utf8 s"
  shows "lex_lua_block s i = Return None
    \<or> (\<exists>e err. lex_lua_block s i = Return (Some (e, err)) \<and> is_char_boundary s e)"
proof -
  let ?j = "skip_while is_ascii_whitespace s (i + 4)"
  have "\<exists>e err. lua_block_loop s ?j 0 = Return (e, err) \<and> is_char_boundary s e" if "at s ?j CHR ''{''"
    using lua_block_loop_total [OF assms, of ?j 0] that by (simp add: lua_depth_ok_def)
  then show ?thesis by (auto simp: lex_lua_block_def Let_def)
qed

lemma lua_start_name: "starts_at s i ''lua!'' \<Longrightarrow> is_name_start (s ! i)"
  using starts_at_bounds(2) [of s i "''lua!''" 0]
  by (simp add: is_name_start_def ascii_class_defs)

lemma lex_block_comment_total:
  assumes "utf8 s" and "i < length s" and "starts_at s i ''/*''"
  shows "\<exists>e err. lex_block_comment s i = Return (BlockComment, e, err) \<and> is_char_boundary s e"
proof -
  have "is_char_boundary s (i + 2)"
    using starts_at_ascii_boundary [OF assms] by (simp add: is_ascii_def)
  from block_comment_loop_total [OF assms(1) this, of 1] show ?thesis
    by (auto simp: lex_block_comment_def)
qed

lemma lex_string_total:
  assumes "utf8 s" and "i < length s" and "s ! i = quote_char"
  shows "\<exists>e err. lex_string s i = Return (Str, e, err) \<and> is_char_boundary s e"
proof -
  have "is_char_boundary s (i + 1)"
    using boundary_after_ascii [OF assms(1,2)] assms(3) by (simp add: is_ascii_def)
  from string_loop_total [OF assms(1) this] show ?thesis by (auto simp: lex_string_def)
qed

lemma lex_punct_boundary:
  assumes "utf8 s" and "i < length s" and "lex_punct s i = Some (k, e, err)"
  shows "is_char_boundary s e"
  using lex_punct_bounds [OF assms(2,3)] ascii_run_boundary [OF assms(1), of i e] by simp

text \<open>The kinds of token that may carry an error, and which one.\<close>

definition error_fits :: "TokenKind \<Rightarrow> LexErrorKind option \<Rightarrow> bool" where
  "error_fits k err \<longleftrightarrow> (case err of
     None \<Rightarrow> k \<noteq> Unknown
   | Some UnknownCharacter \<Rightarrow> k = Unknown
   | Some UnterminatedString \<Rightarrow> k = Str
   | Some UnterminatedBlockComment \<Rightarrow> k = BlockComment
   | Some UnterminatedLuaBlock \<Rightarrow> k = LuaBlock)"

theorem lex_step_total:
  assumes u: "utf8 s" and b: "is_char_boundary s i" and i: "i < length s"
  shows "\<exists>k e err. lex_step s i = Return (k, e, err) \<and> i < e \<and> is_char_boundary s e"
proof -
  have suc: "is_char_boundary s (Suc i)" if "is_ascii (s ! i)"
    using boundary_after_ascii [OF u i that] by simp
  have space: "is_char_boundary s (skip_while is_lex_space s (i + 1))" if "is_lex_space (s ! i)"
    using suc that lex_class_ascii(4) by (intro skip_ascii_boundary [OF u]) auto
  have line: "is_char_boundary s (skip_while (\<lambda>c. \<not> is_line_end c) s (i + 2))" if "starts_at s i ''//''"
    using starts_at_bounds(1) [OF that] i lex_class_ascii(5)
    by (intro skip_to_ascii_boundary [OF u]) auto
  have word: "\<exists>k e. lex_word s i = Return (k, e, None) \<and> is_char_boundary s e" if "is_name_start (s ! i)"
    using lex_word_total [OF u b i that] by blast
  have "\<exists>k e err. lex_step s i = Return (k, e, err) \<and> is_char_boundary s e"
    using space line lex_block_comment_total [OF u i] lex_string_total [OF u i] word lua_start_name [of s i]
      lex_lua_block_total [OF u, of i] lex_number_boundary [OF u b i] lex_punct_boundary [OF u i]
      char_width_at_boundary [OF u b i]
    unfolding lex_step_def lex_unknown_def
    by (auto split: option.splits prod.splits outcome.splits; fastforce)
  with lex_step_progress [OF _ i] show ?thesis by blast
qed

section \<open>The token run\<close>

text \<open>
  \<open>tiles i toks j\<close>: the tokens follow each other without gap or overlap from offset
  \<open>i\<close> to \<open>j\<close>, none is empty, each ends on a character boundary, and their error
  marks fit their kinds.
\<close>

definition token_len :: "LexToken \<Rightarrow> nat" where
  "token_len t = unat (range_len (tok_range t))"

fun tiles :: "bytes \<Rightarrow> nat \<Rightarrow> LexToken list \<Rightarrow> nat \<Rightarrow> bool" where
  "tiles s i [] j \<longleftrightarrow> i = j"
| "tiles s i (t # ts) j \<longleftrightarrow>
     unat (range_start (tok_range t)) = i
     \<and> i < unat (range_end (tok_range t))
     \<and> is_char_boundary s (unat (range_end (tok_range t)))
     \<and> error_fits (tok_kind t) (tok_error t)
     \<and> tiles s (unat (range_end (tok_range t))) ts j"

text \<open>The same run with the lexer step that produced each token.\<close>

fun lexes :: "bytes \<Rightarrow> nat \<Rightarrow> LexToken list \<Rightarrow> nat \<Rightarrow> bool" where
  "lexes s i [] j \<longleftrightarrow> i = j"
| "lexes s i (t # ts) j \<longleftrightarrow>
     unat (range_start (tok_range t)) = i
     \<and> lex_step s i = Return (tok_kind t, unat (range_end (tok_range t)), tok_error t)
     \<and> i < unat (range_end (tok_range t))
     \<and> is_char_boundary s i
     \<and> is_char_boundary s (unat (range_end (tok_range t)))
     \<and> lexes s (unat (range_end (tok_range t))) ts j"

lemma lex_punct_kind: "lex_punct s i = Some (k, e, err) \<Longrightarrow> error_fits k err"
proof -
  assume "lex_punct s i = Some (k, e, err)"
  then obtain p where "(p, k) \<in> set punct_table" and "err = None"
    by (auto simp: lex_punct_def simple_def find_Some_iff split: option.splits) (metis nth_mem)
  then show ?thesis by (auto simp: punct_table_def error_fits_def)
qed

lemma keyword_kind_not_Unknown: "keyword_kind w \<noteq> Unknown"
  by (cases w rule: keyword_kind.cases) (auto simp: keyword_kind.simps)

lemma lua_block_loop_error:
  "lua_block_loop s i d = Return (e, err) \<Longrightarrow> err = None \<or> err = Some UnterminatedLuaBlock"
proof (induction s i d rule: lua_block_loop.induct)
  case (1 s i d)
  show ?case
  proof (cases "\<exists>i1 d1. i < length s \<and> lua_block_step s i d = Return (Inr (i1, d1))")
    case True
    then obtain i1 d1 where len: "i < length s" and st: "lua_block_step s i d = Return (Inr (i1, d1))"
      by blast
    with "1.prems" have "lua_block_loop s i1 d1 = Return (e, err)"
      by (subst (asm) lua_block_loop.simps) simp
    from "1.IH" [OF len st refl refl this] show ?thesis .
  next
    case False
    with "1.prems" show ?thesis
      by (subst (asm) lua_block_loop.simps) (auto split: if_splits outcome.splits sum.splits)
  qed
qed

lemma lex_step_error_fits:
  assumes "lex_step s i = Return (k, e, err)"
  shows "error_fits k err"
proof -
  have num: "fst (lex_number s i) \<in> {IntTok, FloatTok}"
    by (auto simp: lex_number_def split: prod.splits)
  have lua: "err' = None \<or> err' = Some UnterminatedLuaBlock"
    if "lex_lua_block s i = Return (Some (e', err'))" for e' err'
    using that lua_block_loop_error by (auto simp: lex_lua_block_def Let_def split: if_splits)
  from assms show ?thesis
    using num keyword_kind_not_Unknown lex_punct_kind [of s i]
    by (auto simp: lex_step_def lex_word_def lex_unknown_def lex_block_comment_def lex_string_def
        error_fits_def Let_def split: if_splits option.splits prod.splits outcome.splits dest!: lua)
qed

lemma unat_u32: "n < 2 ^ 32 \<Longrightarrow> unat (of_nat n :: u32) = n"
  by (simp add: unat_of_nat take_bit_nat_eq_self)

lemma LexToken_new_total:
  assumes "i < e" and "e < 2 ^ 32"
  shows "\<exists>t. LexToken_new k i (e - i) err = Return t \<and> tok_kind t = k \<and> tok_error t = err
    \<and> unat (range_start (tok_range t)) = i \<and> unat (range_end (tok_range t)) = e
    \<and> TextRange_at (of_nat i) (of_nat (e - i)) = Return (tok_range t)"
proof -
  have ui: "unat (of_nat i :: u32) = i" and ul: "unat (of_nat (e - i) :: u32) = e - i"
    using assms unat_u32 [of i] unat_u32 [of "e - i"] by linarith+
  then have "unat ((of_nat i :: u32) + of_nat (e - i)) = e"
    using assms unat_u32 [of e] by (simp add: of_nat_diff)
  with assms ui ul show ?thesis
    by (simp add: LexToken_new_def u32_max_def TextRange_at_Return)
qed

text \<open>
  The run of tokens from a boundary does not depend on the budget; the budget only decides
  whether the loop reaches its end.
\<close>

definition run_result :: "nat \<Rightarrow> LexToken list \<Rightarrow> TokenLimitError + LexToken list" where
  "run_result m ts =
     (if length ts \<le> m then Inr ts else Inl (TokenLimitError (tok_range (ts ! m))))"

lemma lex_loop_run:
  assumes u: "utf8 s" and len: "length s < 2 ^ 32"
  shows "is_char_boundary s i \<Longrightarrow>
    \<exists>ts. lexes s i ts (length s) \<and>
      (\<forall>m acc. length acc \<le> m \<longrightarrow> lex_loop s m i acc = Return (run_result m (acc @ ts)))"
proof (induction "length s - i" arbitrary: i rule: less_induct)
  case less
  show ?case
  proof (cases "i < length s")
    case False
    with less.prems have "i = length s" by (auto dest: is_char_boundary_le)
    then show ?thesis
      by (intro exI [of _ "[]"]) (simp add: lex_loop.simps [of s] run_result_def)
  next
    case True
    from lex_step_total [OF u less.prems True] obtain k e err
      where st: "lex_step s i = Return (k, e, err)" and ie: "i < e" and be: "is_char_boundary s e"
      by blast
    from be have e32: "e < 2 ^ 32" using len is_char_boundary_le by (meson le_less_trans)
    from LexToken_new_total [OF ie e32, of k err] obtain t
      where t: "LexToken_new k i (e - i) err = Return t" "tok_kind t = k" "tok_error t = err"
        "unat (range_start (tok_range t)) = i" "unat (range_end (tok_range t)) = e"
        "TextRange_at (of_nat i) (of_nat (e - i)) = Return (tok_range t)" by blast
    from less.hyps [OF _ be] ie True obtain ts where ts: "lexes s e ts (length s)"
      and run: "\<And>m acc. length acc \<le> m \<Longrightarrow>
        lex_loop s m e acc = Return (run_result m (acc @ ts))"
      by (metis diff_less_mono2)
    have "lex_loop s m i acc = Return (run_result m (acc @ t # ts))"
      if "length acc \<le> m" for m acc
    proof (cases "length acc = m")
      case True
      then have "(acc @ t # ts) ! m = t" by auto
      with True \<open>i < length s\<close> st t(6) show ?thesis
        by (subst lex_loop.simps) (simp add: run_result_def)
    next
      case False
      with that have "length (acc @ [t]) \<le> m" by simp
      from run [OF this] False \<open>i < length s\<close> st t(1) show ?thesis
        by (subst lex_loop.simps) simp
    qed
    moreover have "lexes s i (t # ts) (length s)"
      using t ts ie be st less.prems by simp
    ultimately show ?thesis by blast
  qed
qed

lemma lexes_tiles: "lexes s i ts j \<Longrightarrow> tiles s i ts j"
  by (induction ts arbitrary: i) (auto dest: lex_step_error_fits)

lemma lex_run:
  assumes "utf8 s" and "length s < 2 ^ 32"
  obtains ts where "lexes s 0 ts (length s)"
    and "\<And>m. lex_with_limit s m = Return (run_result m ts)"
  using lex_loop_run [OF assms, of 0] by (auto simp: lex_with_limit_def)

lemma tiles_length: "tiles s i ts j \<Longrightarrow> length ts + i \<le> j"
  by (induction ts arbitrary: i) fastforce+

lemma lex_run_steps:
  assumes "utf8 s" and "length s < 2 ^ 32"
  obtains ts where "lex s = Return ts" and "lexes s 0 ts (length s)"
    and "\<And>m. lex_with_limit s m = Return (run_result m ts)"
proof -
  obtain ts where ts: "lexes s 0 ts (length s)"
    and run: "\<And>m. lex_with_limit s m = Return (run_result m ts)"
    using lex_run [OF assms] by blast
  from tiles_length [OF lexes_tiles [OF ts]] assms(2) have "length ts \<le> usize_max"
    by (simp add: usize_max_def)
  with run have "lex s = Return ts" by (simp add: lex_def run_result_def)
  with ts run that show thesis by blast
qed

lemma lex_run_total:
  assumes "utf8 s" and "length s < 2 ^ 32"
  obtains ts where "lex s = Return ts" and "tiles s 0 ts (length s)"
    and "\<And>m. lex_with_limit s m = Return (run_result m ts)"
  using lex_run_steps [OF assms] lexes_tiles by metis

definition token_text :: "bytes \<Rightarrow> LexToken \<Rightarrow> bytes" where
  "token_text s t = slice s (unat (range_start (tok_range t))) (unat (range_end (tok_range t)))"

lemma tiles_text:
  "tiles s i ts j \<Longrightarrow> j \<le> length s \<Longrightarrow> i \<le> j \<and> concat (map (token_text s) ts) = slice s i j"
proof (induction ts arbitrary: i)
  case (Cons t ts)
  let ?e = "unat (range_end (tok_range t))"
  from Cons.prems have i: "unat (range_start (tok_range t)) = i" "i < ?e" and ts: "tiles s ?e ts j"
    by simp_all
  from Cons.IH [OF ts Cons.prems(2)] have ej: "?e \<le> j"
    and IH: "concat (map (token_text s) ts) = slice s ?e j" by simp_all
  have "concat (map (token_text s) (t # ts)) = slice s i ?e @ slice s ?e j"
    using i IH by (simp add: token_text_def)
  also have "\<dots> = slice s i j" using i ej by (intro slice_append) simp_all
  finally show ?case using i ej by simp
qed simp

section \<open>Words and operators\<close>

lemma ident_is_name: "ident_start c = is_name_start c" "ident_continue c = is_name_continue c"
  by (simp_all add: ident_start_def ident_continue_def is_name_start_def is_name_continue_def)

lemma ascii_name_not_special:
  "is_name_start c \<Longrightarrow> \<not> is_lex_space c \<and> c \<noteq> CHR ''/'' \<and> c \<noteq> quote_char"
  "is_name_continue c \<Longrightarrow> c \<noteq> CHR ''!''"
  by (auto simp: is_name_start_def is_name_continue_def is_lex_space_def ascii_class_defs)

lemma lex_step_identifier:
  assumes "valid_identifier w"
  shows "lex_step w 0 = Return (keyword_kind w, length w, None)"
proof -
  obtain c r where w: "w = c # r" using assms by (cases w) auto
  with assms have c: "is_name_start c" and r: "\<And>k. k < length r \<Longrightarrow> is_name_continue (r ! k)"
    by (simp_all add: ident_is_name list_all_length)
  have "skip_while is_name_continue w 1 = length w"
    using r w by (intro skip_while_eqI) (auto simp: nth_Cons' less_Suc_eq_0_disj)
  then have word: "lex_word w 0 = Return (keyword_kind w, length w, None)"
    by (simp add: lex_word_def str_slice_def Let_def)
  have "\<not> starts_at w 0 ''lua!''"
  proof
    assume st: "starts_at w 0 ''lua!''"
    have "w ! 3 = CHR ''!''" and "3 < length w"
      using starts_at_bounds(2) [OF st, of 3] starts_at_bounds(1) [OF st] by simp_all
    with r [of 2] w ascii_name_not_special(2) show False by auto
  qed
  moreover have "\<not> starts_at w 0 ''//''" and "\<not> starts_at w 0 ''/*''"
    using w ascii_name_not_special(1) [OF c] by (simp_all add: starts_at_def)
  moreover have "w ! 0 = c" using w by simp
  ultimately show ?thesis
    using word c ascii_name_not_special(1) [OF c] by (simp add: lex_step_def)
qed

lemma lex_single:
  assumes "lex_step s 0 = Return (k, length s, err)" and "s \<noteq> []" and "length s < 2 ^ 32"
  shows "lex s = Return [\<lparr>tok_kind = k,
    tok_range = \<lparr>range_start = 0, range_end = of_nat (length s)\<rparr>, tok_error = err\<rparr>]"
proof -
  from assms LexToken_new_total [of 0 "length s" k err]
  have "LexToken_new k 0 (length s) err = Return \<lparr>tok_kind = k,
      tok_range = \<lparr>range_start = 0, range_end = of_nat (length s)\<rparr>, tok_error = err\<rparr>"
    by (auto simp: LexToken_new_def TextRange_at_Return)
  with assms(1,2) show ?thesis
    by (simp add: lex_def lex_with_limit_def lex_loop.simps [of s] usize_max_def)
qed

lemma keyword_kind_user_string: "keyword_kind w \<noteq> Ident \<Longrightarrow> user_string (keyword_kind w) = w"
  by (auto simp: keyword_kind.simps)

text \<open>The arm found first is the longest operator that stands at the cursor.\<close>

lemma starts_at_comparable:
  "starts_at s i p \<Longrightarrow> starts_at s i q \<Longrightarrow> length p \<le> length q \<Longrightarrow> take (length p) q = p"
  unfolding starts_at_def by (metis min.absorb1 take_take)

lemma punct_table_order:
  "sorted_wrt (\<lambda>(p, _) (q, _). length p < length q \<longrightarrow> take (length p) q \<noteq> p) punct_table"
  by (simp add: punct_table_def)

text \<open>
  C8. Lexing is total and lossless: on any valid UTF-8 text below 4 GiB \<open>lex\<close> does not panic;
  its nonempty tokens tile the text from 0 to its length on character boundaries, only the
  kinds that can be malformed carry an error, and the token texts concatenate to the text.
\<close>

theorem lex_lossless:
  assumes "utf8 s" and "length s < 2 ^ 32"
  shows "\<exists>ts. lex s = Return ts \<and> tiles s 0 ts (length s) \<and> concat (map (token_text s) ts) = s"
proof -
  obtain ts where "lex s = Return ts" "tiles s 0 ts (length s)"
    using lex_run_total [OF assms] by blast
  with tiles_text [of s 0 ts "length s"] show ?thesis by auto
qed

lemma lex_lossless_witness:
  "\<exists>ts. lex ''let s = @'' = Return ts \<and> tiles ''let s = @'' 0 ts (length ''let s = @'')
     \<and> concat (map (token_text ''let s = @'') ts) = ''let s = @''"
  by (rule lex_lossless) (simp_all add: is_ascii_def)

text \<open>
  C9. The token budget never changes a token: with budget \<open>m\<close> the lexer returns the
  unlimited run when it has at most \<open>m\<close> tokens, and otherwise the range of the first token
  over the budget.
\<close>

theorem lex_token_budget:
  assumes "utf8 s" and "length s < 2 ^ 32" and "lex s = Return ts"
  shows "lex_with_limit s m =
    Return (if length ts \<le> m then Inr ts else Inl (TokenLimitError (tok_range (ts ! m))))"
proof -
  obtain us where "lex s = Return us" and "lex_with_limit s m = Return (run_result m us)"
    using lex_run_total [OF assms(1,2)] by blast
  with assms(3) show ?thesis by (simp add: run_result_def)
qed

lemma lex_token_budget_witness:
  "\<exists>ts. lex ''a+'' = Return ts \<and> lex_with_limit ''a+'' 1 =
     Return (if length ts \<le> 1 then Inr ts else Inl (TokenLimitError (tok_range (ts ! 1))))"
proof -
  have u: "utf8 ''a+''" and l: "length ''a+'' < 2 ^ 32" by (simp_all add: is_ascii_def)
  from lex_run_total [OF u l] obtain ts where ts: "lex ''a+'' = Return ts" by blast
  from lex_token_budget [OF u l ts, of 1] ts show ?thesis by blast
qed

text \<open>
  C10. A valid identifier lexes to one token that spans it: the keyword it spells, or
  \<open>Ident\<close>; and a keyword token prints as the word it was lexed from.
\<close>

theorem lex_identifier:
  assumes "valid_identifier w" and "length w < 2 ^ 32"
  shows "lex w = Return [\<lparr>tok_kind = keyword_kind w,
      tok_range = \<lparr>range_start = 0, range_end = of_nat (length w)\<rparr>, tok_error = None\<rparr>]
    \<and> (keyword_kind w \<noteq> Ident \<longrightarrow> user_string (keyword_kind w) = w)"
  using lex_single [OF lex_step_identifier [OF assms(1)] _ assms(2)]
    valid_identifier_nonempty [OF assms(1)] keyword_kind_user_string by simp

lemma lex_identifier_witness:
  "lex ''match'' = Return [\<lparr>tok_kind = keyword_kind ''match'',
      tok_range = \<lparr>range_start = 0, range_end = 5\<rparr>, tok_error = None\<rparr>]"
  using lex_identifier [of "''match''"]
  by (simp add: ident_is_name is_name_start_def is_name_continue_def ascii_class_defs)

text \<open>
  C11. Operators are lexed by maximal munch: whatever operator of the language stands at the
  cursor is no longer than the one the lexer takes.
\<close>

theorem lex_punct_maximal:
  assumes "lex_punct s i = Some (k, e, err)" and "(q, k') \<in> set punct_table" and "starts_at s i q"
  shows "length q \<le> e - i"
proof -
  obtain n where n: "n < length punct_table" and st: "starts_at s i (fst (punct_table ! n))"
    and first: "\<And>j. j < n \<Longrightarrow> \<not> starts_at s i (fst (punct_table ! j))"
    and e: "e = i + length (fst (punct_table ! n))"
    using assms(1) by (fastforce simp: lex_punct_def simple_def find_Some_iff split: option.splits)
  obtain j where j: "j < length punct_table" and q: "punct_table ! j = (q, k')"
    using assms(2) by (meson in_set_conv_nth)
  have "n \<le> j" using first [of j] q assms(3) by (cases "j < n") simp_all
  show ?thesis
  proof (cases "n = j")
    case True
    with e q show ?thesis by simp
  next
    case False
    with \<open>n \<le> j\<close> j q have "\<not> (length (fst (punct_table ! n)) < length q
        \<and> take (length (fst (punct_table ! n))) q = fst (punct_table ! n))"
      using sorted_wrt_nth_less [OF punct_table_order, of n j] by (auto split: prod.splits)
    with starts_at_comparable [OF st assms(3)] e show ?thesis by linarith
  qed
qed

lemma lex_punct_maximal_witness:
  "lex_punct ''..=x'' 0 = Some (DotDotEq, 3, None) \<and> length ''..'' \<le> (3 - 0 :: nat)"
proof -
  have l: "lex_punct ''..=x'' 0 = Some (DotDotEq, 3, None)" by code_simp
  moreover have "(''..'', DotDot) \<in> set punct_table" by (simp add: punct_table_def)
  moreover have "starts_at ''..=x'' 0 ''..''" by code_simp
  ultimately show ?thesis using lex_punct_maximal [OF l] by blast
qed

end
