(* ===== verification/Tokenize.thy ===== *)
theory Tokenize
  imports Lex_Props Strings
begin

text \<open>
  The compiler's strict token cursor over the shared lexer: \<open>crates/ruac/src/token.rs\<close>
  (ranges with lines), \<open>tokenize.rs\<close> (\<open>RuaTokenize\<close>, which drops trivia, counts lines
  and turns lexer errors into failures) and \<open>lexer.rs\<close> (\<open>RuaLexer\<close>, a cursor with one
  token of lookahead). A method on \<open>&mut self\<close> returns the updated state; where it fails
  with \<open>?\<close> the state keeps the updates made before.
\<close>

section \<open>Ranges and token data\<close>

record SourceRange =
  sr_start :: nat
  sr_len :: nat
  sr_line :: nat
  sr_file :: u32

definition SourceRange_EMPTY :: SourceRange where
  "SourceRange_EMPTY = \<lparr>sr_start = 0, sr_len = 0, sr_line = 0, sr_file = 0\<rparr>"

definition SourceRange_new :: "nat \<Rightarrow> nat \<Rightarrow> nat \<Rightarrow> SourceRange" where
  "SourceRange_new start len line = \<lparr>sr_start = start, sr_len = len, sr_line = line, sr_file = 0\<rparr>"

definition sr_end :: "SourceRange \<Rightarrow> nat" where
  "sr_end r = sr_start r + sr_len r"

record TokenData =
  td_kind :: TokenKind
  td_range :: SourceRange
  td_trivia :: SourceRange

definition TokenData_new :: "TokenKind \<Rightarrow> SourceRange \<Rightarrow> SourceRange \<Rightarrow> TokenData" where
  "TokenData_new kind r trivia = \<lparr>td_kind = kind, td_range = r, td_trivia = trivia\<rparr>"

record TokenizeError =
  te_kind :: LexErrorKind
  te_range :: SourceRange

text \<open>\<open>format!("{}: {}", line, message)\<close>.\<close>

definition TokenizeError_display :: "TokenizeError \<Rightarrow> bytes" where
  "TokenizeError_display e = show_nat (sr_line (te_range e)) @ '': '' @ lex_error_message (te_kind e)"

section \<open>The token cursor\<close>

record StrictTokenStream =
  ts_text :: bytes
  ts_tokens :: "LexToken list"

definition StrictTokenStream_new ::
    "bytes \<Rightarrow> nat \<Rightarrow> (TokenLimitError + StrictTokenStream) outcome" where
  "StrictTokenStream_new s max_tokens =
     map_outcome (\<lambda>r. bind_result r (\<lambda>toks. Inr \<lparr>ts_text = s, ts_tokens = toks\<rparr>))
       (lex_with_limit s max_tokens)"

definition StrictTokenStream_unlimited :: "bytes \<Rightarrow> StrictTokenStream outcome" where
  "StrictTokenStream_unlimited s = map_outcome (\<lambda>toks. \<lparr>ts_text = s, ts_tokens = toks\<rparr>) (lex s)"

record RuaTokenize =
  tz_text :: bytes
  tz_tokens :: "LexToken list"
  tz_cursor :: nat
  tz_line :: nat

definition RuaTokenize_from_stream :: "StrictTokenStream \<Rightarrow> RuaTokenize" where
  "RuaTokenize_from_stream stream =
     \<lparr>tz_text = ts_text stream, tz_tokens = ts_tokens stream, tz_cursor = 0, tz_line = 1\<rparr>"

definition RuaTokenize_new :: "bytes \<Rightarrow> RuaTokenize outcome" where
  "RuaTokenize_new s = map_outcome RuaTokenize_from_stream (StrictTokenStream_unlimited s)"

text \<open>How many times the loop of \<open>advance_lines\<close> counts a line: CR LF counts once.\<close>

fun line_breaks :: "bytes \<Rightarrow> nat" where
  "line_breaks [] = 0"
| "line_breaks (c # s) =
     (if c = CR then
        (case s of [] \<Rightarrow> 1 | d # s' \<Rightarrow> if d = LF then 1 + line_breaks s' else 1 + line_breaks s)
      else if c = LF then 1 + line_breaks s
      else line_breaks s)"

abbreviation start_of :: "LexToken \<Rightarrow> nat" where
  "start_of tok \<equiv> unat (range_start (tok_range tok))"

abbreviation end_of :: "LexToken \<Rightarrow> nat" where
  "end_of tok \<equiv> unat (range_end (tok_range tok))"

definition advance_lines :: "RuaTokenize \<Rightarrow> LexToken \<Rightarrow> RuaTokenize outcome" where
  "advance_lines tz tok =
     map_outcome (\<lambda>s. tz\<lparr>tz_line := tz_line tz + line_breaks s\<rparr>)
       (str_slice (tz_text tz) (start_of tok) (end_of tok))"

definition token_source_range :: "LexToken \<Rightarrow> nat \<Rightarrow> SourceRange" where
  "token_source_range tok line =
     SourceRange_new (start_of tok) (unat (range_len (tok_range tok))) line"

text \<open>\<open>self.cursor += 1; self.advance_lines(token)\<close>.\<close>

definition take_token :: "RuaTokenize \<Rightarrow> LexToken \<Rightarrow> RuaTokenize outcome" where
  "take_token tz tok = advance_lines (tz\<lparr>tz_cursor := tz_cursor tz + 1\<rparr>) tok"

lemma take_token_cursor:
  "take_token tz tok = Return tz' \<Longrightarrow>
     tz_cursor tz' = tz_cursor tz + 1 \<and> tz_tokens tz' = tz_tokens tz \<and> tz_text tz' = tz_text tz"
  by (auto simp: take_token_def advance_lines_def)

function skip_trivia :: "RuaTokenize \<Rightarrow> (TokenizeError option \<times> RuaTokenize) outcome" where
  "skip_trivia tz =
     (case get_at (tz_tokens tz) (tz_cursor tz) of
        None \<Rightarrow> Return (None, tz)
      | Some tok \<Rightarrow>
          if \<not> is_trivia (tok_kind tok) then Return (None, tz)
          else (case take_token tz tok of
              Panic \<Rightarrow> Panic
            | Return tz' \<Rightarrow>
                (case tok_error tok of
                   Some e \<Rightarrow>
                     Return (Some \<lparr>te_kind = e, te_range = token_source_range tok (tz_line tz)\<rparr>, tz')
                 | None \<Rightarrow> skip_trivia tz')))"
  by pat_completeness auto
termination
  by (relation "measure (\<lambda>tz. length (tz_tokens tz) - tz_cursor tz)")
     (auto dest!: take_token_cursor)

declare skip_trivia.simps [simp del]

definition cursor_offset :: "RuaTokenize \<Rightarrow> nat" where
  "cursor_offset tz = (case get_at (tz_tokens tz) (tz_cursor tz) of
     None \<Rightarrow> length (tz_text tz) | Some tok \<Rightarrow> start_of tok)"

text \<open>The part of \<open>next_token\<close> after the trivia: the token at the cursor, or end of file.\<close>

definition token_at_cursor ::
    "RuaTokenize \<Rightarrow> SourceRange \<Rightarrow> ((TokenizeError + TokenData) \<times> RuaTokenize) outcome" where
  "token_at_cursor tz trivia =
     (case get_at (tz_tokens tz) (tz_cursor tz) of
        None \<Rightarrow> Return (Inr (TokenData_new Eof (SourceRange_new (length (tz_text tz)) 0 (tz_line tz)) trivia), tz)
      | Some tok \<Rightarrow>
          (case take_token tz tok of
             Panic \<Rightarrow> Panic
           | Return tz' \<Rightarrow>
               (case tok_error tok of
                  Some e \<Rightarrow>
                    if e \<noteq> UnknownCharacter then
                      Return (Inl \<lparr>te_kind = e, te_range = token_source_range tok (tz_line tz)\<rparr>, tz')
                    else Return (Inr (TokenData_new (tok_kind tok) (token_source_range tok (tz_line tz)) trivia), tz')
                | None \<Rightarrow>
                    Return (Inr (TokenData_new (tok_kind tok) (token_source_range tok (tz_line tz)) trivia), tz'))))"

definition next_token :: "RuaTokenize \<Rightarrow> ((TokenizeError + TokenData) \<times> RuaTokenize) outcome" where
  "next_token tz =
     (case skip_trivia tz of
        Panic \<Rightarrow> Panic
      | Return (Some e, tz') \<Rightarrow> Return (Inl e, tz')
      | Return (None, tz') \<Rightarrow>
          token_at_cursor tz'
            (SourceRange_new (cursor_offset tz) (cursor_offset tz' - cursor_offset tz) (tz_line tz)))"

section \<open>Two tokens of lookahead\<close>

record RuaLexer =
  lx_text :: bytes
  lx_tokenizer :: RuaTokenize
  lx_current :: TokenData
  lx_next :: TokenData
  lx_previous :: "SourceRange option"

definition RuaLexer_from_stream :: "StrictTokenStream \<Rightarrow> (TokenizeError + RuaLexer) outcome" where
  "RuaLexer_from_stream stream =
     bind_outcome (next_token (RuaTokenize_from_stream stream)) (\<lambda>(r1, tz1).
       case r1 of Inl e \<Rightarrow> Return (Inl e)
       | Inr current \<Rightarrow> bind_outcome (next_token tz1) (\<lambda>(r2, tz2).
           case r2 of Inl e \<Rightarrow> Return (Inl e)
           | Inr next_tok \<Rightarrow> Return (Inr \<lparr>lx_text = ts_text stream, lx_tokenizer = tz2, lx_current = current,
                                       lx_next = next_tok, lx_previous = None\<rparr>)))"

definition RuaLexer_new :: "bytes \<Rightarrow> (TokenizeError + RuaLexer) outcome" where
  "RuaLexer_new s = bind_outcome (StrictTokenStream_unlimited s) RuaLexer_from_stream"

definition previous_range :: "RuaLexer \<Rightarrow> SourceRange" where
  "previous_range lx = (case lx_previous lx of None \<Rightarrow> SourceRange_EMPTY | Some r \<Rightarrow> r)"

definition current_text :: "RuaLexer \<Rightarrow> bytes outcome" where
  "current_text lx = str_slice (lx_text lx) (sr_start (td_range (lx_current lx))) (sr_end (td_range (lx_current lx)))"

definition current_leading_trivia :: "RuaLexer \<Rightarrow> bytes outcome" where
  "current_leading_trivia lx =
     str_slice (lx_text lx) (sr_start (td_trivia (lx_current lx))) (sr_end (td_trivia (lx_current lx)))"

definition bump :: "RuaLexer \<Rightarrow> (TokenizeError option \<times> RuaLexer) outcome" where
  "bump lx =
     (let lx1 = lx\<lparr>lx_previous := Some (td_range (lx_current lx)), lx_current := lx_next lx\<rparr> in
      if td_kind (lx_current lx1) \<noteq> Eof then
        map_outcome (\<lambda>(r, tz).
            case r of Inl e \<Rightarrow> (Some e, lx1\<lparr>lx_tokenizer := tz\<rparr>)
            | Inr tok \<Rightarrow> (None, lx1\<lparr>lx_tokenizer := tz, lx_next := tok\<rparr>))
          (next_token (lx_tokenizer lx1))
      else Return (None, lx1))"

end
