(* ===== verification/Ast.thy ===== *)
theory Ast
  imports Builtins Cfg Tokenize
begin

text \<open>
  The compiler's syntax tree, \<open>crates/ruac/src/ast.rs\<close>, with every node, its identity and
  its source ranges. Structs that take part in the recursion are one-constructor datatypes;
  the other structs are records. \<open>Option<Box<T>>\<close> is \<open>T option\<close>.
\<close>

section \<open>Node identities\<close>

record ExprId = exid_file :: u32  exid_local :: u32
record PatternId = patid_file :: u32  patid_local :: u32
record TypeId = tyid_file :: u32  tyid_local :: u32
record TraitRefId = trid_file :: u32  trid_local :: u32
record GenericParamId = genid_file :: u32  genid_local :: u32

section \<open>Types and signatures\<close>

datatype RuaType =
  TyPath TypeId bytes "RuaType list"
| TyRef bool RuaType
| TyFunction "RuaType list" RuaType
| TyTuple "RuaType list"
| TyNever
| TyUnit

record TraitRef =
  traitref_id :: TraitRefId
  traitref_path :: bytes

record GenericParam =
  generic_id :: GenericParamId
  generic_name :: bytes
  generic_bounds :: "TraitRef list"

record Param =
  param_name :: bytes
  param_span :: SourceRange
  param_type :: RuaType

record ClosureParam =
  cparam_name :: bytes
  cparam_span :: SourceRange
  cparam_type :: "RuaType option"

section \<open>Expressions, patterns, statements and blocks\<close>

datatype UnOp = UnNeg | UnNot

datatype BinOp =
  BinAdd | BinSub | BinMul | BinDiv | BinRem | BinEq | BinNe | BinLt | BinLe | BinGt | BinGe
| BinAnd | BinOr | BinCoalesce | BinContains

fun BinOp_symbol :: "BinOp \<Rightarrow> bytes" where
  "BinOp_symbol BinAdd = ''+''"
| "BinOp_symbol BinSub = ''-''"
| "BinOp_symbol BinMul = ''*''"
| "BinOp_symbol BinDiv = ''/''"
| "BinOp_symbol BinRem = ''%''"
| "BinOp_symbol BinEq = ''==''"
| "BinOp_symbol BinNe = ''!=''"
| "BinOp_symbol BinLt = ''<''"
| "BinOp_symbol BinLe = ''<=''"
| "BinOp_symbol BinGt = ''>''"
| "BinOp_symbol BinGe = ''>=''"
| "BinOp_symbol BinAnd = ''&&''"
| "BinOp_symbol BinOr = ''||''"
| "BinOp_symbol BinCoalesce = ''??''"
| "BinOp_symbol BinContains = ''in''"

datatype (plugins only: code size) AstBlock =
  AstBlock (block_stmts: "Stmt list") (block_blank_before: "bool list")
    (block_tail: "AstExpr option") (block_tail_blank_before: bool)
and Stmt =
  StLua bytes SourceRange
| StLet bytes SourceRange bool "RuaType option" AstExpr
| StExpr AstExpr
| StReturn "AstExpr option"
| StWhile AstExpr AstBlock
| StLoop AstBlock
| StFor bytes SourceRange AstExpr AstBlock
| StWhileLet AstPattern AstExpr AstBlock
| StBreak "AstExpr option"
| StContinue
and AstExpr =
  AstExpr (expr_id: ExprId) (expr_kind: ExprKind) (expr_span: SourceRange)
and ClosureBody = ClosureExpr AstExpr | ClosureBlock AstBlock
and ExprKind =
  XInt bytes
| XFloat bytes
| XStr bytes
| XBool bool
| XVecLit "AstExpr list"
| XClosure "ClosureParam list" "RuaType option" ClosureBody
| XPath "bytes list"
| XUnary UnOp AstExpr
| XBinary BinOp AstExpr AstExpr
| XLoop AstBlock
| XCall AstExpr "AstExpr list"
| XMethodCall AstExpr bytes bool "RuaType list" "AstExpr list" SourceRange
| XField AstExpr bytes bool SourceRange
| XStructLit "bytes list" "(bytes \<times> AstExpr) list"
| XMapLit "(AstExpr \<times> AstExpr) list"
| XTry AstExpr
| XMatch AstExpr "MatchArm list"
| XRange AstExpr AstExpr bool
| XIndex AstExpr AstExpr
| XIf AstExpr AstBlock "ElseBranch option"
| XIfLet AstPattern AstExpr AstBlock "ElseBranch option"
| XBlock AstBlock
| XAssign "BinOp option" AstExpr AstExpr
and ElseBranch = ElseBlock AstBlock | ElseIf AstExpr
and MatchArm = MatchArm (arm_patterns: "AstPattern list") (arm_guard: "AstExpr option") (arm_body: AstExpr)
and AstPattern =
  PWildcard
| PBinding bytes SourceRange
| PLiteral AstExpr
| PRange AstExpr AstExpr bool
| PPath PatternId "bytes list"
| PTupleVariant PatternId "bytes list" "AstPattern list"
| PStructVariant PatternId "bytes list" "(bytes \<times> AstPattern) list" bool

section \<open>Items\<close>

record Field =
  field_name :: bytes
  field_attributes :: "Attribute list"
  field_documentation :: "bytes option"
  field_type :: RuaType
  field_span :: SourceRange

datatype VariantKind = VariantUnit | VariantTuple "RuaType list" | VariantStruct "Field list"

record Variant =
  variant_name :: bytes
  variant_attributes :: "Attribute list"
  variant_documentation :: "bytes option"
  variant_kind :: VariantKind

record AnnotationDecl =
  ann_name :: bytes
  ann_name_span :: SourceRange
  ann_attributes :: "Attribute list"
  ann_documentation :: "bytes option"
  ann_params :: "Param list"
  ann_public :: bool

record FnDecl =
  fn_name :: bytes
  fn_attributes :: "Attribute list"
  fn_documentation :: "bytes option"
  fn_name_span :: SourceRange
  fn_generics :: "GenericParam list"
  fn_public :: bool
  fn_has_self :: bool
  fn_receiver_mutable :: bool
  fn_params :: "Param list"
  fn_ret :: "RuaType option"
  fn_body :: AstBlock

record StructDecl =
  struct_name :: bytes
  struct_attributes :: "Attribute list"
  struct_documentation :: "bytes option"
  struct_generics :: "GenericParam list"
  struct_fields :: "Field list"
  struct_public :: bool

record EnumDecl =
  enum_name :: bytes
  enum_attributes :: "Attribute list"
  enum_documentation :: "bytes option"
  enum_generics :: "GenericParam list"
  enum_variants :: "Variant list"
  enum_public :: bool

record ImplDecl =
  impl_attributes :: "Attribute list"
  impl_generics :: "GenericParam list"
  impl_type_name :: bytes
  impl_trait_name :: "bytes option"
  impl_methods :: "FnDecl list"

record TraitMethod =
  tm_name :: bytes
  tm_attributes :: "Attribute list"
  tm_documentation :: "bytes option"
  tm_name_span :: SourceRange
  tm_generics :: "GenericParam list"
  tm_has_self :: bool
  tm_receiver_mutable :: bool
  tm_params :: "Param list"
  tm_ret :: "RuaType option"
  tm_default :: "AstBlock option"

record TraitDecl =
  trait_decl_name :: bytes
  trait_attributes :: "Attribute list"
  trait_documentation :: "bytes option"
  trait_generics :: "GenericParam list"
  trait_methods :: "TraitMethod list"
  trait_public :: bool

record ExternFn =
  extern_name :: bytes
  extern_attributes :: "Attribute list"
  extern_name_span :: SourceRange
  extern_documentation :: "bytes option"
  extern_generics :: "GenericParam list"
  extern_params :: "Param list"
  extern_ret :: "RuaType option"
  extern_variadic :: bool

record ExternBlock =
  extern_block_attributes :: "Attribute list"
  extern_abi :: bytes
  extern_block_documentation :: "bytes option"
  extern_fns :: "ExternFn list"

record UseImport =
  use_path :: "bytes list"
  use_alias :: "bytes option"

record UseDecl =
  use_attributes :: "Attribute list"
  use_imports :: "UseImport list"

datatype ChunkEntry = ChunkItem nat | ChunkStatement nat

datatype (plugins only: code size) Item =
  ItAnnotation AnnotationDecl
| ItFn FnDecl
| ItStruct StructDecl
| ItEnum EnumDecl
| ItImpl ImplDecl
| ItTrait TraitDecl
| ItExtern ExternBlock
| ItMod ModDecl
| ItUse UseDecl
and ModDecl =
  ModDecl (md_name: bytes) (md_attributes: "Attribute list") (md_documentation: "bytes option")
    (md_items: "Item list") (md_chunk: AstBlock) (md_source_order: "ChunkEntry list")
    (md_public: bool) (md_is_file: bool) (md_is_decl: bool)

record Program =
  prog_items :: "Item list"
  prog_chunk :: AstBlock
  prog_source_order :: "ChunkEntry list"
  prog_is_decl :: bool
  prog_standard_library :: "StandardMetadata option"

fun item_attributes :: "Item \<Rightarrow> Attribute list" where
  "item_attributes (ItAnnotation it) = ann_attributes it"
| "item_attributes (ItFn it) = fn_attributes it"
| "item_attributes (ItStruct it) = struct_attributes it"
| "item_attributes (ItEnum it) = enum_attributes it"
| "item_attributes (ItImpl it) = impl_attributes it"
| "item_attributes (ItTrait it) = trait_attributes it"
| "item_attributes (ItExtern it) = extern_block_attributes it"
| "item_attributes (ItMod it) = md_attributes it"
| "item_attributes (ItUse it) = use_attributes it"

fun set_attributes :: "Attribute list \<Rightarrow> Item \<Rightarrow> Item" where
  "set_attributes attrs (ItAnnotation it) = ItAnnotation (it\<lparr>ann_attributes := attrs\<rparr>)"
| "set_attributes attrs (ItFn it) = ItFn (it\<lparr>fn_attributes := attrs\<rparr>)"
| "set_attributes attrs (ItStruct it) = ItStruct (it\<lparr>struct_attributes := attrs\<rparr>)"
| "set_attributes attrs (ItEnum it) = ItEnum (it\<lparr>enum_attributes := attrs\<rparr>)"
| "set_attributes attrs (ItImpl it) = ItImpl (it\<lparr>impl_attributes := attrs\<rparr>)"
| "set_attributes attrs (ItTrait it) = ItTrait (it\<lparr>trait_attributes := attrs\<rparr>)"
| "set_attributes attrs (ItExtern it) = ItExtern (it\<lparr>extern_block_attributes := attrs\<rparr>)"
| "set_attributes attrs (ItMod (ModDecl n a d its ch ord p f e)) =
     ItMod (ModDecl n attrs d its ch ord p f e)"
| "set_attributes attrs (ItUse it) = ItUse (it\<lparr>use_attributes := attrs\<rparr>)"

lemma item_attributes_set [simp]: "item_attributes (set_attributes attrs it) = attrs"
  by (cases "(attrs, it)" rule: set_attributes.cases) simp_all

end
