(* ===== verification/Hir.thy ===== *)
theory Hir
  imports Ast
begin

text \<open>
  The semantic identities and tables of \<open>crates/ruac/src/hir.rs\<close>: modules, definitions,
  their scopes, path resolution with its fallbacks to the root and to the builtin prelude,
  and the visibility test of a resolved target.

  Identities are the \<open>u32\<close> newtypes of the source; an index outside a table is the panic
  of \<open>Vec\<close> indexing, so every lookup returns an \<open>outcome\<close>. The maps whose iteration order
  is observed (language items, trait items, the traits of a type) are the ordered lists of
  \<open>Btree\<close>; the maps that are only looked up are partial functions.
\<close>

section \<open>Identities\<close>

datatype ModuleId = ModuleId (ModuleId_raw: u32)
datatype DefId = DefId (DefId_raw: u32)
datatype LocalId = LocalId (LocalId_raw: u32)
datatype ExternId = ExternId (ExternId_raw: u32)

definition ModuleId_index :: "ModuleId \<Rightarrow> nat" where
  "ModuleId_index m = unat (ModuleId_raw m)"

definition DefId_index :: "DefId \<Rightarrow> nat" where
  "DefId_index d = unat (DefId_raw d)"

definition LocalId_index :: "LocalId \<Rightarrow> nat" where
  "LocalId_index l = unat (LocalId_raw l)"

instantiation DefId :: linorder
begin

definition less_eq_DefId :: "DefId \<Rightarrow> DefId \<Rightarrow> bool" where
  "less_eq_DefId a b \<longleftrightarrow> DefId_raw a \<le> DefId_raw b"

definition less_DefId :: "DefId \<Rightarrow> DefId \<Rightarrow> bool" where
  "less_DefId a b \<longleftrightarrow> DefId_raw a < DefId_raw b"

instance
  by standard (auto simp: less_eq_DefId_def less_DefId_def intro: DefId.expand)

end

instantiation ModuleId :: linorder
begin

definition less_eq_ModuleId :: "ModuleId \<Rightarrow> ModuleId \<Rightarrow> bool" where
  "less_eq_ModuleId a b \<longleftrightarrow> ModuleId_raw a \<le> ModuleId_raw b"

definition less_ModuleId :: "ModuleId \<Rightarrow> ModuleId \<Rightarrow> bool" where
  "less_ModuleId a b \<longleftrightarrow> ModuleId_raw a < ModuleId_raw b"

instance
  by standard (auto simp: less_eq_ModuleId_def less_ModuleId_def intro: ModuleId.expand)

end

lemma ModuleId_index_inject: "ModuleId_index a = ModuleId_index b \<longleftrightarrow> a = b"
  by (cases a; cases b) (auto simp: ModuleId_index_def word_unat_eq_iff)

lemma DefId_index_inject: "DefId_index a = DefId_index b \<longleftrightarrow> a = b"
  by (cases a; cases b) (auto simp: DefId_index_def word_unat_eq_iff)

section \<open>Tables\<close>

datatype Namespace = NsValue | NsType | NsModule

datatype VariantShape = ShapeUnit | ShapeTuple | ShapeStruct

datatype DefKind =
  KAnnotation
| KFunction
| KStruct
| KEnum
| KEnumVariant DefId VariantShape
| KTrait
| KTraitMethod DefId
| KMethod DefId
| KExternFunction ExternId

record DefData =
  def_id :: DefId
  def_module :: ModuleId
  def_name :: bytes
  def_kind :: DefKind
  def_public :: bool

record ModuleScope =
  scope_values :: "bytes \<rightharpoonup> DefId"
  scope_types :: "bytes \<rightharpoonup> DefId"
  scope_modules :: "bytes \<rightharpoonup> ModuleId"

definition ModuleScope_default :: ModuleScope where
  "ModuleScope_default =
     \<lparr>scope_values = Map.empty, scope_types = Map.empty, scope_modules = Map.empty\<rparr>"

record ModuleData =
  mod_id :: ModuleId
  mod_parent :: "ModuleId option"
  mod_path :: ModulePath
  mod_file :: FileId
  mod_is_file :: bool
  mod_is_declaration :: bool
  mod_public :: bool
  mod_scope :: ModuleScope

datatype ResolvedTarget =
  ResolvedLocal LocalId
| ResolvedItem DefId
| ResolvedModule ModuleId
| ResolvedBuiltin BuiltinId
| ResolvedExtern ExternId
| ResolvedError

datatype TraitTarget = TraitItem DefId | TraitBuiltin BuiltinTraitId

definition trait_number :: "BuiltinTraitId \<Rightarrow> nat" where
  "trait_number b = length (takeWhile (\<lambda>x. x \<noteq> b) (map snd trait_table))"

lemma nth_trait_number: "map snd trait_table ! trait_number b = b"
  by (cases b) (simp_all add: trait_number_def trait_table_def)

lemma trait_number_inject: "trait_number a = trait_number b \<longleftrightarrow> a = b"
  by (metis nth_trait_number)

text \<open>The derived order: items first, by identity; then the builtins in declaration order.\<close>

fun trait_target_key :: "TraitTarget \<Rightarrow> nat \<times> nat" where
  "trait_target_key (TraitItem d) = (0, DefId_index d)"
| "trait_target_key (TraitBuiltin b) = (1, trait_number b)"

lemma trait_target_key_inject: "trait_target_key a = trait_target_key b \<longleftrightarrow> a = b"
  by (cases a; cases b) (auto simp: DefId_index_inject trait_number_inject)

instantiation TraitTarget :: linorder
begin

definition less_eq_TraitTarget :: "TraitTarget \<Rightarrow> TraitTarget \<Rightarrow> bool" where
  "less_eq_TraitTarget a b \<longleftrightarrow> trait_target_key a \<le> trait_target_key b"

definition less_TraitTarget :: "TraitTarget \<Rightarrow> TraitTarget \<Rightarrow> bool" where
  "less_TraitTarget a b \<longleftrightarrow> trait_target_key a < trait_target_key b"

instance
  by standard
    (auto simp: less_eq_TraitTarget_def less_TraitTarget_def less_le_not_le trait_target_key_inject
      simp flip: trait_target_key_inject)

end

record LocalData =
  local_id :: LocalId
  local_name :: bytes
  local_module :: ModuleId
  local_mutable :: bool

record ResolvedImport =
  import_module :: ModuleId
  import_name :: bytes
  import_target :: ResolvedTarget

datatype PrimitiveType = PrimI64 | PrimF64 | PrimBool | PrimBox

datatype TypeTarget =
  TypePrimitive PrimitiveType
| TypeBuiltin BuiltinId
| TypeItem DefId
| TypeGeneric GenericParamId
| TypeSelf
| TypeInfer
| TypeError

record ImplTarget =
  impl_owner :: DefId
  impl_trait_target :: "TraitTarget option"

record ResolvedHir =
  hir_root :: ModuleId
  hir_modules :: "ModuleData list"
  hir_definitions :: "DefData list"
  hir_definition_files :: "DefId \<rightharpoonup> u32"
  hir_standard_library :: "StandardMetadata option"
  hir_language_items :: "(DefId \<times> LanguageItem) list"
  hir_locals :: "LocalData list"
  hir_binding_targets :: "u32 \<times> nat \<times> nat \<rightharpoonup> LocalId"
  hir_item_targets :: "ModuleId \<times> nat \<rightharpoonup> ResolvedTarget"
  hir_enum_variant_targets :: "DefId \<times> nat \<rightharpoonup> DefId"
  hir_trait_method_targets :: "DefId \<times> nat \<rightharpoonup> DefId"
  hir_impl_method_targets :: "ModuleId \<times> nat \<times> nat \<rightharpoonup> DefId"
  hir_extern_function_targets :: "ModuleId \<times> nat \<times> nat \<rightharpoonup> DefId"
  hir_expression_targets :: "ExprId \<rightharpoonup> ResolvedTarget"
  hir_pattern_targets :: "PatternId \<rightharpoonup> ResolvedTarget"
  hir_type_targets :: "TypeId \<rightharpoonup> TypeTarget"
  hir_trait_ref_targets :: "TraitRefId \<rightharpoonup> TraitTarget"
  hir_enum_variants :: "DefId \<times> bytes \<rightharpoonup> DefId"
  hir_associated_items :: "DefId \<times> bytes \<rightharpoonup> DefId"
  hir_trait_items :: "((DefId \<times> bytes) \<times> DefId) list"
  hir_type_traits :: "(DefId \<times> TraitTarget list) list"
  hir_method_origins :: "DefId \<rightharpoonup> DefId"
  hir_trait_method_implementations :: "DefId \<rightharpoonup> DefId"
  hir_trait_default_methods :: "DefId set"
  hir_method_traits :: "DefId \<rightharpoonup> TraitTarget"
  hir_impl_targets :: "ModuleId \<times> nat \<rightharpoonup> ImplTarget"
  hir_imports :: "ResolvedImport list"
  hir_diagnostics :: "StructuredDiagnostic list"

section \<open>Table access\<close>

text \<open>\<open>xs[i]\<close>, with its panic.\<close>

definition index_at :: "'a list \<Rightarrow> nat \<Rightarrow> 'a outcome" where
  "index_at xs i = (if i < length xs then Return (xs ! i) else Panic)"

lemma index_at_Return_iff [simp]: "index_at xs i = Return x \<longleftrightarrow> i < length xs \<and> xs ! i = x"
  by (auto simp: index_at_def)

definition hir_definition :: "ResolvedHir \<Rightarrow> DefId \<Rightarrow> DefData outcome" where
  "hir_definition h d = index_at (hir_definitions h) (DefId_index d)"

definition hir_module :: "ResolvedHir \<Rightarrow> ModuleId \<Rightarrow> ModuleData outcome" where
  "hir_module h m = index_at (hir_modules h) (ModuleId_index m)"

definition language_item :: "ResolvedHir \<Rightarrow> DefId \<Rightarrow> LanguageItem option" where
  "language_item h d = map_of (hir_language_items h) d"

definition binding_target :: "ResolvedHir \<Rightarrow> SourceRange \<Rightarrow> LocalId option" where
  "binding_target h source = hir_binding_targets h (sr_file source, sr_start source, sr_len source)"

definition standard_runtime :: "ResolvedHir \<Rightarrow> DefId \<Rightarrow> RuntimeModule option" where
  "standard_runtime h d =
     Option.bind (hir_definition_files h d) (\<lambda>file.
       Option.bind (hir_standard_library h) (\<lambda>sm. sm_runtime_module sm file))"

definition standard_runtime_named :: "ResolvedHir \<Rightarrow> bytes \<Rightarrow> RuntimeModule option" where
  "standard_runtime_named h name =
     Option.bind (hir_standard_library h) (\<lambda>sm. sm_named_runtime_module sm name)"

definition runtime_helper :: "ResolvedHir \<Rightarrow> bytes \<Rightarrow> RuntimeModule option" where
  "runtime_helper h name = Option.bind (hir_standard_library h) (\<lambda>sm. sm_runtime_helper sm name)"

definition type_is_builtin :: "ResolvedHir \<Rightarrow> RuaType \<Rightarrow> BuiltinId \<Rightarrow> bool" where
  "type_is_builtin h ty builtin =
     (case ty of TyPath i name args \<Rightarrow> hir_type_targets h i = Some (TypeBuiltin builtin) | _ \<Rightarrow> False)"

definition definition_for_target :: "ResolvedHir \<Rightarrow> ResolvedTarget \<Rightarrow> DefId option" where
  "definition_for_target h t =
     (case t of
        ResolvedItem d \<Rightarrow> Some d
      | ResolvedExtern e \<Rightarrow>
          map_option def_id (List.find (\<lambda>d. def_kind d = KExternFunction e) (hir_definitions h))
      | _ \<Rightarrow> None)"

section \<open>Lookup in one module\<close>

text \<open>\<open>a.or_else(b)\<close> on optional results that may panic.\<close>

definition or_else :: "'a option outcome \<Rightarrow> 'a option outcome \<Rightarrow> 'a option outcome" where
  "or_else a b = bind_outcome a (\<lambda>r. case r of Some x \<Rightarrow> Return (Some x) | None \<Rightarrow> b)"

lemma or_else_simps [simp]:
  "or_else (Return (Some x)) b = Return (Some x)"
  "or_else (Return None) b = b"
  "or_else Panic b = Panic"
  by (simp_all add: or_else_def)

lemma or_else_None_iff:
  "or_else a b = Return None \<longleftrightarrow> a = Return None \<and> b = Return None"
  by (cases a) (auto simp: or_else_def split: option.splits)

lemma or_else_Some_iff:
  "or_else a b = Return (Some x)
   \<longleftrightarrow> a = Return (Some x) \<or> a = Return None \<and> b = Return (Some x)"
  by (cases a) (auto simp: or_else_def split: option.splits)

definition hir_target :: "ResolvedHir \<Rightarrow> DefId \<Rightarrow> ResolvedTarget outcome" where
  "hir_target h d =
     map_outcome
       (\<lambda>data. case def_kind data of KExternFunction e \<Rightarrow> ResolvedExtern e | _ \<Rightarrow> ResolvedItem d)
       (hir_definition h d)"

definition value_in_scope :: "ResolvedHir \<Rightarrow> ModuleScope \<Rightarrow> bytes \<Rightarrow> ResolvedTarget option outcome" where
  "value_in_scope h sc name =
     (case scope_values sc name of
        None \<Rightarrow> Return None
      | Some d \<Rightarrow> map_outcome Some (hir_target h d))"

definition lookup_scope ::
    "ResolvedHir \<Rightarrow> ModuleScope \<Rightarrow> Namespace \<Rightarrow> bytes \<Rightarrow> ResolvedTarget option outcome" where
  "lookup_scope h sc ns name =
     (case ns of
        NsValue \<Rightarrow> value_in_scope h sc name
      | NsType \<Rightarrow> Return (map_option ResolvedItem (scope_types sc name))
      | NsModule \<Rightarrow> Return (map_option ResolvedModule (scope_modules sc name)))"

definition constructor_items :: "LanguageItem list" where
  "constructor_items = [LangOptionSome, LangOptionNone, LangResultOk, LangResultErr]"

text \<open>The constructors \<open>Some\<close>, \<open>None\<close>, \<open>Ok\<close> and \<open>Err\<close>, found by name among the language items.\<close>

fun find_constructor :: "ResolvedHir \<Rightarrow> bytes \<Rightarrow> (DefId \<times> LanguageItem) list \<Rightarrow> DefId option outcome" where
  "find_constructor h name [] = Return None"
| "find_constructor h name ((d, item) # rest) =
     bind_outcome (hir_definition h d)
       (\<lambda>data. if def_name data = name \<and> (\<exists>i \<in> set constructor_items. language_item h d = Some i)
               then Return (Some d) else find_constructor h name rest)"

definition rua_builtin :: bytes where
  "rua_builtin = ''__rua_builtin''"

definition lookup_prelude ::
    "ResolvedHir \<Rightarrow> ModuleId \<Rightarrow> Namespace \<Rightarrow> bytes \<Rightarrow> ResolvedTarget option outcome" where
  "lookup_prelude h m ns name =
     bind_outcome (hir_module h (hir_root h)) (\<lambda>root_data.
       case scope_modules (mod_scope root_data) rua_builtin of
         None \<Rightarrow> Return None
       | Some prelude \<Rightarrow>
           if prelude = m then Return None
           else bind_outcome (hir_module h prelude) (\<lambda>data.
             case ns of
               NsValue \<Rightarrow>
                 or_else (value_in_scope h (mod_scope data) name)
                   (map_outcome (map_option ResolvedItem)
                      (find_constructor h name (hir_language_items h)))
             | NsType \<Rightarrow> Return (map_option ResolvedItem (scope_types (mod_scope data) name))
             | NsModule \<Rightarrow> Return None))"

definition resolve_in_module ::
    "ResolvedHir \<Rightarrow> ModuleId \<Rightarrow> Namespace \<Rightarrow> bytes \<Rightarrow> ResolvedTarget option outcome" where
  "resolve_in_module h m ns name =
     bind_outcome (hir_module h m) (\<lambda>data.
       or_else (lookup_scope h (mod_scope data) ns name)
         (or_else
           (if m = hir_root h then Return None
            else bind_outcome (hir_module h (hir_root h))
                   (\<lambda>root_data. lookup_scope h (mod_scope root_data) ns name))
           (lookup_prelude h m ns name)))"

section \<open>Path resolution\<close>

datatype Cursor = CursorModule ModuleId | CursorItem DefId

definition resolve_member :: "ResolvedHir \<Rightarrow> DefId \<Rightarrow> bytes \<Rightarrow> ResolvedTarget option" where
  "resolve_member h owner name =
     map_option ResolvedItem
       (case hir_enum_variants h (owner, name) of
          Some d \<Rightarrow> Some d
        | None \<Rightarrow>
            (case hir_associated_items h (owner, name) of
               Some d \<Rightarrow> Some d
             | None \<Rightarrow> map_of (hir_trait_items h) (owner, name)))"

definition item_cursor :: "ResolvedTarget option \<Rightarrow> Cursor option" where
  "item_cursor r = (case r of Some (ResolvedItem item) \<Rightarrow> Some (CursorItem item) | _ \<Rightarrow> None)"

fun resolve_rest ::
    "ResolvedHir \<Rightarrow> Namespace \<Rightarrow> Cursor \<Rightarrow> bytes list \<Rightarrow> ResolvedTarget option outcome" where
  "resolve_rest h ns cursor [] = Return None"
| "resolve_rest h ns (CursorModule m) [s] = resolve_in_module h m ns s"
| "resolve_rest h ns (CursorItem owner) [s] = Return (resolve_member h owner s)"
| "resolve_rest h ns (CursorModule m) (s # t # ts) =
     bind_outcome (hir_module h m) (\<lambda>data.
       case scope_modules (mod_scope data) s of
         Some child \<Rightarrow> resolve_rest h ns (CursorModule child) (t # ts)
       | None \<Rightarrow>
           bind_outcome (resolve_in_module h m NsType s) (\<lambda>r.
             case item_cursor r of
               Some cursor \<Rightarrow> resolve_rest h ns cursor (t # ts)
             | None \<Rightarrow> Return None))"
| "resolve_rest h ns (CursorItem owner) (s # t # ts) = Return None"

definition head_cursor :: "ResolvedHir \<Rightarrow> ModuleId \<Rightarrow> bytes \<Rightarrow> Cursor option outcome" where
  "head_cursor h m name =
     bind_outcome (hir_module h m) (\<lambda>data.
       case scope_modules (mod_scope data) name of
         Some child \<Rightarrow> Return (Some (CursorModule child))
       | None \<Rightarrow>
           bind_outcome (hir_module h (hir_root h)) (\<lambda>root_data.
             case scope_modules (mod_scope root_data) name of
               Some child \<Rightarrow> Return (Some (CursorModule child))
             | None \<Rightarrow> map_outcome item_cursor (resolve_in_module h m NsType name)))"

definition resolve_path ::
    "ResolvedHir \<Rightarrow> ModuleId \<Rightarrow> Namespace \<Rightarrow> bytes list \<Rightarrow> ResolvedTarget option outcome" where
  "resolve_path h m ns segs =
     (case segs of
        [] \<Rightarrow> Return None
      | [name] \<Rightarrow> resolve_in_module h m ns name
      | name # rest \<Rightarrow>
          bind_outcome (head_cursor h m name) (\<lambda>c.
            case c of None \<Rightarrow> Return None | Some cursor \<Rightarrow> resolve_rest h ns cursor rest))"

definition canonical_value_target :: "ResolvedHir \<Rightarrow> ResolvedTarget \<Rightarrow> ResolvedTarget" where
  "canonical_value_target h t =
     (case t of
        ResolvedItem d \<Rightarrow>
          (case language_item h d of
             Some LangOptionSome \<Rightarrow> ResolvedBuiltin VariantOptionSome
           | Some LangOptionNone \<Rightarrow> ResolvedBuiltin VariantOptionNone
           | Some LangResultOk \<Rightarrow> ResolvedBuiltin VariantResultOk
           | Some LangResultErr \<Rightarrow> ResolvedBuiltin VariantResultErr
           | _ \<Rightarrow> t)
      | _ \<Rightarrow> t)"

section \<open>Visibility\<close>

text \<open>
  The two loops over \<open>parent\<close> links end only when the links do; \<open>None\<close> is a loop that does
  not return.
\<close>

partial_function (option) is_descendant_of ::
    "ResolvedHir \<Rightarrow> ModuleId \<Rightarrow> ModuleId \<Rightarrow> bool outcome option" where
  "is_descendant_of h m ancestor =
     (if m = ancestor then Some (Return True)
      else case hir_module h m of
             Panic \<Rightarrow> Some Panic
           | Return data \<Rightarrow>
               (case mod_parent data of
                  None \<Rightarrow> Some (Return False)
                | Some p \<Rightarrow> is_descendant_of h p ancestor))"

partial_function (option) module_chain ::
    "ResolvedHir \<Rightarrow> ModuleId \<Rightarrow> ModuleData list \<Rightarrow> ModuleData list outcome option" where
  "module_chain h m acc =
     (case hir_module h m of
        Panic \<Rightarrow> Some Panic
      | Return data \<Rightarrow>
          (case mod_parent data of
             None \<Rightarrow> Some (Return (data # acc))
           | Some p \<Rightarrow> module_chain h p (data # acc)))"

definition module_owner_label :: "ResolvedHir \<Rightarrow> ModuleId \<Rightarrow> bytes outcome" where
  "module_owner_label h m =
     map_outcome
       (\<lambda>data. if is_root (mod_path data) then ''crate root''
               else ''module `'' @ ModulePath_display (mod_path data) @ ''`'')
       (hir_module h m)"

definition last_segment :: "ModulePath \<Rightarrow> bytes" where
  "last_segment p = (if segments p = [] then [] else last (segments p))"

fun first_barrier :: "ResolvedHir \<Rightarrow> ModuleId \<Rightarrow> ModuleData list \<Rightarrow> (bytes \<times> bytes) option outcome option" where
  "first_barrier h from_module [] = Some (Return None)"
| "first_barrier h from_module (data # rest) =
     (case mod_parent data of
        None \<Rightarrow> first_barrier h from_module rest
      | Some p \<Rightarrow>
          if mod_public data then first_barrier h from_module rest
          else case is_descendant_of h from_module p of
                 None \<Rightarrow> None
               | Some Panic \<Rightarrow> Some Panic
               | Some (Return True) \<Rightarrow> first_barrier h from_module rest
               | Some (Return False) \<Rightarrow>
                   Some (map_outcome (\<lambda>owner. Some (last_segment (mod_path data), owner))
                           (module_owner_label h p)))"

definition chain_barrier :: "ResolvedHir \<Rightarrow> ModuleId \<Rightarrow> ModuleId \<Rightarrow> (bytes \<times> bytes) option outcome option" where
  "chain_barrier h from_module m =
     (case module_chain h m [] of
        None \<Rightarrow> None
      | Some Panic \<Rightarrow> Some Panic
      | Some (Return chain) \<Rightarrow> first_barrier h from_module chain)"

definition private_barrier ::
    "ResolvedHir \<Rightarrow> ModuleId \<Rightarrow> ResolvedTarget \<Rightarrow> (bytes \<times> bytes) option outcome option" where
  "private_barrier h from_module t =
     (case t of
        ResolvedItem d \<Rightarrow>
          (case hir_definition h d of
             Panic \<Rightarrow> Some Panic
           | Return data \<Rightarrow>
               if def_public data then chain_barrier h from_module (def_module data)
               else case is_descendant_of h from_module (def_module data) of
                      None \<Rightarrow> None
                    | Some Panic \<Rightarrow> Some Panic
                    | Some (Return True) \<Rightarrow> chain_barrier h from_module (def_module data)
                    | Some (Return False) \<Rightarrow>
                        Some (map_outcome (\<lambda>owner. Some (def_name data, owner))
                                (module_owner_label h (def_module data))))
      | ResolvedModule m \<Rightarrow> chain_barrier h from_module m
      | _ \<Rightarrow> Some (Return None))"

end
