(* ===== verification/Hir_Collect.thy ===== *)
theory Hir_Collect
  imports Hir Strings
begin

text \<open>
  Declaration collection, the first half of \<open>crates/ruac/src/hir.rs\<close>: one pass allocates
  modules, definitions and scopes, later passes attach trait methods, impl methods, inherited
  default methods and the language items. Every pass threads the tables and may panic where
  the source indexes, asserts or expects.
\<close>

section \<open>Folding a step over a list\<close>

fun fold_outcome :: "('a \<Rightarrow> 's \<Rightarrow> 's outcome) \<Rightarrow> 'a list \<Rightarrow> 's \<Rightarrow> 's outcome" where
  "fold_outcome f [] s = Return s"
| "fold_outcome f (x # xs) s = bind_outcome (f x s) (fold_outcome f xs)"

lemma fold_outcome_cong [fundef_cong]:
  assumes "xs = ys" and "s = t" and "\<And>x s. x \<in> set ys \<Longrightarrow> f x s = g x s"
  shows "fold_outcome f xs s = fold_outcome g ys t"
  using assms(3) unfolding assms(1,2)
proof (induction ys arbitrary: t)
  case (Cons y ys)
  then show ?case by (cases "g y t") simp_all
qed simp

lemma fold_outcome_append:
  "fold_outcome f (xs @ ys) s = bind_outcome (fold_outcome f xs s) (fold_outcome f ys)"
proof (induction xs arbitrary: s)
  case (Cons x xs)
  then show ?case by (cases "f x s") simp_all
qed simp

text \<open>A step that succeeds and keeps an invariant makes the whole loop succeed and keep it.\<close>

lemma fold_outcome_inv:
  assumes "P s" and "\<And>x s. x \<in> set xs \<Longrightarrow> P s \<Longrightarrow> \<exists>s'. f x s = Return s' \<and> P s'"
  shows "\<exists>s'. fold_outcome f xs s = Return s' \<and> P s'"
  using assms
proof (induction xs arbitrary: s)
  case (Cons x xs)
  obtain s1 where s1: "f x s = Return s1" "P s1" using Cons.prems by force
  have "\<exists>s'. fold_outcome f xs s1 = Return s' \<and> P s'"
    by (rule Cons.IH) (use s1 Cons.prems in auto)
  with s1 show ?case by simp
qed simp

section \<open>Diagnostics\<close>

definition push_diagnostic :: "StructuredDiagnostic \<Rightarrow> ResolvedHir \<Rightarrow> ResolvedHir" where
  "push_diagnostic d h = h\<lparr>hir_diagnostics := hir_diagnostics h @ [d]\<rparr>"

text \<open>The position of a diagnostic: the expression it is about, if there is one.\<close>

definition span_file :: "SourceRange option \<Rightarrow> FileId option" where
  "span_file span = map_option (\<lambda>r. FileId (sr_file r)) span"

definition span_range :: "SourceRange option \<Rightarrow> TextRange option outcome" where
  "span_range span =
     (case span of
        None \<Rightarrow> Return None
      | Some r \<Rightarrow> map_outcome Some (TextRange_at (of_nat (sr_start r)) (of_nat (sr_len r))))"

definition with_line :: "SourceRange option \<Rightarrow> StructuredDiagnostic \<Rightarrow> StructuredDiagnostic" where
  "with_line span d =
     (case span of None \<Rightarrow> d | Some r \<Rightarrow> with_argument d ''line'' (show_nat (sr_line r)))"

definition diagnostic_at ::
    "DiagnosticCode \<Rightarrow> SourceRange option \<Rightarrow> (bytes \<times> bytes) list \<Rightarrow> StructuredDiagnostic outcome" where
  "diagnostic_at code span arguments =
     map_outcome
       (\<lambda>range. with_line span
          (foldl (\<lambda>d (name, val). with_argument d name val)
            (StructuredDiagnostic_new code (span_file span) range) arguments))
       (span_range span)"

definition report_unresolved :: "SourceRange option \<Rightarrow> bytes \<Rightarrow> ResolvedHir \<Rightarrow> ResolvedHir outcome" where
  "report_unresolved span name h =
     map_outcome (\<lambda>d. push_diagnostic d h) (diagnostic_at NameUnresolved span [(''name'', name)])"

definition report_unknown_member ::
    "SourceRange option \<Rightarrow> bytes \<Rightarrow> bytes \<Rightarrow> bytes \<Rightarrow> ResolvedHir \<Rightarrow> ResolvedHir outcome" where
  "report_unknown_member span owner member kind h =
     map_outcome (\<lambda>d. push_diagnostic d h)
       (diagnostic_at NameUnknownMember span
         [(''owner'', owner), (''member'', member), (''kind'', kind)])"

definition report_private_access ::
    "SourceRange option \<Rightarrow> bytes \<Rightarrow> bytes \<Rightarrow> ResolvedHir \<Rightarrow> ResolvedHir outcome" where
  "report_private_access span name owner h =
     map_outcome (\<lambda>d. push_diagnostic d h)
       (diagnostic_at NamePrivateAccess span [(''name'', name), (''owner'', owner)])"

definition report_immutable_assignment ::
    "SourceRange \<Rightarrow> bytes \<Rightarrow> ResolvedHir \<Rightarrow> ResolvedHir outcome" where
  "report_immutable_assignment span name h =
     map_outcome (\<lambda>d. push_diagnostic d h)
       (diagnostic_at TypeImmutableAssignment (Some span) [(''name'', name)])"

definition has_argument :: "StructuredDiagnostic \<Rightarrow> bytes \<Rightarrow> bytes \<Rightarrow> bool" where
  "has_argument d name val =
     list_ex (\<lambda>a. arg_name a = name \<and> arg_value a = val) (sd_arguments d)"

definition report_duplicate :: "ModuleId \<Rightarrow> bytes \<Rightarrow> ResolvedHir \<Rightarrow> ResolvedHir outcome" where
  "report_duplicate m name h =
     map_outcome
       (\<lambda>data.
          let owner = ModulePath_display (mod_path data) in
          if list_ex (\<lambda>d. sd_code d = NameDuplicateDefinition
                \<and> has_argument d ''name'' name \<and> has_argument d ''owner'' owner)
              (hir_diagnostics h)
          then h
          else push_diagnostic
                 (with_argument
                   (with_argument (StructuredDiagnostic_new NameDuplicateDefinition None None)
                     ''name'' name)
                   ''owner'' owner) h)
       (hir_module h m)"

definition report_duplicate_variant :: "DefId \<Rightarrow> bytes \<Rightarrow> ResolvedHir \<Rightarrow> ResolvedHir outcome" where
  "report_duplicate_variant owner name h =
     map_outcome
       (\<lambda>data.
          push_diagnostic
            (with_argument
              (with_argument
                (with_argument (StructuredDiagnostic_new NameDuplicateDefinition None None)
                  ''name'' name)
                ''owner'' (def_name data))
              ''kind'' ''variant'') h)
       (hir_definition h owner)"

section \<open>Allocation and scopes\<close>

definition alloc_def ::
    "ModuleId \<Rightarrow> bytes \<Rightarrow> DefKind \<Rightarrow> bool \<Rightarrow> ResolvedHir \<Rightarrow> DefId \<times> ResolvedHir" where
  "alloc_def m name kind public h =
     (let d = DefId (of_nat (length (hir_definitions h))) in
      (d, h\<lparr>hir_definitions := hir_definitions h
             @ [\<lparr>def_id = d, def_module = m, def_name = name, def_kind = kind, def_public = public\<rparr>]\<rparr>))"

definition set_scope :: "ModuleId \<Rightarrow> ModuleScope \<Rightarrow> ResolvedHir \<Rightarrow> ResolvedHir" where
  "set_scope m sc h =
     h\<lparr>hir_modules := (hir_modules h)
        [ModuleId_index m := (hir_modules h ! ModuleId_index m)\<lparr>mod_scope := sc\<rparr>]\<rparr>"

definition same_enum :: "DefKind \<Rightarrow> DefKind \<Rightarrow> bool" where
  "same_enum a b \<longleftrightarrow>
     (case (a, b) of (KEnumVariant l _, KEnumVariant r _) \<Rightarrow> l = r | _ \<Rightarrow> False)"

definition check_previous ::
    "ModuleId \<Rightarrow> bytes \<Rightarrow> DefId \<Rightarrow> DefId option \<Rightarrow> ResolvedHir \<Rightarrow> ResolvedHir outcome" where
  "check_previous m name d previous h =
     (case previous of
        None \<Rightarrow> Return h
      | Some p \<Rightarrow>
          bind_outcome (hir_definition h p) (\<lambda>a.
            bind_outcome (hir_definition h d) (\<lambda>b.
              if same_enum (def_kind a) (def_kind b) then Return h else report_duplicate m name h)))"

definition hir_insert ::
    "ModuleId \<Rightarrow> Namespace \<Rightarrow> bytes \<Rightarrow> DefId \<Rightarrow> ResolvedHir \<Rightarrow> ResolvedHir outcome" where
  "hir_insert m ns name d h =
     bind_outcome (hir_module h m) (\<lambda>data.
       let sc = mod_scope data in
       case ns of
         NsValue \<Rightarrow>
           check_previous m name d (scope_values sc name)
             (set_scope m (sc\<lparr>scope_values := (scope_values sc)(name \<mapsto> d)\<rparr>) h)
       | NsType \<Rightarrow>
           check_previous m name d (scope_types sc name)
             (set_scope m (sc\<lparr>scope_types := (scope_types sc)(name \<mapsto> d)\<rparr>) h)
       | NsModule \<Rightarrow> Panic)"

definition set_item_target :: "ModuleId \<Rightarrow> nat \<Rightarrow> ResolvedTarget \<Rightarrow> ResolvedHir \<Rightarrow> ResolvedHir" where
  "set_item_target m i t h = h\<lparr>hir_item_targets := (hir_item_targets h)((m, i) \<mapsto> t)\<rparr>"

definition set_definition_file :: "DefId \<Rightarrow> u32 \<Rightarrow> ResolvedHir \<Rightarrow> ResolvedHir" where
  "set_definition_file d file h = h\<lparr>hir_definition_files := (hir_definition_files h)(d \<mapsto> file)\<rparr>"

section \<open>First pass: items\<close>

fun file_of_items :: "Item list \<Rightarrow> FileId option" where
  "file_of_items [] = None"
| "file_of_items (ItAnnotation a # items) = Some (FileId (sr_file (ann_name_span a)))"
| "file_of_items (ItFn f # items) = Some (FileId (sr_file (fn_name_span f)))"
| "file_of_items (ItStruct s # items) =
     (case struct_fields s of
        [] \<Rightarrow> file_of_items items
      | f # _ \<Rightarrow> Some (FileId (sr_file (field_span f))))"
| "file_of_items (ItTrait t # items) =
     (case trait_methods t of
        [] \<Rightarrow> file_of_items items
      | f # _ \<Rightarrow> Some (FileId (sr_file (tm_name_span f))))"
| "file_of_items (ItImpl im # items) =
     (case impl_methods im of
        [] \<Rightarrow> file_of_items items
      | f # _ \<Rightarrow> Some (FileId (sr_file (fn_name_span f))))"
| "file_of_items (ItMod (ModDecl n a d its ch ord p f e) # items) =
     (case file_of_items its of None \<Rightarrow> file_of_items items | Some file \<Rightarrow> Some file)"
| "file_of_items (ItEnum e # items) = file_of_items items"
| "file_of_items (ItExtern e # items) = file_of_items items"
| "file_of_items (ItUse u # items) = file_of_items items"

definition collect_annotation :: "ModuleId \<Rightarrow> nat \<Rightarrow> AnnotationDecl \<Rightarrow> ResolvedHir \<Rightarrow> ResolvedHir outcome" where
  "collect_annotation m i a h =
     (let (d, h1) = alloc_def m (ann_name a) KAnnotation (ann_public a) h in
      map_outcome (set_item_target m i (ResolvedItem d))
        (hir_insert m NsType (ann_name a) d (set_definition_file d (sr_file (ann_name_span a)) h1)))"

definition collect_function :: "ModuleId \<Rightarrow> nat \<Rightarrow> FnDecl \<Rightarrow> ResolvedHir \<Rightarrow> ResolvedHir outcome" where
  "collect_function m i f h =
     (let (d, h1) = alloc_def m (fn_name f) KFunction (fn_public f) h in
      map_outcome (set_item_target m i (ResolvedItem d))
        (hir_insert m NsValue (fn_name f) d (set_definition_file d (sr_file (fn_name_span f)) h1)))"

definition collect_struct :: "ModuleId \<Rightarrow> nat \<Rightarrow> StructDecl \<Rightarrow> ResolvedHir \<Rightarrow> ResolvedHir outcome" where
  "collect_struct m i s h =
     (let (d, h1) = alloc_def m (struct_name s) KStruct (struct_public s) h in
      map_outcome (set_item_target m i (ResolvedItem d))
        (bind_outcome (hir_insert m NsType (struct_name s) d h1)
          (hir_insert m NsValue (struct_name s) d)))"

fun variant_shape :: "VariantKind \<Rightarrow> VariantShape" where
  "variant_shape VariantUnit = ShapeUnit"
| "variant_shape (VariantTuple _) = ShapeTuple"
| "variant_shape (VariantStruct _) = ShapeStruct"

definition collect_variant ::
    "ModuleId \<Rightarrow> DefId \<Rightarrow> bool \<Rightarrow> nat \<times> Variant \<Rightarrow> ResolvedHir \<Rightarrow> ResolvedHir outcome" where
  "collect_variant m owner public entry h =
     (let (index, v) = entry;
          (d, h1) = alloc_def m (variant_name v) (KEnumVariant owner (variant_shape (variant_kind v))) public h;
          previous = hir_enum_variants h1 (owner, variant_name v);
          h2 = h1\<lparr>hir_enum_variants := (hir_enum_variants h1)((owner, variant_name v) \<mapsto> d)\<rparr> in
      bind_outcome
        (if previous = None then Return h2 else report_duplicate_variant owner (variant_name v) h2)
        (\<lambda>h3.
          let h4 = h3\<lparr>hir_enum_variant_targets := (hir_enum_variant_targets h3)((owner, index) \<mapsto> d)\<rparr> in
          case variant_kind v of
            VariantUnit \<Rightarrow> hir_insert m NsValue (variant_name v) d h4
          | _ \<Rightarrow> Return h4))"

definition collect_enum :: "ModuleId \<Rightarrow> nat \<Rightarrow> EnumDecl \<Rightarrow> ResolvedHir \<Rightarrow> ResolvedHir outcome" where
  "collect_enum m i e h =
     (let (owner, h1) = alloc_def m (enum_name e) KEnum (enum_public e) h in
      bind_outcome (hir_insert m NsType (enum_name e) owner h1) (\<lambda>h2.
        bind_outcome (hir_insert m NsValue (enum_name e) owner h2) (\<lambda>h3.
          fold_outcome (collect_variant m owner (enum_public e)) (List.enumerate 0 (enum_variants e))
            (set_item_target m i (ResolvedItem owner) h3))))"

definition collect_trait :: "ModuleId \<Rightarrow> nat \<Rightarrow> TraitDecl \<Rightarrow> ResolvedHir \<Rightarrow> ResolvedHir outcome" where
  "collect_trait m i t h =
     (let (d, h1) = alloc_def m (trait_decl_name t) KTrait (trait_public t) h in
      map_outcome (set_item_target m i (ResolvedItem d))
        (hir_insert m NsType (trait_decl_name t) d h1))"

definition is_extern_kind :: "DefKind \<Rightarrow> bool" where
  "is_extern_kind k \<longleftrightarrow> (case k of KExternFunction _ \<Rightarrow> True | _ \<Rightarrow> False)"

definition collect_extern_fn ::
    "ModuleId \<Rightarrow> nat \<Rightarrow> nat \<times> ExternFn \<Rightarrow> ResolvedHir \<Rightarrow> ResolvedHir outcome" where
  "collect_extern_fn m i entry h =
     (let (index, f) = entry;
          e = ExternId (of_nat (length (filter (\<lambda>d. is_extern_kind (def_kind d)) (hir_definitions h))));
          (d, h1) = alloc_def m (extern_name f) (KExternFunction e) True h in
      map_outcome
        (\<lambda>h2. h2\<lparr>hir_extern_function_targets := (hir_extern_function_targets h2)((m, i, index) \<mapsto> d)\<rparr>)
        (hir_insert m NsValue (extern_name f) d
          (set_definition_file d (sr_file (extern_name_span f)) h1)))"

definition collect_leaf :: "ModuleId \<Rightarrow> nat \<Rightarrow> Item \<Rightarrow> ResolvedHir \<Rightarrow> ResolvedHir outcome" where
  "collect_leaf m i it h =
     (case it of
        ItAnnotation a \<Rightarrow> collect_annotation m i a h
      | ItFn f \<Rightarrow> collect_function m i f h
      | ItStruct s \<Rightarrow> collect_struct m i s h
      | ItEnum e \<Rightarrow> collect_enum m i e h
      | ItTrait t \<Rightarrow> collect_trait m i t h
      | ItExtern b \<Rightarrow> fold_outcome (collect_extern_fn m i) (List.enumerate 0 (extern_fns b)) h
      | ItImpl _ \<Rightarrow> Return h
      | ItUse _ \<Rightarrow> Return h
      | ItMod _ \<Rightarrow> Return h)"

text \<open>The module itself: its row, its name in the parent's scope, its item target.\<close>

definition link_module :: "ModuleId \<Rightarrow> nat \<Rightarrow> bytes \<Rightarrow> ModuleId \<Rightarrow> ResolvedHir \<Rightarrow> ResolvedHir outcome" where
  "link_module m i name child h =
     bind_outcome (hir_module h m) (\<lambda>data.
       let sc = mod_scope data;
           h1 = set_scope m (sc\<lparr>scope_modules := (scope_modules sc)(name \<mapsto> child)\<rparr>) h in
       map_outcome (set_item_target m i (ResolvedModule child))
         (if scope_modules sc name = None then Return h1 else report_duplicate m name h1))"

definition collect_module :: "ModuleId \<Rightarrow> nat \<Rightarrow> ModDecl \<Rightarrow> ResolvedHir \<Rightarrow> (ModuleId \<times> ResolvedHir) outcome" where
  "collect_module m i decl h =
     bind_outcome (hir_module h m) (\<lambda>parent.
       case ModulePath_child (mod_path parent) (md_name decl) of
         Inl _ \<Rightarrow> Panic
       | Inr path \<Rightarrow>
           let child = ModuleId (of_nat (length (hir_modules h)));
               row = \<lparr>mod_id = child, mod_parent = Some m, mod_path = path,
                      mod_file = (case file_of_items (md_items decl) of
                                    Some file \<Rightarrow> file | None \<Rightarrow> mod_file parent),
                      mod_is_file = md_is_file decl, mod_is_declaration = md_is_decl decl,
                      mod_public = md_public decl, mod_scope = ModuleScope_default\<rparr> in
           map_outcome (Pair child)
             (link_module m i (md_name decl) child (h\<lparr>hir_modules := hir_modules h @ [row]\<rparr>)))"

fun collect_items :: "ModuleId \<Rightarrow> nat \<Rightarrow> Item list \<Rightarrow> ResolvedHir \<Rightarrow> ResolvedHir outcome" where
  "collect_items m i [] h = Return h"
| "collect_items m i (ItMod (ModDecl n a d its ch ord p f e) # items) h =
     bind_outcome (collect_module m i (ModDecl n a d its ch ord p f e) h) (\<lambda>(child, h1).
       bind_outcome (collect_items child 0 its h1) (collect_items m (Suc i) items))"
| "collect_items m i (it # items) h =
     bind_outcome (collect_leaf m i it h) (collect_items m (Suc i) items)"

section \<open>Second pass: trait methods\<close>

definition collect_trait_method ::
    "ModuleId \<Rightarrow> DefId \<Rightarrow> bool \<Rightarrow> nat \<times> TraitMethod \<Rightarrow> ResolvedHir \<Rightarrow> ResolvedHir outcome" where
  "collect_trait_method m owner public entry h =
     (let (index, method) = entry;
          (d, h1) = alloc_def m (tm_name method) (KTraitMethod owner) public h;
          h2 = set_definition_file d (sr_file (tm_name_span method)) h1;
          previous = map_of (hir_trait_items h2) (owner, tm_name method);
          h3 = h2\<lparr>hir_trait_items := btree_insert (owner, tm_name method) d (hir_trait_items h2)\<rparr> in
      map_outcome
        (\<lambda>h4. h4\<lparr>hir_trait_default_methods :=
                   (if tm_default method = None then hir_trait_default_methods h4
                    else insert d (hir_trait_default_methods h4)),
                 hir_trait_method_targets := (hir_trait_method_targets h4)((owner, index) \<mapsto> d)\<rparr>)
        (if previous = None then Return h3 else report_duplicate m (tm_name method) h3))"

definition collect_trait_methods :: "ModuleId \<Rightarrow> nat \<Rightarrow> TraitDecl \<Rightarrow> ResolvedHir \<Rightarrow> ResolvedHir outcome" where
  "collect_trait_methods m i t h =
     (case hir_item_targets h (m, i) of
        Some (ResolvedItem owner) \<Rightarrow>
          fold_outcome (collect_trait_method m owner (trait_public t))
            (List.enumerate 0 (trait_methods t)) h
      | _ \<Rightarrow> Return h)"

fun collect_trait_items :: "ModuleId \<Rightarrow> nat \<Rightarrow> Item list \<Rightarrow> ResolvedHir \<Rightarrow> ResolvedHir outcome" where
  "collect_trait_items m i [] h = Return h"
| "collect_trait_items m i (ItMod (ModDecl n a d its ch ord p f e) # items) h =
     bind_outcome (hir_module h m) (\<lambda>data.
       case scope_modules (mod_scope data) n of
         None \<Rightarrow> collect_trait_items m (Suc i) items h
       | Some child \<Rightarrow>
           bind_outcome (collect_trait_items child 0 its h) (collect_trait_items m (Suc i) items))"
| "collect_trait_items m i (ItTrait t # items) h =
     bind_outcome (collect_trait_methods m i t h) (collect_trait_items m (Suc i) items)"
| "collect_trait_items m i (it # items) h = collect_trait_items m (Suc i) items h"

section \<open>Third pass: implementations\<close>

text \<open>\<open>path.split("::")\<close>.\<close>

fun split_path :: "bytes \<Rightarrow> bytes list" where
  "split_path [] = [[]]"
| "split_path [c] = [[c]]"
| "split_path (c # d # s) =
     (if c = CHR '':'' \<and> d = CHR '':'' then [] # split_path s
      else (c # hd (split_path (d # s))) # tl (split_path (d # s)))"

lemma split_path_nonempty [simp]: "split_path s \<noteq> []"
  by (induction s rule: split_path.induct) simp_all

lemma join_split_path: "join ''::'' (split_path s) = s"
proof (induction s rule: split_path.induct)
  case (3 c d s)
  obtain p ps where split: "split_path (d # s) = p # ps" by (cases "split_path (d # s)") auto
  with 3(2) have "join ''::'' ((c # p) # ps) = c # d # s" if "\<not> (c = CHR '':'' \<and> d = CHR '':'')"
    using that by (cases ps) simp_all
  with 3 split show ?case by (auto simp: join_Cons)
qed simp_all

definition trait_target_of ::
    "ResolvedHir \<Rightarrow> bytes \<Rightarrow> ResolvedTarget option \<Rightarrow> TraitTarget option outcome" where
  "trait_target_of h name resolved =
     (case resolved of
        Some (ResolvedItem d) \<Rightarrow>
          map_outcome
            (\<lambda>data. if def_kind data = KTrait then Some (TraitItem d)
                    else map_option TraitBuiltin (builtin_trait name))
            (hir_definition h d)
      | _ \<Rightarrow> Return (map_option TraitBuiltin (builtin_trait name)))"

definition add_type_trait :: "DefId \<Rightarrow> TraitTarget \<Rightarrow> ResolvedHir \<Rightarrow> ResolvedHir" where
  "add_type_trait owner t h =
     h\<lparr>hir_type_traits :=
         btree_insert owner
           (bset_insert t (case map_of (hir_type_traits h) owner of None \<Rightarrow> [] | Some ts \<Rightarrow> ts))
           (hir_type_traits h)\<rparr>"

definition resolve_impl_trait ::
    "ModuleId \<Rightarrow> DefId \<Rightarrow> bytes option \<Rightarrow> ResolvedHir \<Rightarrow> (TraitTarget option \<times> ResolvedHir) outcome" where
  "resolve_impl_trait m owner named h =
     (case named of
        None \<Rightarrow> Return (None, h)
      | Some name \<Rightarrow>
          bind_outcome (resolve_path h m NsType (split_path name)) (\<lambda>resolved.
            bind_outcome (trait_target_of h name resolved) (\<lambda>target.
              case target of
                Some t \<Rightarrow> Return (Some t, add_type_trait owner t h)
              | None \<Rightarrow> map_outcome (Pair None) (report_unresolved None name h))))"

definition link_trait_method ::
    "DefId \<Rightarrow> bytes \<Rightarrow> TraitTarget option \<Rightarrow> ResolvedHir \<Rightarrow> ResolvedHir" where
  "link_trait_method d name target h =
     (case target of
        None \<Rightarrow> h
      | Some t \<Rightarrow>
          let h1 = h\<lparr>hir_method_traits := (hir_method_traits h)(d \<mapsto> t)\<rparr> in
          case t of
            TraitBuiltin _ \<Rightarrow> h1
          | TraitItem trait_id \<Rightarrow>
              (case map_of (hir_trait_items h1) (trait_id, name) of
                 None \<Rightarrow> h1
               | Some method \<Rightarrow>
                   h1\<lparr>hir_trait_method_implementations :=
                        (hir_trait_method_implementations h1)(d \<mapsto> method)\<rparr>))"

definition collect_impl_method ::
    "ModuleId \<Rightarrow> nat \<Rightarrow> DefId \<Rightarrow> TraitTarget option \<Rightarrow> nat \<times> FnDecl \<Rightarrow> ResolvedHir \<Rightarrow> ResolvedHir outcome" where
  "collect_impl_method m i owner target entry h =
     (let (index, method) = entry;
          (d, h1) = alloc_def m (fn_name method) (KMethod owner) (fn_public method) h;
          h2 = set_definition_file d (sr_file (fn_name_span method)) h1;
          previous = hir_associated_items h2 (owner, fn_name method);
          h3 = h2\<lparr>hir_associated_items := (hir_associated_items h2)((owner, fn_name method) \<mapsto> d)\<rparr> in
      map_outcome
        (\<lambda>h4. let h5 = link_trait_method d (fn_name method) target h4 in
              h5\<lparr>hir_impl_method_targets := (hir_impl_method_targets h5)((m, i, index) \<mapsto> d)\<rparr>)
        (if previous = None then Return h3 else report_duplicate m (fn_name method) h3))"

definition collect_impl :: "ModuleId \<Rightarrow> nat \<Rightarrow> ImplDecl \<Rightarrow> ResolvedHir \<Rightarrow> ResolvedHir outcome" where
  "collect_impl m i im h =
     bind_outcome (resolve_path h m NsType (split_path (impl_type_name im))) (\<lambda>resolved.
       case resolved of
         Some (ResolvedItem owner) \<Rightarrow>
           bind_outcome (resolve_impl_trait m owner (impl_trait_name im) h) (\<lambda>(target, h1).
             fold_outcome (collect_impl_method m i owner target) (List.enumerate 0 (impl_methods im))
               (h1\<lparr>hir_impl_targets := (hir_impl_targets h1)
                    ((m, i) \<mapsto> \<lparr>impl_owner = owner, impl_trait_target = target\<rparr>)\<rparr>))
       | _ \<Rightarrow> report_unresolved None (impl_type_name im) h)"

fun collect_impl_items :: "ModuleId \<Rightarrow> nat \<Rightarrow> Item list \<Rightarrow> ResolvedHir \<Rightarrow> ResolvedHir outcome" where
  "collect_impl_items m i [] h = Return h"
| "collect_impl_items m i (ItMod (ModDecl n a d its ch ord p f e) # items) h =
     bind_outcome (hir_module h m) (\<lambda>data.
       case scope_modules (mod_scope data) n of
         None \<Rightarrow> collect_impl_items m (Suc i) items h
       | Some child \<Rightarrow>
           bind_outcome (collect_impl_items child 0 its h) (collect_impl_items m (Suc i) items))"
| "collect_impl_items m i (ItImpl im # items) h =
     bind_outcome (collect_impl m i im h) (collect_impl_items m (Suc i) items)"
| "collect_impl_items m i (it # items) h = collect_impl_items m (Suc i) items h"

section \<open>Inherited default methods and language items\<close>

definition trait_implementations :: "ResolvedHir \<Rightarrow> (DefId \<times> DefId) list" where
  "trait_implementations h =
     concat (map (\<lambda>(owner, targets).
       List.map_filter (\<lambda>t. case t of TraitItem d \<Rightarrow> Some (owner, d) | TraitBuiltin _ \<Rightarrow> None) targets)
       (hir_type_traits h))"

definition trait_defaults :: "ResolvedHir \<Rightarrow> DefId \<Rightarrow> (bytes \<times> DefId) list" where
  "trait_defaults h trait_id =
     map (\<lambda>((_, name), method). (name, method))
       (filter (\<lambda>((candidate, _), method). candidate = trait_id \<and> method \<in> hir_trait_default_methods h)
         (hir_trait_items h))"

definition inherit_method ::
    "DefId \<Rightarrow> DefId \<Rightarrow> bytes \<times> DefId \<Rightarrow> ResolvedHir \<Rightarrow> ResolvedHir outcome" where
  "inherit_method owner trait_id entry h =
     (let (name, origin) = entry in
      if hir_associated_items h (owner, name) \<noteq> None then Return h
      else bind_outcome (hir_definition h owner) (\<lambda>owner_data.
        bind_outcome (hir_definition h origin) (\<lambda>origin_data.
          let (d, h1) = alloc_def (def_module owner_data) name (KMethod owner) (def_public origin_data) h in
          Return (h1\<lparr>hir_associated_items := (hir_associated_items h1)((owner, name) \<mapsto> d),
                     hir_method_origins := (hir_method_origins h1)(d \<mapsto> origin),
                     hir_method_traits := (hir_method_traits h1)(d \<mapsto> TraitItem trait_id)\<rparr>))))"

definition collect_inherited_methods :: "ResolvedHir \<Rightarrow> ResolvedHir outcome" where
  "collect_inherited_methods h =
     fold_outcome
       (\<lambda>(owner, trait_id) h1. fold_outcome (inherit_method owner trait_id) (trait_defaults h1 trait_id) h1)
       (trait_implementations h) h"

definition language_definition :: "ResolvedHir \<Rightarrow> ModuleScope \<Rightarrow> bytes list \<Rightarrow> DefId option" where
  "language_definition h sc segs =
     (case segs of
        [name] \<Rightarrow>
          (case scope_types sc name of Some d \<Rightarrow> Some d | None \<Rightarrow> scope_values sc name)
      | [owner_name, member] \<Rightarrow>
          Option.bind (scope_types sc owner_name) (\<lambda>owner.
            case hir_enum_variants h (owner, member) of
              Some d \<Rightarrow> Some d
            | None \<Rightarrow>
                (case hir_associated_items h (owner, member) of
                   Some d \<Rightarrow> Some d
                 | None \<Rightarrow> map_of (hir_trait_items h) (owner, member)))
      | _ \<Rightarrow> None)"

definition install_language_item ::
    "ModuleId \<Rightarrow> bytes \<times> LanguageItem \<Rightarrow> ResolvedHir \<Rightarrow> ResolvedHir outcome" where
  "install_language_item prelude entry h =
     (let (path, item) = entry in
      bind_outcome (hir_module h prelude) (\<lambda>data.
        Return (case language_definition h (mod_scope data) (split_path path) of
                  Some d \<Rightarrow> h\<lparr>hir_language_items := btree_insert d item (hir_language_items h)\<rparr>
                | None \<Rightarrow>
                    push_diagnostic
                      (with_argument (StructuredDiagnostic_new HostBuiltinInvalid None None) ''path'' path)
                      h)))"

definition install_language_items :: "ResolvedHir \<Rightarrow> ResolvedHir outcome" where
  "install_language_items h =
     (case hir_standard_library h of
        None \<Rightarrow> Return h
      | Some sm \<Rightarrow>
          bind_outcome (hir_module h (hir_root h)) (\<lambda>data.
            case scope_modules (mod_scope data) rua_builtin of
              None \<Rightarrow> Return h
            | Some prelude \<Rightarrow> fold_outcome (install_language_item prelude) (sm_language_items sm) h))"

section \<open>All passes\<close>

definition initial_hir :: "Program \<Rightarrow> ResolvedHir" where
  "initial_hir program =
     \<lparr>hir_root = ModuleId 0,
      hir_modules =
        [\<lparr>mod_id = ModuleId 0, mod_parent = None, mod_path = ModulePath [], mod_file = FileId 0,
          mod_is_file = True, mod_is_declaration = prog_is_decl program, mod_public = True,
          mod_scope = ModuleScope_default\<rparr>],
      hir_definitions = [], hir_definition_files = Map.empty,
      hir_standard_library = prog_standard_library program, hir_language_items = [],
      hir_locals = [], hir_binding_targets = Map.empty, hir_item_targets = Map.empty,
      hir_enum_variant_targets = Map.empty, hir_trait_method_targets = Map.empty,
      hir_impl_method_targets = Map.empty, hir_extern_function_targets = Map.empty,
      hir_expression_targets = Map.empty, hir_pattern_targets = Map.empty,
      hir_type_targets = Map.empty, hir_trait_ref_targets = Map.empty,
      hir_enum_variants = Map.empty, hir_associated_items = Map.empty, hir_trait_items = [],
      hir_type_traits = [], hir_method_origins = Map.empty,
      hir_trait_method_implementations = Map.empty, hir_trait_default_methods = {},
      hir_method_traits = Map.empty, hir_impl_targets = Map.empty, hir_imports = [],
      hir_diagnostics = []\<rparr>"

definition collect_declarations :: "Program \<Rightarrow> ResolvedHir outcome" where
  "collect_declarations program =
     (let items = prog_items program; root = ModuleId 0 in
      bind_outcome (collect_items root 0 items (initial_hir program)) (\<lambda>h1.
        bind_outcome (collect_trait_items root 0 items h1) (\<lambda>h2.
          bind_outcome (collect_impl_items root 0 items h2) (\<lambda>h3.
            bind_outcome (collect_inherited_methods h3) install_language_items))))"

end
