(* ===== verification/Lua_Ir.thy ===== *)
theory Lua_Ir
  imports Tokenize
begin

text \<open>
  The structured Lua IR and its printer, \<open>crates/ruac/src/lua_ir.rs\<close>: expressions with
  their constructors and precedence-driven printing, statements and blocks, the stack builder
  code generation drives, and the printer with its source map. An \<open>assert!\<close> or
  \<open>panic!\<close> of the source is \<open>Panic\<close>.
\<close>

section \<open>Expressions\<close>

datatype UnaryOp = OpNeg | OpNot | OpLen

datatype BinaryOp =
  OpOr | OpAnd | OpEq | OpNe | OpLt | OpLe | OpGt | OpGe | OpConcat | OpAdd | OpSub | OpMul
| OpDiv | OpRem

datatype Expr =
  ENil
| EBool bool
| EInteger bytes
| ENumber bytes
| EStringLiteral bytes
| EName bytes
| EField Expr bytes
| EIndex Expr Expr
| ECall Expr "Expr list"
| EMethodCall Expr bytes "Expr list"
| EUnary UnaryOp Expr
| EBinary Expr BinaryOp Expr
| ETable "TableField list"
| EParenthesized Expr
and TableField =
  TNamed bytes Expr
| TIndexed Expr Expr
| TValue Expr

fun op_source :: "BinaryOp \<Rightarrow> bytes" where
  "op_source OpOr = ''or''"
| "op_source OpAnd = ''and''"
| "op_source OpEq = ''==''"
| "op_source OpNe = ''~=''"
| "op_source OpLt = ''<''"
| "op_source OpLe = ''<=''"
| "op_source OpGt = ''>''"
| "op_source OpGe = ''>=''"
| "op_source OpConcat = ''..''"
| "op_source OpAdd = ''+''"
| "op_source OpSub = ''-''"
| "op_source OpMul = ''*''"
| "op_source OpDiv = ''/''"
| "op_source OpRem = ''%''"

fun precedence :: "BinaryOp \<Rightarrow> nat" where
  "precedence OpOr = 1"
| "precedence OpAnd = 2"
| "precedence OpEq = 3"
| "precedence OpNe = 3"
| "precedence OpLt = 3"
| "precedence OpLe = 3"
| "precedence OpGt = 3"
| "precedence OpGe = 3"
| "precedence OpConcat = 4"
| "precedence OpAdd = 5"
| "precedence OpSub = 5"
| "precedence OpMul = 6"
| "precedence OpDiv = 6"
| "precedence OpRem = 6"

section \<open>Lua identifiers and strings\<close>

definition lua_keywords :: "bytes list" where
  "lua_keywords =
     [''and'', ''break'', ''do'', ''else'', ''elseif'', ''end'', ''false'', ''for'', ''function'',
      ''goto'', ''if'', ''in'', ''local'', ''nil'', ''not'', ''or'', ''repeat'', ''return'',
      ''then'', ''true'', ''until'', ''while'']"

definition is_lua_identifier :: "bytes \<Rightarrow> bool" where
  "is_lua_identifier s \<longleftrightarrow>
     (case s of
        [] \<Rightarrow> False
      | first # rest \<Rightarrow>
          (is_ascii_alphabetic first \<or> first = CHR ''_'')
          \<and> list_all (\<lambda>b. is_ascii_alphanumeric b \<or> b = CHR ''_'') rest
          \<and> s \<notin> set lua_keywords)"

definition lua_string :: "bytes \<Rightarrow> bytes" where
  "lua_string val =
     [quote_char]
     @ replace_all [CR] [backslash_char, CHR ''r'']
         (replace_all [LF] [backslash_char, CHR ''n'']
           (replace_all [quote_char] [backslash_char, quote_char]
             (replace_all [backslash_char] [backslash_char, backslash_char] val)))
     @ [quote_char]"

definition lua_member :: "bytes \<Rightarrow> bytes \<Rightarrow> bytes outcome" where
  "lua_member base member_name =
     assert_outcome (is_lua_identifier base)
       (Return (if is_lua_identifier member_name then base @ ''.'' @ member_name
                else base @ ''['' @ lua_string member_name @ '']''))"

section \<open>Constructors\<close>

definition is_statement_call :: "Expr \<Rightarrow> bool" where
  "is_statement_call e \<longleftrightarrow> (case e of ECall _ _ \<Rightarrow> True | EMethodCall _ _ _ \<Rightarrow> True | _ \<Rightarrow> False)"

definition Expr_name :: "bytes \<Rightarrow> Expr outcome" where
  "Expr_name name = assert_outcome (is_lua_identifier name) (Return (EName name))"

definition Expr_string :: "bytes \<Rightarrow> Expr" where
  "Expr_string val = EStringLiteral (lua_string val)"

definition Expr_field :: "Expr \<Rightarrow> bytes \<Rightarrow> Expr outcome" where
  "Expr_field e name = assert_outcome (is_lua_identifier name) (Return (EField e name))"

definition Expr_member :: "Expr \<Rightarrow> bytes \<Rightarrow> Expr outcome" where
  "Expr_member e name =
     (if is_lua_identifier name then Expr_field e name else Return (EIndex e (Expr_string name)))"

definition Expr_method_call :: "Expr \<Rightarrow> bytes \<Rightarrow> Expr list \<Rightarrow> Expr outcome" where
  "Expr_method_call e method args =
     assert_outcome (is_lua_identifier method) (Return (EMethodCall e method args))"

definition named_table :: "(bytes \<times> Expr) list \<Rightarrow> Expr" where
  "named_table entries = ETable (map (\<lambda>(name, v). TNamed name v) entries)"

section \<open>Printing expressions\<close>

definition parens :: "bytes \<Rightarrow> bytes" where
  "parens s = ''('' @ s @ '')''"

definition unary_text :: "UnaryOp \<Rightarrow> bytes \<Rightarrow> bytes" where
  "unary_text op s = (case op of OpNeg \<Rightarrow> ''-'' @ s | OpNot \<Rightarrow> ''not '' @ s | OpLen \<Rightarrow> ''#'' @ s)"

text \<open>Concatenation is right-associative, the other operators are not.\<close>

definition needs_parens :: "BinaryOp \<Rightarrow> nat \<Rightarrow> bool \<Rightarrow> bool" where
  "needs_parens op parent_precedence right_child \<longleftrightarrow>
     precedence op < parent_precedence
     \<or> (precedence op = parent_precedence
        \<and> (if op = OpConcat then \<not> right_child else right_child))"

text \<open>The expressions \<open>prefix_expression\<close> leaves without parentheses.\<close>

fun is_prefix_form :: "Expr \<Rightarrow> bool" where
  "is_prefix_form (EName _) = True"
| "is_prefix_form (EField _ _) = True"
| "is_prefix_form (EIndex _ _) = True"
| "is_prefix_form (ECall _ _) = True"
| "is_prefix_form (EMethodCall _ _ _) = True"
| "is_prefix_form (EParenthesized _) = True"
| "is_prefix_form _ = False"

definition table_key :: "bytes \<Rightarrow> bytes" where
  "table_key name = (if is_lua_identifier name then name else ''['' @ lua_string name @ '']'')"

definition prefix_text :: "Expr \<Rightarrow> bytes \<Rightarrow> bytes" where
  "prefix_text e source = (if is_prefix_form e then source else parens source)"

fun expression_at :: "Expr \<Rightarrow> nat \<Rightarrow> bool \<Rightarrow> bytes"
and table_field :: "TableField \<Rightarrow> bytes" where
  "expression_at ENil parent right = ''nil''"
| "expression_at (EBool b) parent right = (if b then ''true'' else ''false'')"
| "expression_at (EInteger source) parent right = source"
| "expression_at (ENumber source) parent right = source"
| "expression_at (EStringLiteral source) parent right = source"
| "expression_at (EName name) parent right = name"
| "expression_at (EField base name) parent right =
     prefix_text base (expression_at base 0 False) @ ''.'' @ name"
| "expression_at (EIndex base index) parent right =
     prefix_text base (expression_at base 0 False) @ ''['' @ expression_at index 0 False @ '']''"
| "expression_at (ECall callee args) parent right =
     prefix_text callee (expression_at callee 0 False)
     @ parens (join '', '' (map (\<lambda>e. expression_at e 0 False) args))"
| "expression_at (EMethodCall receiver method args) parent right =
     prefix_text receiver (expression_at receiver 0 False) @ '':'' @ method
     @ parens (join '', '' (map (\<lambda>e. expression_at e 0 False) args))"
| "expression_at (EUnary op e) parent right =
     (let rendered = unary_text op (expression_at e 7 False)
      in if 7 < parent then parens rendered else rendered)"
| "expression_at (EBinary left op rt) parent right =
     (let rendered = expression_at left (precedence op) False @ '' '' @ op_source op @ '' ''
                     @ expression_at rt (precedence op) True
      in if needs_parens op parent right then parens rendered else rendered)"
| "expression_at (ETable entries) parent right =
     (if entries = [] then ''{}'' else ''{ '' @ join '', '' (map table_field entries) @ '' }'')"
| "expression_at (EParenthesized e) parent right = parens (expression_at e 0 False)"
| "table_field (TNamed name v) = table_key name @ '' = '' @ expression_at v 0 False"
| "table_field (TIndexed index v) =
     ''['' @ expression_at index 0 False @ ''] = '' @ expression_at v 0 False"
| "table_field (TValue v) = expression_at v 0 False"

definition expression :: "Expr \<Rightarrow> bytes" where
  "expression e = expression_at e 0 False"

definition prefix_expression :: "Expr \<Rightarrow> bytes" where
  "prefix_expression e = prefix_text e (expression e)"

definition expression_list :: "Expr list \<Rightarrow> bytes" where
  "expression_list es = join '', '' (map expression es)"

end
