(* ===== verification/Lua_Block.thy ===== *)
theory Lua_Block
  imports Lua_Ir "HOL-Library.Product_Lexorder"
begin

text \<open>
  Statements, blocks, the stack builder and the statement printer of
  \<open>crates/ruac/src/lua_ir.rs\<close>. The frames of a builder are kept innermost first. A method
  of the builder returns the new builder, or \<open>Panic\<close> where the source asserts or panics;
  the printer threads its output and its source mappings.
\<close>

section \<open>Statements\<close>

datatype FunctionTarget =
  TargetLocal bytes
| TargetPath "bytes list"
| TargetMethod "bytes list" bytes

definition FunctionTarget_local :: "bytes \<Rightarrow> FunctionTarget outcome" where
  "FunctionTarget_local name = assert_outcome (is_lua_identifier name) (Return (TargetLocal name))"

definition FunctionTarget_path :: "bytes list \<Rightarrow> FunctionTarget outcome" where
  "FunctionTarget_path segs =
     assert_outcome (segs \<noteq> []) (assert_outcome (list_all is_lua_identifier segs) (Return (TargetPath segs)))"

definition FunctionTarget_method :: "bytes list \<Rightarrow> bytes \<Rightarrow> FunctionTarget outcome" where
  "FunctionTarget_method receiver method =
     assert_outcome (receiver \<noteq> [])
       (assert_outcome (list_all is_lua_identifier receiver \<and> is_lua_identifier method)
         (Return (TargetMethod receiver method)))"

fun target_source :: "FunctionTarget \<Rightarrow> bytes" where
  "target_source (TargetLocal name) = name"
| "target_source (TargetPath segs) = join ''.'' segs"
| "target_source (TargetMethod receiver method) = join ''.'' receiver @ '':'' @ method"

fun is_local :: "FunctionTarget \<Rightarrow> bool" where
  "is_local (TargetLocal _) = True"
| "is_local _ = False"

datatype InlineStatement =
  InlineExpression Expr
| InlineAssign Expr Expr
| InlineReturn "Expr list"
| InlineBreak

definition InlineStatement_expression :: "Expr \<Rightarrow> InlineStatement outcome" where
  "InlineStatement_expression e = assert_outcome (is_statement_call e) (Return (InlineExpression e))"

datatype Block = Block (entries_of: "Entry list")
and Entry =
  Blank
| Anchored "SourceRange option" Statement
and Statement =
  SAnnotation bytes
| SRaw bytes
| SExpression Expr
| SLocal "bytes list" "Expr list"
| SAssign "Expr list" "Expr list"
| SReturn "Expr list"
| SBreak
| SGoto bytes
| SLabel bytes
| SDo Block
| SWhile Expr Block
| SNumericFor bytes Expr Expr "Expr option" Block
| SFunction FunctionTarget "bytes list" Block
| SIf "IfBranch list" "Block option"
| SCompactIf Expr "InlineStatement list"
and IfBranch = IfBranch Expr Block

record SourceMapping =
  generated_start :: nat
  generated_end :: nat
  mapping_source :: SourceRange

record Printed =
  printed_source :: bytes
  printed_mappings :: "SourceMapping list"

section \<open>The builder\<close>

datatype IfActive = ActiveBranch nat | ActiveElse

datatype Frame =
  FRoot Block
| FDo Block
| FWhile Expr Block
| FNumericFor bytes Expr Expr "Expr option" Block
| FFunction FunctionTarget "bytes list" Block
| FIf "IfBranch list" "Block option" IfActive

record Builder =
  frames :: "Frame list"
  anchors :: "SourceRange list"

definition Builder_new :: Builder where
  "Builder_new = \<lparr>frames = [FRoot (Block [])], anchors = []\<rparr>"

definition push_anchor :: "SourceRange \<Rightarrow> Builder \<Rightarrow> Builder" where
  "push_anchor source b = b\<lparr>anchors := source # anchors b\<rparr>"

definition pop_anchor :: "Builder \<Rightarrow> Builder outcome" where
  "pop_anchor b = (case anchors b of [] \<Rightarrow> Panic | _ # rest \<Rightarrow> Return (b\<lparr>anchors := rest\<rparr>))"

fun branch_update :: "(Block \<Rightarrow> Block) \<Rightarrow> IfBranch \<Rightarrow> IfBranch" where
  "branch_update f (IfBranch condition body) = IfBranch condition (f body)"

text \<open>\<open>current_block_mut\<close>: the block of the innermost frame, updated in place.\<close>

fun update_block :: "(Block \<Rightarrow> Block) \<Rightarrow> Frame \<Rightarrow> Frame outcome" where
  "update_block f (FRoot block) = Return (FRoot (f block))"
| "update_block f (FDo block) = Return (FDo (f block))"
| "update_block f (FWhile condition block) = Return (FWhile condition (f block))"
| "update_block f (FNumericFor v start stop step block) =
     Return (FNumericFor v start stop step (f block))"
| "update_block f (FFunction target params block) = Return (FFunction target params (f block))"
| "update_block f (FIf branches else_body (ActiveBranch i)) =
     (if i < length branches then
        Return (FIf (branches[i := branch_update f (branches ! i)]) else_body (ActiveBranch i))
      else Panic)"
| "update_block f (FIf branches else_body ActiveElse) =
     (case else_body of None \<Rightarrow> Panic | Some block \<Rightarrow> Return (FIf branches (Some (f block)) ActiveElse))"

definition with_current_block :: "(Block \<Rightarrow> Block) \<Rightarrow> Builder \<Rightarrow> Builder outcome" where
  "with_current_block f b = (case frames b of
     [] \<Rightarrow> Panic
   | fr # rest \<Rightarrow> map_outcome (\<lambda>fr'. b\<lparr>frames := fr' # rest\<rparr>) (update_block f fr))"

definition push_entry :: "Entry \<Rightarrow> Block \<Rightarrow> Block" where
  "push_entry e block = Block (entries_of block @ [e])"

definition last_anchor :: "Builder \<Rightarrow> SourceRange option" where
  "last_anchor b = (case anchors b of [] \<Rightarrow> None | a # _ \<Rightarrow> Some a)"

definition add_statement :: "Statement \<Rightarrow> Builder \<Rightarrow> Builder outcome" where
  "add_statement s b = with_current_block (push_entry (Anchored (last_anchor b) s)) b"

definition add_annotation :: "bytes \<Rightarrow> Builder \<Rightarrow> Builder outcome" where
  "add_annotation source = add_statement (SAnnotation source)"

definition add_raw :: "bytes \<Rightarrow> Builder \<Rightarrow> Builder outcome" where
  "add_raw source = add_statement (SRaw source)"

definition add_expression :: "Expr \<Rightarrow> Builder \<Rightarrow> Builder outcome" where
  "add_expression e b = assert_outcome (is_statement_call e) (add_statement (SExpression e) b)"

definition add_local :: "bytes list \<Rightarrow> Expr list \<Rightarrow> Builder \<Rightarrow> Builder outcome" where
  "add_local names vals b =
     assert_outcome (names \<noteq> [])
       (assert_outcome (vals = [] \<or> length vals \<le> length names) (add_statement (SLocal names vals) b))"

definition add_assign :: "Expr \<Rightarrow> Expr \<Rightarrow> Builder \<Rightarrow> Builder outcome" where
  "add_assign target v = add_statement (SAssign [target] [v])"

definition return_values :: "Expr list \<Rightarrow> Builder \<Rightarrow> Builder outcome" where
  "return_values vals = add_statement (SReturn vals)"

definition break_statement :: "Builder \<Rightarrow> Builder outcome" where
  "break_statement = add_statement SBreak"

definition add_goto :: "bytes \<Rightarrow> Builder \<Rightarrow> Builder outcome" where
  "add_goto label = add_statement (SGoto label)"

definition add_label :: "bytes \<Rightarrow> Builder \<Rightarrow> Builder outcome" where
  "add_label label = add_statement (SLabel label)"

definition return_table :: "(bytes \<times> Expr) list \<Rightarrow> Builder \<Rightarrow> Builder outcome" where
  "return_table entries = add_statement (SReturn [named_table entries])"

definition compact_if :: "Expr \<Rightarrow> InlineStatement list \<Rightarrow> Builder \<Rightarrow> Builder outcome" where
  "compact_if condition stmts b =
     assert_outcome (stmts \<noteq> []) (add_statement (SCompactIf condition stmts) b)"

definition push_blank :: "Block \<Rightarrow> Block" where
  "push_blank block =
     (if entries_of block \<noteq> [] \<and> last (entries_of block) = Blank then block
      else push_entry Blank block)"

definition add_blank :: "Builder \<Rightarrow> Builder outcome" where
  "add_blank = with_current_block push_blank"

definition push_frame :: "Frame \<Rightarrow> Builder \<Rightarrow> Builder" where
  "push_frame f b = b\<lparr>frames := f # frames b\<rparr>"

definition begin_do :: "Builder \<Rightarrow> Builder" where
  "begin_do = push_frame (FDo (Block []))"

definition begin_while :: "Expr \<Rightarrow> Builder \<Rightarrow> Builder" where
  "begin_while condition = push_frame (FWhile condition (Block []))"

definition begin_numeric_for ::
    "bytes \<Rightarrow> Expr \<Rightarrow> Expr \<Rightarrow> Expr option \<Rightarrow> Builder \<Rightarrow> Builder" where
  "begin_numeric_for v start stop step = push_frame (FNumericFor v start stop step (Block []))"

definition begin_function :: "FunctionTarget \<Rightarrow> bytes list \<Rightarrow> Builder \<Rightarrow> Builder" where
  "begin_function target params = push_frame (FFunction target params (Block []))"

definition begin_if :: "Expr \<Rightarrow> Builder \<Rightarrow> Builder" where
  "begin_if condition = push_frame (FIf [IfBranch condition (Block [])] None (ActiveBranch 0))"

definition begin_else_if :: "Expr \<Rightarrow> Builder \<Rightarrow> Builder outcome" where
  "begin_else_if condition b = (case frames b of
     FIf branches else_body act # rest \<Rightarrow>
       assert_outcome (else_body = None)
         (Return (b\<lparr>frames := FIf (branches @ [IfBranch condition (Block [])]) else_body
                                 (ActiveBranch (length branches)) # rest\<rparr>))
   | _ \<Rightarrow> Panic)"

definition begin_else :: "Builder \<Rightarrow> Builder outcome" where
  "begin_else b = (case frames b of
     FIf branches else_body act # rest \<Rightarrow>
       assert_outcome (else_body = None)
         (Return (b\<lparr>frames := FIf branches (Some (Block [])) ActiveElse # rest\<rparr>))
   | _ \<Rightarrow> Panic)"

fun frame_statement :: "Frame \<Rightarrow> Statement outcome" where
  "frame_statement (FRoot _) = Panic"
| "frame_statement (FDo body) = Return (SDo body)"
| "frame_statement (FWhile condition body) = Return (SWhile condition body)"
| "frame_statement (FNumericFor v start stop step body) = Return (SNumericFor v start stop step body)"
| "frame_statement (FFunction target params body) = Return (SFunction target params body)"
| "frame_statement (FIf branches else_body act) = Return (SIf branches else_body)"

definition end_block :: "Builder \<Rightarrow> Builder outcome" where
  "end_block b = assert_outcome (length (frames b) > 1)
     (bind_outcome (frame_statement (hd (frames b)))
       (\<lambda>s. add_statement s (b\<lparr>frames := tl (frames b)\<rparr>)))"

definition finish :: "Builder \<Rightarrow> Block outcome" where
  "finish b = (case frames b of [FRoot block] \<Rightarrow> Return block | _ \<Rightarrow> Panic)"

section \<open>The printer\<close>

record Printer =
  out :: bytes
  mappings :: "SourceMapping list"

definition print_line :: "nat \<Rightarrow> bytes \<Rightarrow> Printer \<Rightarrow> Printer" where
  "print_line indent source p =
     p\<lparr>out := out p @ concat (replicate indent ''    '') @ source @ [LF]\<rparr>"

definition print_raw :: "bytes \<Rightarrow> nat \<Rightarrow> Printer \<Rightarrow> Printer" where
  "print_raw source indent p =
     (let s = trim_chars {CR, LF} source in
      if s = [] then p
      else fold (\<lambda>l. print_line indent (trim_end_chars {CR} l)) (str_lines s) p)"

fun inline_statement :: "InlineStatement \<Rightarrow> bytes" where
  "inline_statement (InlineExpression e) = expression e"
| "inline_statement (InlineAssign target v) = expression target @ '' = '' @ expression v"
| "inline_statement (InlineReturn vals) =
     (if vals = [] then ''return'' else ''return '' @ expression_list vals)"
| "inline_statement InlineBreak = ''break''"

definition print_table_return :: "nat \<Rightarrow> TableField list \<Rightarrow> Printer \<Rightarrow> Printer" where
  "print_table_return indent entries p =
     print_line indent ''}''
       (fold (\<lambda>f. print_line (indent + 1) (table_field f @ '','')) entries
         (print_line indent ''return {'' p))"

definition print_return :: "nat \<Rightarrow> Expr list \<Rightarrow> Printer \<Rightarrow> Printer" where
  "print_return indent vals =
     (case vals of
        [] \<Rightarrow> print_line indent ''return''
      | [ETable entries] \<Rightarrow> print_table_return indent entries
      | _ \<Rightarrow> print_line indent (''return '' @ expression_list vals))"

definition for_header :: "bytes \<Rightarrow> Expr \<Rightarrow> Expr \<Rightarrow> Expr option \<Rightarrow> bytes" where
  "for_header v start stop step =
     ''for '' @ v @ '' = '' @ expression start @ '', '' @ expression stop
     @ (case step of None \<Rightarrow> '''' | Some s \<Rightarrow> '', '' @ expression s) @ '' do''"

definition function_header :: "FunctionTarget \<Rightarrow> bytes list \<Rightarrow> bytes" where
  "function_header target params =
     (if is_local target then ''local function'' else ''function'') @ '' ''
     @ target_source target @ parens (join '', '' params)"

text \<open>The mapping of an anchored statement spans what was printed for it.\<close>

definition add_mapping :: "SourceRange option \<Rightarrow> nat \<Rightarrow> Printer \<Rightarrow> Printer" where
  "add_mapping anchor start p = (case anchor of
     None \<Rightarrow> p
   | Some source \<Rightarrow> p\<lparr>mappings := mappings p
       @ [\<lparr>generated_start = start, generated_end = length (out p), mapping_source = source\<rparr>]\<rparr>)"

fun print_block :: "Block \<Rightarrow> nat \<Rightarrow> Printer \<Rightarrow> Printer"
and print_entries :: "Entry list \<Rightarrow> nat \<Rightarrow> Printer \<Rightarrow> Printer"
and print_entry :: "Entry \<Rightarrow> nat \<Rightarrow> Printer \<Rightarrow> Printer"
and print_stmt :: "Statement \<Rightarrow> nat \<Rightarrow> Printer \<Rightarrow> Printer"
and print_branches :: "IfBranch list \<Rightarrow> bytes \<Rightarrow> nat \<Rightarrow> Printer \<Rightarrow> Printer" where
  "print_block (Block entries) indent p = print_entries entries indent p"
| "print_entries [] indent p = p"
| "print_entries (e # es) indent p = print_entries es indent (print_entry e indent p)"
| "print_entry Blank indent p = p\<lparr>out := out p @ [LF]\<rparr>"
| "print_entry (Anchored anchor s) indent p =
     add_mapping anchor (length (out p)) (print_stmt s indent p)"
| "print_stmt (SAnnotation source) indent p = print_line indent source p"
| "print_stmt (SRaw source) indent p = print_raw source indent p"
| "print_stmt (SExpression e) indent p = print_line indent (expression e) p"
| "print_stmt (SLocal names vals) indent p =
     print_line indent (''local '' @ join '', '' names
       @ (if vals = [] then '''' else '' = '' @ expression_list vals)) p"
| "print_stmt (SAssign targets vals) indent p =
     print_line indent (expression_list targets @ '' = '' @ expression_list vals) p"
| "print_stmt (SReturn vals) indent p = print_return indent vals p"
| "print_stmt SBreak indent p = print_line indent ''break'' p"
| "print_stmt (SGoto label) indent p = print_line indent (''goto '' @ label) p"
| "print_stmt (SLabel label) indent p = print_line indent (''::'' @ label @ ''::'') p"
| "print_stmt (SDo body) indent p =
     print_line indent ''end'' (print_block body (indent + 1) (print_line indent ''do'' p))"
| "print_stmt (SWhile condition body) indent p =
     print_line indent ''end'' (print_block body (indent + 1)
       (print_line indent (''while '' @ expression condition @ '' do'') p))"
| "print_stmt (SNumericFor v start stop step body) indent p =
     print_line indent ''end'' (print_block body (indent + 1)
       (print_line indent (for_header v start stop step) p))"
| "print_stmt (SFunction target params body) indent p =
     print_line indent ''end'' (print_block body (indent + 1)
       (print_line indent (function_header target params) p))"
| "print_stmt (SIf branches else_body) indent p =
     (let p1 = print_branches branches ''if'' indent p;
          p2 = (case else_body of None \<Rightarrow> p1
                | Some body \<Rightarrow> print_block body (indent + 1) (print_line indent ''else'' p1))
      in print_line indent ''end'' p2)"
| "print_stmt (SCompactIf condition stmts) indent p =
     print_line indent (''if '' @ expression condition @ '' then ''
       @ join ''; '' (map inline_statement stmts) @ '' end'') p"
| "print_branches [] keyword indent p = p"
| "print_branches (IfBranch condition body # rest) keyword indent p =
     print_branches rest ''elseif'' indent
       (print_block body (indent + 1)
         (print_line indent (keyword @ '' '' @ expression condition @ '' then'') p))"

definition mapping_key :: "SourceMapping \<Rightarrow> nat \<times> nat" where
  "mapping_key m = (generated_start m, generated_end m)"

definition print_with_source_map :: "Block \<Rightarrow> Printed" where
  "print_with_source_map block =
     (let p = print_block block 0 \<lparr>out = [], mappings = []\<rparr>
      in \<lparr>printed_source = out p, printed_mappings = sort_key mapping_key (mappings p)\<rparr>)"

end
