(* ===== verification/Backend_Layout.thy ===== *)
theory Backend_Layout
  imports Hir Strings Hir_Collect Lua_Block
begin

text \<open>
  The Lua names of a checked program, \<open>crates/ruac/src/backend_layout.rs\<close>: the encoding of
  source identifiers, the allocation of one name per definition, module and local, and the
  names code generation makes up. A \<open>BTreeSet<String>\<close> is an ascending list;
  \<open>char::to_uppercase\<close> is the parameter \<open>up\<close> outside ASCII. Of the typed program only the
  resolved tables are read.
\<close>

section \<open>Places\<close>

record Place =
  place_root :: bytes
  place_fields :: "bytes list"

definition Place_name :: "bytes \<Rightarrow> Place" where
  "Place_name name = \<lparr>place_root = name, place_fields = []\<rparr>"

definition Place_field :: "Place \<Rightarrow> bytes \<Rightarrow> Place" where
  "Place_field p field = p\<lparr>place_fields := place_fields p @ [field]\<rparr>"

definition Place_expression :: "Place \<Rightarrow> Lua_Ir.Expr outcome" where
  "Place_expression p =
     bind_outcome (Expr_name (place_root p))
       (fold_outcome (\<lambda>field base. Expr_field base field) (place_fields p))"

definition Place_segments :: "Place \<Rightarrow> bytes list" where
  "Place_segments p = place_root p # place_fields p"

definition Place_function_target :: "Place \<Rightarrow> FunctionTarget outcome" where
  "Place_function_target p = FunctionTarget_path (Place_segments p)"

definition Place_callable_target :: "Place \<Rightarrow> bool \<Rightarrow> FunctionTarget outcome" where
  "Place_callable_target p receiver =
     (if receiver
      then FunctionTarget_method (butlast (Place_segments p)) (last (Place_segments p))
      else Place_function_target p)"

definition Place_display :: "Place \<Rightarrow> bytes" where
  "Place_display p = place_root p @ concat (map (\<lambda>field. ''.'' @ field) (place_fields p))"

section \<open>Identifiers\<close>

definition is_plain_identifier :: "bytes \<Rightarrow> bool" where
  "is_plain_identifier name \<longleftrightarrow>
     (case name of
        [] \<Rightarrow> False
      | first # rest \<Rightarrow>
          (is_ascii_alphabetic first \<or> first = CHR ''_'')
          \<and> list_all (\<lambda>b. is_ascii_alphanumeric b \<or> b = CHR ''_'') rest
          \<and> name \<notin> set lua_keywords \<and> \<not> starts_with ''__rua_'' name
          \<and> \<not> starts_with ''__t'' name \<and> name \<noteq> ''rt'' \<and> name \<noteq> ''tbcreate'')"

definition hex_digit :: "nat \<Rightarrow> char" where
  "hex_digit n = ''0123456789abcdef'' ! (n mod 16)"

definition hex_byte :: "char \<Rightarrow> bytes" where
  "hex_byte c = [hex_digit (byte c div 16), hex_digit (byte c mod 16)]"

definition user_prefix :: bytes where
  "user_prefix = ''__rua_user_''"

definition user_identifier :: "bytes \<Rightarrow> bytes" where
  "user_identifier name =
     (if is_plain_identifier name then name else user_prefix @ concat (map hex_byte name))"

definition ascii_upper :: "char \<Rightarrow> char" where
  "ascii_upper c = (if is_ascii_lowercase c then char_of (byte c - 32) else c)"

definition uppercase_char :: "(bytes \<Rightarrow> bytes) \<Rightarrow> bytes \<Rightarrow> bytes" where
  "uppercase_char up ch = (case ch of [c] \<Rightarrow> [ascii_upper c] | _ \<Rightarrow> up ch)"

fun pascal_case :: "(bytes \<Rightarrow> bytes) \<Rightarrow> bool \<Rightarrow> bytes list \<Rightarrow> bytes" where
  "pascal_case up uppercase [] = []"
| "pascal_case up uppercase (ch # chs) =
     (if ch = ''_'' then pascal_case up True chs
      else if uppercase then uppercase_char up ch @ pascal_case up False chs
      else ch @ pascal_case up False chs)"

definition module_table_identifier :: "(bytes \<Rightarrow> bytes) \<Rightarrow> bytes \<Rightarrow> bytes" where
  "module_table_identifier up module_name =
     (let leaf = last (split_char CHR ''.'' module_name);
          pascal = pascal_case up True (chars leaf) in
      user_identifier (if pascal = [] then ''Module'' else pascal))"

definition module_class_name :: "(bytes \<Rightarrow> bytes) \<Rightarrow> bytes \<Rightarrow> bytes" where
  "module_class_name up module_name =
     (let table = module_table_identifier up module_name in
      case rsplit_once CHR ''.'' module_name of
        None \<Rightarrow> table
      | Some (prefix, _) \<Rightarrow> prefix @ ''.'' @ table)"

section \<open>Allocation\<close>

type_synonym used_names = "ModuleId \<rightharpoonup> bytes list"

definition names_of :: "used_names \<Rightarrow> ModuleId \<Rightarrow> bytes list" where
  "names_of used m = (case used m of None \<Rightarrow> [] | Some names \<Rightarrow> names)"

definition take_name :: "ModuleId \<Rightarrow> bytes \<Rightarrow> used_names \<Rightarrow> used_names" where
  "take_name m name used = used(m \<mapsto> bset_insert name (names_of used m))"

definition allocate_name ::
    "used_names \<Rightarrow> ModuleId \<Rightarrow> bytes \<Rightarrow> nat \<Rightarrow> (bytes \<times> used_names) outcome" where
  "allocate_name used m source_name identity =
     (let candidate = user_identifier source_name; names = names_of used m in
      if candidate \<notin> set names then Return (candidate, take_name m candidate used)
      else let unique = candidate @ ''__'' @ show_nat identity in
           assert_outcome (unique \<notin> set names) (Return (unique, take_name m unique used)))"

definition module_dependency_alias ::
    "(bytes \<Rightarrow> bytes) \<Rightarrow> bytes list \<Rightarrow> nat \<Rightarrow> bytes list \<Rightarrow> (bytes \<times> bytes list) outcome" where
  "module_dependency_alias up segs identity used =
     (let path = concat (map (module_table_identifier up) segs);
          candidate = (if path = [] then ''Module'' else path) in
      if candidate \<notin> set used then Return (candidate, bset_insert candidate used)
      else let unique = candidate @ ''_'' @ show_nat identity in
           assert_outcome (unique \<notin> set used) (Return (unique, bset_insert unique used)))"

text \<open>\<open>while names.contains(&candidate) { candidate.push('_'); }\<close>.\<close>

function pad_until_free :: "bytes list \<Rightarrow> bytes \<Rightarrow> bytes" where
  "pad_until_free names candidate =
     (if candidate \<in> set names then pad_until_free names (candidate @ ''_'') else candidate)"
  by pat_completeness auto
termination
proof (relation "measure (\<lambda>(names, c). length (filter (\<lambda>n. length c \<le> length n) names))")
  fix names :: "bytes list" and c :: bytes
  assume c: "c \<in> set names"
  have "length (filter (\<lambda>n. length (c @ ''_'') \<le> length n) names)
      < length (filter (\<lambda>n. length c \<le> length n) names)"
    using c
  proof (induction names)
    case (Cons n names)
    show ?case
    proof (cases "c \<in> set names")
      case True
      with Cons.IH show ?thesis by auto
    next
      case False
      with Cons.prems have "n = c" by simp
      moreover have "length (filter (\<lambda>n. length (c @ ''_'') \<le> length n) names)
          \<le> length (filter (\<lambda>n. length c \<le> length n) names)"
        by (induction names) auto
      ultimately show ?thesis by simp
    qed
  qed simp
  then show "((names, c @ ''_''), names, c)
      \<in> measure (\<lambda>(names, c). length (filter (\<lambda>n. length c \<le> length n) names))" by simp
qed simp

declare pad_until_free.simps [simp del]

definition free_name :: "bytes list \<Rightarrow> bytes \<Rightarrow> bytes \<Rightarrow> bytes" where
  "free_name names candidate suffix =
     (if candidate \<in> set names then pad_until_free names (candidate @ suffix) else candidate)"

section \<open>The layout\<close>

record BackendLayout =
  bl_modules :: "(ModuleId \<times> Place) list"
  bl_definitions :: "DefId \<rightharpoonup> Place"
  bl_externs :: "ExternId \<rightharpoonup> Place"
  bl_locals :: "LocalId \<rightharpoonup> Place"
  bl_local_names :: "ModuleId \<times> bytes \<rightharpoonup> bytes"
  bl_root_names :: "bytes list"
  bl_next_temporary :: nat

definition expect :: "'a option \<Rightarrow> 'a outcome" where
  "expect x = (case x of None \<Rightarrow> Panic | Some y \<Rightarrow> Return y)"

lemma expect_Return_iff [simp]: "expect x = Return y \<longleftrightarrow> x = Some y"
  by (cases x) (simp_all add: expect_def)

definition last_path_segment :: "ModuleData \<Rightarrow> bytes outcome" where
  "last_path_segment data =
     (if segments (mod_path data) = [] then Panic else Return (last (segments (mod_path data))))"

record LayoutState =
  ls_used :: used_names
  ls_modules :: "(ModuleId \<times> Place) list"
  ls_aliases :: "bytes list"

definition put_module :: "ModuleId \<Rightarrow> Place \<Rightarrow> LayoutState \<Rightarrow> LayoutState" where
  "put_module m p st = st\<lparr>ls_modules := btree_insert m p (ls_modules st)\<rparr>"

definition place_alias :: "(bytes \<Rightarrow> bytes) \<Rightarrow> ModuleData \<Rightarrow> LayoutState \<Rightarrow> LayoutState outcome" where
  "place_alias up data st =
     map_outcome
       (\<lambda>(alias, aliases). put_module (mod_id data) (Place_name alias) (st\<lparr>ls_aliases := aliases\<rparr>))
       (module_dependency_alias up (segments (mod_path data)) (ModuleId_index (mod_id data))
          (ls_aliases st))"

text \<open>\<open>BackendLayout::new\<close>: every module but the root is a table of its parent.\<close>

definition layout_module ::
    "(bytes \<Rightarrow> bytes) \<Rightarrow> ModuleId \<Rightarrow> ModuleData \<Rightarrow> LayoutState \<Rightarrow> LayoutState outcome" where
  "layout_module up root data st =
     bind_outcome (expect (mod_parent data)) (\<lambda>parent.
       bind_outcome (last_path_segment data) (\<lambda>source_name.
         bind_outcome
           (allocate_name (ls_used st) parent source_name (ModuleId_index (mod_id data)))
           (\<lambda>(field, used).
             let st1 = st\<lparr>ls_used := used\<rparr> in
             if parent = root then Return (put_module (mod_id data) (Place_name field) st1)
             else if mod_is_declaration data \<and> mod_is_file data then place_alias up data st1
             else map_outcome
                    (\<lambda>p. put_module (mod_id data) (Place_field p field) st1)
                    (expect (map_of (ls_modules st1) parent)))))"

record DefinitionState =
  ds_used :: used_names
  ds_definitions :: "DefId \<rightharpoonup> Place"
  ds_externs :: "ExternId \<rightharpoonup> Place"

text \<open>The owner's place, or a field of it; an owner without a place has no members.\<close>

definition member_place :: "DefData \<Rightarrow> DefinitionState \<Rightarrow> Place option" where
  "member_place data st =
     (case def_kind data of
        KEnumVariant owner _ \<Rightarrow> ds_definitions st owner
      | KMethod owner \<Rightarrow>
          map_option (\<lambda>p. Place_field p (user_identifier (def_name data))) (ds_definitions st owner)
      | KTraitMethod owner \<Rightarrow>
          map_option (\<lambda>p. Place_field p (user_identifier (def_name data))) (ds_definitions st owner)
      | _ \<Rightarrow> None)"

definition put_definition :: "DefId \<Rightarrow> Place \<Rightarrow> DefinitionState \<Rightarrow> DefinitionState" where
  "put_definition d p st = st\<lparr>ds_definitions := (ds_definitions st)(d \<mapsto> p)\<rparr>"

definition put_extern :: "DefKind \<Rightarrow> Place \<Rightarrow> DefinitionState \<Rightarrow> DefinitionState" where
  "put_extern kind p st =
     (case kind of
        KExternFunction e \<Rightarrow> st\<lparr>ds_externs := (ds_externs st)(e \<mapsto> p)\<rparr>
      | _ \<Rightarrow> st)"

definition is_allocated_kind :: "DefKind \<Rightarrow> bool" where
  "is_allocated_kind kind \<longleftrightarrow>
     (case kind of
        KFunction \<Rightarrow> True | KStruct \<Rightarrow> True | KEnum \<Rightarrow> True | KExternFunction _ \<Rightarrow> True
      | _ \<Rightarrow> False)"

text \<open>
  The definition loop of both constructors: \<open>module_place\<close> gives the table of a module
  (\<open>None\<close> for the root chunk of the single-file layout), \<open>flattened\<close> the definition that is
  the module's own table.
\<close>

definition layout_definition ::
    "(ModuleId \<Rightarrow> Place option outcome) \<Rightarrow> (ModuleId \<rightharpoonup> DefId) \<Rightarrow> DefData
     \<Rightarrow> DefinitionState \<Rightarrow> DefinitionState outcome" where
  "layout_definition module_place flattened data st =
     (if \<not> is_allocated_kind (def_kind data) then
        Return (case member_place data st of
                  None \<Rightarrow> st
                | Some p \<Rightarrow> put_definition (def_id data) p st)
      else if flattened (def_module data) = Some (def_id data) \<and> \<not> is_extern_kind (def_kind data)
      then bind_outcome (module_place (def_module data)) (\<lambda>p.
             map_outcome (\<lambda>p. put_definition (def_id data) p st) (expect p))
      else bind_outcome
             (allocate_name (ds_used st) (def_module data) (def_name data) (DefId_index (def_id data)))
             (\<lambda>(field, used).
               map_outcome
                 (\<lambda>p. let place = (case p of None \<Rightarrow> Place_name field | Some t \<Rightarrow> Place_field t field) in
                      put_definition (def_id data) place
                        (put_extern (def_kind data) place (st\<lparr>ds_used := used\<rparr>)))
                 (module_place (def_module data))))"

record LocalState =
  lst_used :: used_names
  lst_locals :: "LocalId \<rightharpoonup> Place"
  lst_names :: "ModuleId \<times> bytes \<rightharpoonup> bytes"

definition layout_local :: "LocalData \<Rightarrow> LocalState \<Rightarrow> LocalState" where
  "layout_local l st =
     (let key = (local_module l, local_name l) in
      case lst_names st key of
        Some place \<Rightarrow> st\<lparr>lst_locals := (lst_locals st)(local_id l \<mapsto> Place_name place)\<rparr>
      | None \<Rightarrow>
          let place = free_name (names_of (lst_used st) (local_module l))
                        (user_identifier (local_name l)) ''__local'' in
          st\<lparr>lst_used := take_name (local_module l) place (lst_used st),
             lst_locals := (lst_locals st)(local_id l \<mapsto> Place_name place),
             lst_names := (lst_names st)(key \<mapsto> place)\<rparr>)"

definition layout_locals :: "LocalData list \<Rightarrow> used_names \<Rightarrow> LocalState" where
  "layout_locals locals used =
     fold layout_local locals \<lparr>lst_used = used, lst_locals = Map.empty, lst_names = Map.empty\<rparr>"

definition extend_names :: "bytes list \<Rightarrow> bytes list \<Rightarrow> bytes list" where
  "extend_names names extra = fold bset_insert extra names"

definition finish_layout ::
    "ModuleId \<Rightarrow> bytes list \<Rightarrow> (ModuleId \<times> Place) list \<Rightarrow> DefinitionState \<Rightarrow> LocalState \<Rightarrow> BackendLayout" where
  "finish_layout m extra mods ds lst =
     \<lparr>bl_modules = mods, bl_definitions = ds_definitions ds, bl_externs = ds_externs ds,
      bl_locals = lst_locals lst, bl_local_names = lst_names lst,
      bl_root_names = extend_names (extend_names (names_of (lst_used lst) m) extra) [''rt'', ''tbcreate''],
      bl_next_temporary = 0\<rparr>"

definition BackendLayout_new :: "(bytes \<Rightarrow> bytes) \<Rightarrow> ResolvedHir \<Rightarrow> BackendLayout outcome" where
  "BackendLayout_new up h =
     bind_outcome
       (fold_outcome (layout_module up (hir_root h))
         (filter (\<lambda>data. mod_id data \<noteq> hir_root h) (hir_modules h))
         \<lparr>ls_used = Map.empty, ls_modules = [], ls_aliases = []\<rparr>)
       (\<lambda>st.
         let used = (ls_used st)(hir_root h \<mapsto>
                       extend_names (names_of (ls_used st) (hir_root h)) (ls_aliases st));
             module_place = (\<lambda>m. if m = hir_root h then Return None
                                 else map_outcome Some (expect (map_of (ls_modules st) m))) in
         map_outcome
           (\<lambda>ds. finish_layout (hir_root h) [] (ls_modules st) ds
                   (layout_locals (hir_locals h) (ds_used ds)))
           (fold_outcome (layout_definition module_place Map.empty) (hir_definitions h)
             \<lparr>ds_used = used, ds_definitions = Map.empty, ds_externs = Map.empty\<rparr>))"

text \<open>A source module with exactly one public runtime type uses that type as its table.\<close>

definition single_public_type :: "ResolvedHir \<Rightarrow> ModuleId \<Rightarrow> DefId option outcome" where
  "single_public_type h m =
     map_outcome
       (\<lambda>data.
          if mod_is_declaration data then None
          else case filter (\<lambda>d. def_module d = m \<and> def_public d
                        \<and> (def_kind d = KStruct \<or> def_kind d = KEnum)) (hir_definitions h) of
                 [only] \<Rightarrow> Some (def_id only)
               | _ \<Rightarrow> None)
       (hir_module h m)"

definition collect_flattened :: "ResolvedHir \<Rightarrow> (ModuleId \<rightharpoonup> DefId) outcome" where
  "collect_flattened h =
     fold_outcome
       (\<lambda>data flat. map_outcome
          (\<lambda>t. case t of None \<Rightarrow> flat | Some d \<Rightarrow> flat(mod_id data \<mapsto> d))
          (single_public_type h (mod_id data)))
       (hir_modules h) Map.empty"

text \<open>\<open>BackendLayout::for_module_named\<close>: every module owns a table or an alias.\<close>

definition layout_unit_module ::
    "(bytes \<Rightarrow> bytes) \<Rightarrow> ModuleId \<Rightarrow> bytes \<Rightarrow> ModuleData \<Rightarrow> LayoutState \<Rightarrow> LayoutState outcome" where
  "layout_unit_module up current current_table data st =
     (if mod_id data = current then Return (put_module (mod_id data) (Place_name current_table) st)
      else if mod_is_declaration data \<and> \<not> mod_is_file data then
        bind_outcome (expect (mod_parent data)) (\<lambda>parent.
          bind_outcome (last_path_segment data) (\<lambda>name.
            map_outcome
              (\<lambda>p. put_module (mod_id data) (Place_field p (user_identifier name)) st)
              (expect (map_of (ls_modules st) parent))))
      else place_alias up data st)"

definition for_module_named ::
    "(bytes \<Rightarrow> bytes) \<Rightarrow> ResolvedHir \<Rightarrow> ModuleId \<Rightarrow> bytes \<Rightarrow> BackendLayout outcome" where
  "for_module_named up h current current_table =
     bind_outcome (collect_flattened h) (\<lambda>flat.
       bind_outcome
         (fold_outcome (layout_unit_module up current current_table) (hir_modules h)
           \<lparr>ls_used = Map.empty, ls_modules = [], ls_aliases = [current_table]\<rparr>)
         (\<lambda>st.
           let module_place = (\<lambda>m. map_outcome Some (expect (map_of (ls_modules st) m))) in
           map_outcome
             (\<lambda>ds.
                let used = (ds_used ds)(current \<mapsto>
                             extend_names (names_of (ds_used ds) current) (ls_aliases st)) in
                finish_layout current (map (place_root \<circ> snd) (ls_modules st)) (ls_modules st) ds
                  (layout_locals (hir_locals h) used))
             (fold_outcome (layout_definition module_place flat) (hir_definitions h)
               \<lparr>ds_used = ls_used st, ds_definitions = Map.empty, ds_externs = Map.empty\<rparr>)))"

definition for_module :: "(bytes \<Rightarrow> bytes) \<Rightarrow> ResolvedHir \<Rightarrow> ModuleId \<Rightarrow> BackendLayout outcome" where
  "for_module up h current = for_module_named up h current ''__rua_module''"

section \<open>Queries and generated names\<close>

definition layout_module_place :: "BackendLayout \<Rightarrow> ModuleId \<Rightarrow> Place option" where
  "layout_module_place l m = map_of (bl_modules l) m"

definition layout_target :: "BackendLayout \<Rightarrow> ResolvedTarget \<Rightarrow> Place option" where
  "layout_target l t =
     (case t of
        ResolvedItem d \<Rightarrow> bl_definitions l d
      | ResolvedModule m \<Rightarrow> layout_module_place l m
      | ResolvedLocal x \<Rightarrow> bl_locals l x
      | ResolvedExtern e \<Rightarrow> bl_externs l e
      | ResolvedBuiltin _ \<Rightarrow> None
      | ResolvedError \<Rightarrow> None)"

definition layout_callable_target :: "BackendLayout \<Rightarrow> DefId \<Rightarrow> bool \<Rightarrow> FunctionTarget outcome" where
  "layout_callable_target l d receiver =
     bind_outcome (expect (bl_definitions l d)) (\<lambda>p. Place_callable_target p receiver)"

definition layout_local_name :: "BackendLayout \<Rightarrow> ModuleId \<Rightarrow> bytes \<Rightarrow> bytes" where
  "layout_local_name l m name =
     (case bl_local_names l (m, name) of None \<Rightarrow> user_identifier name | Some n \<Rightarrow> n)"

definition layout_member_name :: "bytes \<Rightarrow> bytes" where
  "layout_member_name name = user_identifier name"

definition runtime_module_alias :: "BackendLayout \<Rightarrow> bytes \<Rightarrow> bytes \<times> BackendLayout" where
  "runtime_module_alias l preferred =
     (let alias = free_name (bl_root_names l) (user_identifier preferred) ''__runtime'' in
      (alias, l\<lparr>bl_root_names := bset_insert alias (bl_root_names l)\<rparr>))"

definition fresh_temporary :: "BackendLayout \<Rightarrow> bytes \<times> BackendLayout" where
  "fresh_temporary l =
     (let n = Suc (bl_next_temporary l) in
      (''__t'' @ show_nat n, l\<lparr>bl_next_temporary := n\<rparr>))"

end
