(* ===== verification/Hir_Props.thy ===== *)
theory Hir_Props
  imports Hir
begin

text \<open>
  Well-formed declaration tables, and what lookup and visibility do on them: every path
  resolves without a panic to an identity of the tables, a path through modules is a walk
  along child links, and the visibility test returns and decides accessibility.
\<close>

section \<open>Well-formed tables\<close>

definition module_ok :: "ResolvedHir \<Rightarrow> ModuleId \<Rightarrow> bool" where
  "module_ok h m \<longleftrightarrow> ModuleId_index m < length (hir_modules h)"

definition def_ok :: "ResolvedHir \<Rightarrow> DefId \<Rightarrow> bool" where
  "def_ok h d \<longleftrightarrow> DefId_index d < length (hir_definitions h)"

definition scope_ok :: "ResolvedHir \<Rightarrow> ModuleScope \<Rightarrow> bool" where
  "scope_ok h sc \<longleftrightarrow>
     (\<forall>d \<in> ran (scope_values sc). def_ok h d) \<and> (\<forall>d \<in> ran (scope_types sc). def_ok h d)
     \<and> (\<forall>m \<in> ran (scope_modules sc). module_ok h m)"

fun kind_owner :: "DefKind \<Rightarrow> DefId option" where
  "kind_owner (KEnumVariant owner shape) = Some owner"
| "kind_owner (KTraitMethod owner) = Some owner"
| "kind_owner (KMethod owner) = Some owner"
| "kind_owner _ = None"

fun target_ok :: "ResolvedHir \<Rightarrow> ResolvedTarget \<Rightarrow> bool" where
  "target_ok h (ResolvedItem d) = def_ok h d"
| "target_ok h (ResolvedModule m) = module_ok h m"
| "target_ok h (ResolvedExtern e) = (\<exists>data \<in> set (hir_definitions h). def_kind data = KExternFunction e)"
| "target_ok h _ = True"

text \<open>
  A module knows its own position, comes after its parent, and its path is its parent's path
  and one more segment; a definition knows its position and comes after its owner.
\<close>

definition module_data_ok :: "ResolvedHir \<Rightarrow> nat \<Rightarrow> ModuleData \<Rightarrow> bool" where
  "module_data_ok h i data \<longleftrightarrow>
     mod_id data = ModuleId (of_nat i)
     \<and> (mod_parent data = None \<longleftrightarrow> i = 0)
     \<and> (\<forall>p \<in> set_option (mod_parent data). ModuleId_index p < i
          \<and> (\<exists>name. segments (mod_path data)
                     = segments (mod_path (hir_modules h ! ModuleId_index p)) @ [name]))
     \<and> wf_module_path (mod_path data)
     \<and> scope_ok h (mod_scope data)"

definition def_data_ok :: "ResolvedHir \<Rightarrow> nat \<Rightarrow> DefData \<Rightarrow> bool" where
  "def_data_ok h i data \<longleftrightarrow>
     def_id data = DefId (of_nat i) \<and> module_ok h (def_module data)
     \<and> (\<forall>owner \<in> set_option (kind_owner (def_kind data)). DefId_index owner < i)"

definition members_ok :: "ResolvedHir \<Rightarrow> bool" where
  "members_ok h \<longleftrightarrow>
     (\<forall>d \<in> ran (hir_enum_variants h). def_ok h d)
     \<and> (\<forall>d \<in> ran (hir_associated_items h). def_ok h d)
     \<and> (\<forall>d \<in> snd ` set (hir_trait_items h). def_ok h d)
     \<and> (\<forall>d \<in> fst ` set (hir_type_traits h). def_ok h d)
     \<and> (\<forall>d \<in> fst ` set (hir_language_items h). def_ok h d)
     \<and> (\<forall>t \<in> ran (hir_item_targets h). target_ok h t)"

definition wf_hir :: "ResolvedHir \<Rightarrow> bool" where
  "wf_hir h \<longleftrightarrow>
     hir_root h = ModuleId 0 \<and> hir_modules h \<noteq> []
     \<and> (\<forall>i < length (hir_modules h). module_data_ok h i (hir_modules h ! i))
     \<and> (\<forall>i < length (hir_definitions h). def_data_ok h i (hir_definitions h ! i))
     \<and> members_ok h"

lemma wf_root: "wf_hir h \<Longrightarrow> module_ok h (hir_root h)"
  by (simp add: wf_hir_def module_ok_def ModuleId_index_def)

lemma hir_module_ok:
  assumes "wf_hir h" and "module_ok h m"
  obtains data where "hir_module h m = Return data"
    and "module_data_ok h (ModuleId_index m) data"
  using assms by (auto simp: wf_hir_def module_ok_def hir_module_def index_at_def)

lemma hir_definition_ok:
  assumes "wf_hir h" and "def_ok h d"
  obtains data where "hir_definition h d = Return data"
    and "data \<in> set (hir_definitions h)" and "module_ok h (def_module data)"
  using assms by (auto simp: wf_hir_def def_ok_def def_data_ok_def hir_definition_def index_at_def)

section \<open>Lookups return identities of the tables\<close>

text \<open>The targets a lookup in the tables may find: those of the tables, never a local.\<close>

definition table_target :: "ResolvedHir \<Rightarrow> ResolvedTarget \<Rightarrow> bool" where
  "table_target h t \<longleftrightarrow> target_ok h t \<and> (\<forall>l. t \<noteq> ResolvedLocal l)"

lemma table_target_simps [simp]:
  "table_target h (ResolvedItem d) = def_ok h d"
  "table_target h (ResolvedModule m) = module_ok h m"
  "table_target h (ResolvedExtern e) = target_ok h (ResolvedExtern e)"
  "table_target h (ResolvedBuiltin b)"
  "table_target h ResolvedError"
  "\<not> table_target h (ResolvedLocal l)"
  by (simp_all add: table_target_def)

text \<open>A lookup is safe when it returns, and what it returns is in the tables.\<close>

definition safe_lookup :: "ResolvedHir \<Rightarrow> ResolvedTarget option outcome \<Rightarrow> bool" where
  "safe_lookup h r \<longleftrightarrow> (\<exists>t. r = Return t \<and> (\<forall>x \<in> set_option t. table_target h x))"

lemma safe_lookup_None [simp]: "safe_lookup h (Return None)"
  by (simp add: safe_lookup_def)

lemma safe_lookup_Some [simp]: "safe_lookup h (Return (Some t)) = table_target h t"
  by (simp add: safe_lookup_def)

lemma safe_lookup_or_else:
  "safe_lookup h a \<Longrightarrow> safe_lookup h b \<Longrightarrow> safe_lookup h (or_else a b)"
  by (cases a) (auto simp: or_else_def safe_lookup_def split: option.splits)

lemma safe_lookup_module:
  assumes "wf_hir h" and "module_ok h m"
    and "\<And>data. module_data_ok h (ModuleId_index m) data \<Longrightarrow> safe_lookup h (f data)"
  shows "safe_lookup h (bind_outcome (hir_module h m) f)"
  using hir_module_ok [OF assms(1,2)] assms(3) by (metis bind_outcome.simps(2))

lemma hir_target_safe:
  assumes "wf_hir h" and "def_ok h d"
  obtains t where "hir_target h d = Return t" and "table_target h t"
proof -
  obtain data where data: "hir_definition h d = Return data" "data \<in> set (hir_definitions h)"
    using hir_definition_ok [OF assms] by metis
  show thesis
    by (rule that [of "case def_kind data of KExternFunction e \<Rightarrow> ResolvedExtern e | _ \<Rightarrow> ResolvedItem d"])
      (use data assms in \<open>auto simp: hir_target_def split: DefKind.splits\<close>)
qed

lemma value_in_scope_safe:
  assumes "wf_hir h" and "scope_ok h sc"
  shows "safe_lookup h (value_in_scope h sc name)"
proof (cases "scope_values sc name")
  case (Some d)
  then have "def_ok h d" using assms(2) by (auto simp: scope_ok_def ran_def)
  then obtain t where "hir_target h d = Return t" "table_target h t"
    using hir_target_safe assms(1) by blast
  with Some show ?thesis by (simp add: value_in_scope_def)
qed (simp add: value_in_scope_def)

lemma lookup_scope_safe:
  assumes "wf_hir h" and "scope_ok h sc"
  shows "safe_lookup h (lookup_scope h sc ns name)"
proof (cases ns)
  case NsType
  with assms(2) show ?thesis
    by (cases "scope_types sc name") (auto simp: lookup_scope_def scope_ok_def ran_def)
next
  case NsModule
  with assms(2) show ?thesis
    by (cases "scope_modules sc name") (auto simp: lookup_scope_def scope_ok_def ran_def)
qed (use assms value_in_scope_safe in \<open>simp add: lookup_scope_def\<close>)

lemma find_constructor_safe:
  assumes "wf_hir h" and "\<forall>d \<in> fst ` set items. def_ok h d"
  shows "safe_lookup h (map_outcome (map_option ResolvedItem) (find_constructor h name items))"
  using assms(2)
proof (induction items)
  case (Cons entry items)
  obtain d item where entry: "entry = (d, item)" by (cases entry)
  with Cons.prems have "def_ok h d" by simp
  then obtain data where "hir_definition h d = Return data"
    using hir_definition_ok assms(1) by metis
  with Cons entry show ?case by auto
qed simp

lemma lookup_prelude_safe:
  assumes "wf_hir h"
  shows "safe_lookup h (lookup_prelude h m ns name)"
  unfolding lookup_prelude_def
proof (rule safe_lookup_module [OF assms wf_root [OF assms]])
  fix root_data
  assume root_ok: "module_data_ok h (ModuleId_index (hir_root h)) root_data"
  let ?body = "\<lambda>data. case ns of
      NsValue \<Rightarrow> or_else (value_in_scope h (mod_scope data) name)
        (map_outcome (map_option ResolvedItem) (find_constructor h name (hir_language_items h)))
    | NsType \<Rightarrow> Return (map_option ResolvedItem (scope_types (mod_scope data) name))
    | NsModule \<Rightarrow> Return None"
  have body: "safe_lookup h (?body data)" if "module_data_ok h i data" for i data
  proof (cases ns)
    case NsValue
    moreover have "safe_lookup h (map_outcome (map_option ResolvedItem)
        (find_constructor h name (hir_language_items h)))"
      using assms by (intro find_constructor_safe) (simp_all add: wf_hir_def members_ok_def)
    ultimately show ?thesis
      using value_in_scope_safe [OF assms] that
      by (simp add: safe_lookup_or_else module_data_ok_def)
  next
    case NsType
    then show ?thesis using lookup_scope_safe [OF assms, of "mod_scope data" NsType name] that
      by (simp add: lookup_scope_def module_data_ok_def)
  qed simp
  show "safe_lookup h (case scope_modules (mod_scope root_data) rua_builtin of
      None \<Rightarrow> Return None
    | Some prelude \<Rightarrow> if prelude = m then Return None else bind_outcome (hir_module h prelude) ?body)"
  proof (cases "scope_modules (mod_scope root_data) rua_builtin")
    case (Some prelude)
    then have "module_ok h prelude"
      using root_ok by (auto simp: module_data_ok_def scope_ok_def ran_def)
    with Some show ?thesis using safe_lookup_module [OF assms _ body] by simp
  qed simp
qed

lemma resolve_in_module_safe:
  assumes "wf_hir h" and "module_ok h m"
  shows "safe_lookup h (resolve_in_module h m ns name)"
  unfolding resolve_in_module_def
proof (rule safe_lookup_module [OF assms], intro safe_lookup_or_else)
  show "safe_lookup h (lookup_scope h (mod_scope data) ns name)"
    if "module_data_ok h (ModuleId_index m) data" for data
    using that by (intro lookup_scope_safe assms) (simp add: module_data_ok_def)
  show "safe_lookup h (if m = hir_root h then Return None
      else bind_outcome (hir_module h (hir_root h)) (\<lambda>data. lookup_scope h (mod_scope data) ns name))"
    by (auto intro!: safe_lookup_module assms wf_root lookup_scope_safe simp: module_data_ok_def)
  show "safe_lookup h (lookup_prelude h m ns name)" by (rule lookup_prelude_safe [OF assms(1)])
qed

definition cursor_ok :: "ResolvedHir \<Rightarrow> Cursor \<Rightarrow> bool" where
  "cursor_ok h c = (case c of CursorModule m \<Rightarrow> module_ok h m | CursorItem d \<Rightarrow> def_ok h d)"

lemma item_cursor_ok:
  "\<forall>x \<in> set_option r. table_target h x \<Longrightarrow> item_cursor r = Some c \<Longrightarrow> cursor_ok h c"
  by (auto simp: item_cursor_def cursor_ok_def split: option.splits ResolvedTarget.splits)

lemma resolve_member_safe:
  "wf_hir h \<Longrightarrow> safe_lookup h (Return (resolve_member h owner name))"
  unfolding resolve_member_def wf_hir_def safe_lookup_def members_ok_def
  by (fastforce intro: ranI dest: map_of_SomeD split: option.splits)

lemma resolve_rest_safe:
  "wf_hir h \<Longrightarrow> cursor_ok h c \<Longrightarrow> safe_lookup h (resolve_rest h ns c segs)"
proof (induction h ns c segs rule: resolve_rest.induct)
  case (4 h ns m s t ts)
  have m: "module_ok h m" using 4(4) by (simp add: cursor_ok_def)
  show ?case
    unfolding resolve_rest.simps
  proof (rule safe_lookup_module [OF 4(3) m])
    fix data
    assume data: "module_data_ok h (ModuleId_index m) data"
    obtain r where r: "resolve_in_module h m NsType s = Return r" "\<forall>x \<in> set_option r. table_target h x"
      using resolve_in_module_safe [OF 4(3) m] unfolding safe_lookup_def by blast
    show "safe_lookup h (case scope_modules (mod_scope data) s of
        None \<Rightarrow> bind_outcome (resolve_in_module h m NsType s) (\<lambda>r. case item_cursor r of
            None \<Rightarrow> Return None | Some cursor \<Rightarrow> resolve_rest h ns cursor (t # ts))
      | Some child \<Rightarrow> resolve_rest h ns (CursorModule child) (t # ts))"
    proof (cases "scope_modules (mod_scope data) s")
      case None
      show ?thesis
      proof (cases "item_cursor r")
        case (Some c)
        with 4(1) [OF None] 4(3) item_cursor_ok r None show ?thesis by fastforce
      qed (use None r in simp)
    next
      case (Some child)
      then have "cursor_ok h (CursorModule child)"
        using data by (auto simp: cursor_ok_def module_data_ok_def scope_ok_def ran_def)
      with Some 4(2) [OF Some] 4(3) show ?thesis by simp
    qed
  qed
qed (auto simp: cursor_ok_def intro: resolve_in_module_safe resolve_member_safe)

lemma head_cursor_safe:
  assumes "wf_hir h" and "module_ok h m"
  shows "\<exists>c. head_cursor h m name = Return c \<and> (\<forall>x \<in> set_option c. cursor_ok h x)"
proof -
  obtain data where data: "hir_module h m = Return data" "module_data_ok h (ModuleId_index m) data"
    using hir_module_ok [OF assms] .
  obtain root_data where root_data: "hir_module h (hir_root h) = Return root_data"
      "module_data_ok h (ModuleId_index (hir_root h)) root_data"
    using hir_module_ok [OF assms(1) wf_root [OF assms(1)]] .
  obtain r where r: "resolve_in_module h m NsType name = Return r" "\<forall>x \<in> set_option r. table_target h x"
    using resolve_in_module_safe [OF assms] unfolding safe_lookup_def by blast
  have child: "cursor_ok h (CursorModule c)"
    if "module_data_ok h i d" and "scope_modules (mod_scope d) name = Some c" for i d c
    using that by (auto simp: cursor_ok_def module_data_ok_def scope_ok_def ran_def)
  show ?thesis
    using data root_data r child item_cursor_ok [OF r(2)]
    by (auto simp: head_cursor_def split: option.splits)
qed

lemma resolve_path_lookup:
  assumes "wf_hir h" and "module_ok h m"
  shows "safe_lookup h (resolve_path h m ns segs)"
proof (cases segs rule: remdups_adj.cases)
  case (3 x y xs)
  obtain c where "head_cursor h m x = Return c" "\<forall>x \<in> set_option c. cursor_ok h x"
    using head_cursor_safe [OF assms] by blast
  with 3 show ?thesis
    by (cases c) (simp_all add: resolve_path_def resolve_rest_safe [OF assms(1)])
qed (simp_all add: resolve_path_def resolve_in_module_safe [OF assms])

text \<open>
  C32. On well-formed tables no path resolution panics, whatever the namespace, and the target
  it returns exists in the tables and is never a local.
\<close>

theorem resolve_path_safe:
  assumes "wf_hir h" and "module_ok h m"
  shows "\<exists>r. resolve_path h m ns segs = Return r \<and> (\<forall>t \<in> set_option r. table_target h t)"
  using resolve_path_lookup [OF assms] by (simp add: safe_lookup_def)

section \<open>Walking modules\<close>

text \<open>The module reached from \<open>m\<close> by the child links named in a path.\<close>

fun walk_modules :: "ResolvedHir \<Rightarrow> ModuleId \<Rightarrow> bytes list \<Rightarrow> ModuleId option" where
  "walk_modules h m [] = Some m"
| "walk_modules h m (s # segs) =
     (case hir_module h m of
        Panic \<Rightarrow> None
      | Return data \<Rightarrow>
          (case scope_modules (mod_scope data) s of
             None \<Rightarrow> None
           | Some child \<Rightarrow> walk_modules h child segs))"

lemma resolve_rest_walk:
  "walk_modules h m segs = Some m' \<Longrightarrow>
   resolve_rest h ns (CursorModule m) (segs @ [name]) = resolve_in_module h m' ns name"
proof (induction segs arbitrary: m)
  case (Cons s segs)
  then obtain data child where step: "hir_module h m = Return data"
      "scope_modules (mod_scope data) s = Some child" "walk_modules h child segs = Some m'"
    by (auto split: outcome.splits option.splits)
  obtain t ts where "segs @ [name] = t # ts" by (cases "segs @ [name]") auto
  with step Cons.IH [OF step(3)] show ?case by simp
qed simp

text \<open>
  C31. Resolving \<open>a::b::\<dots>::name\<close> walks child modules and looks the last name up in the
  module reached: from the current module if it has a child module \<open>a\<close>, otherwise from the
  crate root.
\<close>

theorem resolve_path_walks_modules:
  assumes "wf_hir h" and "module_ok h m"
    and "walk_modules h m segs = Some m'
         \<or> walk_modules h m [hd segs] = None \<and> walk_modules h (hir_root h) segs = Some m'"
    and "segs \<noteq> []"
  shows "resolve_path h m ns (segs @ [name]) = resolve_in_module h m' ns name"
proof -
  obtain s rest where segs: "segs = s # rest" using assms(4) by (cases segs) auto
  obtain data where data: "hir_module h m = Return data"
    using hir_module_ok [OF assms(1,2)] by metis
  obtain root_data where root_data: "hir_module h (hir_root h) = Return root_data"
    using hir_module_ok [OF assms(1) wf_root [OF assms(1)]] by metis
  obtain child where "head_cursor h m s = Return (Some (CursorModule child))"
      and "walk_modules h child rest = Some m'"
    using assms(3) data root_data unfolding segs
    by (auto simp: head_cursor_def split: option.splits)
  moreover obtain t ts where "rest @ [name] = t # ts" by (cases "rest @ [name]") auto
  ultimately show ?thesis
    using resolve_rest_walk [of h child rest m' ns name] by (simp add: resolve_path_def segs)
qed

section \<open>Visibility\<close>

text \<open>\<open>inside h m a\<close>: module \<open>m\<close> is \<open>a\<close> or lies below it.\<close>

inductive inside :: "ResolvedHir \<Rightarrow> ModuleId \<Rightarrow> ModuleId \<Rightarrow> bool" for h where
  inside_same: "inside h m m"
| inside_step: "hir_module h m = Return data \<Longrightarrow> mod_parent data = Some p \<Longrightarrow> inside h p a
    \<Longrightarrow> inside h m a"

inductive_cases inside_cases: "inside h m a"

text \<open>
  The rule of the language: a module is open to \<open>from\<close> when its parent is and it is public
  or \<open>from\<close> lies inside its parent; an item needs its module open, and to be public or
  declared around \<open>from\<close>.
\<close>

inductive module_open :: "ResolvedHir \<Rightarrow> ModuleId \<Rightarrow> ModuleId \<Rightarrow> bool" for h from_module where
  open_root: "hir_module h m = Return data \<Longrightarrow> mod_parent data = None
    \<Longrightarrow> module_open h from_module m"
| open_child: "hir_module h m = Return data \<Longrightarrow> mod_parent data = Some p
    \<Longrightarrow> module_open h from_module p \<Longrightarrow> mod_public data \<or> inside h from_module p
    \<Longrightarrow> module_open h from_module m"

inductive_cases module_open_cases: "module_open h from_module m"

fun accessible :: "ResolvedHir \<Rightarrow> ModuleId \<Rightarrow> ResolvedTarget \<Rightarrow> bool" where
  "accessible h from_module (ResolvedItem d) =
     (case hir_definition h d of
        Panic \<Rightarrow> False
      | Return data \<Rightarrow>
          (def_public data \<or> inside h from_module (def_module data))
          \<and> module_open h from_module (def_module data))"
| "accessible h from_module (ResolvedModule m) = module_open h from_module m"
| "accessible h from_module _ = True"

lemma module_data_parent:
  assumes "wf_hir h" and "module_ok h m" and "hir_module h m = Return data"
    and "mod_parent data = Some p"
  shows "module_ok h p" and "ModuleId_index p < ModuleId_index m"
  using assms by (auto simp: wf_hir_def module_ok_def hir_module_def module_data_ok_def)

lemma is_descendant_of_decides:
  assumes "wf_hir h"
  shows "module_ok h m \<Longrightarrow> is_descendant_of h m a = Some (Return (inside h m a))"
proof (induction "ModuleId_index m" arbitrary: m rule: less_induct)
  case less
  obtain data where data: "hir_module h m = Return data"
    using hir_module_ok [OF assms less.prems] by metis
  show ?case
  proof (cases "m = a")
    case True
    then show ?thesis by (subst is_descendant_of.simps) (simp add: inside_same)
  next
    case False
    show ?thesis
    proof (cases "mod_parent data")
      case None
      with False data have "\<not> inside h m a" by (auto elim: inside_cases)
      with False None data show ?thesis by (subst is_descendant_of.simps) simp
    next
      case (Some p)
      note p = module_data_parent [OF assms less.prems data Some]
      have "inside h m a \<longleftrightarrow> inside h p a"
        using False data Some by (auto elim: inside_cases intro: inside_step)
      with less.hyps [OF p(2,1)] False Some data show ?thesis
        by (subst is_descendant_of.simps) simp
    qed
  qed
qed

lemma module_owner_label_returns:
  assumes "wf_hir h" and "module_ok h m"
  obtains label where "module_owner_label h m = Return label"
  proof -
  obtain data where "hir_module h m = Return data" using hir_module_ok [OF assms] .
  with that show thesis by (auto simp: module_owner_label_def)
qed

text \<open>What the rest of the chain still has to check, root first.\<close>

definition chain_open :: "ResolvedHir \<Rightarrow> ModuleId \<Rightarrow> ModuleData list \<Rightarrow> bool" where
  "chain_open h from_module chain \<longleftrightarrow>
     (\<forall>data \<in> set chain. \<forall>p \<in> set_option (mod_parent data). mod_public data \<or> inside h from_module p)"

lemma first_barrier_decides:
  assumes "wf_hir h" and "module_ok h from_module"
    and "\<forall>data \<in> set chain. \<forall>p \<in> set_option (mod_parent data). module_ok h p"
  shows "\<exists>r. first_barrier h from_module chain = Some (Return r)
             \<and> (r = None \<longleftrightarrow> chain_open h from_module chain)"
  using assms(3)
proof (induction chain)
  case (Cons data chain)
  show ?case
  proof (cases "mod_parent data")
    case None
    with Cons show ?thesis by (auto simp: chain_open_def)
  next
    case (Some p)
    with Cons.prems have p: "module_ok h p" by simp
    obtain label where "module_owner_label h p = Return label"
      using module_owner_label_returns [OF assms(1) p] .
    with Some Cons is_descendant_of_decides [OF assms(1,2), of p] show ?thesis
      by (auto simp: chain_open_def split: bool.splits)
  qed
qed (simp add: chain_open_def)

lemma module_chain_returns:
  assumes "wf_hir h"
  shows "module_ok h m \<Longrightarrow>
    \<exists>chain. module_chain h m acc = Some (Return (chain @ acc))
      \<and> (\<forall>data \<in> set chain. \<forall>p \<in> set_option (mod_parent data). module_ok h p)
      \<and> (chain_open h from_module chain \<longleftrightarrow> module_open h from_module m)"
proof (induction "ModuleId_index m" arbitrary: m acc rule: less_induct)
  case less
  obtain data where data: "hir_module h m = Return data"
    using hir_module_ok [OF assms less.prems] by metis
  show ?case
  proof (cases "mod_parent data")
    case None
    then have "module_open h from_module m" using data by (rule_tac open_root)
    with None data show ?thesis
      by (subst module_chain.simps) (auto simp: chain_open_def)
  next
    case (Some p)
    note p = module_data_parent [OF assms less.prems data Some]
    obtain chain where chain: "module_chain h p (data # acc) = Some (Return (chain @ data # acc))"
        "\<forall>data \<in> set chain. \<forall>p \<in> set_option (mod_parent data). module_ok h p"
        "chain_open h from_module chain \<longleftrightarrow> module_open h from_module p"
      using less.hyps [OF p(2,1)] by blast
    have "module_open h from_module m
        \<longleftrightarrow> module_open h from_module p \<and> (mod_public data \<or> inside h from_module p)"
      using data Some by (auto elim: module_open_cases intro: open_child)
    with chain Some data p(1) show ?thesis
      by (subst module_chain.simps, intro exI [of _ "chain @ [data]"]) (auto simp: chain_open_def)
  qed
qed

lemma chain_barrier_decides:
  assumes "wf_hir h" and "module_ok h from_module" and "module_ok h m"
  shows "\<exists>r. chain_barrier h from_module m = Some (Return r)
             \<and> (r = None \<longleftrightarrow> module_open h from_module m)"
proof -
  obtain chain where "module_chain h m [] = Some (Return (chain @ []))"
      "\<forall>data \<in> set chain. \<forall>p \<in> set_option (mod_parent data). module_ok h p"
      "chain_open h from_module chain \<longleftrightarrow> module_open h from_module m"
    using module_chain_returns [OF assms(1,3), of "[]" from_module] by blast
  then show ?thesis
    using first_barrier_decides [OF assms(1,2), of chain] by (simp add: chain_barrier_def)
qed

lemma private_barrier_returns:
  assumes "wf_hir h" and "module_ok h from_module" and "target_ok h t"
  shows "\<exists>r. private_barrier h from_module t = Some (Return r)
             \<and> (r = None \<longleftrightarrow> accessible h from_module t)"
proof (cases t)
  case (ResolvedItem d)
  with assms(3) have "def_ok h d" by simp
  then obtain data where data: "hir_definition h d = Return data" "module_ok h (def_module data)"
    using hir_definition_ok assms(1) by metis
  obtain label where label: "module_owner_label h (def_module data) = Return label"
    using module_owner_label_returns [OF assms(1) data(2)] .
  note chain = chain_barrier_decides [OF assms(1,2) data(2)]
  note descend = is_descendant_of_decides [OF assms(1,2), of "def_module data"]
  show ?thesis
  proof (cases "def_public data \<or> inside h from_module (def_module data)")
    case True
    with chain data ResolvedItem descend show ?thesis by (auto simp: private_barrier_def)
  next
    case False
    with data ResolvedItem descend label show ?thesis by (simp add: private_barrier_def)
  qed
next
  case (ResolvedModule m)
  with assms chain_barrier_decides [OF assms(1,2)] show ?thesis by (simp add: private_barrier_def)
qed (simp_all add: private_barrier_def)

text \<open>
  C30. On well-formed tables the visibility test always returns, and it finds no barrier
  exactly for the targets the language's visibility rule opens to the module.
\<close>

theorem private_barrier_decides:
  assumes "wf_hir h" and "module_ok h from_module" and "target_ok h t"
  shows "\<exists>r. private_barrier h from_module t = Some (Return r)
             \<and> (r = None \<longleftrightarrow> accessible h from_module t)"
  using private_barrier_returns [OF assms] .

section \<open>An example\<close>

text \<open>A crate with a public module \<open>api\<close> that holds one private function \<open>helper\<close>
  with a local \<open>x\<close>.\<close>

definition sample_hir :: ResolvedHir where
  "sample_hir =
     \<lparr>hir_root = ModuleId 0,
      hir_modules =
        [\<lparr>mod_id = ModuleId 0, mod_parent = None, mod_path = ModulePath [], mod_file = FileId 0,
          mod_is_file = True, mod_is_declaration = False, mod_public = True,
          mod_scope = ModuleScope_default\<lparr>scope_modules := [''api'' \<mapsto> ModuleId 1]\<rparr>\<rparr>,
         \<lparr>mod_id = ModuleId 1, mod_parent = Some (ModuleId 0), mod_path = ModulePath [''api''],
          mod_file = FileId 0, mod_is_file = True, mod_is_declaration = False, mod_public = True,
          mod_scope = ModuleScope_default\<lparr>scope_values := [''helper'' \<mapsto> DefId 0]\<rparr>\<rparr>],
      hir_definitions =
        [\<lparr>def_id = DefId 0, def_module = ModuleId 1, def_name = ''helper'', def_kind = KFunction,
          def_public = False\<rparr>],
      hir_definition_files = Map.empty, hir_standard_library = None, hir_language_items = [],
      hir_locals =
        [\<lparr>local_id = LocalId 0, local_name = ''x'', local_module = ModuleId 1, local_mutable = False\<rparr>],
      hir_binding_targets = Map.empty, hir_item_targets = Map.empty,
      hir_enum_variant_targets = Map.empty, hir_trait_method_targets = Map.empty,
      hir_impl_method_targets = Map.empty, hir_extern_function_targets = Map.empty,
      hir_expression_targets = Map.empty, hir_pattern_targets = Map.empty,
      hir_type_targets = Map.empty, hir_trait_ref_targets = Map.empty,
      hir_enum_variants = Map.empty, hir_associated_items = Map.empty, hir_trait_items = [],
      hir_type_traits = [], hir_method_origins = Map.empty,
      hir_trait_method_implementations = Map.empty, hir_trait_default_methods = {},
      hir_method_traits = Map.empty, hir_impl_targets = Map.empty, hir_imports = [],
      hir_diagnostics = []\<rparr>"

lemma sample_hir_wf: "wf_hir sample_hir"
  by (simp add: sample_hir_def wf_hir_def module_data_ok_def def_data_ok_def members_ok_def
      scope_ok_def ModuleScope_default_def wf_module_path_def module_ok_def def_ok_def
      ModuleId_index_def DefId_index_def less_Suc_eq ident_start_def ident_continue_def
      ascii_class_defs numeral_2_eq_2)

lemma sample_hir_modules: "module_ok sample_hir (ModuleId 0)" "module_ok sample_hir (ModuleId 1)"
  by (simp_all add: sample_hir_def module_ok_def ModuleId_index_def)

theorem resolve_path_safe_witness:
  "\<exists>r. resolve_path sample_hir (ModuleId 0) NsValue [''api'', ''helper''] = Return r
     \<and> set_option r \<subseteq> {t. table_target sample_hir t}"
  using resolve_path_safe [OF sample_hir_wf sample_hir_modules(1), of NsValue "[''api'', ''helper'']"]
  by auto

theorem resolve_path_walks_modules_witness:
  "resolve_path sample_hir (ModuleId 0) NsValue [''api'', ''helper'']
     = Return (Some (ResolvedItem (DefId 0)))"
proof -
  have "walk_modules sample_hir (ModuleId 0) [''api''] = Some (ModuleId 1)"
    by (simp add: sample_hir_def hir_module_def index_at_def ModuleId_index_def ModuleScope_default_def)
  then have "resolve_path sample_hir (ModuleId 0) NsValue ([''api''] @ [''helper''])
      = resolve_in_module sample_hir (ModuleId 1) NsValue ''helper''"
    by (intro resolve_path_walks_modules sample_hir_wf sample_hir_modules) simp_all
  then show ?thesis
    by (simp add: resolve_in_module_def sample_hir_def hir_module_def index_at_def ModuleId_index_def
        lookup_scope_def value_in_scope_def hir_target_def hir_definition_def DefId_index_def)
qed

text \<open>The root is not inside \<open>api\<close>, so the private function is behind a barrier.\<close>

theorem private_barrier_decides_witness:
  "\<exists>b. private_barrier sample_hir (ModuleId 0) (ResolvedItem (DefId 0)) = Some (Return (Some b))"
proof -
  have "\<not> inside sample_hir (ModuleId 0) (ModuleId 1)"
  proof
    assume "inside sample_hir (ModuleId 0) (ModuleId 1)"
    then show False
    proof (cases rule: inside.cases)
      case (inside_step data p)
      from inside_step(1) have "data = hir_modules sample_hir ! 0"
        by (simp add: hir_module_def ModuleId_index_def)
      with inside_step(2) show False by (simp add: sample_hir_def)
    qed simp
  qed
  then have "\<not> accessible sample_hir (ModuleId 0) (ResolvedItem (DefId 0))"
    by (simp add: sample_hir_def hir_definition_def DefId_index_def index_at_def)
  moreover have "target_ok sample_hir (ResolvedItem (DefId 0))"
    by (simp add: def_ok_def sample_hir_def DefId_index_def)
  ultimately show ?thesis
    using private_barrier_decides [OF sample_hir_wf sample_hir_modules(1)] by fastforce
qed

end
