(* ===== verification/Hir_Collect_Props.thy ===== *)
theory Hir_Collect_Props
  imports Hir_Collect Hir_Props
begin

text \<open>
  Declaration collection never panics on what the parser accepts and yields well-formed
  tables. Every step is shown to succeed, keep the tables well formed and only extend them;
  \<open>step_ok\<close> packages the three and composes along \<open>bind_outcome\<close> and \<open>fold_outcome\<close>.
\<close>

section \<open>Extending the tables\<close>

definition grows :: "ResolvedHir \<Rightarrow> ResolvedHir \<Rightarrow> bool" where
  "grows h h' \<longleftrightarrow>
     (\<exists>ds. hir_definitions h' = hir_definitions h @ ds)
     \<and> (\<exists>ps. map mod_path (hir_modules h') = map mod_path (hir_modules h) @ ps)"

lemma grows_refl [simp]: "grows h h"
  by (simp add: grows_def)

lemma grows_trans: "grows h1 h2 \<Longrightarrow> grows h2 h3 \<Longrightarrow> grows h1 h3"
  by (auto simp: grows_def)

lemma grows_lengths:
  assumes "grows h h'"
  shows "length (hir_modules h) \<le> length (hir_modules h')"
    and "length (hir_definitions h) \<le> length (hir_definitions h')"
proof -
  obtain ps where "map mod_path (hir_modules h') = map mod_path (hir_modules h) @ ps"
    using assms by (auto simp: grows_def)
  then have "length (map mod_path (hir_modules h')) = length (map mod_path (hir_modules h) @ ps)"
    by simp
  then show "length (hir_modules h) \<le> length (hir_modules h')" by simp
  show "length (hir_definitions h) \<le> length (hir_definitions h')"
    using assms by (auto simp: grows_def)
qed

lemma grows_path:
  assumes "grows h h'" and "i < length (hir_modules h)"
  shows "mod_path (hir_modules h' ! i) = mod_path (hir_modules h ! i)"
proof -
  obtain ps where ps: "map mod_path (hir_modules h') = map mod_path (hir_modules h) @ ps"
    using assms by (auto simp: grows_def)
  have "map mod_path (hir_modules h') ! i = map mod_path (hir_modules h) ! i"
    using assms(2) by (simp add: ps nth_append)
  then show ?thesis using assms(2) grows_lengths [OF assms(1)] by simp
qed

lemma grows_ok:
  assumes "grows h h'"
  shows "module_ok h m \<Longrightarrow> module_ok h' m" and "def_ok h d \<Longrightarrow> def_ok h' d"
    and "scope_ok h sc \<Longrightarrow> scope_ok h' sc" and "target_ok h t \<Longrightarrow> target_ok h' t"
proof -
  show mod: "module_ok h m \<Longrightarrow> module_ok h' m" for m
    using grows_lengths [OF assms] by (auto simp: module_ok_def)
  show de: "def_ok h d \<Longrightarrow> def_ok h' d" for d
    using grows_lengths [OF assms] by (auto simp: def_ok_def)
  show "scope_ok h sc \<Longrightarrow> scope_ok h' sc"
    by (auto simp: scope_ok_def mod de)
  show "target_ok h t \<Longrightarrow> target_ok h' t"
    using mod de assms by (cases t) (auto simp: grows_def)
qed

lemma grows_module_data:
  assumes "grows h h'" and "module_data_ok h i data" and "i < length (hir_modules h)"
  shows "module_data_ok h' i data"
  using assms grows_ok [OF assms(1)] grows_path [OF assms(1)]
  by (auto simp: module_data_ok_def)

lemma grows_def_data: "grows h h' \<Longrightarrow> def_data_ok h i data \<Longrightarrow> def_data_ok h' i data"
  by (auto simp: def_data_ok_def grows_ok)

text \<open>Members whose tables are kept stay well formed.\<close>

lemma grows_members:
  assumes "grows h h'" and "members_ok h"
    and "hir_enum_variants h' = hir_enum_variants h"
    and "hir_associated_items h' = hir_associated_items h"
    and "hir_trait_items h' = hir_trait_items h" and "hir_type_traits h' = hir_type_traits h"
    and "hir_language_items h' = hir_language_items h"
    and "hir_item_targets h' = hir_item_targets h"
  shows "members_ok h'"
  using assms grows_ok [OF assms(1)] by (auto simp: members_ok_def)

lemmas wf_parts = wf_hir_def module_data_ok_def def_data_ok_def

section \<open>Updates of one table\<close>

text \<open>Tables that lookups do not read.\<close>

lemma target_ok_cong:
  "hir_modules h' = hir_modules h \<Longrightarrow> hir_definitions h' = hir_definitions h
   \<Longrightarrow> target_ok h' t = target_ok h t"
  by (cases t) (simp_all add: module_ok_def def_ok_def)

lemma wf_hir_same_tables:
  assumes "wf_hir h" and "hir_root h' = hir_root h"
    and "hir_modules h' = hir_modules h" and "hir_definitions h' = hir_definitions h"
    and "members_ok h'"
  shows "wf_hir h'"
  using assms by (auto simp: wf_parts scope_ok_def module_ok_def def_ok_def)

lemma grows_same_tables:
  "hir_modules h' = hir_modules h \<Longrightarrow> hir_definitions h' = hir_definitions h \<Longrightarrow> grows h h'"
  by (simp add: grows_def)

definition quiet_update :: "ResolvedHir \<Rightarrow> ResolvedHir \<Rightarrow> bool" where
  "quiet_update h h' \<longleftrightarrow>
     hir_root h' = hir_root h \<and> hir_modules h' = hir_modules h
     \<and> hir_definitions h' = hir_definitions h \<and> hir_enum_variants h' = hir_enum_variants h
     \<and> hir_associated_items h' = hir_associated_items h \<and> hir_trait_items h' = hir_trait_items h
     \<and> hir_type_traits h' = hir_type_traits h \<and> hir_language_items h' = hir_language_items h
     \<and> hir_item_targets h' = hir_item_targets h"

lemma quiet_update_wf:
  assumes "wf_hir h" and "quiet_update h h'"
  shows "wf_hir h'" and "grows h h'"
proof -
  show e: "grows h h'" using assms(2) by (simp add: grows_same_tables quiet_update_def)
  show "wf_hir h'"
    using assms e grows_members [OF e]
    by (intro wf_hir_same_tables [OF assms(1)]) (auto simp: quiet_update_def wf_hir_def)
qed

lemma ran_upd_subset: "ran (m(k \<mapsto> v)) \<subseteq> insert v (ran m)"
  by (auto simp: ran_def)

lemma members_ok_same:
  assumes "members_ok h" and "hir_modules h' = hir_modules h" and "hir_definitions h' = hir_definitions h"
    and "ran (hir_enum_variants h') \<subseteq> ran (hir_enum_variants h) \<union> {d. def_ok h d}"
    and "ran (hir_associated_items h') \<subseteq> ran (hir_associated_items h) \<union> {d. def_ok h d}"
    and "snd ` set (hir_trait_items h') \<subseteq> snd ` set (hir_trait_items h) \<union> {d. def_ok h d}"
    and "fst ` set (hir_type_traits h') \<subseteq> fst ` set (hir_type_traits h) \<union> {d. def_ok h d}"
    and "fst ` set (hir_language_items h') \<subseteq> fst ` set (hir_language_items h) \<union> {d. def_ok h d}"
    and "ran (hir_item_targets h') \<subseteq> ran (hir_item_targets h) \<union> {t. target_ok h t}"
  shows "members_ok h'"
proof -
  have eqs: "def_ok h' = def_ok h" "target_ok h' = target_ok h"
    using assms(3) target_ok_cong [OF assms(2,3)] by (auto simp: def_ok_def fun_eq_iff)
  have sub: "\<forall>x \<in> B. P x" if "\<forall>x \<in> A. P x" and "B \<subseteq> A \<union> {x. P x}" for A B :: "'x set" and P
    using that by blast
  show ?thesis
    using assms(1) unfolding members_ok_def eqs
    by (elim conjE) (intro conjI sub [OF _ assms(4)] sub [OF _ assms(5)] sub [OF _ assms(6)]
      sub [OF _ assms(7)] sub [OF _ assms(8)] sub [OF _ assms(9)])
qed

lemma snd_set_btree_insert: "snd ` set (btree_insert k v m) \<subseteq> insert v (snd ` set m)"
  by (induction k v m rule: btree_insert.induct) auto

lemma wf_member_updates:
  assumes "wf_hir h"
  shows "def_ok h d \<Longrightarrow> wf_hir (h\<lparr>hir_enum_variants := (hir_enum_variants h)(k \<mapsto> d)\<rparr>)"
    and "def_ok h d \<Longrightarrow> wf_hir (h\<lparr>hir_associated_items := (hir_associated_items h)(k \<mapsto> d)\<rparr>)"
    and "def_ok h d \<Longrightarrow> wf_hir (h\<lparr>hir_trait_items := btree_insert k d (hir_trait_items h)\<rparr>)"
    and "def_ok h d \<Longrightarrow> wf_hir (h\<lparr>hir_language_items := btree_insert d item (hir_language_items h)\<rparr>)"
    and "def_ok h d \<Longrightarrow> wf_hir (add_type_trait d t h)"
    and "target_ok h target \<Longrightarrow> wf_hir (set_item_target m i target h)"
proof -
  have members: "members_ok h" using assms by (simp add: wf_hir_def)
  note same = wf_hir_same_tables [OF assms] and m = members_ok_same [OF members]
  show "def_ok h d \<Longrightarrow> wf_hir (h\<lparr>hir_enum_variants := (hir_enum_variants h)(k \<mapsto> d)\<rparr>)"
    by (rule same) (auto intro!: m dest!: subsetD [OF ran_upd_subset])
  show "def_ok h d \<Longrightarrow> wf_hir (h\<lparr>hir_associated_items := (hir_associated_items h)(k \<mapsto> d)\<rparr>)"
    by (rule same) (auto intro!: m dest!: subsetD [OF ran_upd_subset])
  show "def_ok h d \<Longrightarrow> wf_hir (h\<lparr>hir_trait_items := btree_insert k d (hir_trait_items h)\<rparr>)"
    using snd_set_btree_insert [of k d "hir_trait_items h"]
    by (intro same m) (auto simp: subset_iff)
  show "def_ok h d \<Longrightarrow> wf_hir (h\<lparr>hir_language_items := btree_insert d item (hir_language_items h)\<rparr>)"
    by (intro same m) (auto simp: fst_set_btree_insert)
  show "def_ok h d \<Longrightarrow> wf_hir (add_type_trait d t h)"
    unfolding add_type_trait_def by (intro same m) (auto simp: fst_set_btree_insert)
  show "target_ok h target \<Longrightarrow> wf_hir (set_item_target m i target h)"
    unfolding set_item_target_def by (rule same) (auto intro!: m dest!: subsetD [OF ran_upd_subset])
qed

lemma alloc_def_wf:
  assumes "wf_hir h" and "module_ok h m"
    and "\<forall>owner \<in> set_option (kind_owner kind). def_ok h owner"
    and "alloc_def m name kind public h = (d, h')"
  shows "wf_hir h'" and "grows h h'" and "def_ok h' d"
    and "\<exists>data \<in> set (hir_definitions h'). def_id data = d \<and> def_kind data = kind"
proof -
  let ?n = "length (hir_definitions h)"
  let ?new = "\<lparr>def_id = DefId (of_nat ?n), def_module = m, def_name = name, def_kind = kind, def_public = public\<rparr>"
  have h': "h' = h\<lparr>hir_definitions := hir_definitions h @ [?new]\<rparr>" and d: "d = DefId (of_nat ?n)"
    using assms(4) by (auto simp: alloc_def_def Let_def)
  show e: "grows h h'" by (simp add: h' grows_def)
  have old: "def_data_ok h' i (hir_definitions h ! i)" if "i < ?n" for i
    using assms(1) that e by (auto simp: wf_hir_def intro: grows_def_data)
  have new: "def_data_ok h' ?n ?new"
    using assms(2,3) e by (auto simp: def_data_ok_def def_ok_def grows_ok)
  have "members_ok h'"
    using assms(1) by (intro grows_members [OF e]) (auto simp: wf_hir_def h')
  then show "wf_hir h'"
    using assms(1) old new grows_module_data [OF e]
    by (auto simp: wf_hir_def h' nth_append less_Suc_eq)
  have "unat (of_nat ?n :: u32) \<le> ?n"
    by (metis unat_of_nat mod_less_eq_dividend)
  then show "def_ok h' d" by (simp add: def_ok_def DefId_index_def d h')
  show "\<exists>data \<in> set (hir_definitions h'). def_id data = d \<and> def_kind data = kind"
    by (simp add: h' d)
qed

lemma set_scope_wf:
  assumes "wf_hir h" and "module_ok h m" and "scope_ok h sc"
  shows "wf_hir (set_scope m sc h)" and "grows h (set_scope m sc h)"
proof -
  let ?h = "set_scope m sc h"
  have paths: "map mod_path (hir_modules ?h) = map mod_path (hir_modules h)"
    using assms(2) by (intro nth_equalityI) (auto simp: set_scope_def module_ok_def nth_list_update)
  show e: "grows h ?h" using paths by (simp add: grows_def set_scope_def)
  have rows: "module_data_ok ?h i (hir_modules ?h ! i)" if "i < length (hir_modules h)" for i
  proof -
    have "module_data_ok ?h i (hir_modules h ! i)"
      using assms(1) that e by (auto simp: wf_hir_def intro: grows_module_data)
    moreover have "scope_ok ?h sc" using assms(3) e grows_ok by blast
    ultimately show ?thesis
      using that assms(2)
      by (cases "i = ModuleId_index m") (auto simp: module_data_ok_def set_scope_def module_ok_def)
  qed
  have "members_ok ?h"
    using assms(1) by (intro grows_members [OF e]) (auto simp: wf_hir_def set_scope_def)
  then show "wf_hir ?h"
    using assms(1) rows grows_def_data [OF e] by (auto simp: wf_hir_def set_scope_def)
qed

lemma push_diagnostic_quiet: "quiet_update h (push_diagnostic d h)"
  by (simp add: quiet_update_def push_diagnostic_def)

section \<open>Steps\<close>

definition step_ok :: "ResolvedHir \<Rightarrow> ResolvedHir outcome \<Rightarrow> bool" where
  "step_ok h r \<longleftrightarrow> (\<exists>h'. r = Return h' \<and> wf_hir h' \<and> grows h h')"

lemma step_ok_Return [simp]: "step_ok h (Return h') \<longleftrightarrow> wf_hir h' \<and> grows h h'"
  by (simp add: step_ok_def)

lemma step_okE:
  assumes "step_ok h r"
  obtains h' where "r = Return h'" and "wf_hir h'" and "grows h h'"
  using assms by (auto simp: step_ok_def)

lemma step_ok_after: "step_ok h1 r \<Longrightarrow> grows h h1 \<Longrightarrow> step_ok h r"
  by (auto simp: step_ok_def intro: grows_trans)

lemma step_ok_bind:
  assumes "step_ok h r" and "\<And>h'. wf_hir h' \<Longrightarrow> grows h h' \<Longrightarrow> step_ok h' (f h')"
  shows "step_ok h (bind_outcome r f)"
proof (rule step_okE [OF assms(1)])
  fix h' assume "r = Return h'" and h': "wf_hir h'" "grows h h'"
  with assms(2) [OF h'] show ?thesis by (auto intro: step_ok_after)
qed

lemma step_ok_map:
  assumes "step_ok h r" and "\<And>h'. wf_hir h' \<Longrightarrow> grows h h' \<Longrightarrow> wf_hir (f h') \<and> grows h' (f h')"
  shows "step_ok h (map_outcome f r)"
  using assms by (elim step_okE) (auto intro: grows_trans)

lemma step_ok_fold:
  assumes "wf_hir h"
    and "\<And>x h'. x \<in> set xs \<Longrightarrow> wf_hir h' \<Longrightarrow> grows h h' \<Longrightarrow> step_ok h' (f x h')"
  shows "step_ok h (fold_outcome f xs h)"
  unfolding step_ok_def
proof (rule fold_outcome_inv)
  show "wf_hir h \<and> grows h h" using assms(1) by simp
  show "\<exists>s'. f x s = Return s' \<and> wf_hir s' \<and> grows h s'"
    if "x \<in> set xs" and "wf_hir s \<and> grows h s" for x s
    using assms(2) [of x s] that by (auto elim!: step_okE intro: grows_trans)
qed

lemma quiet_step:
  "wf_hir h \<Longrightarrow> quiet_update h h' \<Longrightarrow> wf_hir h' \<and> grows h h'"
  using quiet_update_wf by blast

lemma report_duplicate_step:
  assumes "wf_hir h" and "module_ok h m"
  shows "step_ok h (report_duplicate m name h)"
proof -
  obtain data where "hir_module h m = Return data" using hir_module_ok [OF assms] .
  then show ?thesis
    using assms(1) quiet_step [OF assms(1) push_diagnostic_quiet]
    by (simp add: report_duplicate_def Let_def)
qed

lemma report_duplicate_variant_step:
  assumes "wf_hir h" and "def_ok h owner"
  shows "step_ok h (report_duplicate_variant owner name h)"
proof -
  obtain data where "hir_definition h owner = Return data" using hir_definition_ok [OF assms] .
  then show ?thesis
    using quiet_step [OF assms(1) push_diagnostic_quiet] by (simp add: report_duplicate_variant_def)
qed

lemma report_unresolved_step:
  "wf_hir h \<Longrightarrow> step_ok h (report_unresolved None name h)"
  using quiet_step [OF _ push_diagnostic_quiet]
  by (simp add: report_unresolved_def diagnostic_at_def span_range_def)

lemma check_previous_step:
  assumes "wf_hir h" and "module_ok h m" and "def_ok h d"
    and "\<forall>p \<in> set_option previous. def_ok h p"
  shows "step_ok h (check_previous m name d previous h)"
proof (cases previous)
  case (Some p)
  obtain b where b: "hir_definition h d = Return b" using hir_definition_ok [OF assms(1,3)] .
  obtain a where a: "hir_definition h p = Return a"
    using hir_definition_ok [OF assms(1)] assms(4) Some by fastforce
  show ?thesis
    using a b assms(1) report_duplicate_step [OF assms(1,2)] Some by (simp add: check_previous_def)
qed (use assms(1) in \<open>simp add: check_previous_def\<close>)

lemma hir_insert_step:
  assumes "wf_hir h" and "module_ok h m" and "def_ok h d" and "ns \<noteq> NsModule"
  shows "step_ok h (hir_insert m ns name d h)"
proof -
  obtain data where data: "hir_module h m = Return data" "module_data_ok h (ModuleId_index m) data"
    using hir_module_ok [OF assms(1,2)] .
  let ?sc = "mod_scope data"
  have sc: "scope_ok h ?sc" using data(2) by (simp add: module_data_ok_def)
  have go: "step_ok h (check_previous m name d previous (set_scope m sc' h))"
    if "scope_ok h sc'" and "\<forall>p \<in> set_option previous. def_ok h p" for sc' previous
  proof -
    note set = set_scope_wf [OF assms(1,2) that(1)]
    show ?thesis
      by (rule step_ok_after [OF check_previous_step [OF set(1)] set(2)])
        (use grows_ok [OF set(2)] assms that in auto)
  qed
  have values_ok: "scope_ok h (?sc\<lparr>scope_values := (scope_values ?sc)(name \<mapsto> d)\<rparr>)"
    and types_ok: "scope_ok h (?sc\<lparr>scope_types := (scope_types ?sc)(name \<mapsto> d)\<rparr>)"
    using sc assms(3) by (auto simp: scope_ok_def dest!: subsetD [OF ran_upd_subset])
  have "\<forall>p \<in> set_option (scope_values ?sc name). def_ok h p"
    "\<forall>p \<in> set_option (scope_types ?sc name). def_ok h p"
    using sc by (auto simp: scope_ok_def ran_def)
  then show ?thesis
    using data(1) assms(4) go [OF values_ok] go [OF types_ok]
    by (cases ns) (simp_all add: hir_insert_def Let_def)
qed

lemma set_item_target_step:
  "wf_hir h \<Longrightarrow> target_ok h t \<Longrightarrow> wf_hir (set_item_target m i t h) \<and> grows h (set_item_target m i t h)"
  using wf_member_updates(6) by (simp add: grows_same_tables set_item_target_def)

lemma set_definition_file_step:
  "wf_hir h \<Longrightarrow> wf_hir (set_definition_file d file h) \<and> grows h (set_definition_file d file h)"
  by (rule quiet_step) (simp_all add: quiet_update_def set_definition_file_def)

text \<open>The common tail of a one-definition item: insert the name, record the target.\<close>

lemma insert_and_target:
  assumes "wf_hir h" and "module_ok h m" and "def_ok h d" and "ns \<noteq> NsModule"
  shows "step_ok h (map_outcome (set_item_target m i (ResolvedItem d)) (hir_insert m ns name d h))"
proof (rule step_ok_map [OF hir_insert_step [OF assms]])
  fix h' assume h': "wf_hir h'" "grows h h'"
  show "wf_hir (set_item_target m i (ResolvedItem d) h') \<and> grows h' (set_item_target m i (ResolvedItem d) h')"
    by (rule set_item_target_step [OF h'(1)]) (use grows_ok(2) [OF h'(2) assms(3)] in simp)
qed

section \<open>Items\<close>

lemma alloc_def_cases:
  assumes "wf_hir h" and "module_ok h m" and "\<forall>owner \<in> set_option (kind_owner kind). def_ok h owner"
  obtains d h' where "alloc_def m name kind public h = (d, h')" and "wf_hir h'" and "grows h h'"
    and "def_ok h' d" and "module_ok h' m"
proof -
  obtain d h' where a: "alloc_def m name kind public h = (d, h')" by fastforce
  note wf = alloc_def_wf [OF assms a]
  show thesis using that [OF a wf(1-3)] grows_ok(1) [OF wf(2) assms(2)] by blast
qed

lemma collect_annotation_step:
  assumes "wf_hir h" and "module_ok h m"
  shows "step_ok h (collect_annotation m i a h)"
proof (rule alloc_def_cases [OF assms, of KAnnotation "ann_name a" "ann_public a"])
  fix d h1
  assume a: "alloc_def m (ann_name a) KAnnotation (ann_public a) h = (d, h1)"
    and h1: "wf_hir h1" "grows h h1" "def_ok h1 d" "module_ok h1 m"
  let ?h2 = "set_definition_file d (sr_file (ann_name_span a)) h1"
  have h2: "wf_hir ?h2" "grows h1 ?h2" using set_definition_file_step [OF h1(1)] by simp_all
  have "step_ok ?h2 (map_outcome (set_item_target m i (ResolvedItem d))
      (hir_insert m NsType (ann_name a) d ?h2))"
    by (rule insert_and_target) (use h2 h1 grows_ok in auto)
  then show ?thesis
    using a grows_trans [OF h1(2) h2(2)] by (auto simp: collect_annotation_def intro: step_ok_after)
qed simp

lemma collect_function_step:
  assumes "wf_hir h" and "module_ok h m"
  shows "step_ok h (collect_function m i f h)"
proof (rule alloc_def_cases [OF assms, of KFunction "fn_name f" "fn_public f"])
  fix d h1
  assume a: "alloc_def m (fn_name f) KFunction (fn_public f) h = (d, h1)"
    and h1: "wf_hir h1" "grows h h1" "def_ok h1 d" "module_ok h1 m"
  let ?h2 = "set_definition_file d (sr_file (fn_name_span f)) h1"
  have h2: "wf_hir ?h2" "grows h1 ?h2" using set_definition_file_step [OF h1(1)] by simp_all
  have "step_ok ?h2 (map_outcome (set_item_target m i (ResolvedItem d))
      (hir_insert m NsValue (fn_name f) d ?h2))"
    by (rule insert_and_target) (use h2 h1 grows_ok in auto)
  then show ?thesis
    using a grows_trans [OF h1(2) h2(2)] by (auto simp: collect_function_def intro: step_ok_after)
qed simp

lemma collect_trait_step:
  assumes "wf_hir h" and "module_ok h m"
  shows "step_ok h (collect_trait m i t h)"
proof (rule alloc_def_cases [OF assms, of KTrait "trait_decl_name t" "trait_public t"])
  fix d h1
  assume a: "alloc_def m (trait_decl_name t) KTrait (trait_public t) h = (d, h1)"
    and h1: "wf_hir h1" "grows h h1" "def_ok h1 d" "module_ok h1 m"
  have "step_ok h1 (map_outcome (set_item_target m i (ResolvedItem d))
      (hir_insert m NsType (trait_decl_name t) d h1))"
    by (rule insert_and_target) (use h1 in auto)
  then show ?thesis using a h1(2) by (auto simp: collect_trait_def intro: step_ok_after)
qed simp

text \<open>A type name goes into both namespaces.\<close>

lemma insert_type_and_value:
  assumes "wf_hir h" and "module_ok h m" and "def_ok h d"
  shows "step_ok h (bind_outcome (hir_insert m NsType name d h) (hir_insert m NsValue name d))"
  by (rule step_ok_bind [OF hir_insert_step [OF assms]])
    (use assms grows_ok in \<open>auto intro!: hir_insert_step\<close>)

lemma collect_struct_step:
  assumes "wf_hir h" and "module_ok h m"
  shows "step_ok h (collect_struct m i s h)"
proof (rule alloc_def_cases [OF assms, of KStruct "struct_name s" "struct_public s"])
  fix d h1
  assume a: "alloc_def m (struct_name s) KStruct (struct_public s) h = (d, h1)"
    and h1: "wf_hir h1" "grows h h1" "def_ok h1 d" "module_ok h1 m"
  have "step_ok h1 (map_outcome (set_item_target m i (ResolvedItem d))
      (bind_outcome (hir_insert m NsType (struct_name s) d h1) (hir_insert m NsValue (struct_name s) d)))"
    by (rule step_ok_map [OF insert_type_and_value [OF h1(1,4,3)]])
      (use h1(3) grows_ok in \<open>auto intro!: set_item_target_step\<close>)
  then show ?thesis using a h1(2) by (auto simp: collect_struct_def intro: step_ok_after)
qed simp

lemma collect_variant_step:
  assumes "wf_hir h" and "module_ok h m" and "def_ok h owner"
  shows "step_ok h (collect_variant m owner public entry h)"
proof -
  obtain index v where entry: "entry = (index, v)" by (cases entry)
  let ?kind = "KEnumVariant owner (variant_shape (variant_kind v))"
  show ?thesis
  proof (rule alloc_def_cases [OF assms(1,2), of ?kind "variant_name v" public])
    fix d h1
    assume a: "alloc_def m (variant_name v) ?kind public h = (d, h1)"
      and h1: "wf_hir h1" "grows h h1" "def_ok h1 d" "module_ok h1 m"
    let ?h2 = "h1\<lparr>hir_enum_variants := (hir_enum_variants h1)((owner, variant_name v) \<mapsto> d)\<rparr>"
    have h2: "wf_hir ?h2" "grows h1 ?h2"
      using wf_member_updates(1) [OF h1(1,3)] by (simp_all add: grows_same_tables)
    have owner: "def_ok ?h2 owner" "def_ok ?h2 d" "module_ok ?h2 m"
      by (fact grows_ok(2) [OF h2(2) grows_ok(2) [OF h1(2) assms(3)]]
        grows_ok(2) [OF h2(2) h1(3)] grows_ok(1) [OF h2(2) h1(4)])+
    let ?report = "if hir_enum_variants h1 (owner, variant_name v) = None then Return ?h2
      else report_duplicate_variant owner (variant_name v) ?h2"
    let ?final = "\<lambda>h3. let h4 = h3\<lparr>hir_enum_variant_targets := (hir_enum_variant_targets h3)((owner, index) \<mapsto> d)\<rparr>
      in case variant_kind v of VariantUnit \<Rightarrow> hir_insert m NsValue (variant_name v) d h4 | _ \<Rightarrow> Return h4"
    have "step_ok ?h2 (bind_outcome ?report ?final)"
    proof (rule step_ok_bind)
      show "step_ok ?h2 ?report"
        using h2(1) report_duplicate_variant_step [OF h2(1) owner(1)] by simp
      fix h3 assume h3: "wf_hir h3" "grows ?h2 h3"
      let ?h4 = "h3\<lparr>hir_enum_variant_targets := (hir_enum_variant_targets h3)((owner, index) \<mapsto> d)\<rparr>"
      have h4: "wf_hir ?h4" "grows h3 ?h4"
        using quiet_step [OF h3(1), of ?h4] by (simp_all add: quiet_update_def)
      have "step_ok ?h4 (hir_insert m NsValue (variant_name v) d ?h4)"
        using owner grows_ok(1,2) [OF grows_trans [OF h3(2) h4(2)]]
        by (intro hir_insert_step [OF h4(1)]) simp_all
      then show "step_ok h3 (?final h3)"
        using h4 by (auto simp: Let_def split: VariantKind.splits intro: step_ok_after)
    qed
    then have "step_ok h (bind_outcome ?report ?final)"
      by (rule step_ok_after) (rule grows_trans [OF h1(2) h2(2)])
    then show ?thesis using a by (simp add: collect_variant_def entry Let_def)
  qed (use assms(3) in simp)
qed

lemma collect_enum_step:
  assumes "wf_hir h" and "module_ok h m"
  shows "step_ok h (collect_enum m i e h)"
proof (rule alloc_def_cases [OF assms, of KEnum "enum_name e" "enum_public e"])
  fix owner h1
  assume a: "alloc_def m (enum_name e) KEnum (enum_public e) h = (owner, h1)"
    and h1: "wf_hir h1" "grows h h1" "def_ok h1 owner" "module_ok h1 m"
  let ?variants = "\<lambda>h3. fold_outcome (collect_variant m owner (enum_public e))
    (List.enumerate 0 (enum_variants e)) (set_item_target m i (ResolvedItem owner) h3)"
  have "step_ok h1 (bind_outcome (hir_insert m NsType (enum_name e) owner h1) (\<lambda>h2.
      bind_outcome (hir_insert m NsValue (enum_name e) owner h2) ?variants))"
  proof (rule step_ok_bind [OF hir_insert_step [OF h1(1,4,3)]])
    fix h2 assume h2: "wf_hir h2" "grows h1 h2"
    note ok2 = grows_ok(1) [OF h2(2) h1(4)] grows_ok(2) [OF h2(2) h1(3)]
    show "step_ok h2 (bind_outcome (hir_insert m NsValue (enum_name e) owner h2) ?variants)"
    proof (rule step_ok_bind [OF hir_insert_step [OF h2(1) ok2]])
      fix h3 assume h3: "wf_hir h3" "grows h2 h3"
      let ?h4 = "set_item_target m i (ResolvedItem owner) h3"
      note ok3 = grows_ok(1) [OF h3(2) ok2(1)] grows_ok(2) [OF h3(2) ok2(2)]
      have h4: "wf_hir ?h4" "grows h3 ?h4"
        using set_item_target_step [OF h3(1), of "ResolvedItem owner"] ok3 by simp_all
      note ok4 = grows_ok(1) [OF h4(2) ok3(1)] grows_ok(2) [OF h4(2) ok3(2)]
      have "step_ok ?h4 (?variants h3)"
        by (rule step_ok_fold [OF h4(1)], rule collect_variant_step)
          (use ok4 grows_ok in blast)+
      then show "step_ok h3 (?variants h3)" using h4(2) by (rule step_ok_after)
    qed simp
  qed simp
  then show ?thesis using a h1(2) by (auto simp: collect_enum_def intro: step_ok_after)
qed simp

lemma collect_extern_fn_step:
  assumes "wf_hir h" and "module_ok h m"
  shows "step_ok h (collect_extern_fn m i entry h)"
proof -
  obtain index f where entry: "entry = (index, f)" by (cases entry)
  let ?e = "ExternId (of_nat (length (filter (\<lambda>d. is_extern_kind (def_kind d)) (hir_definitions h))))"
  show ?thesis
  proof (rule alloc_def_cases [OF assms, of "KExternFunction ?e" "extern_name f" True])
    fix d h1
    assume a: "alloc_def m (extern_name f) (KExternFunction ?e) True h = (d, h1)"
      and h1: "wf_hir h1" "grows h h1" "def_ok h1 d" "module_ok h1 m"
    let ?h2 = "set_definition_file d (sr_file (extern_name_span f)) h1"
    let ?target = "\<lambda>h. h\<lparr>hir_extern_function_targets :=
      (hir_extern_function_targets h)((m, i, index) \<mapsto> d)\<rparr>"
    have h2: "wf_hir ?h2" "grows h1 ?h2" using set_definition_file_step [OF h1(1)] by simp_all
    have "step_ok ?h2 (hir_insert m NsValue (extern_name f) d ?h2)"
      by (rule hir_insert_step [OF h2(1) grows_ok(1) [OF h2(2) h1(4)] grows_ok(2) [OF h2(2) h1(3)]]) simp
    then have "step_ok ?h2 (map_outcome ?target (hir_insert m NsValue (extern_name f) d ?h2))"
      by (rule step_ok_map) (simp add: quiet_step quiet_update_def)
    then have "step_ok h (map_outcome ?target (hir_insert m NsValue (extern_name f) d ?h2))"
      by (rule step_ok_after) (rule grows_trans [OF h1(2) h2(2)])
    then show ?thesis using a by (simp add: collect_extern_fn_def entry Let_def)
  qed simp
qed

lemma collect_leaf_step:
  assumes "wf_hir h" and "module_ok h m"
  shows "step_ok h (collect_leaf m i it h)"
proof (cases it)
  case (ItExtern b)
  have "step_ok h (fold_outcome (collect_extern_fn m i) (List.enumerate 0 (extern_fns b)) h)"
    by (rule step_ok_fold [OF assms(1)], rule collect_extern_fn_step) (use assms grows_ok in blast)+
  with ItExtern show ?thesis by (simp add: collect_leaf_def)
qed (use assms in \<open>simp_all add: collect_leaf_def collect_annotation_step collect_function_step
    collect_struct_step collect_enum_step collect_trait_step\<close>)

section \<open>Modules\<close>

lemma push_module_wf:
  assumes "wf_hir h" and "module_ok h m"
    and "mod_id row = ModuleId (of_nat (length (hir_modules h)))" and "mod_parent row = Some m"
    and "segments (mod_path row) = segments (mod_path (hir_modules h ! ModuleId_index m)) @ [name]"
    and "wf_module_path (mod_path row)" and "scope_ok h (mod_scope row)"
  shows "wf_hir (h\<lparr>hir_modules := hir_modules h @ [row]\<rparr>)"
    and "grows h (h\<lparr>hir_modules := hir_modules h @ [row]\<rparr>)"
proof -
  let ?n = "length (hir_modules h)"
  let ?h = "h\<lparr>hir_modules := hir_modules h @ [row]\<rparr>"
  show e: "grows h ?h" by (simp add: grows_def)
  have old: "module_data_ok ?h i (hir_modules h ! i)" if "i < ?n" for i
    using assms(1) that e by (auto simp: wf_hir_def intro: grows_module_data)
  have "scope_ok ?h (mod_scope row)" using e assms(7) grows_ok by blast
  then have new: "module_data_ok ?h ?n row"
    using assms(2-6) by (auto simp: module_data_ok_def module_ok_def nth_append)
  have "members_ok ?h"
    using assms(1) by (intro grows_members [OF e]) (auto simp: wf_hir_def)
  then show "wf_hir ?h"
    using assms(1) old new grows_def_data [OF e]
    by (auto simp: wf_hir_def nth_append less_Suc_eq)
qed

lemma collect_module_step:
  assumes "wf_hir h" and "module_ok h m" and "valid_identifier (md_name decl)"
  shows "\<exists>child h'. collect_module m i decl h = Return (child, h')
           \<and> wf_hir h' \<and> grows h h' \<and> module_ok h' child"
proof -
  obtain parent where parent: "hir_module h m = Return parent"
      "module_data_ok h (ModuleId_index m) parent"
    using hir_module_ok [OF assms(1,2)] .
  then have parent_row: "parent = hir_modules h ! ModuleId_index m" by (simp add: hir_module_def)
  have "wf_module_path (mod_path parent)" using parent(2) by (simp add: module_data_ok_def)
  then obtain path where path: "ModulePath_child (mod_path parent) (md_name decl) = Inr path"
      "wf_module_path path" "segments path = segments (mod_path parent) @ [md_name decl]"
    using assms(3) by (auto simp: ModulePath_child_def ModulePath_new_def wf_module_path_def)
  define child where "child = ModuleId (of_nat (length (hir_modules h)))"
  define row where "row = \<lparr>mod_id = child, mod_parent = Some m, mod_path = path,
      mod_file = (case file_of_items (md_items decl) of Some file \<Rightarrow> file | None \<Rightarrow> mod_file parent),
      mod_is_file = md_is_file decl, mod_is_declaration = md_is_decl decl,
      mod_public = md_public decl, mod_scope = ModuleScope_default\<rparr>"
  define h1 where "h1 = h\<lparr>hir_modules := hir_modules h @ [row]\<rparr>"
  have h1: "wf_hir h1" "grows h h1"
    unfolding h1_def using push_module_wf [OF assms(1,2), of row "md_name decl"] path parent_row
    by (auto simp: row_def child_def scope_ok_def ModuleScope_default_def)
  have child: "module_ok h1 child"
  proof -
    have "unat (of_nat (length (hir_modules h)) :: u32) \<le> length (hir_modules h)"
      by (metis unat_of_nat mod_less_eq_dividend)
    then show ?thesis by (simp add: module_ok_def child_def ModuleId_index_def h1_def)
  qed
  have m1: "module_ok h1 m" using h1(2) assms(2) grows_ok by blast
  obtain data where data: "hir_module h1 m = Return data" "module_data_ok h1 (ModuleId_index m) data"
    using hir_module_ok [OF h1(1) m1] .
  let ?sc = "(mod_scope data)\<lparr>scope_modules := (scope_modules (mod_scope data))(md_name decl \<mapsto> child)\<rparr>"
  have sc: "scope_ok h1 ?sc"
    using data(2) child by (auto simp: module_data_ok_def scope_ok_def dest!: subsetD [OF ran_upd_subset])
  let ?h2 = "set_scope m ?sc h1"
  note h2 = set_scope_wf [OF h1(1) m1 sc]
  let ?r = "if scope_modules (mod_scope data) (md_name decl) = None then Return ?h2
            else report_duplicate m (md_name decl) ?h2"
  have "step_ok ?h2 ?r"
    using h2(1) report_duplicate_step [OF h2(1) grows_ok(1) [OF h2(2) m1]] by simp
  then obtain h3 where h3: "?r = Return h3" "wf_hir h3" "grows ?h2 h3" by (rule step_okE)
  have child3: "module_ok h3 child"
    by (rule grows_ok(1) [OF grows_trans [OF h2(2) h3(3)] child])
  let ?h4 = "set_item_target m i (ResolvedModule child) h3"
  have h4: "wf_hir ?h4" "grows h3 ?h4"
    using set_item_target_step [OF h3(2), of "ResolvedModule child"] child3 by simp_all
  have "collect_module m i decl h = Return (child, ?h4)"
    using parent(1) path(1) data(1) h3(1)
    by (cases "scope_modules (mod_scope data) (md_name decl)")
      (simp_all add: collect_module_def link_module_def Let_def flip: child_def row_def h1_def)
  then show ?thesis
    using h4 grows_trans [OF h1(2) grows_trans [OF h2(2) grows_trans [OF h3(3) h4(2)]]]
      grows_ok(1) [OF h4(2) child3] by blast
qed

text \<open>What the parser guarantees: module names are identifiers.\<close>

fun module_names_ok :: "Item list \<Rightarrow> bool" where
  "module_names_ok [] = True"
| "module_names_ok (ItMod (ModDecl n a d its ch ord p f e) # items) =
     (valid_identifier n \<and> module_names_ok its \<and> module_names_ok items)"
| "module_names_ok (it # items) = module_names_ok items"

lemma collect_items_step:
  "module_names_ok items \<Longrightarrow> wf_hir h \<Longrightarrow> module_ok h m \<Longrightarrow> step_ok h (collect_items m i items h)"
proof (induction m i items h rule: collect_items.induct)
  case (2 m i n a d its ch ord p f e items h)
  obtain child h1 where c: "collect_module m i (ModDecl n a d its ch ord p f e) h = Return (child, h1)"
      "wf_hir h1" "grows h h1" "module_ok h1 child"
    using collect_module_step [OF 2(4,5), of "ModDecl n a d its ch ord p f e" i] 2(3) by auto
  have "step_ok h1 (bind_outcome (collect_items child 0 its h1) (collect_items m (Suc i) items))"
  proof (rule step_ok_bind)
    show "step_ok h1 (collect_items child 0 its h1)"
      using 2(1) 2(3) c by simp
    fix h2 assume "wf_hir h2" "grows h1 h2"
    then show "step_ok h2 (collect_items m (Suc i) items h2)"
      using 2(2) 2(3,5) grows_ok(1) [OF grows_trans [OF c(3)]] by simp
  qed
  with c show ?case by (auto intro: step_ok_after)
qed (auto intro!: step_ok_bind collect_leaf_step intro: grows_ok)

section \<open>Trait methods\<close>

lemma alloc_file_step:
  assumes "wf_hir h" and "module_ok h m" and "\<forall>owner \<in> set_option (kind_owner kind). def_ok h owner"
  obtains d h1 where "alloc_def m name kind public h = (d, h1)"
    and "wf_hir (set_definition_file d file h1)" and "grows h (set_definition_file d file h1)"
    and "def_ok (set_definition_file d file h1) d" and "module_ok (set_definition_file d file h1) m"
proof (rule alloc_def_cases [OF assms, of name public])
  fix d h1
  assume a: "alloc_def m name kind public h = (d, h1)"
    and h1: "wf_hir h1" "grows h h1" "def_ok h1 d" "module_ok h1 m"
  have "wf_hir (set_definition_file d file h1)" "grows h1 (set_definition_file d file h1)"
    using set_definition_file_step [OF h1(1)] by simp_all
  then show thesis
    using that [OF a] h1 grows_trans [OF h1(2)] grows_ok by blast
qed

lemma collect_trait_method_step:
  assumes "wf_hir h" and "module_ok h m" and "def_ok h owner"
  shows "step_ok h (collect_trait_method m owner public entry h)"
proof -
  obtain index mt where entry: "entry = (index, mt)" by (cases entry)
  show ?thesis
  proof (rule alloc_file_step [OF assms(1,2), of "KTraitMethod owner" "tm_name mt" public "sr_file (tm_name_span mt)"])
    fix d h1
    let ?h2 = "set_definition_file d (sr_file (tm_name_span mt)) h1"
    assume a: "alloc_def m (tm_name mt) (KTraitMethod owner) public h = (d, h1)"
      and h2: "wf_hir ?h2" "grows h ?h2" "def_ok ?h2 d" "module_ok ?h2 m"
    let ?h3 = "?h2\<lparr>hir_trait_items := btree_insert (owner, tm_name mt) d (hir_trait_items ?h2)\<rparr>"
    have h3: "wf_hir ?h3" "grows ?h2 ?h3"
      using wf_member_updates(3) [OF h2(1,3)] by (simp_all add: grows_same_tables)
    let ?report = "if map_of (hir_trait_items ?h2) (owner, tm_name mt) = None then Return ?h3
      else report_duplicate m (tm_name mt) ?h3"
    let ?link = "\<lambda>h4. h4\<lparr>hir_trait_default_methods :=
        (if tm_default mt = None then hir_trait_default_methods h4
         else insert d (hir_trait_default_methods h4)),
      hir_trait_method_targets := (hir_trait_method_targets h4)((owner, index) \<mapsto> d)\<rparr>"
    have "step_ok ?h3 ?report"
      using h3(1) report_duplicate_step [OF h3(1) grows_ok(1) [OF h3(2) h2(4)]] by simp
    then have "step_ok ?h3 (map_outcome ?link ?report)"
      by (rule step_ok_map) (simp add: quiet_step quiet_update_def)
    then have "step_ok h (map_outcome ?link ?report)"
      by (rule step_ok_after) (rule grows_trans [OF h2(2) h3(2)])
    then show ?thesis using a by (simp add: collect_trait_method_def entry Let_def)
  qed (use assms(3) in simp)
qed

lemma collect_trait_methods_step:
  assumes "wf_hir h" and "module_ok h m"
  shows "step_ok h (collect_trait_methods m i t h)"
proof (cases "\<exists>owner. hir_item_targets h (m, i) = Some (ResolvedItem owner)")
  case True
  then obtain owner where owner: "hir_item_targets h (m, i) = Some (ResolvedItem owner)" ..
  have "\<forall>t \<in> ran (hir_item_targets h). target_ok h t"
    using assms(1) by (simp add: wf_hir_def members_ok_def)
  then have "target_ok h (ResolvedItem owner)" by (rule bspec [OF _ ranI [where m = "hir_item_targets h", OF owner]])
  then have ok: "def_ok h owner" by simp
  have "step_ok h (fold_outcome (collect_trait_method m owner (trait_public t))
      (List.enumerate 0 (trait_methods t)) h)"
    by (rule step_ok_fold [OF assms(1)], rule collect_trait_method_step)
      (use assms(2) ok grows_ok(1,2) in blast)+
  with owner show ?thesis by (simp add: collect_trait_methods_def)
next
  case False
  with assms(1) show ?thesis
    by (auto simp: collect_trait_methods_def split: option.splits ResolvedTarget.splits)
qed

text \<open>Both later passes walk the items through the scopes in the same way.\<close>

lemma scope_child_ok:
  assumes "wf_hir h" and "module_ok h m"
  obtains data where "hir_module h m = Return data"
    and "\<And>n child. scope_modules (mod_scope data) n = Some child \<Longrightarrow> module_ok h child"
proof -
  obtain data where data: "hir_module h m = Return data" "module_data_ok h (ModuleId_index m) data"
    using hir_module_ok [OF assms] .
  have "\<forall>c \<in> ran (scope_modules (mod_scope data)). module_ok h c"
    using data(2) by (simp add: module_data_ok_def scope_ok_def)
  with that [OF data(1)] show thesis by (auto simp: ran_def)
qed

lemma walk_child_step:
  assumes "wf_hir h" and "module_ok h m"
    and "\<And>(data :: ModuleData) child. scope_modules (mod_scope data) n = Some child \<Longrightarrow> module_ok h child
           \<Longrightarrow> step_ok h (f child)"
    and "\<And>data :: ModuleData. scope_modules (mod_scope data) n = None \<Longrightarrow> step_ok h (g h)"
    and "\<And>(data :: ModuleData) child h'. scope_modules (mod_scope data) n = Some child
           \<Longrightarrow> wf_hir h' \<Longrightarrow> grows h h' \<Longrightarrow> step_ok h' (g h')"
  shows "step_ok h (bind_outcome (hir_module h m) (\<lambda>data.
           case scope_modules (mod_scope data) n of
             None \<Rightarrow> g h | Some child \<Rightarrow> bind_outcome (f child) g))"
proof (rule scope_child_ok [OF assms(1,2)])
  fix data
  assume data: "hir_module h m = Return data"
    and child: "\<And>n child. scope_modules (mod_scope data) n = Some child \<Longrightarrow> module_ok h child"
  show ?thesis
  proof (cases "scope_modules (mod_scope data) n")
    case None
    with assms(4) data show ?thesis by simp
  next
    case (Some c)
    have "step_ok h (bind_outcome (f c) g)"
      by (rule step_ok_bind [OF assms(3) [OF Some child [OF Some]] assms(5) [OF Some]])
    with Some data show ?thesis by simp
  qed
qed

lemma collect_trait_items_step:
  "wf_hir h \<Longrightarrow> module_ok h m \<Longrightarrow> step_ok h (collect_trait_items m i items h)"
proof (induction m i items h rule: collect_trait_items.induct)
  case (2 m i n a d its ch ord p f e items h)
  show ?case unfolding collect_trait_items.simps
    by (rule walk_child_step [OF 2(4,5)]) (rule 2(1-3) 2(4,5) grows_ok(1); assumption?)+
next
  case (3 m i t items h)
  show ?case unfolding collect_trait_items.simps
    by (rule step_ok_bind [OF collect_trait_methods_step [OF 3(2,3)]]) (use 3 grows_ok(1) in blast)
qed simp_all

section \<open>Implementations\<close>

lemma resolved_item_ok:
  assumes "wf_hir h" and "module_ok h m"
  obtains r where "resolve_path h m ns segs = Return r"
    and "\<And>d. r = Some (ResolvedItem d) \<Longrightarrow> def_ok h d"
  using resolve_path_lookup [OF assms, of ns segs] by (fastforce simp: safe_lookup_def)

lemma trait_target_of_returns:
  assumes "wf_hir h" and "\<And>d. r = Some (ResolvedItem d) \<Longrightarrow> def_ok h d"
  obtains t where "trait_target_of h name r = Return t"
proof (cases "\<exists>d. r = Some (ResolvedItem d)")
  case True
  then obtain d where d: "r = Some (ResolvedItem d)" ..
  obtain data where "hir_definition h d = Return data"
    using hir_definition_ok [OF assms(1) assms(2) [OF d]] .
  with d that show thesis by (simp add: trait_target_of_def)
next
  case False
  have "trait_target_of h name r = Return (map_option TraitBuiltin (builtin_trait name))"
    using False by (auto simp: trait_target_of_def split: option.splits ResolvedTarget.splits)
  with that show thesis by blast
qed

lemma resolve_impl_trait_step:
  assumes "wf_hir h" and "module_ok h m" and "def_ok h owner"
  shows "\<exists>target h'. resolve_impl_trait m owner named h = Return (target, h')
           \<and> wf_hir h' \<and> grows h h'"
proof (cases named)
  case (Some name)
  obtain r where r: "resolve_path h m NsType (split_path name) = Return r"
      "\<And>d. r = Some (ResolvedItem d) \<Longrightarrow> def_ok h d"
    using resolved_item_ok [OF assms(1,2), of NsType "split_path name"] by blast
  obtain t where t: "trait_target_of h name r = Return t"
    using trait_target_of_returns [OF assms(1) r(2)] .
  obtain h1 where h1: "report_unresolved None name h = Return h1" "wf_hir h1" "grows h h1"
    using report_unresolved_step [OF assms(1)] by (rule step_okE)
  show ?thesis
  proof (cases t)
    case None
    with Some r t h1 show ?thesis by (simp add: resolve_impl_trait_def)
  next
    case (Some tt)
    have "wf_hir (add_type_trait owner tt h)" "grows h (add_type_trait owner tt h)"
      using wf_member_updates(5) [OF assms(1,3)]
      by (simp_all add: grows_same_tables add_type_trait_def)
    with Some \<open>named = Some name\<close> r t show ?thesis by (simp add: resolve_impl_trait_def)
  qed
qed (use assms in \<open>simp add: resolve_impl_trait_def\<close>)

lemma link_trait_method_quiet: "quiet_update h (link_trait_method d name target h)"
  by (cases target)
    (auto simp: quiet_update_def link_trait_method_def Let_def split: TraitTarget.splits option.splits)

lemma collect_impl_method_step:
  assumes "wf_hir h" and "module_ok h m" and "def_ok h owner"
  shows "step_ok h (collect_impl_method m i owner target entry h)"
proof -
  obtain index fdecl where entry: "entry = (index, fdecl)" by (cases entry)
  show ?thesis
  proof (rule alloc_file_step [OF assms(1,2), of "KMethod owner" "fn_name fdecl" "fn_public fdecl"
        "sr_file (fn_name_span fdecl)"])
    fix d h1
    let ?h2 = "set_definition_file d (sr_file (fn_name_span fdecl)) h1"
    assume a: "alloc_def m (fn_name fdecl) (KMethod owner) (fn_public fdecl) h = (d, h1)"
      and h2: "wf_hir ?h2" "grows h ?h2" "def_ok ?h2 d" "module_ok ?h2 m"
    let ?h3 = "?h2\<lparr>hir_associated_items := (hir_associated_items ?h2)((owner, fn_name fdecl) \<mapsto> d)\<rparr>"
    have h3: "wf_hir ?h3" "grows ?h2 ?h3"
      using wf_member_updates(2) [OF h2(1,3)] by (simp_all add: grows_same_tables)
    let ?report = "if hir_associated_items ?h2 (owner, fn_name fdecl) = None then Return ?h3
      else report_duplicate m (fn_name fdecl) ?h3"
    let ?link = "\<lambda>h4. let h5 = link_trait_method d (fn_name fdecl) target h4 in
      h5\<lparr>hir_impl_method_targets := (hir_impl_method_targets h5)((m, i, index) \<mapsto> d)\<rparr>"
    have "step_ok ?h3 ?report"
      using h3(1) report_duplicate_step [OF h3(1) grows_ok(1) [OF h3(2) h2(4)]] by simp
    then have "step_ok ?h3 (map_outcome ?link ?report)"
    proof (rule step_ok_map)
      fix h4 assume h4: "wf_hir h4" "grows ?h3 h4"
      have "quiet_update h4 (?link h4)"
        using link_trait_method_quiet [of h4 d "fn_name fdecl" target]
        by (simp add: quiet_update_def Let_def)
      then show "wf_hir (?link h4) \<and> grows h4 (?link h4)" by (rule quiet_step [OF h4(1)])
    qed
    then have "step_ok h (map_outcome ?link ?report)"
      by (rule step_ok_after) (rule grows_trans [OF h2(2) h3(2)])
    then show ?thesis using a by (simp add: collect_impl_method_def entry Let_def)
  qed (use assms(3) in simp)
qed

lemma collect_impl_step:
  assumes "wf_hir h" and "module_ok h m"
  shows "step_ok h (collect_impl m i im h)"
proof (rule resolved_item_ok [OF assms, of NsType "split_path (impl_type_name im)"])
  fix r
  assume r: "resolve_path h m NsType (split_path (impl_type_name im)) = Return r"
    and item: "\<And>d. r = Some (ResolvedItem d) \<Longrightarrow> def_ok h d"
  show ?thesis
  proof (cases "\<exists>owner. r = Some (ResolvedItem owner)")
    case True
    then obtain owner where owner: "r = Some (ResolvedItem owner)" ..
    then have ok: "def_ok h owner" by (rule item)
    obtain target h1 where h1: "resolve_impl_trait m owner (impl_trait_name im) h = Return (target, h1)"
        "wf_hir h1" "grows h h1"
      using resolve_impl_trait_step [OF assms ok] by blast
    let ?h2 = "h1\<lparr>hir_impl_targets := (hir_impl_targets h1)
        ((m, i) \<mapsto> \<lparr>impl_owner = owner, impl_trait_target = target\<rparr>)\<rparr>"
    have h2: "wf_hir ?h2" "grows h1 ?h2"
      using quiet_step [OF h1(2), of ?h2] by (simp_all add: quiet_update_def)
    note ok2 = grows_ok(1) [OF grows_trans [OF h1(3) h2(2)] assms(2)]
      grows_ok(2) [OF grows_trans [OF h1(3) h2(2)] ok]
    have "step_ok ?h2 (fold_outcome (collect_impl_method m i owner target)
        (List.enumerate 0 (impl_methods im)) ?h2)"
      by (rule step_ok_fold [OF h2(1)], rule collect_impl_method_step)
        (use ok2 grows_ok(1,2) in blast)+
    then have "step_ok h (fold_outcome (collect_impl_method m i owner target)
        (List.enumerate 0 (impl_methods im)) ?h2)"
      by (rule step_ok_after) (rule grows_trans [OF h1(3) h2(2)])
    with r owner h1 show ?thesis by (simp add: collect_impl_def)
  next
    case False
    then have "collect_impl m i im h = report_unresolved None (impl_type_name im) h"
      using r by (auto simp: collect_impl_def split: option.splits ResolvedTarget.splits)
    then show ?thesis using report_unresolved_step [OF assms(1)] by simp
  qed
qed

lemma collect_impl_items_step:
  "wf_hir h \<Longrightarrow> module_ok h m \<Longrightarrow> step_ok h (collect_impl_items m i items h)"
proof (induction m i items h rule: collect_impl_items.induct)
  case (2 m i n a d its ch ord p f e items h)
  show ?case unfolding collect_impl_items.simps
    by (rule walk_child_step [OF 2(4,5)]) (rule 2(1-3) 2(4,5) grows_ok(1); assumption?)+
next
  case (3 m i im items h)
  show ?case unfolding collect_impl_items.simps
    by (rule step_ok_bind [OF collect_impl_step [OF 3(2,3)]]) (use 3 grows_ok(1) in blast)
qed simp_all

section \<open>Inherited methods and language items\<close>

lemma inherit_method_step:
  assumes "wf_hir h" and "def_ok h owner" and "def_ok h (snd entry)"
  shows "step_ok h (inherit_method owner trait_id entry h)"
proof -
  obtain name origin where entry: "entry = (name, origin)" by (cases entry)
  obtain od where od: "hir_definition h owner = Return od" "module_ok h (def_module od)"
    using hir_definition_ok [OF assms(1,2)] by metis
  obtain gd where gd: "hir_definition h origin = Return gd"
    using hir_definition_ok [OF assms(1,3)] entry by auto
  show ?thesis
  proof (rule alloc_def_cases [OF assms(1) od(2), of "KMethod owner" name "def_public gd"])
    fix d h1
    assume a: "alloc_def (def_module od) name (KMethod owner) (def_public gd) h = (d, h1)"
      and h1: "wf_hir h1" "grows h h1" "def_ok h1 d"
    let ?h2 = "h1\<lparr>hir_associated_items := (hir_associated_items h1)((owner, name) \<mapsto> d)\<rparr>"
    let ?h3 = "?h2\<lparr>hir_method_origins := (hir_method_origins h1)(d \<mapsto> origin),
        hir_method_traits := (hir_method_traits h1)(d \<mapsto> TraitItem trait_id)\<rparr>"
    have h2: "wf_hir ?h2" "grows h1 ?h2"
      using wf_member_updates(2) [OF h1(1,3)] by (simp_all add: grows_same_tables)
    have h3: "wf_hir ?h3" "grows ?h2 ?h3"
      using quiet_step [OF h2(1), of ?h3] by (simp_all add: quiet_update_def)
    show ?thesis
      using assms(1) od gd a h3(1) grows_trans [OF h1(2) grows_trans [OF h2(2) h3(2)]]
      by (simp add: inherit_method_def entry)
  qed (use assms(2) in simp)
qed

lemma trait_defaults_ok:
  "wf_hir h \<Longrightarrow> entry \<in> set (trait_defaults h trait_id) \<Longrightarrow> def_ok h (snd entry)"
  by (force simp: wf_hir_def members_ok_def trait_defaults_def)

lemma trait_implementations_ok:
  "wf_hir h \<Longrightarrow> (owner, trait_id) \<in> set (trait_implementations h) \<Longrightarrow> def_ok h owner"
  by (force simp: wf_hir_def members_ok_def trait_implementations_def map_filter_def
      split: TraitTarget.splits)

lemma collect_inherited_methods_step:
  assumes "wf_hir h"
  shows "step_ok h (collect_inherited_methods h)"
  unfolding collect_inherited_methods_def
proof (rule step_ok_fold [OF assms])
  fix entry h1
  assume entry: "entry \<in> set (trait_implementations h)" and h1: "wf_hir h1" "grows h h1"
  obtain owner trait_id where pair: "entry = (owner, trait_id)" by (cases entry)
  have owner: "def_ok h1 owner"
    using trait_implementations_ok [OF assms] entry pair grows_ok(2) [OF h1(2)] by blast
  have "step_ok h1 (fold_outcome (inherit_method owner trait_id) (trait_defaults h1 trait_id) h1)"
  proof (rule step_ok_fold [OF h1(1)])
    fix x h2 assume x: "x \<in> set (trait_defaults h1 trait_id)" and h2: "wf_hir h2" "grows h1 h2"
    show "step_ok h2 (inherit_method owner trait_id x h2)"
      by (rule inherit_method_step [OF h2(1) grows_ok(2) [OF h2(2) owner]
            grows_ok(2) [OF h2(2) trait_defaults_ok [OF h1(1) x]]])
  qed
  then show "step_ok h1 ((\<lambda>(owner, trait_id) h1. fold_outcome (inherit_method owner trait_id)
      (trait_defaults h1 trait_id) h1) entry h1)" by (simp add: pair)
qed

lemma language_definition_ok:
  assumes "wf_hir h" and "scope_ok h sc" and "language_definition h sc segs = Some d"
  shows "def_ok h d"
proof -
  have "scope_values sc n = Some x \<Longrightarrow> def_ok h x" "scope_types sc n = Some x \<Longrightarrow> def_ok h x" for n x
    using assms(2) by (auto simp: scope_ok_def ran_def)
  moreover have "hir_enum_variants h k = Some x \<Longrightarrow> def_ok h x"
    "hir_associated_items h k = Some x \<Longrightarrow> def_ok h x"
    "map_of (hir_trait_items h) k = Some x \<Longrightarrow> def_ok h x" for k x
    using assms(1) by (auto simp: wf_hir_def members_ok_def dest!: map_of_SomeD
      intro: bspec [OF _ ranI [where m = "hir_enum_variants h"]]
        bspec [OF _ ranI [where m = "hir_associated_items h"]])
  ultimately show ?thesis
    using assms(3)
    by (auto simp: language_definition_def split: list.splits option.splits Option.bind_splits)
qed

lemma install_language_item_step:
  assumes "wf_hir h" and "module_ok h prelude"
  shows "step_ok h (install_language_item prelude entry h)"
proof -
  obtain path item where entry: "entry = (path, item)" by (cases entry)
  obtain data where data: "hir_module h prelude = Return data"
      "module_data_ok h (ModuleId_index prelude) data"
    using hir_module_ok [OF assms] .
  then have "scope_ok h (mod_scope data)" by (simp add: module_data_ok_def)
  note d_ok = language_definition_ok [OF assms(1) this, of "split_path path"]
  show ?thesis
    using data(1) wf_member_updates(4) [OF assms(1) d_ok] quiet_step [OF assms(1) push_diagnostic_quiet]
    by (auto simp: install_language_item_def entry grows_same_tables split: option.splits)
qed

lemma install_language_items_step:
  assumes "wf_hir h"
  shows "step_ok h (install_language_items h)"
proof (rule scope_child_ok [OF assms wf_root [OF assms]])
  fix data
  assume data: "hir_module h (hir_root h) = Return data"
    and child: "\<And>n child. scope_modules (mod_scope data) n = Some child \<Longrightarrow> module_ok h child"
  have "step_ok h (fold_outcome (install_language_item prelude) items h)"
    if "scope_modules (mod_scope data) rua_builtin = Some prelude" for prelude items
    by (rule step_ok_fold [OF assms], rule install_language_item_step)
      (use child [OF that] grows_ok(1) in blast)+
  then show ?thesis
    using assms data by (auto simp: install_language_items_def split: option.splits)
qed

section \<open>The whole collection\<close>

lemma initial_hir_wf: "wf_hir (initial_hir program)"
  by (simp add: initial_hir_def wf_parts members_ok_def scope_ok_def ModuleScope_default_def
      wf_module_path_def)

lemma collect_declarations_step:
  assumes "module_names_ok (prog_items program)"
  shows "\<exists>h. collect_declarations program = Return h \<and> wf_hir h"
proof -
  let ?items = "prog_items program" and ?h0 = "initial_hir program"
  have root: "module_ok h (ModuleId 0)" if "wf_hir h" for h
    using that by (simp add: wf_hir_def module_ok_def ModuleId_index_def)
  have "step_ok ?h0 (collect_declarations program)"
    unfolding collect_declarations_def Let_def
    by (intro step_ok_bind collect_items_step collect_trait_items_step collect_impl_items_step
        collect_inherited_methods_step install_language_items_step initial_hir_wf assms root)
      assumption+
  then show ?thesis by (auto simp: step_ok_def)
qed

text \<open>
  C29. On every program whose module names are identifiers, as the parser guarantees,
  declaration collection returns (no index, assertion or expectation of its five passes
  fails) and the tables it returns are well formed: every identity stored anywhere is in
  range, every module and definition sits at its own index, modules follow their parents and
  extend their paths, and members follow their owners.
\<close>

theorem collect_declarations_wf:
  assumes "module_names_ok (prog_items program)"
  shows "\<exists>h. collect_declarations program = Return h \<and> wf_hir h"
  using collect_declarations_step [OF assms] .

text \<open>A program with a private module, a public one, a trait, an implementation and an enum.\<close>

definition sample_span :: SourceRange where
  "sample_span = \<lparr>sr_start = 0, sr_len = 0, sr_line = 1, sr_file = 0\<rparr>"

definition sample_fn :: "bytes \<Rightarrow> bool \<Rightarrow> FnDecl" where
  "sample_fn name public =
     \<lparr>fn_name = name, fn_attributes = [], fn_documentation = None, fn_name_span = sample_span,
      fn_generics = [], fn_public = public, fn_has_self = False, fn_receiver_mutable = False,
      fn_params = [], fn_ret = None, fn_body = AstBlock [] [] None False\<rparr>"

definition sample_enum :: EnumDecl where
  "sample_enum =
     \<lparr>enum_name = ''Status'', enum_attributes = [], enum_documentation = None, enum_generics = [],
      enum_variants =
        [\<lparr>variant_name = ''Ready'', variant_attributes = [], variant_documentation = None,
          variant_kind = VariantUnit\<rparr>],
      enum_public = True\<rparr>"

definition sample_program :: Program where
  "sample_program =
     \<lparr>prog_items =
        [ItMod (ModDecl ''api'' [] None
           [ItEnum sample_enum, ItFn (sample_fn ''helper'' False),
            ItMod (ModDecl ''inner'' [] None [ItFn (sample_fn ''go'' True)] (AstBlock [] [] None False) []
              False True False)]
           (AstBlock [] [] None False) [] True True False),
         ItFn (sample_fn ''main'' False)],
      prog_chunk = AstBlock [] [] None False, prog_source_order = [], prog_is_decl = False,
      prog_standard_library = None\<rparr>"

theorem collect_declarations_wf_witness:
  "\<exists>h. collect_declarations sample_program = Return h \<and> wf_hir h"
  by (rule collect_declarations_wf)
    (simp add: sample_program_def ident_start_def ident_continue_def ascii_class_defs)

section \<open>What the first pass declares\<close>

text \<open>The names and visibility of the definitions of an item list, in source order.\<close>

fun declared :: "Item list \<Rightarrow> (bytes \<times> bool) list" where
  "declared [] = []"
| "declared (ItMod (ModDecl n a d its ch ord p f e) # items) = declared its @ declared items"
| "declared (ItAnnotation a # items) = (ann_name a, ann_public a) # declared items"
| "declared (ItFn f # items) = (fn_name f, fn_public f) # declared items"
| "declared (ItStruct s # items) = (struct_name s, struct_public s) # declared items"
| "declared (ItEnum e # items) =
     (enum_name e, enum_public e)
     # map (\<lambda>v. (variant_name v, enum_public e)) (enum_variants e) @ declared items"
| "declared (ItTrait t # items) = (trait_decl_name t, trait_public t) # declared items"
| "declared (ItExtern b # items) = map (\<lambda>f. (extern_name f, True)) (extern_fns b) @ declared items"
| "declared (ItImpl im # items) = declared items"
| "declared (ItUse u # items) = declared items"

definition definition_names :: "ResolvedHir \<Rightarrow> (bytes \<times> bool) list" where
  "definition_names h = map (\<lambda>d. (def_name d, def_public d)) (hir_definitions h)"

lemma definition_names_alloc:
  "alloc_def m name kind public h = (d, h') \<Longrightarrow>
   definition_names h' = definition_names h @ [(name, public)]"
  by (auto simp: alloc_def_def Let_def definition_names_def)

lemma definition_names_updates [simp]:
  "definition_names (push_diagnostic d h) = definition_names h"
  "definition_names (set_scope m sc h) = definition_names h"
  "definition_names (set_item_target m i t h) = definition_names h"
  "definition_names (set_definition_file x file h) = definition_names h"
  "definition_names (h\<lparr>hir_enum_variants := ev\<rparr>) = definition_names h"
  "definition_names (h\<lparr>hir_enum_variant_targets := et\<rparr>) = definition_names h"
  "definition_names (h\<lparr>hir_extern_function_targets := eft\<rparr>) = definition_names h"
  "definition_names (h\<lparr>hir_modules := ms\<rparr>) = definition_names h"
  by (simp_all add: definition_names_def push_diagnostic_def set_scope_def set_item_target_def
      set_definition_file_def)

lemma report_duplicate_names:
  "report_duplicate m name h = Return h' \<Longrightarrow> definition_names h' = definition_names h"
  "report_duplicate_variant owner name h = Return h' \<Longrightarrow> definition_names h' = definition_names h"
  by (auto simp: report_duplicate_def report_duplicate_variant_def Let_def)

lemma hir_insert_names:
  "hir_insert m ns name d h = Return h' \<Longrightarrow> definition_names h' = definition_names h"
  by (cases ns)
    (auto simp: hir_insert_def check_previous_def Let_def dest!: report_duplicate_names(1)
      split: option.splits if_splits)

lemma collect_variant_names:
  "collect_variant m owner public (index, v) h = Return h' \<Longrightarrow>
   definition_names h' = definition_names h @ [(variant_name v, public)]"
  by (cases "variant_kind v")
    (auto simp: collect_variant_def Let_def report_duplicate_names hir_insert_names
      definition_names_alloc split: if_splits prod.splits)

lemma collect_variants_names:
  "fold_outcome (collect_variant m owner public) (List.enumerate n vs) h = Return h' \<Longrightarrow>
   definition_names h' = definition_names h @ map (\<lambda>v. (variant_name v, public)) vs"
  by (induction vs arbitrary: n h) (auto simp: collect_variant_names)

lemma collect_extern_fn_names:
  assumes "collect_extern_fn m i (index, f) h = Return h'"
  shows "definition_names h' = definition_names h @ [(extern_name f, True)]"
  using assms
  by (auto simp: collect_extern_fn_def Let_def hir_insert_names definition_names_alloc
      split: prod.splits)

lemma collect_externs_names:
  "fold_outcome (collect_extern_fn m i) (List.enumerate n fs) h = Return h' \<Longrightarrow>
   definition_names h' = definition_names h @ map (\<lambda>f. (extern_name f, True)) fs"
  by (induction fs arbitrary: n h) (auto simp: collect_extern_fn_names)

lemma collect_leaf_names:
  assumes "collect_leaf m i it h = Return h'"
  shows "definition_names h' = definition_names h
     @ (case it of ItMod _ \<Rightarrow> [] | _ \<Rightarrow> declared [it])"
proof (cases it)
  case (ItExtern b)
  with assms show ?thesis by (simp add: collect_leaf_def collect_externs_names)
next
  case (ItEnum e)
  with assms show ?thesis
    by (auto simp: collect_leaf_def collect_enum_def definition_names_alloc
        dest!: hir_insert_names collect_variants_names split: prod.splits)
qed (use assms in \<open>auto simp: collect_leaf_def collect_annotation_def collect_function_def
    collect_struct_def collect_trait_def Let_def definition_names_alloc hir_insert_names
    split: prod.splits\<close>)

lemma link_module_names:
  "link_module m i name child h = Return h' \<Longrightarrow> definition_names h' = definition_names h"
  by (auto simp: link_module_def Let_def report_duplicate_names split: if_splits)

lemma collect_module_names:
  "collect_module m i decl h = Return (child, h') \<Longrightarrow> definition_names h' = definition_names h"
  by (cases "ModulePath_child (mod_path (hir_modules h ! ModuleId_index m)) (md_name decl)")
    (auto simp: collect_module_def hir_module_def Let_def link_module_names)

text \<open>
  C33. The first pass allocates exactly one definition per declared item, enum variant and
  extern function, in source order (modules flattened where they stand), with the name and
  the visibility the source gives it.
\<close>

theorem collect_items_definitions:
  assumes "collect_items m i items h = Return h'"
  shows "definition_names h' = definition_names h @ declared items"
  using assms
proof (induction m i items h arbitrary: h' rule: collect_items.induct)
  case (2 m i n a d its ch ord p f e items h)
  then show ?case by (fastforce dest: collect_module_names)
qed (auto dest!: collect_leaf_names)

theorem collect_items_definitions_witness:
  "\<exists>h'. collect_items (ModuleId 0) 0 (prog_items sample_program) (initial_hir sample_program) = Return h'
     \<and> definition_names h' =
         [(''Status'', True), (''Ready'', True), (''helper'', False), (''go'', True), (''main'', False)]"
proof -
  have "module_names_ok (prog_items sample_program)"
    by (simp add: sample_program_def ident_start_def ident_continue_def ascii_class_defs)
  then have "step_ok (initial_hir sample_program)
      (collect_items (ModuleId 0) 0 (prog_items sample_program) (initial_hir sample_program))"
    by (rule collect_items_step [OF _ initial_hir_wf])
      (simp add: module_ok_def initial_hir_def ModuleId_index_def)
  then obtain h' where h': "collect_items (ModuleId 0) 0 (prog_items sample_program)
      (initial_hir sample_program) = Return h'" by (rule step_okE)
  have "definition_names h' = definition_names (initial_hir sample_program) @ declared (prog_items sample_program)"
    by (rule collect_items_definitions [OF h'])
  also have "\<dots> = [(''Status'', True), (''Ready'', True), (''helper'', False), (''go'', True), (''main'', False)]"
    by (simp add: definition_names_def initial_hir_def sample_program_def sample_enum_def sample_fn_def)
  finally show ?thesis using h' by blast
qed

end
