(* ===== verification/Backend_Names.thy ===== *)
theory Backend_Names
  imports Backend_Layout Hir_Collect_Props
begin

text \<open>
  The encoding of source identifiers: it is injective and yields Lua identifiers. The names
  allocation makes up by appending a number to an identifier or to the alias of a module are
  told apart from the others by what stands at their last underscore.
\<close>

section \<open>User identifiers\<close>

lemma hex_digit_inject:
  assumes "n < 16" and "m < 16" and "hex_digit n = hex_digit m"
  shows "n = m"
proof -
  have "distinct ''0123456789abcdef''" by simp
  then have "n mod 16 = m mod 16"
    using assms(3) unfolding hex_digit_def by (subst (asm) nth_eq_iff_index_eq) simp_all
  with assms(1,2) show ?thesis by simp
qed

lemma byte_div_16: "byte c div 16 < (16 :: nat)"
proof -
  have "byte c < (256 :: nat)" by (cases c) (simp add: of_char_of)
  then show ?thesis by (simp add: less_mult_imp_div_less)
qed

lemma hex_byte_inject: "hex_byte a = hex_byte b \<Longrightarrow> a = b"
proof -
  assume "hex_byte a = hex_byte b"
  then have "hex_digit (byte a div 16) = hex_digit (byte b div 16)"
      "hex_digit (byte a mod 16) = hex_digit (byte b mod 16)"
    by (simp_all add: hex_byte_def)
  then have "byte a div 16 = byte b div 16" "byte a mod 16 = byte b mod 16"
    using hex_digit_inject byte_div_16 by simp_all
  then have "byte a = byte b" by (metis div_mult_mod_eq)
  then show "a = b" by simp
qed

lemma hex_string_inject:
  "concat (map hex_byte a) = concat (map hex_byte b) \<Longrightarrow> a = b"
proof (induction a arbitrary: b)
  case Nil
  then show ?case by (cases b) (simp_all add: hex_byte_def)
next
  case (Cons x a)
  then obtain y b' where b: "b = y # b'" by (cases b) (simp_all add: hex_byte_def)
  with Cons.prems have "hex_byte x @ concat (map hex_byte a) = hex_byte y @ concat (map hex_byte b')"
    by simp
  moreover have "length (hex_byte x) = length (hex_byte y)" by (simp add: hex_byte_def)
  ultimately have "hex_byte x = hex_byte y" "concat (map hex_byte a) = concat (map hex_byte b')"
    by simp_all
  with Cons.IH b show ?case by (auto dest: hex_byte_inject)
qed

lemma hex_digit_alnum: "is_ascii_alphanumeric (hex_digit n)"
proof -
  have "list_all is_ascii_alphanumeric ''0123456789abcdef''" by (simp add: ascii_class_defs)
  then show ?thesis unfolding hex_digit_def list_all_length by simp
qed

lemma hex_string_alnum: "list_all is_ascii_alphanumeric (concat (map hex_byte s))"
proof (induction s)
  case (Cons c s)
  then show ?case by (simp add: hex_byte_def hex_digit_alnum)
qed simp

text \<open>The bytes a Lua name is made of.\<close>

definition name_byte :: "char \<Rightarrow> bool" where
  "name_byte b \<longleftrightarrow> is_ascii_alphanumeric b \<or> b = CHR ''_''"

lemma keyword_head: "s \<in> set lua_keywords \<Longrightarrow> hd s \<noteq> CHR ''_'' \<and> is_ascii_lowercase (hd s)"
  by (auto simp: lua_keywords_def ascii_class_defs)

lemma lua_identifierI:
  assumes "s \<noteq> []" and "is_ascii_alphabetic (hd s) \<or> hd s = CHR ''_''"
    and "list_all name_byte s" and "s \<notin> set lua_keywords"
  shows "is_lua_identifier s"
  using assms by (cases s) (simp_all add: is_lua_identifier_def name_byte_def [abs_def])

lemma plain_is_lua_identifier: "is_plain_identifier s \<Longrightarrow> is_lua_identifier s"
  by (cases s) (simp_all add: is_plain_identifier_def is_lua_identifier_def)

lemma encoded_is_lua_identifier: "is_lua_identifier (user_prefix @ concat (map hex_byte s))"
proof (rule lua_identifierI)
  show "list_all name_byte (user_prefix @ concat (map hex_byte s))"
    using hex_string_alnum [of s]
    by (auto simp: list_all_iff name_byte_def user_prefix_def ascii_class_defs)
  show "user_prefix @ concat (map hex_byte s) \<notin> set lua_keywords"
    using keyword_head [of "user_prefix @ concat (map hex_byte s)"] by (auto simp: user_prefix_def)
qed (simp_all add: user_prefix_def)

lemma user_identifier_lua: "is_lua_identifier (user_identifier s)"
  by (simp add: user_identifier_def plain_is_lua_identifier encoded_is_lua_identifier)

lemma user_identifier_inject: "user_identifier a = user_identifier b \<longleftrightarrow> a = b"
proof
  assume eq: "user_identifier a = user_identifier b"
  have encoded: "\<not> is_plain_identifier (user_prefix @ s)" for s
  proof -
    have "starts_with ''__rua_'' (user_prefix @ s)" by (simp add: user_prefix_def starts_with_def)
    then show ?thesis by (cases "user_prefix @ s") (simp_all add: is_plain_identifier_def)
  qed
  show "a = b"
  proof (cases "is_plain_identifier a"; cases "is_plain_identifier b")
    assume "\<not> is_plain_identifier a" "\<not> is_plain_identifier b"
    with eq have "concat (map hex_byte a) = concat (map hex_byte b)" by (simp add: user_identifier_def)
    then show ?thesis by (rule hex_string_inject)
  next
    assume "is_plain_identifier a" "\<not> is_plain_identifier b"
    with eq have "a = user_prefix @ concat (map hex_byte b)" by (simp add: user_identifier_def)
    with encoded \<open>is_plain_identifier a\<close> show ?thesis by metis
  next
    assume "\<not> is_plain_identifier a" "is_plain_identifier b"
    with eq have "b = user_prefix @ concat (map hex_byte a)" by (simp add: user_identifier_def)
    with encoded \<open>is_plain_identifier b\<close> show ?thesis by metis
  qed (use eq in \<open>simp add: user_identifier_def\<close>)
qed simp

section \<open>Numbered names\<close>

lemma last_underscore:
  assumes "a @ CHR ''_'' # b = c @ CHR ''_'' # d" and "CHR ''_'' \<notin> set b" and "CHR ''_'' \<notin> set d"
  shows "a = c \<and> b = d"
proof -
  have "Some (a, b) = Some (c, d)"
    unfolding rsplit_once_append [OF assms(2), of a, symmetric] rsplit_once_append [OF assms(3), of c, symmetric]
    by (rule arg_cong [OF assms(1)])
  then show ?thesis by simp
qed

lemma underscore_class: "\<not> is_ascii_alphanumeric (CHR ''_'')" "\<not> is_ascii_digit (CHR ''_'')"
  by (simp_all add: ascii_class_defs)

lemma alnum_no_underscore: "list_all is_ascii_alphanumeric s \<Longrightarrow> CHR ''_'' \<notin> set s"
  using underscore_class(1) by (auto simp: list_all_iff)

lemma show_nat_no_underscore: "CHR ''_'' \<notin> set (show_nat n)"
  using show_nat_digits [of n] underscore_class(2) by (auto simp: list_all_iff)

text \<open>A Lua name that is another with a number comes from a source name of that form.\<close>

lemma user_identifier_numbered:
  assumes "user_identifier e = user_identifier d @ ''__'' @ show_nat k"
  shows "e = d @ ''__'' @ show_nat k"
proof (cases "is_plain_identifier e")
  case True
  with assms have e: "e = user_identifier d @ ''__'' @ show_nat k" by (simp add: user_identifier_def)
  have "is_plain_identifier d"
  proof (rule ccontr)
    assume "\<not> is_plain_identifier d"
    with e have "starts_with ''__rua_'' e" by (simp add: user_identifier_def user_prefix_def starts_with_def)
    with True show False by (cases e) (simp_all add: is_plain_identifier_def)
  qed
  with e show ?thesis by (simp add: user_identifier_def)
next
  case False
  with assms have "''__rua_user'' @ CHR ''_'' # concat (map hex_byte e)
      = (user_identifier d @ ''_'') @ CHR ''_'' # show_nat k"
    by (simp add: user_identifier_def user_prefix_def)
  from last_underscore [OF this alnum_no_underscore [OF hex_string_alnum] show_nat_no_underscore]
  have "last ''__rua_user'' = last (user_identifier d @ ''_'')" by (simp only:)
  then show ?thesis by simp
qed

text \<open>
  The aliases of other modules: every underscore that no other follows ends the prefix of an
  encoded identifier, so no alias is another with a number.
\<close>

definition prefix_underscores :: "bytes \<Rightarrow> bool" where
  "prefix_underscores s \<longleftrightarrow>
     (\<forall>a b. s = a @ CHR ''_'' # b \<longrightarrow> CHR ''_'' \<notin> set b \<longrightarrow> (\<exists>c. a = c @ ''__rua_user''))"

lemma prefix_underscores_none: "CHR ''_'' \<notin> set s \<Longrightarrow> prefix_underscores s"
  by (auto simp: prefix_underscores_def)

lemma prefix_underscores_append:
  assumes "prefix_underscores s" and "prefix_underscores t"
  shows "prefix_underscores (s @ t)"
  unfolding prefix_underscores_def
proof (intro allI impI)
  fix a b
  assume eq: "s @ t = a @ CHR ''_'' # b" and b: "CHR ''_'' \<notin> set b"
  show "\<exists>c. a = c @ ''__rua_user''"
  proof (cases "CHR ''_'' \<in> set t")
    case True
    then obtain t1 t2 where t: "t = t1 @ CHR ''_'' # t2" "CHR ''_'' \<notin> set t2"
      by (metis split_list_last)
    then obtain c where "t1 = c @ ''__rua_user''" using assms(2) by (auto simp: prefix_underscores_def)
    moreover have "a = s @ t1" using last_underscore [of "s @ t1" t2 a b] eq t b by simp
    ultimately show ?thesis by simp
  next
    case False
    have "CHR ''_'' \<in> set s" using arg_cong [OF eq, of set] False by auto
    then obtain s1 s2 where s: "s = s1 @ CHR ''_'' # s2" "CHR ''_'' \<notin> set s2"
      by (metis split_list_last)
    have "a = s1" using last_underscore [of s1 "s2 @ t" a b] eq s b False by simp
    with assms(1) s show ?thesis by (auto simp: prefix_underscores_def)
  qed
qed

lemma prefix_underscores_encoded: "prefix_underscores (user_prefix @ concat (map hex_byte s))"
  unfolding prefix_underscores_def
proof (intro allI impI)
  fix a b
  assume eq: "user_prefix @ concat (map hex_byte s) = a @ CHR ''_'' # b" and b: "CHR ''_'' \<notin> set b"
  have "''__rua_user'' @ CHR ''_'' # concat (map hex_byte s) = a @ CHR ''_'' # b"
    using eq by (simp add: user_prefix_def)
  from last_underscore [OF this alnum_no_underscore [OF hex_string_alnum] b]
  show "\<exists>c. a = c @ ''__rua_user''" by (intro exI [of _ "[]"]) simp
qed

lemma prefix_underscores_not_numbered:
  assumes "prefix_underscores s" and "prefix_underscores t"
  shows "s \<noteq> t @ ''_'' @ show_nat k"
proof
  assume "s = t @ ''_'' @ show_nat k"
  then obtain c where t: "t = c @ ''__rua_user''"
    using assms(1) show_nat_no_underscore [of k] by (auto simp: prefix_underscores_def)
  then have "t = (c @ ''__rua'') @ CHR ''_'' # ''user''" by simp
  then obtain d where "c @ ''__rua'' = d @ ''__rua_user''"
    using assms(2) [unfolded prefix_underscores_def, rule_format, of "c @ ''__rua''" "''user''"] by auto
  then have "last (c @ ''__rua'') = last (d @ ''__rua_user'')" by (simp only:)
  then show False by simp
qed

lemma pascal_case_bytes:
  "set (pascal_case up u (map (\<lambda>c. [c]) s)) \<subseteq> set s \<union> ascii_upper ` set s - {CHR ''_''}"
proof -
  have "ascii_upper c \<noteq> CHR ''_''" if "c \<noteq> CHR ''_''" for c
  proof
    assume eq: "ascii_upper c = CHR ''_''"
    then have low: "is_ascii_lowercase c" using that by (auto simp: ascii_upper_def split: if_splits)
    have "byte (ascii_upper c) = (byte c - 32) mod 256" using low by (simp add: ascii_upper_def of_char_of)
    moreover have "byte (ascii_upper c) = 95" using eq by simp
    moreover have "(byte c - 32) mod 256 = (byte c - 32 :: nat)"
      using low unfolding is_ascii_lowercase_def by (intro mod_less) linarith
    ultimately show False using low unfolding is_ascii_lowercase_def by linarith
  qed
  then show ?thesis by (induction s arbitrary: u) (auto simp: uppercase_char_def)
qed

lemma table_identifier_form:
  assumes "\<forall>c \<in> set name. is_ascii c"
  obtains p where "module_table_identifier up name = user_identifier p" and "p \<noteq> []"
    and "CHR ''_'' \<notin> set p"
proof -
  let ?leaf = "last (split_char CHR ''.'' name)"
  let ?pascal = "pascal_case up True (chars ?leaf)"
  have "set ?leaf \<subseteq> set name" using split_char_parts [of ?leaf "CHR ''.''" name] by simp
  then have "chars ?leaf = map (\<lambda>c. [c]) ?leaf" using assms by (intro chars_ascii) blast
  then have "CHR ''_'' \<notin> set ?pascal" using pascal_case_bytes [of up True ?leaf] by auto
  then show thesis
    by (intro that [of "if ?pascal = [] then ''Module'' else ?pascal"])
      (simp_all add: module_table_identifier_def Let_def)
qed

lemma table_identifier_underscores:
  assumes "\<forall>c \<in> set name. is_ascii c"
  shows "prefix_underscores (module_table_identifier up name)"
    and "module_table_identifier up name \<noteq> []"
    and "last (module_table_identifier up name) \<noteq> CHR ''_''"
proof -
  obtain p where p: "module_table_identifier up name = user_identifier p" "p \<noteq> []" "CHR ''_'' \<notin> set p"
    using table_identifier_form [OF assms] .
  show "prefix_underscores (module_table_identifier up name)"
    using p prefix_underscores_encoded [of p] by (simp add: user_identifier_def prefix_underscores_none)
  let ?hex = "concat (map hex_byte p)"
  have "?hex \<noteq> []" using p(2) by (cases p) (simp_all add: hex_byte_def)
  moreover have "CHR ''_'' \<notin> set ?hex" by (rule alnum_no_underscore [OF hex_string_alnum])
  ultimately have hex: "?hex \<noteq> []" "last ?hex \<noteq> CHR ''_''" using last_in_set [of ?hex] by metis+
  have plain: "last p \<noteq> CHR ''_''" using p(2,3) by (auto dest: last_in_set)
  show "module_table_identifier up name \<noteq> []" "last (module_table_identifier up name) \<noteq> CHR ''_''"
    using p hex plain by (auto simp: user_identifier_def user_prefix_def last_append)
qed

end
