(* ===== verification/Backend_Places.thy ===== *)
theory Backend_Places
  imports Backend_Names
begin

text \<open>
  The places of modules and definitions in both layouts of \<open>backend_layout.rs\<close>. The loops
  over modules and over definitions return, so that no index, \<open>expect\<close> or uniqueness
  assertion in them fails, unless a name of the program is a name with a number that
  allocation makes up.
\<close>

section \<open>Loops\<close>

text \<open>A loop whose invariant speaks of the part of the list already done.\<close>

lemma fold_outcome_prefix:
  assumes "P [] s"
    and "\<And>ys x zs s. xs = ys @ x # zs \<Longrightarrow> P ys s \<Longrightarrow> \<exists>s'. f x s = Return s' \<and> P (ys @ [x]) s'"
  shows "\<exists>s'. fold_outcome f xs s = Return s' \<and> P xs s'"
proof -
  have "\<exists>s'. fold_outcome f zs s = Return s' \<and> P xs s'" if "xs = ys @ zs" and "P ys s" for ys zs s
    using that
  proof (induction zs arbitrary: ys s)
    case (Cons x zs)
    obtain s1 where s1: "f x s = Return s1" "P (ys @ [x]) s1"
      using assms(2) [OF Cons.prems] by blast
    have "\<exists>s'. fold_outcome f zs s1 = Return s' \<and> P xs s'"
      by (rule Cons.IH [OF _ s1(2)]) (simp add: Cons.prems(1))
    with s1(1) show ?case by simp
  qed simp
  from this [of "[]" xs s] assms(1) show ?thesis by simp
qed

lemma unat_of_nat_eq_small: "n < 2 ^ 32 \<Longrightarrow> unat (of_nat n :: u32) = n"
  by (simp add: unat_of_nat take_bit_nat_eq_self)

lemma names_of_take_name:
  "names_of (take_name m p used) m' =
     (if m' = m then bset_insert p (names_of used m) else names_of used m')"
  by (simp add: take_name_def names_of_def)

lemma set_extend_names [simp]: "set (extend_names names extra) = set names \<union> set extra"
  by (induction extra arbitrary: names) (auto simp: extend_names_def)

section \<open>The rows of well-formed tables\<close>

lemma module_id_of_index:
  assumes "wf_hir h" and "module_ok h m"
  shows "hir_modules h ! ModuleId_index m \<in> set (hir_modules h)"
    and "mod_id (hir_modules h ! ModuleId_index m) = m"
  using assms by (auto simp: wf_hir_def module_ok_def module_data_ok_def ModuleId_index_def)

text \<open>The row after the rows \<open>ys\<close>: its index is their number and its parent is among them.\<close>

lemma module_row:
  assumes "wf_hir h" and "length (hir_modules h) \<le> 2 ^ 32" and "hir_modules h = ys @ x # zs"
  shows "ModuleId_index (mod_id x) = length ys" and "wf_module_path (mod_path x)"
    and "ys \<noteq> [] \<Longrightarrow> \<exists>p. mod_parent x = Some p \<and> p \<in> mod_id ` set ys"
    and "ys \<noteq> [] \<Longrightarrow> segments (mod_path x) \<noteq> []"
    and "mod_id x = hir_root h \<longleftrightarrow> ys = []"
proof -
  have x: "hir_modules h ! length ys = x" "length ys < length (hir_modules h)" by (simp_all add: assms(3))
  then have ok: "module_data_ok h (length ys) x" using assms(1) by (auto simp: wf_hir_def)
  then have id: "mod_id x = ModuleId (of_nat (length ys))" by (simp add: module_data_ok_def)
  have "length ys < 2 ^ 32" using x(2) assms(2) by linarith
  with id show index: "ModuleId_index (mod_id x) = length ys"
    by (simp add: ModuleId_index_def unat_of_nat_eq_small)
  show "wf_module_path (mod_path x)" using ok by (simp add: module_data_ok_def)
  show "mod_id x = hir_root h \<longleftrightarrow> ys = []"
    using assms(1) id index by (auto simp: wf_hir_def ModuleId_index_def)
  assume "ys \<noteq> []"
  then obtain p where p: "mod_parent x = Some p" using ok by (cases "mod_parent x") (auto simp: module_data_ok_def)
  with ok have lt: "ModuleId_index p < length ys" and "segments (mod_path x) \<noteq> []"
    by (auto simp: module_data_ok_def)
  then show "segments (mod_path x) \<noteq> []" by simp
  have "module_ok h p" using lt x(2) by (simp add: module_ok_def)
  moreover have "hir_modules h ! ModuleId_index p = ys ! ModuleId_index p"
    using lt by (simp add: assms(3) nth_append)
  ultimately have "mod_id (ys ! ModuleId_index p) = p" using module_id_of_index(2) [OF assms(1)] by metis
  with lt p show "\<exists>p. mod_parent x = Some p \<and> p \<in> mod_id ` set ys" by (metis image_eqI nth_mem)
qed

lemma module_paths_ok: "wf_hir h \<Longrightarrow> \<forall>d \<in> set (hir_modules h). wf_module_path (mod_path d)"
  by (auto simp: wf_hir_def module_data_ok_def all_set_conv_all_nth)

lemma module_ids_distinct:
  assumes "wf_hir h" and "length (hir_modules h) \<le> 2 ^ 32" and "hir_modules h = ys @ x # zs"
  shows "ModuleId_index (mod_id x) \<notin> (\<lambda>y. ModuleId_index (mod_id y)) ` set ys"
proof
  assume "ModuleId_index (mod_id x) \<in> (\<lambda>y. ModuleId_index (mod_id y)) ` set ys"
  then obtain y where y: "y \<in> set ys" "ModuleId_index (mod_id x) = ModuleId_index (mod_id y)" by auto
  then obtain as bs where "ys = as @ y # bs" by (meson split_list)
  with assms(3) have "hir_modules h = as @ y # (bs @ x # zs)" "length as < length ys" by simp_all
  with module_row(1) [OF assms(1,2)] y(2) assms(3) show False by (metis less_irrefl)
qed

section \<open>Aliases\<close>

definition alias_candidate :: "(bytes \<Rightarrow> bytes) \<Rightarrow> ModuleData \<Rightarrow> bytes" where
  "alias_candidate up data =
     (let path = concat (map (module_table_identifier up) (segments (mod_path data))) in
      if path = [] then ''Module'' else path)"

definition numbered_alias :: "(bytes \<Rightarrow> bytes) \<Rightarrow> ModuleData \<Rightarrow> bytes" where
  "numbered_alias up data = alias_candidate up data @ ''_'' @ show_nat (ModuleId_index (mod_id data))"

lemma alias_candidate_underscores:
  assumes "wf_module_path (mod_path data)"
  shows "prefix_underscores (alias_candidate up data)" and "last (alias_candidate up data) \<noteq> CHR ''_''"
proof -
  let ?path = "\<lambda>segs. concat (map (module_table_identifier up) segs)"
  have path: "prefix_underscores (?path segs) \<and> (?path segs = [] \<or> last (?path segs) \<noteq> CHR ''_'')"
    if "list_all valid_identifier segs" for segs
    using that
  proof (induction segs)
    case (Cons s segs)
    then have "\<forall>c \<in> set s. is_ascii c"
      using valid_identifier_continue [of s] by (auto simp: list_all_iff ident_continue_ascii)
    with Cons show ?case
      by (auto simp: prefix_underscores_append table_identifier_underscores last_append)
  qed (simp add: prefix_underscores_none)
  have "list_all valid_identifier (segments (mod_path data))"
    using assms by (simp add: wf_module_path_def)
  from path [OF this] show "prefix_underscores (alias_candidate up data)"
      "last (alias_candidate up data) \<noteq> CHR ''_''"
    by (auto simp: alias_candidate_def Let_def prefix_underscores_none)
qed

lemma module_dependency_alias_taken:
  "module_dependency_alias up segs i used = Return (a, used') \<Longrightarrow>
   a \<notin> set used \<and> set used' = insert a (set used)"
  by (auto simp: module_dependency_alias_def Let_def split: if_splits)

text \<open>The aliases taken after some modules are the names taken before and aliases of these.\<close>

definition aliases_of :: "(bytes \<Rightarrow> bytes) \<Rightarrow> bytes set \<Rightarrow> ModuleData list \<Rightarrow> bytes set" where
  "aliases_of up before datas =
     before \<union> alias_candidate up ` set datas \<union> numbered_alias up ` set datas"

lemma place_alias_returns:
  assumes "set (ls_aliases st) \<subseteq> aliases_of up before ys"
    and "\<forall>d \<in> set (ys @ [x]). wf_module_path (mod_path d)" and "numbered_alias up x \<notin> before"
    and "ModuleId_index (mod_id x) \<notin> (\<lambda>y. ModuleId_index (mod_id y)) ` set ys"
  shows "\<exists>a aliases. place_alias up x st
            = Return (put_module (mod_id x) (Place_name a) (st\<lparr>ls_aliases := aliases\<rparr>))
          \<and> a \<notin> set (ls_aliases st) \<and> set aliases = insert a (set (ls_aliases st))
          \<and> set aliases \<subseteq> aliases_of up before (ys @ [x])"
proof -
  have "numbered_alias up x \<notin> set (ls_aliases st)" if "alias_candidate up x \<in> set (ls_aliases st)"
  proof
    assume "numbered_alias up x \<in> set (ls_aliases st)"
    then consider (candidate) y where "y \<in> set ys" "alias_candidate up y = numbered_alias up x"
      | (numbered) y where "y \<in> set ys" "numbered_alias up x = numbered_alias up y"
      using assms(1,3) unfolding aliases_of_def by auto
    then show False
    proof cases
      case candidate
      then show False
        using assms(2) prefix_underscores_not_numbered alias_candidate_underscores
        unfolding numbered_alias_def by (metis UnCI in_set_conv_decomp set_append)
    next
      case numbered
      then have "alias_candidate up x @ CHR ''_'' # show_nat (ModuleId_index (mod_id x))
          = alias_candidate up y @ CHR ''_'' # show_nat (ModuleId_index (mod_id y))"
        by (simp add: numbered_alias_def)
      from last_underscore [OF this show_nat_no_underscore show_nat_no_underscore] assms(4) numbered(1)
      show False by auto
    qed
  qed
  then obtain a aliases where a: "module_dependency_alias up (segments (mod_path x))
        (ModuleId_index (mod_id x)) (ls_aliases st) = Return (a, aliases)"
      "a \<in> {alias_candidate up x, numbered_alias up x}"
    by (cases "alias_candidate up x \<in> set (ls_aliases st)")
      (simp_all add: module_dependency_alias_def alias_candidate_def numbered_alias_def Let_def)
  have taken: "a \<notin> set (ls_aliases st)" "set aliases = insert a (set (ls_aliases st))"
    using module_dependency_alias_taken [OF a(1)] by simp_all
  have "set aliases \<subseteq> aliases_of up before (ys @ [x])"
    using assms(1) a(2) unfolding taken(2) aliases_of_def by auto
  with a(1) taken show ?thesis by (intro exI [of _ a] exI [of _ aliases]) (simp add: place_alias_def)
qed

section \<open>The modules\<close>

text \<open>A module other than the root is a child of its parent under its last segment.\<close>

definition child_key :: "ModuleData \<Rightarrow> ModuleId option \<times> bytes" where
  "child_key data = (mod_parent data, last (segments (mod_path data)))"

definition child_modules :: "ResolvedHir \<Rightarrow> ModuleData list" where
  "child_modules h = filter (\<lambda>data. mod_id data \<noteq> hir_root h) (hir_modules h)"

lemma layout_unit_module_step:
  assumes "wf_hir h" and "length (hir_modules h) \<le> 2 ^ 32"
    and "table \<notin> numbered_alias up ` set (hir_modules h)"
    and "mod_is_file (hd (hir_modules h))" and "hir_modules h = ys @ x # zs"
    and "fst ` set (ls_modules st) = mod_id ` set ys" and "ls_used st = Map.empty"
    and "set (ls_aliases st) \<subseteq> aliases_of up {table} ys"
  shows "\<exists>st'. layout_unit_module up current table x st = Return st'
           \<and> fst ` set (ls_modules st') = mod_id ` set (ys @ [x]) \<and> ls_used st' = Map.empty
           \<and> set (ls_aliases st') \<subseteq> aliases_of up {table} (ys @ [x])"
proof -
  have more: "aliases_of up {table} ys \<subseteq> aliases_of up {table} (ys @ [x])" by (auto simp: aliases_of_def)
  have put: "\<exists>st'. Return (put_module (mod_id x) p st) = Return st'
           \<and> fst ` set (ls_modules st') = mod_id ` set (ys @ [x]) \<and> ls_used st' = Map.empty
           \<and> set (ls_aliases st') \<subseteq> aliases_of up {table} (ys @ [x])" for p
    using assms(6-8) subset_trans [OF assms(8) more] by (simp add: put_module_def fst_set_btree_insert)
  consider (current) "mod_id x = current"
    | (virtual) "mod_id x \<noteq> current" "mod_is_declaration x \<and> \<not> mod_is_file x"
    | (aliased) "mod_id x \<noteq> current" "\<not> (mod_is_declaration x \<and> \<not> mod_is_file x)" by blast
  then show ?thesis
  proof cases
    case current
    with put show ?thesis by (simp add: layout_unit_module_def)
  next
    case virtual
    then have "ys \<noteq> []" using assms(4,5) by auto
    note row = module_row(3,4) [OF assms(1,2,5) this]
    obtain parent where parent: "mod_parent x = Some parent" "parent \<in> fst ` set (ls_modules st)"
      using row(1) assms(6) by auto
    then obtain q where "map_of (ls_modules st) parent = Some q"
      by (metis map_of_eq_None_iff not_Some_eq)
    with virtual parent(1) row(2) put show ?thesis
      by (simp add: layout_unit_module_def last_path_segment_def expect_def)
  next
    case aliased
    have wf: "\<forall>d \<in> set (ys @ [x]). wf_module_path (mod_path d)"
      using module_paths_ok [OF assms(1)] by (simp add: assms(5))
    have "numbered_alias up x \<notin> {table}" using assms(3,5) by auto
    from place_alias_returns [OF assms(8) wf this module_ids_distinct [OF assms(1,2,5)]]
    obtain a aliases where "place_alias up x st
          = Return (put_module (mod_id x) (Place_name a) (st\<lparr>ls_aliases := aliases\<rparr>))"
        "set aliases \<subseteq> aliases_of up {table} (ys @ [x])" by blast
    with aliased assms(6,7) show ?thesis
      by (auto simp: layout_unit_module_def put_module_def fst_set_btree_insert)
  qed
qed

lemma layout_unit_modules_return:
  assumes "wf_hir h" and "length (hir_modules h) \<le> 2 ^ 32"
    and "table \<notin> numbered_alias up ` set (hir_modules h)" and "mod_is_file (hd (hir_modules h))"
  shows "\<exists>st. fold_outcome (layout_unit_module up current table) (hir_modules h)
                \<lparr>ls_used = Map.empty, ls_modules = [], ls_aliases = [table]\<rparr> = Return st
           \<and> fst ` set (ls_modules st) = mod_id ` set (hir_modules h) \<and> ls_used st = Map.empty
           \<and> set (ls_aliases st) \<subseteq> aliases_of up {table} (hir_modules h)"
proof (rule fold_outcome_prefix)
  fix ys x zs and s :: LayoutState
  assume split: "hir_modules h = ys @ x # zs"
  assume "fst ` set (ls_modules s) = mod_id ` set ys \<and> ls_used s = Map.empty
      \<and> set (ls_aliases s) \<subseteq> aliases_of up {table} ys"
  then show "\<exists>s'. layout_unit_module up current table x s = Return s'
      \<and> fst ` set (ls_modules s') = mod_id ` set (ys @ [x]) \<and> ls_used s' = Map.empty
      \<and> set (ls_aliases s') \<subseteq> aliases_of up {table} (ys @ [x])"
    using layout_unit_module_step [OF assms split] by blast
qed (simp add: aliases_of_def)

text \<open>The single-file layout: the names of child modules come first in every table.\<close>

definition bundle_modules :: "(bytes \<Rightarrow> bytes) \<Rightarrow> ModuleData list \<Rightarrow> LayoutState \<Rightarrow> bool" where
  "bundle_modules up ys st \<longleftrightarrow>
     fst ` set (ls_modules st) = mod_id ` set ys
     \<and> set (ls_aliases st) \<subseteq> aliases_of up {} ys
     \<and> (\<forall>m. set (names_of (ls_used st) m) = user_identifier ` {n. (Some m, n) \<in> child_key ` set ys})"

lemma layout_module_step:
  assumes "wf_hir h" and "length (hir_modules h) \<le> 2 ^ 32"
    and "distinct (map child_key (child_modules h))" and "child_modules h = ys @ x # zs"
    and "bundle_modules up ys st"
  shows "\<exists>st'. layout_module up (hir_root h) x st = Return st' \<and> bundle_modules up (ys @ [x]) st'"
proof -
  obtain r rest where modules: "hir_modules h = r # rest" "mod_id r = hir_root h"
    using assms(1,2) module_row(5) [OF assms(1,2), of "[]"] by (cases "hir_modules h") (auto simp: wf_hir_def)
  have "child_modules h = rest"
  proof -
    have "mod_id d \<noteq> hir_root h" if "d \<in> set rest" for d
    proof -
      obtain as bs where "rest = as @ d # bs" using \<open>d \<in> set rest\<close> by (meson split_list)
      then have "hir_modules h = (r # as) @ d # bs" by (simp add: modules)
      from module_row(5) [OF assms(1,2) this] show ?thesis by simp
    qed
    with modules show ?thesis by (simp add: child_modules_def)
  qed
  then have split: "hir_modules h = (r # ys) @ x # zs" using assms(4) modules by simp
  note row = module_row [OF assms(1,2) split]
  obtain parent where parent: "mod_parent x = Some parent" "parent = hir_root h \<or> parent \<in> mod_id ` set ys"
    using row(3) modules(2) by auto
  let ?name = "last (segments (mod_path x))"
  let ?i = "ModuleId_index (mod_id x)"
  let ?st1 = "st\<lparr>ls_used := take_name parent (user_identifier ?name) (ls_used st)\<rparr>"
  have key: "child_key x = (Some parent, ?name)" by (simp add: child_key_def parent)
  have "child_key x \<notin> child_key ` set ys" using assms(3,4) by simp
  then have "user_identifier ?name \<notin> set (names_of (ls_used st) parent)"
    using assms(5) by (auto simp: bundle_modules_def key user_identifier_inject)
  then have allocated: "layout_module up (hir_root h) x st =
      (if parent = hir_root h then Return (put_module (mod_id x) (Place_name (user_identifier ?name)) ?st1)
       else if mod_is_declaration x \<and> mod_is_file x then place_alias up x ?st1
       else map_outcome
              (\<lambda>p. put_module (mod_id x) (Place_field p (user_identifier ?name)) ?st1)
              (expect (map_of (ls_modules st) parent)))"
    using row(4) by (simp add: layout_module_def parent expect_def last_path_segment_def
        allocate_name_def Let_def)
  have names: "set (names_of (ls_used ?st1) m)
      = user_identifier ` {n. (Some m, n) \<in> child_key ` set (ys @ [x])}" for m
    using assms(5) by (auto simp: bundle_modules_def names_of_take_name key)
  have put: "bundle_modules up (ys @ [x]) (put_module (mod_id x) p (?st1\<lparr>ls_aliases := aliases\<rparr>))"
    if "set aliases \<subseteq> aliases_of up {} (ys @ [x])" for p aliases
    using assms(5) names that
    by (simp add: bundle_modules_def put_module_def fst_set_btree_insert)
  have old: "set (ls_aliases st) \<subseteq> aliases_of up {} ys" using assms(5) by (simp add: bundle_modules_def)
  then have same: "bundle_modules up (ys @ [x]) (put_module (mod_id x) p ?st1)" for p
    using put [of "ls_aliases st" p] by (auto simp: aliases_of_def)
  consider (root) "parent = hir_root h"
    | (aliased) "parent \<noteq> hir_root h" "mod_is_declaration x \<and> mod_is_file x"
    | (nested) "parent \<noteq> hir_root h" "\<not> (mod_is_declaration x \<and> mod_is_file x)" by blast
  then show ?thesis
  proof cases
    case root
    with same show ?thesis by (simp add: allocated)
  next
    case aliased
    have wf: "\<forall>d \<in> set (ys @ [x]). wf_module_path (mod_path d)"
      using module_paths_ok [OF assms(1)] by (simp add: split)
    have "?i \<notin> (\<lambda>y. ModuleId_index (mod_id y)) ` set ys"
      using module_ids_distinct [OF assms(1,2) split] by simp
    from place_alias_returns [OF _ wf _ this, of ?st1 up "{}"] old
    obtain a aliases where "place_alias up x ?st1
          = Return (put_module (mod_id x) (Place_name a) (?st1\<lparr>ls_aliases := aliases\<rparr>))"
        "set aliases \<subseteq> aliases_of up {} (ys @ [x])" by auto
    with aliased put show ?thesis by (simp add: allocated)
  next
    case nested
    then obtain q where "map_of (ls_modules st) parent = Some q"
      using parent(2) assms(5) unfolding bundle_modules_def by (metis map_of_eq_None_iff not_Some_eq)
    with nested same show ?thesis by (auto simp: allocated expect_def)
  qed
qed

lemma layout_modules_return:
  assumes "wf_hir h" and "length (hir_modules h) \<le> 2 ^ 32"
    and "distinct (map child_key (child_modules h))"
  shows "\<exists>st. fold_outcome (layout_module up (hir_root h)) (child_modules h)
                \<lparr>ls_used = Map.empty, ls_modules = [], ls_aliases = []\<rparr> = Return st
           \<and> bundle_modules up (child_modules h) st"
  by (rule fold_outcome_prefix [where P = "bundle_modules up"])
    (use layout_module_step [OF assms] in \<open>auto simp: bundle_modules_def aliases_of_def names_of_def\<close>)

section \<open>The definitions\<close>

lemma module_ids_ok:
  assumes "wf_hir h" and "data \<in> set (hir_modules h)"
  shows "module_ok h (mod_id data)"
proof -
  obtain i where i: "i < length (hir_modules h)" "data = hir_modules h ! i"
    using assms(2) by (metis in_set_conv_nth)
  then have "mod_id data = ModuleId (of_nat i)" using assms(1) by (auto simp: wf_hir_def module_data_ok_def)
  moreover have "unat (of_nat i :: u32) \<le> i" by (metis unat_of_nat mod_less_eq_dividend)
  ultimately show ?thesis using i(1) by (simp add: module_ok_def ModuleId_index_def)
qed

lemma single_public_type_returns:
  assumes "wf_hir h" and "module_ok h m"
  obtains t where "single_public_type h m = Return t"
proof -
  obtain data where "hir_module h m = Return data" using hir_module_ok [OF assms] .
  with that show thesis by (simp add: single_public_type_def)
qed

lemma collect_flattened_returns:
  assumes "wf_hir h"
  shows "\<exists>flat. collect_flattened h = Return flat
           \<and> (\<forall>m d. flat m = Some d
                \<longleftrightarrow> m \<in> mod_id ` set (hir_modules h) \<and> single_public_type h m = Return (Some d))"
  unfolding collect_flattened_def
proof (rule fold_outcome_prefix)
  fix ys x zs and flat :: "ModuleId \<rightharpoonup> DefId"
  assume split: "hir_modules h = ys @ x # zs"
    and flat: "\<forall>m d. flat m = Some d
      \<longleftrightarrow> m \<in> mod_id ` set ys \<and> single_public_type h m = Return (Some d)"
  have "x \<in> set (hir_modules h)" by (simp add: split)
  then obtain t where t: "single_public_type h (mod_id x) = Return t"
    using single_public_type_returns [OF assms module_ids_ok [OF assms]] by blast
  with flat show "\<exists>flat'. map_outcome
      (\<lambda>t. case t of None \<Rightarrow> flat | Some d \<Rightarrow> flat(mod_id x \<mapsto> d))
      (single_public_type h (mod_id x)) = Return flat'
      \<and> (\<forall>m d. flat' m = Some d
           \<longleftrightarrow> m \<in> mod_id ` set (ys @ [x]) \<and> single_public_type h m = Return (Some d))"
    by (cases t) auto
qed simp

text \<open>The definitions that get a name of their own in their module's table.\<close>

definition named_definition :: "(ModuleId \<rightharpoonup> DefId) \<Rightarrow> DefData \<Rightarrow> bool" where
  "named_definition flat data \<longleftrightarrow>
     is_allocated_kind (def_kind data)
     \<and> \<not> (flat (def_module data) = Some (def_id data) \<and> \<not> is_extern_kind (def_kind data))"

definition def_key :: "DefData \<Rightarrow> ModuleId \<times> bytes" where
  "def_key d = (def_module d, def_name d)"

definition place_in :: "Place option \<Rightarrow> bytes \<Rightarrow> Place" where
  "place_in t field = (case t of None \<Rightarrow> Place_name field | Some p \<Rightarrow> Place_field p field)"

text \<open>
  The field a definition gets: its identifier, unless the table has that name already, for
  a child module or an earlier definition; then its identifier and its index.
\<close>

definition numbered_name :: "DefData \<Rightarrow> bytes" where
  "numbered_name d = user_identifier (def_name d) @ ''__'' @ show_nat (DefId_index (def_id d))"

definition definition_field :: "used_names \<Rightarrow> DefData list \<Rightarrow> DefData \<Rightarrow> bytes" where
  "definition_field used datas d =
     (if user_identifier (def_name d) \<in> set (names_of used (def_module d))
         \<or> def_key d \<in> def_key ` set (takeWhile (\<lambda>e. def_id e \<noteq> def_id d) datas)
      then numbered_name d else user_identifier (def_name d))"

text \<open>No name of a table is another with the index of the definition that may get that.\<close>

definition numbers_free :: "used_names \<Rightarrow> DefData list \<Rightarrow> bool" where
  "numbers_free used datas \<longleftrightarrow>
     (\<forall>d \<in> set datas. numbered_name d \<notin> set (names_of used (def_module d))
        \<and> (def_module d, def_name d @ ''__'' @ show_nat (DefId_index (def_id d))) \<notin> def_key ` set datas)"

definition definitions_placed ::
    "used_names \<Rightarrow> (ModuleId \<Rightarrow> Place option) \<Rightarrow> DefData list \<Rightarrow> DefinitionState \<Rightarrow> bool" where
  "definitions_placed used tables named st \<longleftrightarrow>
     (\<forall>m. set (names_of (ds_used st) m)
        = set (names_of used m) \<union> definition_field used named ` {d \<in> set named. def_module d = m})
     \<and> (\<forall>d \<in> set named. ds_definitions st (def_id d)
          = Some (place_in (tables (def_module d)) (definition_field used named d))
          \<and> user_identifier (def_name d) \<in> set (names_of (ds_used st) (def_module d)))
     \<and> inj_on (\<lambda>d. (def_module d, definition_field used named d)) (set named)"

lemma definition_field_snoc:
  assumes "distinct (map def_id (named @ [d]))"
  shows "e \<in> set named \<Longrightarrow> definition_field used (named @ [d]) e = definition_field used named e"
    and "definition_field used (named @ [d]) d =
      (if user_identifier (def_name d) \<in> set (names_of used (def_module d)) \<or> def_key d \<in> def_key ` set named
       then numbered_name d else user_identifier (def_name d))"
proof -
  show "definition_field used (named @ [d]) e = definition_field used named e" if "e \<in> set named"
    using takeWhile_append1 [OF that, of "\<lambda>x. def_id x \<noteq> def_id e" "[d]"] by (simp add: definition_field_def)
  have "takeWhile (\<lambda>x. def_id x \<noteq> def_id d) (named @ [d]) = named"
    using assms by (subst takeWhile_append2) (auto simp: image_iff)
  then show "definition_field used (named @ [d]) d =
      (if user_identifier (def_name d) \<in> set (names_of used (def_module d)) \<or> def_key d \<in> def_key ` set named
       then numbered_name d else user_identifier (def_name d))"
    by (simp add: definition_field_def)
qed

text \<open>The names a definition may get are free when it is met.\<close>

lemma definition_name_free:
  assumes "definitions_placed used tables named st" and "numbers_free used (named @ zs)"
    and "d \<in> set zs" and "\<forall>e \<in> set named. def_id e \<noteq> def_id d"
  shows "numbered_name d \<notin> set (names_of (ds_used st) (def_module d))"
    and "user_identifier (def_name d) \<in> set (names_of (ds_used st) (def_module d))
         \<longleftrightarrow> user_identifier (def_name d) \<in> set (names_of used (def_module d))
           \<or> def_key d \<in> def_key ` set named"
proof -
  let ?u = "user_identifier (def_name d)"
  have fields: "definition_field used named e \<in> {user_identifier (def_name e), numbered_name e}" for e
    by (simp add: definition_field_def)
  have free: "numbered_name e \<notin> set (names_of used (def_module e))"
      "(def_module e, def_name e @ ''__'' @ show_nat (DefId_index (def_id e))) \<notin> def_key ` set (named @ zs)"
    if "e \<in> set (named @ zs)" for e
    using assms(2) that unfolding numbers_free_def by blast+
  have plain: "user_identifier (def_name e) \<noteq> numbered_name e'"
    if "e \<in> set (named @ zs)" "e' \<in> set (named @ zs)" "def_module e = def_module e'" for e e'
  proof
    assume "user_identifier (def_name e) = numbered_name e'"
    then have "def_name e = def_name e' @ ''__'' @ show_nat (DefId_index (def_id e'))"
      unfolding numbered_name_def by (rule user_identifier_numbered)
    then have "def_key e = (def_module e', def_name e' @ ''__'' @ show_nat (DefId_index (def_id e')))"
      using that(3) by (simp add: def_key_def)
    with free(2) [OF that(2)] that(1) show False by (metis image_eqI)
  qed
  have names: "set (names_of (ds_used st) (def_module d)) = set (names_of used (def_module d))
      \<union> definition_field used named ` {e \<in> set named. def_module e = def_module d}"
    using assms(1) by (simp add: definitions_placed_def)
  have d: "d \<in> set (named @ zs)" using assms(3) by simp
  have numbered: "numbered_name e \<noteq> numbered_name d" if "e \<in> set named" for e
  proof
    assume "numbered_name e = numbered_name d"
    then have "(user_identifier (def_name e) @ ''_'') @ CHR ''_'' # show_nat (DefId_index (def_id e))
        = (user_identifier (def_name d) @ ''_'') @ CHR ''_'' # show_nat (DefId_index (def_id d))"
      by (simp add: numbered_name_def)
    from last_underscore [OF this show_nat_no_underscore show_nat_no_underscore]
    have "def_id e = def_id d" by (simp add: DefId_index_inject)
    with assms(4) that show False by simp
  qed
  show "numbered_name d \<notin> set (names_of (ds_used st) (def_module d))"
  proof
    assume "numbered_name d \<in> set (names_of (ds_used st) (def_module d))"
    then obtain e where e: "e \<in> set named" "def_module e = def_module d"
        "numbered_name d = definition_field used named e"
      using free(1) [OF d] unfolding names by blast
    with fields [of e] plain [OF _ d e(2)] numbered [OF e(1)] show False by auto
  qed
  show "?u \<in> set (names_of (ds_used st) (def_module d))
      \<longleftrightarrow> ?u \<in> set (names_of used (def_module d)) \<or> def_key d \<in> def_key ` set named"
  proof
    assume "?u \<in> set (names_of (ds_used st) (def_module d))"
    then consider "?u \<in> set (names_of used (def_module d))"
      | e where "e \<in> set named" "def_module e = def_module d" "?u = definition_field used named e"
      unfolding names by blast
    then show "?u \<in> set (names_of used (def_module d)) \<or> def_key d \<in> def_key ` set named"
    proof cases
      case (2 e)
      with fields [of e] plain [OF d, of e] have "def_name e = def_name d"
        by (auto simp: user_identifier_inject)
      with 2 show ?thesis by (auto simp: def_key_def intro!: image_eqI [of _ _ e])
    qed simp
  next
    assume "?u \<in> set (names_of used (def_module d)) \<or> def_key d \<in> def_key ` set named"
    then show "?u \<in> set (names_of (ds_used st) (def_module d))"
      using assms(1) names unfolding definitions_placed_def def_key_def by force
  qed
qed

lemma names_of_put_definition [simp]:
  "ds_used (put_definition d p st) = ds_used st"
  "ds_definitions (put_definition d p st) = (ds_definitions st)(d \<mapsto> p)"
  by (simp_all add: put_definition_def)

lemma put_extern_fields [simp]:
  "ds_used (put_extern k p st) = ds_used st"
  "ds_definitions (put_extern k p st) = ds_definitions st"
  by (simp_all add: put_extern_def split: DefKind.splits)

text \<open>
  A module's table: \<open>module_place\<close> returns it for every module of a definition, and a module
  whose table is one of its types has a place.
\<close>

definition tables_known ::
    "(ModuleId \<Rightarrow> Place option outcome) \<Rightarrow> (ModuleId \<Rightarrow> Place option) \<Rightarrow> (ModuleId \<rightharpoonup> DefId) \<Rightarrow> DefData list \<Rightarrow> bool" where
  "tables_known module_place tables flat datas \<longleftrightarrow>
     (\<forall>d \<in> set datas. module_place (def_module d) = Return (tables (def_module d))
        \<and> (flat (def_module d) = Some (def_id d) \<longrightarrow> tables (def_module d) \<noteq> None))"

text \<open>A definition without a name of its own leaves the names alone and never fails.\<close>

lemma layout_unnamed_definition:
  assumes "\<not> named_definition flat data"
    and "module_place (def_module data) = Return (tables (def_module data))"
    and "flat (def_module data) = Some (def_id data) \<longrightarrow> tables (def_module data) \<noteq> None"
  obtains st' where "layout_definition module_place flat data st = Return st'"
    and "ds_used st' = ds_used st"
    and "\<And>x. x \<noteq> def_id data \<Longrightarrow> ds_definitions st' x = ds_definitions st x"
proof (cases "is_allocated_kind (def_kind data)")
  case True
  then have flat: "flat (def_module data) = Some (def_id data)" "\<not> is_extern_kind (def_kind data)"
    using assms(1) by (auto simp: named_definition_def)
  with assms(3) obtain t where "tables (def_module data) = Some t" by auto
  with True flat assms(2) show thesis
    by (intro that [of "put_definition (def_id data) t st"]) (auto simp: layout_definition_def expect_def)
next
  case False
  show thesis
    by (rule that [of "case member_place data st of None \<Rightarrow> st | Some p \<Rightarrow> put_definition (def_id data) p st"])
      (use False in \<open>auto simp: layout_definition_def split: option.splits\<close>)
qed

lemma layout_named_definition:
  assumes "named_definition flat data"
    and "module_place (def_module data) = Return (tables (def_module data))"
    and "numbered_name data \<notin> set (names_of (ds_used st) (def_module data))"
    and "field = (if user_identifier (def_name data) \<in> set (names_of (ds_used st) (def_module data))
                  then numbered_name data else user_identifier (def_name data))"
  obtains st' where "layout_definition module_place flat data st = Return st'"
    and "ds_used st' = take_name (def_module data) field (ds_used st)"
    and "ds_definitions st' = (ds_definitions st)
           (def_id data \<mapsto> place_in (tables (def_module data)) field)"
proof -
  let ?p = "place_in (tables (def_module data)) field"
  have "allocate_name (ds_used st) (def_module data) (def_name data) (DefId_index (def_id data))
      = Return (field, take_name (def_module data) field (ds_used st))"
    using assms(3) by (simp add: allocate_name_def assms(4) numbered_name_def Let_def)
  with assms(1,2) show thesis
    by (intro that [of "put_definition (def_id data) ?p (put_extern (def_kind data) ?p
          (st\<lparr>ds_used := take_name (def_module data) field (ds_used st)\<rparr>))"])
      (auto simp: layout_definition_def named_definition_def place_in_def Let_def)
qed

lemma layout_definition_step:
  assumes "distinct (map def_id (ys @ x # zs))"
    and "numbers_free used (filter (named_definition flat) (ys @ x # zs))"
    and "tables_known module_place tables flat (ys @ x # zs)"
    and "definitions_placed used tables (filter (named_definition flat) ys) st"
  shows "\<exists>st'. layout_definition module_place flat x st = Return st'
           \<and> definitions_placed used tables (filter (named_definition flat) (ys @ [x])) st'"
proof -
  define named where "named = filter (named_definition flat) ys"
  note before = assms(4) [folded named_def]
  have place: "module_place (def_module x) = Return (tables (def_module x))"
      "flat (def_module x) = Some (def_id x) \<longrightarrow> tables (def_module x) \<noteq> None"
    using assms(3) by (simp_all add: tables_known_def)
  have new_id: "\<forall>e \<in> set named. def_id e \<noteq> def_id x"
    using assms(1) by (auto simp: named_def image_iff)
  show ?thesis
  proof (cases "named_definition flat x")
    case False
    obtain st' where st': "layout_definition module_place flat x st = Return st'" "ds_used st' = ds_used st"
        "\<And>d. d \<noteq> def_id x \<Longrightarrow> ds_definitions st' d = ds_definitions st d"
      using layout_unnamed_definition [where tables = tables and data = x and flat = flat and module_place = module_place, OF False place] by blast
    have same: "ds_definitions st' (def_id d) = ds_definitions st (def_id d)" if "d \<in> set named" for d
      by (rule st'(3)) (use that new_id in blast)
    have "definitions_placed used tables named st' = definitions_placed used tables named st"
      by (simp only: definitions_placed_def st'(2) same cong: ball_cong)
    then have "definitions_placed used tables named st'" using before by simp
    with st'(1) False show ?thesis by (simp add: named_def)
  next
    case True
    let ?field = "definition_field used (named @ [x]) x"
    have ids: "distinct (map def_id (named @ [x]))"
      using assms(1) distinct_map_filter [of def_id ys "named_definition flat"] new_id
      by (auto simp: named_def)
    note field = definition_field_snoc [OF ids]
    have "numbers_free used (named @ (x # filter (named_definition flat) zs))"
      using assms(2) True by (simp add: named_def)
    note name = definition_name_free [OF before this _ new_id, simplified]
    have x: "?field = (if user_identifier (def_name x) \<in> set (names_of (ds_used st) (def_module x))
        then numbered_name x else user_identifier (def_name x))"
      unfolding field(2) name(2) by simp
    have fresh: "?field \<notin> set (names_of (ds_used st) (def_module x))"
      using name(1) by (simp add: x)
    obtain st' where st': "layout_definition module_place flat x st = Return st'"
        "ds_used st' = take_name (def_module x) ?field (ds_used st)"
        "ds_definitions st' = (ds_definitions st)(def_id x \<mapsto> place_in (tables (def_module x)) ?field)"
      using layout_named_definition [where tables = tables and data = x and flat = flat and module_place = module_place, OF True place(1) name(1) x] by blast
    note old = before [unfolded definitions_placed_def]
    have "definitions_placed used tables (named @ [x]) st'"
      unfolding definitions_placed_def
    proof (intro conjI allI ballI)
      fix m
      have "{d \<in> set (named @ [x]). def_module d = m}
          = {d \<in> set named. def_module d = m} \<union> (if def_module x = m then {x} else {})" by auto
      then have "definition_field used (named @ [x]) ` {d \<in> set (named @ [x]). def_module d = m}
          = definition_field used named ` {d \<in> set named. def_module d = m}
            \<union> (if def_module x = m then {?field} else {})"
        using image_cong [of "{d \<in> set named. def_module d = m}", OF refl field(1)]
        by (simp only: image_Un) auto
      then show "set (names_of (ds_used st') m)
          = set (names_of used m) \<union> definition_field used (named @ [x]) ` {d \<in> set (named @ [x]). def_module d = m}"
        using old [THEN conjunct1, rule_format, of m] unfolding st'(2) names_of_take_name
        by (cases "m = def_module x") auto
    next
      fix d
      assume d: "d \<in> set (named @ [x])"
      show "ds_definitions st' (def_id d)
          = Some (place_in (tables (def_module d)) (definition_field used (named @ [x]) d))"
        using d old field(1) new_id unfolding st'(3) by (cases "d = x") auto
      show "user_identifier (def_name d) \<in> set (names_of (ds_used st') (def_module d))"
        using d old x unfolding st'(2) names_of_take_name by (cases "d = x") auto
    next
      let ?key = "\<lambda>d. (def_module d, definition_field used (named @ [x]) d)"
      have ne: "?key x \<noteq> ?key e" if e: "e \<in> set named" for e
      proof
        assume "?key x = ?key e"
        then have "?field = definition_field used named e" "def_module e = def_module x"
          using field(1) [OF e] by simp_all
        with e have "?field \<in> definition_field used named ` {d \<in> set named. def_module d = def_module x}"
          by blast
        with fresh old [THEN conjunct1, rule_format, of "def_module x"] show False by blast
      qed
      have inj: "inj_on ?key (set named)"
      proof -
        have "?key e = (def_module e, definition_field used named e)" if "e \<in> set named" for e
          using field(1) [OF that] by simp
        then have "inj_on ?key (set named)
            = inj_on (\<lambda>d. (def_module d, definition_field used named d)) (set named)"
          by (rule inj_on_cong)
        with old [THEN conjunct2, THEN conjunct2] show ?thesis by (simp only:)
      qed
      have "inj_on ?key (insert x (set named))"
        unfolding inj_on_insert using inj ne by (intro conjI notI) (assumption, elim imageE, blast)
      then show "inj_on ?key (set (named @ [x]))" by (simp only: set_append list.set Un_insert_right Un_empty_right)
    qed
    with st'(1) True show ?thesis by (simp add: named_def)
  qed
qed

lemma layout_definitions_return:
  assumes "distinct (map def_id datas)"
    and "numbers_free used (filter (named_definition flat) datas)"
    and "tables_known module_place tables flat datas"
  shows "\<exists>st. fold_outcome (layout_definition module_place flat) datas
                \<lparr>ds_used = used, ds_definitions = Map.empty, ds_externs = Map.empty\<rparr> = Return st
           \<and> definitions_placed used tables (filter (named_definition flat) datas) st"
proof (rule fold_outcome_prefix)
  fix ys x zs and s :: DefinitionState
  assume split: "datas = ys @ x # zs"
    and st: "definitions_placed used tables (filter (named_definition flat) ys) s"
  show "\<exists>s'. layout_definition module_place flat x s = Return s'
      \<and> definitions_placed used tables (filter (named_definition flat) (ys @ [x])) s'"
    by (rule layout_definition_step [OF assms [unfolded split] st])
qed (simp add: definitions_placed_def)

lemma def_ids_distinct:
  assumes "wf_hir h" and "length (hir_definitions h) \<le> 2 ^ 32"
  shows "distinct (map def_id (hir_definitions h))"
proof (rule distinct_map [THEN iffD2], intro conjI inj_onI)
  have eq: "def_id (hir_definitions h ! i) = DefId (of_nat i)" if "i < length (hir_definitions h)" for i
    using assms(1) that by (auto simp: wf_hir_def def_data_ok_def)
  have inj: "i = j" if "i < length (hir_definitions h)" "j < length (hir_definitions h)"
      "def_id (hir_definitions h ! i) = def_id (hir_definitions h ! j)" for i j
  proof -
    have "(of_nat i :: u32) = of_nat j" using that by (simp add: eq)
    moreover have "i < 2 ^ 32" "j < 2 ^ 32" using that assms(2) by simp_all
    ultimately show ?thesis
      by (metis unat_of_nat_eq_small)
  qed
  show "distinct (hir_definitions h)" using inj by (metis distinct_conv_nth)
  show "x = y" if "x \<in> set (hir_definitions h)" "y \<in> set (hir_definitions h)" "def_id x = def_id y" for x y
    using inj that by (metis in_set_conv_nth)
qed

lemma place_in_inject: "place_in t a = place_in t b \<longleftrightarrow> a = b"
  by (cases t) (auto simp: place_in_def Place_name_def Place_field_def dest: arg_cong [of _ _ place_fields])

lemma definitions_placed_targets:
  assumes "definitions_placed used tables named st"
  shows "inj_on (\<lambda>d. (def_module d, ds_definitions st (def_id d))) (set named)"
proof (rule inj_onI)
  fix d e
  assume d: "d \<in> set named" and e: "e \<in> set named"
    and eq: "(def_module d, ds_definitions st (def_id d)) = (def_module e, ds_definitions st (def_id e))"
  note placed = assms [unfolded definitions_placed_def, THEN conjunct2, THEN conjunct1, rule_format]
  have "ds_definitions st (def_id d) = ds_definitions st (def_id e)" "def_module d = def_module e"
    using eq by simp_all
  with placed [OF d, THEN conjunct1] placed [OF e, THEN conjunct1]
  have "(def_module d, definition_field used named d) = (def_module e, definition_field used named e)"
    by (simp add: place_in_inject)
  with assms d e show "d = e" unfolding definitions_placed_def by (meson inj_onD)
qed

section \<open>The layout of one Lua module\<close>

text \<open>The type a module uses as its table, and the definitions with names of their own.\<close>

definition table_type :: "ResolvedHir \<Rightarrow> ModuleId \<rightharpoonup> DefId" where
  "table_type h m = (case single_public_type h m of Panic \<Rightarrow> None | Return t \<Rightarrow> t)"

definition own_definitions :: "ResolvedHir \<Rightarrow> DefData list" where
  "own_definitions h = filter (named_definition (table_type h)) (hir_definitions h)"

definition unit_start :: "bytes \<Rightarrow> LayoutState" where
  "unit_start table = \<lparr>ls_used = Map.empty, ls_modules = [], ls_aliases = [table]\<rparr>"

lemma unit_layout_computed:
  assumes "wf_hir h" and "mod_is_file (hd (hir_modules h))"
    and "length (hir_modules h) \<le> 2 ^ 32" and "length (hir_definitions h) \<le> 2 ^ 32"
    and "table \<notin> numbered_alias up ` set (hir_modules h)"
    and "\<forall>d \<in> set (own_definitions h).
           (def_module d, def_name d @ ''__'' @ show_nat (DefId_index (def_id d)))
             \<notin> def_key ` set (own_definitions h)"
  shows "\<exists>l st ds. for_module_named up h current table = Return l
     \<and> fold_outcome (layout_unit_module up current table) (hir_modules h) (unit_start table) = Return st
     \<and> fst ` set (ls_modules st) = mod_id ` set (hir_modules h)
     \<and> bl_modules l = ls_modules st \<and> bl_definitions l = ds_definitions ds
     \<and> definitions_placed Map.empty (map_of (ls_modules st)) (own_definitions h) ds"
proof -
  obtain st where st: "fold_outcome (layout_unit_module up current table) (hir_modules h) (unit_start table) = Return st"
      "fst ` set (ls_modules st) = mod_id ` set (hir_modules h)" "ls_used st = Map.empty"
    using layout_unit_modules_return [OF assms(1,3,5,2)] unfolding unit_start_def by blast
  obtain flat where flat: "collect_flattened h = Return flat"
      "\<And>m d. flat m = Some d
        \<longleftrightarrow> m \<in> mod_id ` set (hir_modules h) \<and> single_public_type h m = Return (Some d)"
    using collect_flattened_returns [OF assms(1)] by blast
  let ?place = "\<lambda>m. map_outcome Some (expect (map_of (ls_modules st) m))"
  have module: "def_module d \<in> mod_id ` set (hir_modules h)" if "d \<in> set (hir_definitions h)" for d
  proof -
    have "module_ok h (def_module d)"
      using assms(1) that by (auto simp: wf_hir_def def_data_ok_def in_set_conv_nth)
    from module_id_of_index [OF assms(1) this] show ?thesis by force
  qed
  have "named_definition flat d = named_definition (table_type h) d" if "d \<in> set (hir_definitions h)" for d
    using flat(2) [of "def_module d" "def_id d"] module [OF that]
    by (auto simp: named_definition_def table_type_def split: outcome.splits)
  then have own: "filter (named_definition flat) (hir_definitions h) = own_definitions h"
    unfolding own_definitions_def by (intro filter_cong refl) blast
  have "numbers_free Map.empty (own_definitions h)"
    using assms(6) by (simp add: numbers_free_def names_of_def)
  moreover have "tables_known ?place (map_of (ls_modules st)) flat (hir_definitions h)"
    unfolding tables_known_def
  proof (intro ballI)
    fix d
    assume "d \<in> set (hir_definitions h)"
    then obtain t where "map_of (ls_modules st) (def_module d) = Some t"
      using module st(2) by (metis map_of_eq_None_iff not_Some_eq)
    then show "?place (def_module d) = Return (map_of (ls_modules st) (def_module d))
        \<and> (flat (def_module d) = Some (def_id d) \<longrightarrow> map_of (ls_modules st) (def_module d) \<noteq> None)"
      by (simp add: expect_def)
  qed
  ultimately obtain ds where ds: "fold_outcome (layout_definition ?place flat) (hir_definitions h)
        \<lparr>ds_used = Map.empty, ds_definitions = Map.empty, ds_externs = Map.empty\<rparr> = Return ds"
      "definitions_placed Map.empty (map_of (ls_modules st)) (own_definitions h) ds"
    using layout_definitions_return [OF def_ids_distinct [OF assms(1,4)], of Map.empty flat] own by auto
  have "\<exists>l. for_module_named up h current table = Return l \<and> bl_modules l = ls_modules st
      \<and> bl_definitions l = ds_definitions ds"
    using flat(1) st(1,3) ds(1) by (simp add: for_module_named_def unit_start_def Let_def finish_layout_def)
  then show ?thesis using st(1,2) ds(2) by blast
qed

section \<open>The single-file layout\<close>

text \<open>The definitions with a place in their module's table, and the names they start from.\<close>

definition allocated_definitions :: "ResolvedHir \<Rightarrow> DefData list" where
  "allocated_definitions h = filter (\<lambda>d. is_allocated_kind (def_kind d)) (hir_definitions h)"

lemma numbered_name_no_alias:
  assumes "\<forall>data \<in> set datas. wf_module_path (mod_path data)"
  shows "numbered_name d \<notin> aliases_of up {} datas"
proof
  let ?name = "user_identifier (def_name d)" and ?i = "show_nat (DefId_index (def_id d))"
  have split: "numbered_name d = (?name @ ''_'') @ CHR ''_'' # ?i" by (simp add: numbered_name_def)
  assume "numbered_name d \<in> aliases_of up {} datas"
  then consider (candidate) y where "y \<in> set datas" "alias_candidate up y = numbered_name d"
    | (numbered) y where "y \<in> set datas" "numbered_name d = numbered_alias up y"
    unfolding aliases_of_def by auto
  then show False
  proof cases
    case candidate
    with assms have "prefix_underscores ((?name @ ''_'') @ CHR ''_'' # ?i)"
      using alias_candidate_underscores(1) split by metis
    then obtain c where "?name @ ''_'' = c @ ''__rua_user''"
      using show_nat_no_underscore unfolding prefix_underscores_def by blast
    then have "last (?name @ ''_'') = last (c @ ''__rua_user'')" by (simp only:)
    then show False by simp
  next
    case numbered
    then have "(?name @ ''_'') @ CHR ''_'' # ?i
        = alias_candidate up y @ CHR ''_'' # show_nat (ModuleId_index (mod_id y))"
      by (simp add: numbered_alias_def numbered_name_def)
    from last_underscore [OF this show_nat_no_underscore show_nat_no_underscore]
    have "last (alias_candidate up y) = CHR ''_''" by (metis last_snoc)
    with alias_candidate_underscores(2) assms numbered(1) show False by metis
  qed
qed

definition bundle_start :: LayoutState where
  "bundle_start = \<lparr>ls_used = Map.empty, ls_modules = [], ls_aliases = []\<rparr>"

lemma bundle_layout_computed:
  assumes "wf_hir h"
    and "length (hir_modules h) \<le> 2 ^ 32" and "length (hir_definitions h) \<le> 2 ^ 32"
    and "distinct (map child_key (child_modules h))"
    and "\<forall>d \<in> set (allocated_definitions h).
           (def_module d, def_name d @ ''__'' @ show_nat (DefId_index (def_id d)))
             \<notin> def_key ` set (allocated_definitions h)
           \<and> (Some (def_module d), def_name d @ ''__'' @ show_nat (DefId_index (def_id d)))
             \<notin> child_key ` set (child_modules h)"
  shows "\<exists>l used ds. BackendLayout_new up h = Return l \<and> bl_definitions l = ds_definitions ds
     \<and> (\<forall>c \<in> set (child_modules h). \<forall>m. mod_parent c = Some m \<longrightarrow>
          user_identifier (last (segments (mod_path c))) \<in> set (names_of used m))
     \<and> numbers_free used (allocated_definitions h)
     \<and> definitions_placed used (layout_module_place l) (allocated_definitions h) ds"
proof -
  obtain st where st: "fold_outcome (layout_module up (hir_root h)) (child_modules h) bundle_start = Return st"
      "bundle_modules up (child_modules h) st"
    using layout_modules_return [OF assms(1,2,4)] unfolding bundle_start_def by blast
  define used where "used = (ls_used st)(hir_root h \<mapsto>
      extend_names (names_of (ls_used st) (hir_root h)) (ls_aliases st))"
  have names: "set (names_of used m) = user_identifier ` {n. (Some m, n) \<in> child_key ` set (child_modules h)}
      \<union> (if m = hir_root h then set (ls_aliases st) else {})" for m
    using st(2) by (simp add: used_def bundle_modules_def) (simp add: names_of_def)
  let ?place = "\<lambda>m. if m = hir_root h then Return None
      else map_outcome Some (expect (map_of (ls_modules st) m))"
  let ?tables = "map_of (ls_modules st)"
  have root: "?tables (hir_root h) = None"
    using st(2) by (auto simp: bundle_modules_def child_modules_def map_of_eq_None_iff)
  have free: "numbers_free used (allocated_definitions h)"
    unfolding numbers_free_def
  proof (intro ballI conjI)
    fix d
    assume d: "d \<in> set (allocated_definitions h)"
    show "(def_module d, def_name d @ ''__'' @ show_nat (DefId_index (def_id d)))
        \<notin> def_key ` set (allocated_definitions h)" using assms(5) d by blast
    have "numbered_name d \<notin> set (ls_aliases st)"
    proof -
      have "\<forall>data \<in> set (child_modules h). wf_module_path (mod_path data)"
        using module_paths_ok [OF assms(1)] by (simp add: child_modules_def)
      note numbered_name_no_alias [OF this, of d up]
      moreover have "set (ls_aliases st) \<subseteq> aliases_of up {} (child_modules h)"
        using st(2) by (simp add: bundle_modules_def)
      ultimately show ?thesis by blast
    qed
    moreover have "numbered_name d \<notin> user_identifier ` {n. (Some (def_module d), n) \<in> child_key ` set (child_modules h)}"
    proof
      assume "numbered_name d \<in> user_identifier ` {n. (Some (def_module d), n) \<in> child_key ` set (child_modules h)}"
      then obtain n where that: "numbered_name d = user_identifier n"
          "(Some (def_module d), n) \<in> child_key ` set (child_modules h)" by blast
      then show False using user_identifier_numbered [of n "def_name d"] assms(5) d
        unfolding numbered_name_def by metis
    qed
    ultimately show "numbered_name d \<notin> set (names_of used (def_module d))" unfolding names by simp
  qed
  have known: "tables_known ?place ?tables Map.empty (hir_definitions h)"
    unfolding tables_known_def
  proof (intro ballI)
    fix d
    assume d: "d \<in> set (hir_definitions h)"
    have "module_ok h (def_module d)"
      using assms(1) d by (auto simp: wf_hir_def def_data_ok_def in_set_conv_nth)
    from module_id_of_index [OF assms(1) this]
    have "def_module d = hir_root h \<or> def_module d \<in> mod_id ` set (child_modules h)"
      by (force simp: child_modules_def)
    then have "def_module d = hir_root h \<or> (\<exists>t. ?tables (def_module d) = Some t)"
      using st(2) unfolding bundle_modules_def by (metis map_of_eq_None_iff not_Some_eq)
    with root show "?place (def_module d) = Return (?tables (def_module d))
        \<and> (Map.empty (def_module d) = Some (def_id d) \<longrightarrow> ?tables (def_module d) \<noteq> None)"
      by (auto simp: expect_def)
  qed
  have own: "filter (named_definition Map.empty) (hir_definitions h) = allocated_definitions h"
    by (simp add: allocated_definitions_def named_definition_def [abs_def])
  obtain ds where ds: "fold_outcome (layout_definition ?place Map.empty) (hir_definitions h)
        \<lparr>ds_used = used, ds_definitions = Map.empty, ds_externs = Map.empty\<rparr> = Return ds"
      "definitions_placed used ?tables (allocated_definitions h) ds"
    using layout_definitions_return [OF def_ids_distinct [OF assms(1,3)] _ known, of used] own free by auto
  obtain l where l: "BackendLayout_new up h = Return l" "bl_definitions l = ds_definitions ds"
      "layout_module_place l = ?tables"
    using st(1) ds(1) by (simp add: BackendLayout_new_def bundle_start_def used_def child_modules_def
        Let_def finish_layout_def layout_module_place_def [abs_def])
  have "user_identifier (last (segments (mod_path c))) \<in> set (names_of used m)"
    if "c \<in> set (child_modules h)" "mod_parent c = Some m" for c m
  proof -
    have "(Some m, last (segments (mod_path c))) \<in> child_key ` set (child_modules h)"
      using that by (force simp: child_key_def)
    then show ?thesis unfolding names by blast
  qed
  with l free ds(2) show ?thesis by (intro exI [of _ l] exI [of _ used] exI [of _ ds]) simp
qed

end
