(* ===== verification/Backend_Props.thy ===== *)
theory Backend_Props
  imports Backend_Places
begin

text \<open>
  What the backend names guarantee. The locale \<open>name_source\<close> is the contract of a generator
  of names (each name is new, and is remembered); it is interpreted on the runtime-module
  aliases and on the temporaries of code generation.
\<close>

section \<open>Generators of names\<close>

locale name_source =
  fixes next_name :: "'r \<Rightarrow> 's \<Rightarrow> 'n \<times> 's"
    and taken :: "'s \<Rightarrow> 'n set"
  assumes next_fresh: "fst (next_name r s) \<notin> taken s"
    and next_taken: "taken (snd (next_name r s)) = insert (fst (next_name r s)) (taken s)"
begin

primrec draw :: "'r list \<Rightarrow> 's \<Rightarrow> 'n list \<times> 's" where
  "draw [] s = ([], s)"
| "draw (r # rs) s =
     (let (n, s1) = next_name r s; (ns, s2) = draw rs s1 in (n # ns, s2))"

lemma draw_fresh:
  "distinct (fst (draw rs s)) \<and> set (fst (draw rs s)) \<inter> taken s = {}
   \<and> taken (snd (draw rs s)) = taken s \<union> set (fst (draw rs s))"
proof (induction rs arbitrary: s)
  case (Cons r rs)
  obtain n s1 where n: "next_name r s = (n, s1)" by fastforce
  obtain ns s2 where ns: "draw rs s1 = (ns, s2)" by fastforce
  have "n \<notin> taken s" "taken s1 = insert n (taken s)"
    using next_fresh [of r s] next_taken [of r s] n by simp_all
  with Cons.IH [of s1] n ns show ?case by (auto simp: Let_def)
qed simp

end

section \<open>User identifiers\<close>

definition reserved_name :: "bytes \<Rightarrow> bool" where
  "reserved_name s \<longleftrightarrow> s = ''rt'' \<or> s = ''tbcreate'' \<or> starts_with ''__t'' s"

lemma user_identifier_not_reserved: "\<not> reserved_name (user_identifier s)"
proof (cases "is_plain_identifier s")
  case True
  then show ?thesis
    by (cases s) (auto simp: user_identifier_def reserved_name_def is_plain_identifier_def)
next
  case False
  then show ?thesis
    by (auto simp: user_identifier_def reserved_name_def user_prefix_def starts_with_iff)
qed




section \<open>Free names\<close>

lemma pad_until_free_spec:
  "\<exists>k. pad_until_free names c = c @ replicate k CHR ''_'' \<and> pad_until_free names c \<notin> set names"
proof (induction names c rule: pad_until_free.induct)
  case (1 names c)
  show ?case
  proof (cases "c \<in> set names")
    case True
    with 1 obtain k where "pad_until_free names (c @ ''_'') = (c @ ''_'') @ replicate k CHR ''_''"
        "pad_until_free names (c @ ''_'') \<notin> set names" by blast
    with True show ?thesis
      by (subst (1 2) pad_until_free.simps) (auto intro!: exI [of _ "Suc k"])
  next
    case False
    then show ?thesis by (subst (1 2) pad_until_free.simps) (auto intro!: exI [of _ 0])
  qed
qed

lemma free_name_fresh: "free_name names c suffix \<notin> set names"
  using pad_until_free_spec [of names "c @ suffix"] by (auto simp: free_name_def)

lemma free_name_shape:
  "free_name names c suffix = c \<or> (\<exists>k. free_name names c suffix = c @ suffix @ replicate k CHR ''_'')"
  using pad_until_free_spec [of names "c @ suffix"] by (auto simp: free_name_def)

lemma lua_identifier_nonempty: "is_lua_identifier s \<Longrightarrow> s \<noteq> []"
  by (auto simp: is_lua_identifier_def)

lemma suffixed_not_reserved:
  assumes "\<not> reserved_name u" and "u \<noteq> []"
  shows "\<not> reserved_name (u @ ''__local'' @ r)"
proof -
  obtain a v where u: "u = a # v" using assms(2) by (cases u) auto
  show ?thesis
  proof (cases v)
    case Nil
    with u show ?thesis by (auto simp: reserved_name_def starts_with_iff)
  next
    case (Cons b w)
    with u assms(1) show ?thesis
      by (cases w) (auto simp: reserved_name_def starts_with_iff Cons_eq_append_conv)
  qed
qed

interpretation runtime_aliases: name_source
  "\<lambda>preferred l. runtime_module_alias l preferred" "\<lambda>l. set (bl_root_names l)"
  by standard (simp_all add: runtime_module_alias_def Let_def free_name_fresh)

definition temporaries_upto :: "BackendLayout \<Rightarrow> bytes set" where
  "temporaries_upto l = (\<lambda>n. ''__t'' @ show_nat n) ` {1..bl_next_temporary l}"

interpretation temporaries: name_source "\<lambda>_ l. fresh_temporary l" temporaries_upto
  by standard
    (auto simp: temporaries_upto_def fresh_temporary_def Let_def atLeastAtMostSuc_conv)

section \<open>Locals\<close>

lemma keyword_no_underscore: "s \<in> set lua_keywords \<Longrightarrow> CHR ''_'' \<notin> set s"
  by (auto simp: lua_keywords_def)

lemma lua_identifier_bytes: "is_lua_identifier s \<Longrightarrow> list_all name_byte s"
  by (cases s) (auto simp: is_lua_identifier_def name_byte_def [abs_def] is_ascii_alphanumeric_def)

lemma lua_identifier_extend:
  assumes "is_lua_identifier u" and "list_all name_byte r" and "CHR ''_'' \<in> set r"
  shows "is_lua_identifier (u @ r)"
proof (rule lua_identifierI)
  show "u @ r \<noteq> []" "is_ascii_alphabetic (hd (u @ r)) \<or> hd (u @ r) = CHR ''_''"
    using assms(1) by (cases u; auto simp: is_lua_identifier_def)+
  show "list_all name_byte (u @ r)" using assms(2) lua_identifier_bytes [OF assms(1)] by simp
  show "u @ r \<notin> set lua_keywords" using assms(3) keyword_no_underscore [of "u @ r"] by auto
qed

text \<open>The Lua name of a local: its identifier, or that with the local suffix and padding.\<close>

definition local_shape :: "bytes \<Rightarrow> bytes \<Rightarrow> bool" where
  "local_shape name p \<longleftrightarrow>
     p = user_identifier name
     \<or> (\<exists>k. p = user_identifier name @ ''__local'' @ replicate k CHR ''_'')"

lemma local_shape_ok:
  assumes "local_shape name p"
  shows "is_lua_identifier p" and "\<not> reserved_name p"
proof -
  note u = user_identifier_lua [of name] user_identifier_not_reserved [of name]
  have "is_lua_identifier (user_identifier name @ ''__local'' @ replicate k CHR ''_'')" for k
    by (rule lua_identifier_extend [OF u(1)]) (auto simp: list_all_iff name_byte_def ascii_class_defs)
  with assms u(1) show "is_lua_identifier p" by (auto simp: local_shape_def)
  show "\<not> reserved_name p"
    using assms u(2) suffixed_not_reserved [OF u(2) lua_identifier_nonempty [OF u(1)]]
    by (auto simp: local_shape_def)
qed

definition locals_inv :: "used_names \<Rightarrow> LocalState \<Rightarrow> bool" where
  "locals_inv used st \<longleftrightarrow>
     (\<forall>m name p. lst_names st (m, name) = Some p \<longrightarrow>
        p \<in> set (names_of (lst_used st) m) \<and> p \<notin> set (names_of used m) \<and> local_shape name p)
     \<and> (\<forall>m. set (names_of used m) \<subseteq> set (names_of (lst_used st) m))
     \<and> (\<forall>m a b p. lst_names st (m, a) = Some p \<longrightarrow> lst_names st (m, b) = Some p \<longrightarrow> a = b)"

lemma layout_local_inv:
  assumes "locals_inv used st"
  shows "locals_inv used (layout_local l st)"
proof (cases "lst_names st (local_module l, local_name l)")
  case (Some p)
  with assms show ?thesis by (simp add: layout_local_def locals_inv_def)
next
  case None
  let ?m = "local_module l" and ?used = "lst_used st"
  define p where "p = free_name (names_of ?used ?m) (user_identifier (local_name l)) ''__local''"
  have fresh: "p \<notin> set (names_of ?used ?m)" by (simp add: p_def free_name_fresh)
  have shape: "local_shape (local_name l) p"
    using free_name_shape [of "names_of ?used ?m" "user_identifier (local_name l)" "''__local''"]
    by (simp add: local_shape_def p_def)
  have st': "lst_used (layout_local l st) = take_name ?m p ?used"
      "lst_names (layout_local l st) = (lst_names st)((?m, local_name l) \<mapsto> p)"
    using None by (simp_all add: layout_local_def p_def Let_def)
  show ?thesis
    using assms fresh shape unfolding locals_inv_def st'
    by (auto simp: names_of_take_name split: if_splits)
qed

lemma layout_local_result:
  "\<exists>p. lst_names (layout_local l st) (local_module l, local_name l) = Some p
       \<and> lst_locals (layout_local l st) (local_id l) = Some (Place_name p)"
  by (cases "lst_names st (local_module l, local_name l)") (simp_all add: layout_local_def Let_def)

lemma layout_local_keeps:
  "lst_names st key = Some p \<Longrightarrow> lst_names (layout_local l st) key = Some p"
  "local_id l \<noteq> x \<Longrightarrow> lst_locals (layout_local l st) x = lst_locals st x"
  by (auto simp: layout_local_def Let_def split: option.splits)

lemma fold_layout_local_keeps:
  "lst_names st key = Some p \<Longrightarrow> lst_names (fold layout_local ls st) key = Some p"
  "x \<notin> local_id ` set ls \<Longrightarrow> lst_locals (fold layout_local ls st) x = lst_locals st x"
  by (induction ls arbitrary: st) (auto simp: layout_local_keeps)

lemma fold_layout_local_inv: "locals_inv used st \<Longrightarrow> locals_inv used (fold layout_local ls st)"
  by (induction ls arbitrary: st) (auto simp: layout_local_inv)

lemma fold_layout_local_place:
  assumes "distinct (map local_id ls)" and "l \<in> set ls"
  shows "\<exists>p. lst_names (fold layout_local ls st) (local_module l, local_name l) = Some p
             \<and> lst_locals (fold layout_local ls st) (local_id l) = Some (Place_name p)"
  using assms
proof (induction ls arbitrary: st)
  case (Cons x ls)
  show ?case
  proof (cases "l \<in> set ls")
    case True
    with Cons show ?thesis by simp
  next
    case False
    with Cons.prems have l: "x = l" "local_id l \<notin> local_id ` set ls" by auto
    obtain p where "lst_names (layout_local l st) (local_module l, local_name l) = Some p"
        "lst_locals (layout_local l st) (local_id l) = Some (Place_name p)"
      using layout_local_result by blast
    with l show ?thesis using fold_layout_local_keeps by fastforce
  qed
qed simp

text \<open>The state \<open>layout_locals\<close> ends in.\<close>

lemma layout_locals_inv: "locals_inv used (layout_locals ls used)"
  unfolding layout_locals_def by (rule fold_layout_local_inv) (simp add: locals_inv_def)

section \<open>Module tables\<close>

definition roots_known :: "LayoutState \<Rightarrow> bool" where
  "roots_known st \<longleftrightarrow> (\<forall>p \<in> snd ` set (ls_modules st). place_root p \<in> set (ls_aliases st))"

lemma snd_btree_insert_cases:
  "x \<in> set (btree_insert k v m) \<Longrightarrow> x = (k, v) \<or> x \<in> set m"
  by (induction k v m rule: btree_insert.induct) (auto split: if_splits)

lemma roots_known_put:
  "roots_known st \<Longrightarrow> place_root p \<in> set (ls_aliases st) \<Longrightarrow> roots_known (put_module m p st)"
  by (auto simp: roots_known_def put_module_def dest!: snd_btree_insert_cases)

lemma place_alias_known:
  assumes "place_alias up data st = Return st'" and "roots_known st"
  shows "roots_known st' \<and> set (ls_aliases st) \<subseteq> set (ls_aliases st')"
proof -
  obtain a aliases where a: "module_dependency_alias up (segments (mod_path data))
        (ModuleId_index (mod_id data)) (ls_aliases st) = Return (a, aliases)"
      "st' = put_module (mod_id data) (Place_name a) (st\<lparr>ls_aliases := aliases\<rparr>)"
    using assms(1) by (auto simp: place_alias_def)
  note taken = module_dependency_alias_taken [OF a(1)]
  have "roots_known (st\<lparr>ls_aliases := aliases\<rparr>)"
    using assms(2) taken by (auto simp: roots_known_def)
  with taken show ?thesis
    by (auto simp: a(2) Place_name_def intro!: roots_known_put) (simp_all add: put_module_def)
qed

lemma layout_unit_module_known:
  assumes "layout_unit_module up current table data st = Return st'"
    and "roots_known st" and "table \<in> set (ls_aliases st)"
  shows "roots_known st' \<and> set (ls_aliases st) \<subseteq> set (ls_aliases st')"
proof -
  consider (current) "mod_id data = current"
    | (virtual) "mod_id data \<noteq> current" "mod_is_declaration data \<and> \<not> mod_is_file data"
    | (aliased) "mod_id data \<noteq> current" "\<not> (mod_is_declaration data \<and> \<not> mod_is_file data)" by blast
  then show ?thesis
  proof cases
    case current
    with assms show ?thesis
      by (auto simp: layout_unit_module_def Place_name_def intro!: roots_known_put)
        (simp_all add: put_module_def)
  next
    case virtual
    then obtain parent name p where p: "map_of (ls_modules st) parent = Some p"
        "st' = put_module (mod_id data) (Place_field p (user_identifier name)) st"
      using assms(1) by (auto simp: layout_unit_module_def)
    have "place_root p \<in> set (ls_aliases st)"
      using assms(2) map_of_SomeD [OF p(1)] by (force simp: roots_known_def)
    with assms(2) show ?thesis
      by (auto simp: p(2) Place_field_def intro!: roots_known_put) (simp_all add: put_module_def)
  next
    case aliased
    with assms place_alias_known show ?thesis by (auto simp: layout_unit_module_def)
  qed
qed

lemma layout_unit_modules_known:
  assumes "fold_outcome (layout_unit_module up current table) datas st = Return st'"
    and "roots_known st" and "table \<in> set (ls_aliases st)"
  shows "roots_known st' \<and> table \<in> set (ls_aliases st')"
  using assms
proof (induction datas arbitrary: st)
  case (Cons d datas)
  from Cons.prems(1) obtain s1 where s1: "layout_unit_module up current table d st = Return s1"
      "fold_outcome (layout_unit_module up current table) datas s1 = Return st'" by auto
  from layout_unit_module_known [OF s1(1) Cons.prems(2,3)] Cons.prems(3)
  show ?case using Cons.IH [OF s1(2)] by blast
qed simp

text \<open>What \<open>for_module_named\<close> computes, stage by stage.\<close>

lemma for_module_named_cases:
  assumes "for_module_named up h current table = Return l"
  obtains flat st ds used where "collect_flattened h = Return flat"
    and "fold_outcome (layout_unit_module up current table) (hir_modules h)
          \<lparr>ls_used = Map.empty, ls_modules = [], ls_aliases = [table]\<rparr> = Return st"
    and "used = (ds_used ds)(current \<mapsto> extend_names (names_of (ds_used ds) current) (ls_aliases st))"
    and "l = finish_layout current (map (place_root \<circ> snd) (ls_modules st)) (ls_modules st) ds
               (layout_locals (hir_locals h) used)"
  using assms unfolding for_module_named_def Let_def by auto

text \<open>
  C35. In the layout of one Lua module, every local of the module has one Lua name, the same
  for all bindings of that source name and different from the Lua names of the others. It is
  a Lua identifier, is none of the names code generation reserves, is not the table or alias
  of any module the code can mention, and differs from every runtime-module alias and every
  temporary drawn from the layout afterwards.
\<close>

theorem unit_local_names:
  assumes "for_module_named up h current table = Return l"
    and "distinct (map local_id (hir_locals h))"
    and "a \<in> set (hir_locals h)" and "local_module a = current"
  shows "\<exists>p. bl_locals l (local_id a) = Some (Place_name p)
       \<and> layout_local_name l current (local_name a) = p
       \<and> is_lua_identifier p \<and> \<not> reserved_name p
       \<and> p \<notin> place_root ` snd ` set (bl_modules l)
       \<and> {b \<in> set (hir_locals h). local_module b = current
             \<and> bl_locals l (local_id b) = Some (Place_name p)}
           \<subseteq> {b. local_name b = local_name a}
       \<and> p \<notin> set (fst (runtime_aliases.draw preferred l))
       \<and> p \<notin> set (fst (temporaries.draw requests l))"
proof -
  obtain flat st ds used where stages:
      "fold_outcome (layout_unit_module up current table) (hir_modules h)
        \<lparr>ls_used = Map.empty, ls_modules = [], ls_aliases = [table]\<rparr> = Return st"
      "used = (ds_used ds)(current \<mapsto> extend_names (names_of (ds_used ds) current) (ls_aliases st))"
      "l = finish_layout current (map (place_root \<circ> snd) (ls_modules st)) (ls_modules st) ds
             (layout_locals (hir_locals h) used)"
    using for_module_named_cases [OF assms(1)] by metis
  let ?lst = "layout_locals (hir_locals h) used"
  have known: "roots_known st"
    using layout_unit_modules_known [OF stages(1)] by (simp add: roots_known_def)
  note inv = layout_locals_inv [of used "hir_locals h"]
  have place: "\<exists>p. lst_names ?lst (local_module b, local_name b) = Some p
      \<and> lst_locals ?lst (local_id b) = Some (Place_name p)" if "b \<in> set (hir_locals h)" for b
    unfolding layout_locals_def by (rule fold_layout_local_place [OF assms(2) that])
  obtain p where p: "lst_names ?lst (current, local_name a) = Some p"
      "lst_locals ?lst (local_id a) = Some (Place_name p)"
    using place [OF assms(3)] assms(4) by auto
  have fresh: "p \<in> set (names_of (lst_used ?lst) current)" "p \<notin> set (names_of used current)"
      "local_shape (local_name a) p"
    using inv p(1) by (auto simp: locals_inv_def)
  note ok = local_shape_ok [OF fresh(3)]
  have not_alias: "p \<notin> set (ls_aliases st)" using fresh(2) by (simp add: stages(2) names_of_def)
  have other: "lst_locals ?lst (local_id b) \<noteq> Some (Place_name p)"
    if b: "b \<in> set (hir_locals h)" "local_module b = current" "local_name b \<noteq> local_name a" for b
  proof
    assume eq: "lst_locals ?lst (local_id b) = Some (Place_name p)"
    obtain q where "lst_names ?lst (current, local_name b) = Some q"
        "lst_locals ?lst (local_id b) = Some (Place_name q)" using place [OF b(1)] b(2) by auto
    with eq have "lst_names ?lst (current, local_name b) = Some p" by (simp add: Place_name_def)
    with inv p(1) b(3) show False unfolding locals_inv_def by blast
  qed
  have root: "p \<in> set (bl_root_names l)" using fresh(1) by (simp add: stages(3) finish_layout_def)
  have "p \<notin> set (fst (runtime_aliases.draw preferred l))"
    using runtime_aliases.draw_fresh [of preferred l] root by blast
  moreover have "p \<notin> set (fst (temporaries.draw requests l))"
  proof
    assume "p \<in> set (fst (temporaries.draw requests l))"
    then have "p \<in> temporaries_upto (snd (temporaries.draw requests l))"
      using temporaries.draw_fresh [of requests l] by blast
    then have "starts_with ''__t'' p" by (auto simp: temporaries_upto_def starts_with_def)
    with ok(2) show False by (simp add: reserved_name_def)
  qed
  moreover have "p \<notin> place_root ` snd ` set (bl_modules l)"
    using known not_alias by (auto simp: roots_known_def stages(3) finish_layout_def)
  ultimately show ?thesis
    using p ok other by (auto simp: stages(3) finish_layout_def layout_local_name_def)
qed

section \<open>Definitions\<close>

text \<open>
  Two of the three table names in use are no numbered alias: that of \<open>for_module\<close>, and the
  PascalCase name of a dotted ASCII module name. The third is the name of a public type.
\<close>

lemma ordinary_table_names:
  assumes "wf_hir h" and "table = ''__rua_module'' \<or> prefix_underscores table"
  shows "table \<notin> numbered_alias up ` set (hir_modules h)"
proof
  assume "table \<in> numbered_alias up ` set (hir_modules h)"
  then obtain d where d: "d \<in> set (hir_modules h)"
      "table = alias_candidate up d @ ''_'' @ show_nat (ModuleId_index (mod_id d))"
    by (auto simp: numbered_alias_def)
  have "prefix_underscores (alias_candidate up d)"
    using alias_candidate_underscores(1) module_paths_ok [OF assms(1)] d(1) by blast
  from assms(2) prefix_underscores_not_numbered [OF _ this] d(2) have "table = ''__rua_module''" by blast
  with d(2) have "''__rua'' @ CHR ''_'' # ''module''
      = alias_candidate up d @ CHR ''_'' # show_nat (ModuleId_index (mod_id d))" by simp
  from last_underscore [OF this _ show_nat_no_underscore]
  have "show_nat (ModuleId_index (mod_id d)) = ''module''" by simp
  with show_nat_digits [of "ModuleId_index (mod_id d)"] show False by (simp add: is_ascii_digit_def)
qed

lemma module_table_names:
  "\<forall>c \<in> set name. is_ascii c \<Longrightarrow> wf_hir h
   \<Longrightarrow> module_table_identifier up name \<notin> numbered_alias up' ` set (hir_modules h)"
  by (simp add: ordinary_table_names table_identifier_underscores)


text \<open>
  C37. The single-file layout exists for every well-formed program whose modules have distinct
  names below their parents, unless a definition or a child module is called \<open>name__index\<close>
  beside a definition \<open>name\<close> with that index. Every function, struct, enum and extern function is
  a field of its module's table, at the root a local of the chunk, under its identifier or its
  identifier and index; no child module has that field, and no two of them in a module the
  same place.
\<close>

theorem bundle_layout_definitions:
  assumes "wf_hir h"
    and "length (hir_modules h) \<le> 2 ^ 32" and "length (hir_definitions h) \<le> 2 ^ 32"
    and "distinct (map child_key (child_modules h))"
    and "\<forall>d \<in> set (allocated_definitions h).
           (def_module d, def_name d @ ''__'' @ show_nat (DefId_index (def_id d)))
             \<notin> def_key ` set (allocated_definitions h)
           \<and> (Some (def_module d), def_name d @ ''__'' @ show_nat (DefId_index (def_id d)))
             \<notin> child_key ` set (child_modules h)"
  shows "\<exists>l. BackendLayout_new up h = Return l
     \<and> (\<forall>d \<in> set (allocated_definitions h). \<exists>field \<in> {user_identifier (def_name d), numbered_name d}.
          layout_target l (ResolvedItem (def_id d))
            = Some (place_in (layout_module_place l (def_module d)) field)
          \<and> (\<forall>c \<in> set (child_modules h). mod_parent c = Some (def_module d) \<longrightarrow>
               field \<noteq> user_identifier (last (segments (mod_path c)))))
     \<and> inj_on (\<lambda>d. (def_module d, layout_target l (ResolvedItem (def_id d))))
         (set (allocated_definitions h))"
proof -
  let ?defs = "allocated_definitions h"
  obtain l used ds where l: "BackendLayout_new up h = Return l" "bl_definitions l = ds_definitions ds"
      "\<And>c m. c \<in> set (child_modules h) \<Longrightarrow> mod_parent c = Some m \<Longrightarrow>
          user_identifier (last (segments (mod_path c))) \<in> set (names_of used m)"
      "numbers_free used ?defs" "definitions_placed used (layout_module_place l) ?defs ds"
    using bundle_layout_computed [OF assms, of up] by blast
  have "\<exists>field \<in> {user_identifier (def_name d), numbered_name d}.
      layout_target l (ResolvedItem (def_id d)) = Some (place_in (layout_module_place l (def_module d)) field)
      \<and> (\<forall>c \<in> set (child_modules h). mod_parent c = Some (def_module d) \<longrightarrow>
           field \<noteq> user_identifier (last (segments (mod_path c))))"
    if d: "d \<in> set ?defs" for d
  proof (rule bexI [of _ "definition_field used ?defs d"])
    have "definition_field used ?defs d \<notin> set (names_of used (def_module d))"
      using l(4) d by (auto simp: definition_field_def numbers_free_def)
    moreover have "layout_target l (ResolvedItem (def_id d))
        = Some (place_in (layout_module_place l (def_module d)) (definition_field used ?defs d))"
      using l(5) d by (simp add: definitions_placed_def layout_target_def l(2))
    ultimately show "layout_target l (ResolvedItem (def_id d))
        = Some (place_in (layout_module_place l (def_module d)) (definition_field used ?defs d))
      \<and> (\<forall>c \<in> set (child_modules h). mod_parent c = Some (def_module d) \<longrightarrow>
           definition_field used ?defs d \<noteq> user_identifier (last (segments (mod_path c))))"
      using l(3) by metis
  qed (simp add: definition_field_def)
  moreover have "inj_on (\<lambda>d. (def_module d, layout_target l (ResolvedItem (def_id d)))) (set ?defs)"
    using definitions_placed_targets [OF l(5)] by (simp add: layout_target_def l(2))
  ultimately show ?thesis using l(1) by blast
qed

section \<open>Examples\<close>

lemma sample_named: "is_plain_identifier ''helper''" "is_plain_identifier ''x''"
  by (simp_all add: is_plain_identifier_def ascii_class_defs lua_keywords_def starts_with_def)

lemma sample_definitions:
  "mod_is_file (hd (hir_modules sample_hir))"
  "length (hir_modules sample_hir) \<le> 2 ^ 32" "length (hir_definitions sample_hir) \<le> 2 ^ 32"
  by (simp_all add: sample_hir_def)

lemma sample_own:
  "own_definitions sample_hir = hir_definitions sample_hir"
  "allocated_definitions sample_hir = hir_definitions sample_hir"
  by (simp_all add: sample_hir_def own_definitions_def allocated_definitions_def named_definition_def
      table_type_def is_allocated_kind_def single_public_type_def hir_module_def index_at_def
      ModuleId_index_def)

lemma sample_no_alias: "''Api'' \<notin> numbered_alias id ` set (hir_modules sample_hir)"
proof -
  have under: "CHR ''_'' \<in> set (numbered_alias id d)" for d by (simp add: numbered_alias_def)
  have "numbered_alias id d \<noteq> ''Api''" for d
  proof
    assume "numbered_alias id d = ''Api''"
    then have "CHR ''_'' \<in> set ''Api''" using under [of d] by (simp only:)
    then show False by simp
  qed
  then show ?thesis by (metis imageE)
qed

lemma sample_free:
  "\<forall>d \<in> set (own_definitions sample_hir).
     (def_module d, def_name d @ ''__'' @ show_nat (DefId_index (def_id d)))
       \<notin> def_key ` set (own_definitions sample_hir)"
  "\<forall>d \<in> set (allocated_definitions sample_hir).
     (def_module d, def_name d @ ''__'' @ show_nat (DefId_index (def_id d)))
       \<notin> def_key ` set (allocated_definitions sample_hir)
     \<and> (Some (def_module d), def_name d @ ''__'' @ show_nat (DefId_index (def_id d)))
       \<notin> child_key ` set (child_modules sample_hir)"
  unfolding sample_own by (simp_all add: sample_hir_def def_key_def child_key_def child_modules_def)

lemmas sample_unit =
  sample_hir_wf sample_definitions sample_no_alias sample_free(1)


theorem bundle_layout_definitions_witness:
  "\<exists>l. BackendLayout_new id sample_hir = Return l
     \<and> (\<exists>field \<in> {''helper'', ''helper__0''}. layout_target l (ResolvedItem (DefId 0))
          = Some (place_in (layout_module_place l (ModuleId 1)) field))"
proof -
  let ?helper = "\<lparr>def_id = DefId 0, def_module = ModuleId 1, def_name = ''helper'',
      def_kind = KFunction, def_public = False\<rparr>"
  have helper: "hir_definitions sample_hir = [?helper]" by (simp add: sample_hir_def)
  have names: "user_identifier ''helper'' = ''helper''" "numbered_name ?helper = ''helper__0''"
    by (simp_all add: numbered_name_def user_identifier_def sample_named DefId_index_def show_nat.simps
        digit_def)
  have "distinct (map child_key (child_modules sample_hir))"
    by (simp add: sample_hir_def child_modules_def)
  then obtain l where l: "BackendLayout_new id sample_hir = Return l"
      "\<forall>d \<in> set (allocated_definitions sample_hir).
        \<exists>field \<in> {user_identifier (def_name d), numbered_name d}.
          layout_target l (ResolvedItem (def_id d))
            = Some (place_in (layout_module_place l (def_module d)) field)"
    using bundle_layout_definitions [OF sample_hir_wf sample_definitions(2,3) _ sample_free(2), of id]
    by blast
  have select: "def_name ?helper = ''helper''" "def_id ?helper = DefId 0" "def_module ?helper = ModuleId 1"
    by simp_all
  have "?helper \<in> set (allocated_definitions sample_hir)" by (simp add: sample_own helper)
  from bspec [OF l(2) this]
  have "\<exists>field \<in> {''helper'', ''helper__0''}. layout_target l (ResolvedItem (DefId 0))
      = Some (place_in (layout_module_place l (ModuleId 1)) field)"
    by (simp only: select names)
  with l(1) show ?thesis by (intro exI [of _ l] conjI)
qed

theorem unit_local_names_witness:
  "\<exists>l p. for_module_named id sample_hir (ModuleId 1) ''Api'' = Return l
     \<and> bl_locals l (LocalId 0) = Some (Place_name p) \<and> is_lua_identifier p
     \<and> p \<notin> set (fst (runtime_aliases.draw [''x'', ''x''] l))"
proof -
  obtain l where l: "for_module_named id sample_hir (ModuleId 1) ''Api'' = Return l"
    using unit_layout_computed [OF sample_unit] by blast
  let ?x = "\<lparr>local_id = LocalId 0, local_name = ''x'', local_module = ModuleId 1, local_mutable = False\<rparr>"
  have x: "distinct (map local_id (hir_locals sample_hir))" "?x \<in> set (hir_locals sample_hir)"
      "local_module ?x = ModuleId 1"
    by (simp_all add: sample_hir_def)
  obtain p where "bl_locals l (local_id ?x) = Some (Place_name p)" "is_lua_identifier p"
      "p \<notin> set (fst (runtime_aliases.draw [''x'', ''x''] l))"
    using unit_local_names [OF l x, of "[''x'', ''x'']"] by blast
  with l show ?thesis by (intro exI [of _ l] exI [of _ p]) (simp del: runtime_aliases.draw.simps)
qed

section \<open>A collision in the single-file layout\<close>




text \<open>
  A public type \<open>ABc_4\<close> alone in its module, and the modules \<open>a_bc\<close> and \<open>a::bc\<close>, the latter the
  fourth: the table \<open>ABc_4\<close> of the first is the numbered alias of the last.
\<close>

definition sample_module :: "bytes \<Rightarrow> Item list \<Rightarrow> Item" where
  "sample_module name items =
     ItMod (ModDecl name [] None items (AstBlock [] [] None False) [] True True False)"

definition alias_program :: Program where
  "alias_program =
     \<lparr>prog_items =
        [sample_module ''cur''
           [ItStruct \<lparr>struct_name = ''ABc_4'', struct_attributes = [], struct_documentation = None,
              struct_generics = [], struct_fields = [], struct_public = True\<rparr>],
         sample_module ''a_bc'' [], sample_module ''a'' [sample_module ''bc'' []]],
      prog_chunk = AstBlock [] [] None False, prog_source_order = [], prog_is_decl = False,
      prog_standard_library = None\<rparr>"

lemma alias_collects:
  "case collect_declarations alias_program of
     Panic \<Rightarrow> False
   | Return h \<Rightarrow> hir_diagnostics h = []
       \<and> single_public_type h (ModuleId 1) = Return (Some (DefId 0))
       \<and> map def_name (hir_definitions h) = [''ABc_4'']
       \<and> (case for_module_named (\<lambda>c. c) h (ModuleId 1) (user_identifier ''ABc_4'') of
            Panic \<Rightarrow> True | Return _ \<Rightarrow> False)"
  by code_simp

lemma unit_alias_collision:
  "\<exists>h. collect_declarations alias_program = Return h \<and> hir_diagnostics h = []
       \<and> single_public_type h (ModuleId 1) = Return (Some (DefId 0))
       \<and> for_module_named (\<lambda>c. c) h (ModuleId 1) (user_identifier ''ABc_4'') = Panic"
  using alias_collects by (auto split: outcome.splits)

end
