(* ===== verification/Parser_Text.thy ===== *)
theory Parser_Text
  imports Ast
begin

text \<open>
  The text side of the parser, the free functions at the end of \<open>crates/ruac/src/parser.rs\<close>:
  documentation comments and blank lines in the trivia before a token, the classification of
  operators and binding names, and what the source uses of the standard library for it:
  \<open>str::trim\<close>, \<open>str::find\<close>, and which literals \<open>i64\<close> and \<open>f64\<close> accept.
\<close>

section \<open>Trimming\<close>

text \<open>The characters of \<open>char::is_whitespace\<close> (Unicode White_Space), in UTF-8.\<close>

definition whitespace_chars :: "bytes list" where
  "whitespace_chars =
     [[CHR 0x09], [CHR 0x0A], [CHR 0x0B], [CHR 0x0C], [CHR 0x0D], [CHR 0x20],
      [CHR 0xC2, CHR 0x85], [CHR 0xC2, CHR 0xA0], [CHR 0xE1, CHR 0x9A, CHR 0x80],
      [CHR 0xE2, CHR 0x80, CHR 0x80], [CHR 0xE2, CHR 0x80, CHR 0x81], [CHR 0xE2, CHR 0x80, CHR 0x82],
      [CHR 0xE2, CHR 0x80, CHR 0x83], [CHR 0xE2, CHR 0x80, CHR 0x84], [CHR 0xE2, CHR 0x80, CHR 0x85],
      [CHR 0xE2, CHR 0x80, CHR 0x86], [CHR 0xE2, CHR 0x80, CHR 0x87], [CHR 0xE2, CHR 0x80, CHR 0x88],
      [CHR 0xE2, CHR 0x80, CHR 0x89], [CHR 0xE2, CHR 0x80, CHR 0x8A], [CHR 0xE2, CHR 0x80, CHR 0xA8],
      [CHR 0xE2, CHR 0x80, CHR 0xA9], [CHR 0xE2, CHR 0x80, CHR 0xAF], [CHR 0xE2, CHR 0x81, CHR 0x9F],
      [CHR 0xE3, CHR 0x80, CHR 0x80]]"

definition is_whitespace :: "bytes \<Rightarrow> bool" where
  "is_whitespace ch \<longleftrightarrow> ch \<in> set whitespace_chars"

definition trim :: "bytes \<Rightarrow> bytes" where
  "trim s = concat (rev (dropWhile is_whitespace (rev (dropWhile is_whitespace (chars s)))))"

section \<open>Literals\<close>

text \<open>\<open>source.parse::<i64>()\<close>: an optional sign and decimal digits within the range.\<close>

definition parse_i64 :: "bytes \<Rightarrow> u64 option" where
  "parse_i64 s =
     (let negative = (s \<noteq> [] \<and> hd s = CHR ''-'');
          digits = (if s \<noteq> [] \<and> hd s \<in> {CHR ''+'', CHR ''-''} then tl s else s);
          n = nat_of_digits digits in
      if digits = [] \<or> \<not> list_all is_ascii_digit digits then None
      else if negative then (if n \<le> 2 ^ 63 then Some (- of_nat n) else None)
      else if n < 2 ^ 63 then Some (of_nat n) else None)"

text \<open>
  Which strings \<open>f64::from_str\<close> accepts: an optional sign, then \<open>inf\<close>, \<open>infinity\<close> or
  \<open>nan\<close> in any case, or digits with at most one point and at least one digit, and an
  optional exponent.
\<close>

definition lower :: "char \<Rightarrow> char" where
  "lower c = (if is_ascii_uppercase c then char_of (byte c + 32) else c)"

definition strip_sign :: "bytes \<Rightarrow> bytes" where
  "strip_sign s = (if s \<noteq> [] \<and> hd s \<in> {CHR ''+'', CHR ''-''} then tl s else s)"

definition float_exponent :: "bytes \<Rightarrow> bool" where
  "float_exponent s \<longleftrightarrow>
     s = [] \<or> (hd s \<in> {CHR ''e'', CHR ''E''}
               \<and> strip_sign (tl s) \<noteq> [] \<and> list_all is_ascii_digit (strip_sign (tl s)))"

definition float_number :: "bytes \<Rightarrow> bool" where
  "float_number s \<longleftrightarrow>
     (let whole = takeWhile is_ascii_digit s; rest = dropWhile is_ascii_digit s in
      if rest \<noteq> [] \<and> hd rest = CHR ''.'' then
        (let fraction = takeWhile is_ascii_digit (tl rest) in
         (whole \<noteq> [] \<or> fraction \<noteq> []) \<and> float_exponent (dropWhile is_ascii_digit (tl rest)))
      else whole \<noteq> [] \<and> float_exponent rest)"

definition f64_accepts :: "bytes \<Rightarrow> bool" where
  "f64_accepts s \<longleftrightarrow>
     map lower (strip_sign s) \<in> {''inf'', ''infinity'', ''nan''} \<or> float_number (strip_sign s)"

text \<open>\<open>str::find(char)\<close> and \<open>str::rfind(char)\<close>.\<close>

definition find_char :: "char \<Rightarrow> bytes \<Rightarrow> nat option" where
  "find_char c s = (if c \<in> set s then Some (length (takeWhile (\<lambda>x. x \<noteq> c) s)) else None)"

definition rfind_char :: "char \<Rightarrow> bytes \<Rightarrow> nat option" where
  "rfind_char c s =
     (if c \<in> set s then Some (length s - 1 - length (takeWhile (\<lambda>x. x \<noteq> c) (rev s))) else None)"

section \<open>Trivia\<close>

text \<open>\<open>raw.replace("\r\n", "\n")\<close> and at least two line breaks in it.\<close>

definition has_blank_line :: "bytes \<Rightarrow> bool" where
  "has_blank_line raw \<longleftrightarrow>
     2 \<le> length (filter (\<lambda>c. c = LF \<or> c = CR) (replace_all [CR, LF] [LF] raw))"

definition token_slice :: "bytes \<Rightarrow> LexToken \<Rightarrow> bytes outcome" where
  "token_slice s tok = str_slice s (start_of tok) (end_of tok)"

fun any_blank_line :: "bytes \<Rightarrow> LexToken list \<Rightarrow> bool outcome" where
  "any_blank_line trivia [] = Return False"
| "any_blank_line trivia (tok # toks) =
     (if tok_kind tok \<noteq> Whitespace then any_blank_line trivia toks
      else bind_outcome (token_slice trivia tok) (\<lambda>raw.
        if has_blank_line raw then Return True else any_blank_line trivia toks))"

definition leading_trivia_has_blank_line :: "bytes \<Rightarrow> bool outcome" where
  "leading_trivia_has_blank_line trivia = bind_outcome (lex trivia) (any_blank_line trivia)"

definition block_comment_line :: "bytes \<Rightarrow> bytes" where
  "block_comment_line l = trim (dropWhile (\<lambda>c. c = CHR ''*'') (trim l))"

definition normalize_doc_comment :: "bytes \<Rightarrow> bool \<Rightarrow> bytes option" where
  "normalize_doc_comment raw inner_doc =
     (let s = trim raw;
          line_prefix = (if inner_doc then ''//!'' else ''///'');
          block_prefix = (if inner_doc then ''/*!'' else ''/**'') in
      case strip_prefix line_prefix s of
        Some doc \<Rightarrow> Some (trim doc)
      | None \<Rightarrow>
          (case Option.bind (strip_prefix block_prefix s) (strip_suffix ''*/'') of
             None \<Rightarrow> None
           | Some doc \<Rightarrow> Some (trim (join [LF] (map block_comment_line (str_lines doc))))))"

text \<open>The loop over the trivia tokens; an inner comment ends it, an outer one starts over.\<close>

fun collect_docs :: "bytes \<Rightarrow> bool \<Rightarrow> LexToken list \<Rightarrow> bytes list \<Rightarrow> bytes list outcome" where
  "collect_docs trivia inner_doc [] docs = Return docs"
| "collect_docs trivia inner_doc (tok # toks) docs =
     bind_outcome (token_slice trivia tok) (\<lambda>raw.
       if tok_kind tok = Whitespace then
         (if has_blank_line raw then
            (if inner_doc \<and> docs \<noteq> [] then Return docs else collect_docs trivia inner_doc toks [])
          else collect_docs trivia inner_doc toks docs)
       else if is_comment (tok_kind tok) then
         (case normalize_doc_comment raw inner_doc of
            Some doc \<Rightarrow> collect_docs trivia inner_doc toks (docs @ [doc])
          | None \<Rightarrow>
              if inner_doc \<and> docs \<noteq> [] then Return docs else collect_docs trivia inner_doc toks [])
       else collect_docs trivia inner_doc toks [])"

definition render_leading_documentation :: "bytes \<Rightarrow> bool \<Rightarrow> bytes option outcome" where
  "render_leading_documentation trivia inner_doc =
     bind_outcome (lex trivia) (\<lambda>toks.
     bind_outcome (collect_docs trivia inner_doc toks []) (\<lambda>docs.
       let documentation = trim (join [LF] docs) in
       Return (if documentation = [] then None else Some documentation)))"

section \<open>Operators and names\<close>

text \<open>
  Identifiers are ASCII, so the first \<open>char\<close> is the first byte and \<open>is_lowercase\<close> is the
  ASCII test.
\<close>

definition starts_lowercase :: "bytes \<Rightarrow> bool" where
  "starts_lowercase s \<longleftrightarrow> s \<noteq> [] \<and> (is_ascii_lowercase (hd s) \<or> hd s = CHR ''_'')"

definition is_block_like :: "AstExpr \<Rightarrow> bool" where
  "is_block_like e \<longleftrightarrow>
     (case expr_kind e of
        XIf c t el \<Rightarrow> True
      | XIfLet p e' t el \<Rightarrow> True
      | XBlock b \<Rightarrow> True
      | XLoop b \<Rightarrow> True
      | XMatch scrut arms \<Rightarrow> True
      | _ \<Rightarrow> False)"

definition assignop :: "TokenKind \<Rightarrow> BinOp option option" where
  "assignop t =
     (if t = EqTok then Some None
      else if t = PlusEq then Some (Some BinAdd)
      else if t = MinusEq then Some (Some BinSub)
      else if t = StarEq then Some (Some BinMul)
      else if t = SlashEq then Some (Some BinDiv)
      else if t = PercentEq then Some (Some BinRem)
      else None)"

definition binop_table :: "(TokenKind \<times> BinOp \<times> nat) list" where
  "binop_table =
     [(QuestionQuestion, BinCoalesce, 0), (OrOr, BinOr, 1), (AndAnd, BinAnd, 2),
      (EqEq, BinEq, 3), (NeTok, BinNe, 3), (LtTok, BinLt, 3), (LeTok, BinLe, 3),
      (GtTok, BinGt, 3), (GeTok, BinGe, 3), (KwIn, BinContains, 3),
      (Plus, BinAdd, 5), (Minus, BinSub, 5), (Star, BinMul, 6), (Slash, BinDiv, 6),
      (Percent, BinRem, 6)]"

text \<open>The operator and its left binding power.\<close>

definition binop :: "TokenKind \<Rightarrow> (BinOp \<times> nat) option" where
  "binop t = map_of binop_table t"

text \<open>Both tables list operators only; end of file is none of them.\<close>

lemma operators_not_Eof [simp]: "assignop Eof = None" "binop Eof = None"
  by (simp_all add: assignop_def binop_def binop_table_def)

lemma operator_kind:
  "assignop t = Some op \<Longrightarrow> t \<noteq> Eof"
  "binop t = Some b \<Longrightarrow> t \<noteq> Eof"
  by auto

section \<open>No function over trivia panics\<close>

text \<open>Every token of a lexer run is a slice between character boundaries.\<close>

lemma lexes_slices:
  "lexes s i toks j \<Longrightarrow> tok \<in> set toks \<Longrightarrow> \<exists>raw. token_slice s tok = Return raw"
  by (induction toks arbitrary: i) (auto simp: token_slice_def str_slice_def)

lemma any_blank_line_returns:
  "\<forall>tok \<in> set toks. \<exists>raw. token_slice trivia tok = Return raw \<Longrightarrow>
   \<exists>b. any_blank_line trivia toks = Return b"
proof (induction toks)
  case (Cons tok toks)
  then obtain raw where "token_slice trivia tok = Return raw" by auto
  with Cons show ?case by (cases "has_blank_line raw") auto
qed auto

lemma collect_docs_returns:
  "\<forall>tok \<in> set toks. \<exists>raw. token_slice trivia tok = Return raw \<Longrightarrow>
   \<exists>ds. collect_docs trivia inner_doc toks docs = Return ds"
proof (induction toks arbitrary: docs)
  case (Cons tok toks)
  then obtain raw where raw: "token_slice trivia tok = Return raw" by auto
  have "\<exists>ds. collect_docs trivia inner_doc toks docs' = Return ds" for docs'
    using Cons by simp
  with raw show ?case by (auto split: option.split)
qed simp

lemma trivia_functions_return:
  assumes "utf8 trivia" and "length trivia < 2 ^ 32"
  shows "\<exists>b. leading_trivia_has_blank_line trivia = Return b"
    and "\<exists>d. render_leading_documentation trivia inner_doc = Return d"
proof -
  obtain toks where toks: "lex trivia = Return toks" "lexes trivia 0 toks (length trivia)"
    using lex_run_steps [OF assms] by blast
  then have slices: "\<forall>tok \<in> set toks. \<exists>raw. token_slice trivia tok = Return raw"
    using lexes_slices by blast
  show "\<exists>b. leading_trivia_has_blank_line trivia = Return b"
    using any_blank_line_returns [OF slices] toks by (simp add: leading_trivia_has_blank_line_def)
  show "\<exists>d. render_leading_documentation trivia inner_doc = Return d"
    using collect_docs_returns [OF slices, of inner_doc "[]"] toks
    by (auto simp: render_leading_documentation_def Let_def)
qed

end
