(* ===== verification/Parser_State.thy ===== *)
theory Parser_State
  imports Parser_Text
begin

text \<open>
  The parser of \<open>crates/ruac/src/parser.rs\<close>: its errors, budget and state, the token helpers and
  the identity counters. A method on \<open>&mut self\<close> that returns \<open>Result<T, ParseError>\<close> is a
  function from the state to a \<open>reply\<close>; every caller forwards an error with \<open>?\<close>, so an error
  carries no state. A loop or a recursion of the grammar takes fuel: \<open>OutOfFuel\<close> means it was not
  enough, \<open>Crash\<close> is a panic.
\<close>

section \<open>Errors and budget\<close>

record ParseError =
  pe_diagnostic :: StructuredDiagnostic
  pe_line :: nat
  pe_message :: bytes

definition ParseError_at_code :: "SourceRange \<Rightarrow> DiagnosticCode \<Rightarrow> bytes \<Rightarrow> ParseError outcome" where
  "ParseError_at_code r code msg =
     map_outcome
       (\<lambda>text_range. \<lparr>pe_diagnostic =
            with_argument
              (StructuredDiagnostic_new code (Some (FileId (sr_file r))) (Some text_range))
              ''message'' msg,
          pe_line = sr_line r, pe_message = msg\<rparr>)
       (TextRange_at (of_nat (sr_start r)) (of_nat (sr_len r)))"

definition ParseError_at :: "SourceRange \<Rightarrow> bytes \<Rightarrow> ParseError outcome" where
  "ParseError_at r msg = ParseError_at_code r ParseUnexpectedToken msg"

fun lex_error_code :: "LexErrorKind \<Rightarrow> DiagnosticCode" where
  "lex_error_code UnterminatedString = ParseUnterminatedString"
| "lex_error_code UnterminatedBlockComment = ParseUnterminatedComment"
| "lex_error_code UnterminatedLuaBlock = ParseUnexpectedToken"
| "lex_error_code UnknownCharacter = ParseUnexpectedToken"

text \<open>\<open>impl From<TokenizeError> for ParseError\<close>.\<close>

definition ParseError_from :: "TokenizeError \<Rightarrow> ParseError outcome" where
  "ParseError_from e =
     ParseError_at_code (te_range e) (lex_error_code (te_kind e)) (lex_error_message (te_kind e))"

text \<open>\<open>impl Display for ParseError\<close>.\<close>

definition ParseError_display :: "ParseError \<Rightarrow> bytes" where
  "ParseError_display e =
     (if pe_line e = 0 then pe_message e else show_nat (pe_line e) @ '': '' @ pe_message e)"

record ParseBudget =
  max_tokens :: nat
  max_nesting :: nat

definition ParseBudget_default :: ParseBudget where
  "ParseBudget_default = \<lparr>max_tokens = 1000000, max_nesting = 512\<rparr>"

section \<open>State\<close>

record Parser =
  p_lexer :: RuaLexer
  p_semantic_file :: u32
  p_budget :: ParseBudget
  p_nesting :: nat
  p_no_struct :: bool
  p_next_expr :: u32
  p_next_pattern :: u32
  p_next_type :: u32
  p_next_trait_ref :: u32
  p_next_generic :: u32

datatype 'a reply = OutOfFuel | Crash | Reject ParseError | Parsed 'a Parser

type_synonym 'a parse = "Parser \<Rightarrow> 'a reply"

definition pret :: "'a \<Rightarrow> 'a parse" where
  "pret x = (\<lambda>s. Parsed x s)"

definition pbind :: "'a parse \<Rightarrow> ('a \<Rightarrow> 'b parse) \<Rightarrow> 'b parse" where
  "pbind m f = (\<lambda>s.
     case m s of
       OutOfFuel \<Rightarrow> OutOfFuel
     | Crash \<Rightarrow> Crash
     | Reject e \<Rightarrow> Reject e
     | Parsed x s' \<Rightarrow> f x s')"

definition pmap :: "('a \<Rightarrow> 'b) \<Rightarrow> 'a parse \<Rightarrow> 'b parse" where
  "pmap f m = pbind m (\<lambda>x. pret (f x))"

definition pget :: "(Parser \<Rightarrow> 'a) \<Rightarrow> 'a parse" where
  "pget f = (\<lambda>s. Parsed (f s) s)"

text \<open>A call that can panic and changes nothing, and raising an error.\<close>

definition plift :: "(Parser \<Rightarrow> 'a outcome) \<Rightarrow> 'a parse" where
  "plift f = (\<lambda>s. case f s of Panic \<Rightarrow> Crash | Return x \<Rightarrow> Parsed x s)"

definition praise :: "(Parser \<Rightarrow> ParseError outcome) \<Rightarrow> 'a parse" where
  "praise f = (\<lambda>s. case f s of Panic \<Rightarrow> Crash | Return e \<Rightarrow> Reject e)"

section \<open>Loops\<close>

text \<open>
  A loop of the grammar: the body says whether to go on. Every round of a loop in the source
  consumes a token, so the tokens ahead are enough fuel.
\<close>

definition tokens_ahead :: "RuaLexer \<Rightarrow> nat" where
  "tokens_ahead lx =
     (if td_kind (lx_current lx) = Eof then 0
      else if td_kind (lx_next lx) = Eof then 1
      else 2 + (length (tz_tokens (lx_tokenizer lx)) - tz_cursor (lx_tokenizer lx)))"

fun loop_fuel :: "nat \<Rightarrow> ('a \<Rightarrow> ('a \<times> bool) parse) \<Rightarrow> 'a \<Rightarrow> 'a parse" where
  "loop_fuel 0 body acc = (\<lambda>s. OutOfFuel)"
| "loop_fuel (Suc n) body acc =
     pbind (body acc) (\<lambda>(acc', again). if again then loop_fuel n body acc' else pret acc')"

definition repeat_parse :: "('a \<Rightarrow> ('a \<times> bool) parse) \<Rightarrow> 'a \<Rightarrow> 'a parse" where
  "repeat_parse body acc = (\<lambda>s. loop_fuel (Suc (tokens_ahead (p_lexer s))) body acc s)"

section \<open>Token helpers\<close>

definition cur :: "TokenKind parse" where
  "cur = pget (\<lambda>s. td_kind (lx_current (p_lexer s)))"

definition peek_next :: "TokenKind parse" where
  "peek_next = pget (\<lambda>s. td_kind (lx_next (p_lexer s)))"

definition p_text :: "bytes parse" where
  "p_text = plift (\<lambda>s. current_text (p_lexer s))"

definition current_range :: "SourceRange parse" where
  "current_range = pget (\<lambda>s. td_range (lx_current (p_lexer s)))"

definition p_bump :: "unit parse" where
  "p_bump = (\<lambda>s.
     case bump (p_lexer s) of
       Panic \<Rightarrow> Crash
     | Return (None, lx) \<Rightarrow> Parsed () (s\<lparr>p_lexer := lx\<rparr>)
     | Return (Some e, lx) \<Rightarrow> praise (\<lambda>_. ParseError_from e) s)"

text \<open>\<open>self.err(msg)\<close> as the error it makes, and \<open>return Err(self.err(msg))\<close>.\<close>

definition err_at_current :: "DiagnosticCode \<Rightarrow> bytes \<Rightarrow> Parser \<Rightarrow> ParseError outcome" where
  "err_at_current code msg s =
     ParseError_at_code ((td_range (lx_current (p_lexer s)))\<lparr>sr_file := p_semantic_file s\<rparr>) code msg"

definition fail :: "bytes \<Rightarrow> 'a parse" where
  "fail msg = praise (err_at_current ParseUnexpectedToken msg)"

definition accept :: "TokenKind \<Rightarrow> bool parse" where
  "accept kind = pbind cur (\<lambda>k.
     if k = kind then pbind p_bump (\<lambda>_. pret True) else pret False)"

definition expect :: "TokenKind \<Rightarrow> unit parse" where
  "expect kind = pbind cur (\<lambda>k.
     if k = kind then p_bump
     else fail (''expected `'' @ user_string kind @ ''`, found `'' @ user_string k @ ''`''))"

definition expect_ident :: "bytes parse" where
  "expect_ident = pbind cur (\<lambda>k.
     if k = Ident \<or> k = KwSelf then
       pbind p_text (\<lambda>name. pbind p_bump (\<lambda>_. pret name))
     else fail (''expected identifier, found `'' @ user_string k @ ''`''))"

definition nesting_error :: "Parser \<Rightarrow> ParseError outcome" where
  "nesting_error s =
     err_at_current ParseResourceLimit
       (''parser nesting budget exceeded (limit '' @ show_nat (max_nesting (p_budget s)) @ '')'') s"

definition with_nesting :: "'a parse \<Rightarrow> 'a parse" where
  "with_nesting m = (\<lambda>s.
     if max_nesting (p_budget s) \<le> p_nesting s then
       praise nesting_error s
     else
       (case m (s\<lparr>p_nesting := p_nesting s + 1\<rparr>) of
          Parsed x s' \<Rightarrow>
            if p_nesting s' = 0 then Crash else Parsed x (s'\<lparr>p_nesting := p_nesting s' - 1\<rparr>)
        | r \<Rightarrow> r))"

definition leading_documentation :: "bytes option parse" where
  "leading_documentation = plift (\<lambda>s.
     bind_outcome (current_leading_trivia (p_lexer s)) (\<lambda>trivia.
       render_leading_documentation trivia False))"

definition blank_line_before_current :: "bool parse" where
  "blank_line_before_current = plift (\<lambda>s.
     bind_outcome (current_leading_trivia (p_lexer s)) leading_trivia_has_blank_line)"

text \<open>\<open>let saved = self.no_struct; self.no_struct = flag; parse; self.no_struct = saved\<close>.\<close>

definition with_no_struct :: "bool \<Rightarrow> 'a parse \<Rightarrow> 'a parse" where
  "with_no_struct flag m = (\<lambda>s.
     case m (s\<lparr>p_no_struct := flag\<rparr>) of
       Parsed x s' \<Rightarrow> Parsed x (s'\<lparr>p_no_struct := p_no_struct s\<rparr>)
     | r \<Rightarrow> r)"

section \<open>Identities\<close>

text \<open>\<open>counter.checked_add(1).expect(..)\<close>.\<close>

definition next_id :: "u32 \<Rightarrow> u32 option" where
  "next_id n = (if n = -1 then None else Some (n + 1))"

definition mk :: "ExprKind \<Rightarrow> SourceRange \<Rightarrow> AstExpr parse" where
  "mk kind start = (\<lambda>s.
     case next_id (p_next_expr s) of
       None \<Rightarrow> Crash
     | Some n \<Rightarrow>
         Parsed
           (AstExpr \<lparr>exid_file = p_semantic_file s, exid_local = p_next_expr s\<rparr> kind
             (SourceRange_new (sr_start start)
                (sr_end (previous_range (p_lexer s)) - sr_start start) (sr_line start)))
           (s\<lparr>p_next_expr := n\<rparr>))"

definition next_pattern_id :: "PatternId parse" where
  "next_pattern_id = (\<lambda>s.
     case next_id (p_next_pattern s) of
       None \<Rightarrow> Crash
     | Some n \<Rightarrow>
         Parsed \<lparr>patid_file = p_semantic_file s, patid_local = p_next_pattern s\<rparr>
           (s\<lparr>p_next_pattern := n\<rparr>))"

definition next_type_id :: "TypeId parse" where
  "next_type_id = (\<lambda>s.
     case next_id (p_next_type s) of
       None \<Rightarrow> Crash
     | Some n \<Rightarrow>
         Parsed \<lparr>tyid_file = p_semantic_file s, tyid_local = p_next_type s\<rparr>
           (s\<lparr>p_next_type := n\<rparr>))"

definition trait_ref :: "bytes \<Rightarrow> TraitRef parse" where
  "trait_ref path = (\<lambda>s.
     case next_id (p_next_trait_ref s) of
       None \<Rightarrow> Crash
     | Some n \<Rightarrow>
         Parsed
           \<lparr>traitref_id = \<lparr>trid_file = p_semantic_file s, trid_local = p_next_trait_ref s\<rparr>,
            traitref_path = path\<rparr>
           (s\<lparr>p_next_trait_ref := n\<rparr>))"

definition next_generic_id :: "GenericParamId parse" where
  "next_generic_id = (\<lambda>s.
     case next_id (p_next_generic s) of
       None \<Rightarrow> Crash
     | Some n \<Rightarrow>
         Parsed \<lparr>genid_file = p_semantic_file s, genid_local = p_next_generic s\<rparr>
           (s\<lparr>p_next_generic := n\<rparr>))"

end
