(* ===== verification/Parser.thy ===== *)
theory Parser
  imports Parser_State
begin

text \<open>
  The grammar of \<open>crates/ruac/src/parser.rs\<close>, one definition per method, for a build without
  the test-only inline modules. A method that the grammar re-enters takes the methods it calls
  as a \<open>Grammar\<close> of callbacks; \<open>parsers\<close> ties the knot on fuel. Recursion either counts in the
  nesting budget or consumes a token first, so the tokens ahead and the nesting left are
  enough (\<open>parse_program\<close>).
\<close>

record Grammar =
  r_type :: "RuaType parse"
  r_block :: "AstBlock parse"
  r_expr :: "AstExpr parse"
  r_bin :: "nat \<Rightarrow> AstExpr parse"
  r_unary :: "AstExpr parse"
  r_pattern :: "AstPattern parse"
  r_pattern_literal :: "AstExpr parse"
  r_if :: "AstExpr parse"
  r_meta_item :: "MetaItem parse"
  r_meta_value :: "MetaValue parse"

section \<open>Repeated shapes\<close>

text \<open>\<open>while !stop { xs.push(item); if !accept(Comma) { break; } }\<close>.\<close>

definition comma_separated :: "(TokenKind \<Rightarrow> bool) \<Rightarrow> 'a parse \<Rightarrow> 'a list parse" where
  "comma_separated stop item =
     repeat_parse (\<lambda>xs. pbind cur (\<lambda>k.
       if stop k then pret (xs, False)
       else pbind item (\<lambda>x. pbind (accept Comma) (\<lambda>again. pret (xs @ [x], again))))) []"

text \<open>\<open>while !stop { xs.push(item); }\<close>.\<close>

definition many_until :: "(TokenKind \<Rightarrow> bool) \<Rightarrow> 'a parse \<Rightarrow> 'a list parse" where
  "many_until stop item =
     repeat_parse (\<lambda>xs. pbind cur (\<lambda>k.
       if stop k then pret (xs, False)
       else pbind item (\<lambda>x. pret (xs @ [x], True)))) []"

text \<open>\<open>if self.accept(kind)? { Some(item) } else { None }\<close>.\<close>

definition optional_after :: "TokenKind \<Rightarrow> 'a parse \<Rightarrow> 'a option parse" where
  "optional_after kind item = pbind (accept kind) (\<lambda>b. if b then pmap Some item else pret None)"

text \<open>\<open>A::B::C\<close> as the string the source builds, and as its segments.\<close>

definition parse_path_string :: "bytes parse" where
  "parse_path_string =
     pbind expect_ident (\<lambda>first. repeat_parse (\<lambda>path.
       pbind (accept ColonColon) (\<lambda>b.
         if b then pbind expect_ident (\<lambda>seg. pret (path @ ''::'' @ seg, True))
         else pret (path, False))) first)"

definition parse_path_segments :: "bytes list parse" where
  "parse_path_segments =
     pbind expect_ident (\<lambda>first. repeat_parse (\<lambda>segs.
       pbind (accept ColonColon) (\<lambda>b.
         if b then pbind expect_ident (\<lambda>seg. pret (segs @ [seg], True))
         else pret (segs, False))) [first])"

section \<open>Generic parameters\<close>

text \<open>The depth is an \<open>i32\<close>.\<close>

definition skip_generics_step :: "nat \<Rightarrow> (nat \<times> bool) parse" where
  "skip_generics_step depth = pbind cur (\<lambda>k.
     if k = LtTok then
       (if depth = 2 ^ 31 - 1 then (\<lambda>s. Crash) else pbind p_bump (\<lambda>_. pret (depth + 1, True)))
     else if k = GtTok then
       (if depth = 1 then pbind p_bump (\<lambda>_. pret (0, False))
        else pbind p_bump (\<lambda>_. pret (depth - 1, True)))
     else if k = Eof then fail ''unterminated `<...>`''
     else pbind p_bump (\<lambda>_. pret (depth, True)))"

definition skip_generics :: "unit parse" where
  "skip_generics = pbind cur (\<lambda>k.
     if k \<noteq> LtTok then pret ()
     else pmap (\<lambda>_. ()) (repeat_parse skip_generics_step 0))"

text \<open>The bounds after a colon, \<open>A::B<..> + C\<close>.\<close>

definition parse_bounds :: "TraitRef list parse" where
  "parse_bounds = repeat_parse (\<lambda>bounds.
     pbind parse_path_string (\<lambda>path.
     pbind skip_generics (\<lambda>_.
     pbind (trait_ref path) (\<lambda>bound.
     pbind (accept Plus) (\<lambda>again. pret (bounds @ [bound], again)))))) []"

definition parse_optional_bounds :: "TraitRef list parse" where
  "parse_optional_bounds =
     pbind (accept Colon) (\<lambda>b. if b then parse_bounds else pret [])"

definition parse_generic_param :: "GenericParam parse" where
  "parse_generic_param =
     pbind expect_ident (\<lambda>name.
     pbind parse_optional_bounds (\<lambda>bounds.
     pbind next_generic_id (\<lambda>i.
     pret \<lparr>generic_id = i, generic_name = name, generic_bounds = bounds\<rparr>)))"

definition parse_generics :: "GenericParam list parse" where
  "parse_generics = pbind cur (\<lambda>k.
     if k \<noteq> LtTok then pret []
     else pbind p_bump (\<lambda>_.
       pbind (comma_separated (\<lambda>k. k = GtTok) parse_generic_param) (\<lambda>params.
       pbind (expect GtTok) (\<lambda>_. pret params))))"

text \<open>\<open>generics.iter_mut().find(|g| g.name == name)\<close> gets the bounds.\<close>

fun merge_bounds :: "bytes \<Rightarrow> TraitRef list \<Rightarrow> GenericParam list \<Rightarrow> GenericParam list" where
  "merge_bounds name bounds [] = []"
| "merge_bounds name bounds (g # gs) =
     (if generic_name g = name then g\<lparr>generic_bounds := generic_bounds g @ bounds\<rparr> # gs
      else g # merge_bounds name bounds gs)"

text \<open>The left side of a predicate; only a bare name is \<open>simple\<close>.\<close>

definition parse_where_subject :: "(bytes \<times> bool) parse" where
  "parse_where_subject =
     pbind expect_ident (\<lambda>name.
     pbind (repeat_parse (\<lambda>simple_name.
         pbind (accept ColonColon) (\<lambda>b.
           if b then pbind expect_ident (\<lambda>_. pret (False, True)) else pret (simple_name, False)))
         True) (\<lambda>simple_name.
     pbind cur (\<lambda>k.
       if k = LtTok then pbind skip_generics (\<lambda>_. pret (name, False))
       else pret (name, simple_name))))"

definition parse_where :: "GenericParam list \<Rightarrow> GenericParam list parse" where
  "parse_where generics =
     pbind cur (\<lambda>k. if k \<noteq> Ident then pret generics else
     pbind p_text (\<lambda>word. if word \<noteq> ''where'' then pret generics else
     pbind p_bump (\<lambda>_.
     repeat_parse (\<lambda>gs. pbind cur (\<lambda>k.
       if k = LBrace \<or> k = Semi \<or> k = Eof then pret (gs, False)
       else pbind parse_where_subject (\<lambda>(name, simple_name).
         pbind parse_optional_bounds (\<lambda>bounds.
         pbind (accept Comma) (\<lambda>again.
         pret (if simple_name then merge_bounds name bounds gs else gs, again)))))) generics)))"

section \<open>Attributes\<close>

definition at_attribute_start :: "bool parse" where
  "at_attribute_start =
     pbind cur (\<lambda>k. pbind peek_next (\<lambda>k'. pret (k = Hash \<and> k' = LBracket)))"

definition meta_string :: "bytes parse" where
  "meta_string = pbind p_text (\<lambda>source.
     case Option.bind (strip_prefix [quote_char] source) (strip_suffix [quote_char]) of
       None \<Rightarrow> fail ''attribute string must use double quotes''
     | Some val \<Rightarrow> pbind p_bump (\<lambda>_. pret val))"

definition meta_integer :: "u64 parse" where
  "meta_integer = pbind p_text (\<lambda>source.
     case parse_i64 (filter (\<lambda>c. c \<noteq> CHR ''_'') source) of
       None \<Rightarrow> fail ''attribute integer is outside the i64 range''
     | Some val \<Rightarrow> pbind p_bump (\<lambda>_. pret val))"

definition meta_float :: "bytes parse" where
  "meta_float = pbind p_text (\<lambda>source.
     if f64_accepts (filter (\<lambda>c. c \<noteq> CHR ''_'') source) then
       pbind p_bump (\<lambda>_. pret (filter (\<lambda>c. c \<noteq> CHR ''_'') source))
     else fail ''invalid attribute float'')"

text \<open>The literals both \<open>parse_meta_item\<close> and \<open>parse_meta_value\<close> start with.\<close>

definition meta_literal_start :: "TokenKind \<Rightarrow> bool" where
  "meta_literal_start k \<longleftrightarrow> k = KwTrue \<or> k = KwFalse \<or> k = IntTok \<or> k = FloatTok \<or> k = Str"

definition meta_literal :: "TokenKind \<Rightarrow> MetaValue parse" where
  "meta_literal k =
     (if k = KwTrue then pbind p_bump (\<lambda>_. pret (MetaBool True))
      else if k = KwFalse then pbind p_bump (\<lambda>_. pret (MetaBool False))
      else if k = IntTok then pmap MetaInteger meta_integer
      else if k = FloatTok then pmap MetaFloat meta_float
      else pmap MetaString meta_string)"

definition expect_meta_name :: "bytes parse" where
  "expect_meta_name = pbind cur (\<lambda>k. pbind p_text (\<lambda>name.
     if name \<noteq> [] \<and> (hd name = CHR ''_'' \<or> is_ascii_alphabetic (hd name))
        \<and> list_all (\<lambda>c. c = CHR ''_'' \<or> is_ascii_alphanumeric c) name
        \<and> k \<noteq> KwTrue \<and> k \<noteq> KwFalse
     then pbind p_bump (\<lambda>_. pret name)
     else fail ''expected attribute identifier''))"

definition parse_meta_path :: "bytes parse" where
  "parse_meta_path =
     pbind expect_meta_name (\<lambda>first. repeat_parse (\<lambda>path.
       pbind (accept ColonColon) (\<lambda>b.
         if b then pbind expect_meta_name (\<lambda>seg. pret (path @ ''::'' @ seg, True))
         else pret (path, False))) first)"

text \<open>An item that starts with a path: a word, \<open>name = value\<close> or \<open>name(items)\<close>.\<close>

definition parse_meta_named :: "Grammar \<Rightarrow> MetaItem parse" where
  "parse_meta_named r =
     pbind parse_meta_path (\<lambda>name.
     pbind (accept EqTok) (\<lambda>is_value.
       if is_value then pmap (MetaNameValue name) (r_meta_value r)
       else
         pbind (accept LParen) (\<lambda>is_list.
           if \<not> is_list then pret (MetaWord name)
           else
             pbind (comma_separated (\<lambda>k. k = RParen \<or> k = Eof) (r_meta_item r)) (\<lambda>items.
             pbind (expect RParen) (\<lambda>_. pret (MetaList name items))))))"

definition parse_meta_item :: "Grammar \<Rightarrow> MetaItem parse" where
  "parse_meta_item r = pbind cur (\<lambda>k.
     if meta_literal_start k then pmap MetaLiteral (meta_literal k) else parse_meta_named r)"

definition parse_meta_values :: "Grammar \<Rightarrow> MetaValue parse" where
  "parse_meta_values r =
     pbind p_bump (\<lambda>_.
     pbind (comma_separated (\<lambda>k. k = RBracket \<or> k = Eof) (r_meta_value r)) (\<lambda>vals.
     pbind (expect RBracket) (\<lambda>_. pret (MetaValues vals))))"

definition parse_meta_value :: "Grammar \<Rightarrow> MetaValue parse" where
  "parse_meta_value r = pbind cur (\<lambda>k.
     if meta_literal_start k then meta_literal k
     else if k = LBracket then parse_meta_values r
     else if k = Ident then pmap MetaPath parse_meta_path
     else fail ''attribute value must be a literal, path, or homogeneous list'')"

fun outer_attribute :: "MetaItem \<Rightarrow> Attribute parse" where
  "outer_attribute (MetaWord name) = pret (Attribute_new name [])"
| "outer_attribute (MetaList name items) = pret (Attribute_new name items)"
| "outer_attribute (MetaNameValue name val) = pret (Attribute_new name [MetaLiteral val])"
| "outer_attribute (MetaLiteral val) = fail ''attribute name must be an identifier''"

definition parse_outer_attributes :: "Grammar \<Rightarrow> Attribute list parse" where
  "parse_outer_attributes r = repeat_parse (\<lambda>attrs.
     pbind at_attribute_start (\<lambda>here.
       if \<not> here then pret (attrs, False)
       else
         pbind (expect Hash) (\<lambda>_.
         pbind (expect LBracket) (\<lambda>_.
         pbind (r_meta_item r) (\<lambda>item.
         pbind (expect RBracket) (\<lambda>_.
         pbind (outer_attribute item) (\<lambda>a. pret (attrs @ [a], True)))))))) []"

section \<open>Types\<close>

definition parse_fn_type :: "Grammar \<Rightarrow> RuaType parse" where
  "parse_fn_type r =
     pbind (expect LParen) (\<lambda>_.
     pbind (comma_separated (\<lambda>k. k = RParen) (r_type r)) (\<lambda>params.
     pbind (expect RParen) (\<lambda>_.
     pbind (optional_after Arrow (r_type r)) (\<lambda>ret.
     pret (TyFunction params (case ret of None \<Rightarrow> TyUnit | Some t \<Rightarrow> t))))))"

definition parse_ref_type :: "Grammar \<Rightarrow> RuaType parse" where
  "parse_ref_type r =
     pbind (accept KwMut) (\<lambda>is_mutable.
     pbind (accept KwDyn) (\<lambda>_.
     pbind (r_type r) (\<lambda>inner_type. pret (TyRef is_mutable inner_type))))"

definition parse_paren_type :: "Grammar \<Rightarrow> RuaType parse" where
  "parse_paren_type r =
     pbind (accept RParen) (\<lambda>is_unit. if is_unit then pret TyUnit else
     pbind (r_type r) (\<lambda>first.
     pbind (accept Comma) (\<lambda>is_tuple.
       if \<not> is_tuple then pbind (expect RParen) (\<lambda>_. pret first)
       else
         pbind (comma_separated (\<lambda>k. k = RParen) (r_type r)) (\<lambda>rest.
         pbind (expect RParen) (\<lambda>_. pret (TyTuple (first # rest)))))))"

definition parse_path_type :: "Grammar \<Rightarrow> RuaType parse" where
  "parse_path_type r =
     pbind parse_path_string (\<lambda>name.
     pbind (accept LtTok) (\<lambda>has_args.
     pbind (if has_args then
              pbind (comma_separated (\<lambda>k. k = GtTok) (r_type r)) (\<lambda>args.
              pbind (expect GtTok) (\<lambda>_. pret args))
            else pret []) (\<lambda>args.
     pbind next_type_id (\<lambda>i. pret (TyPath i name args)))))"

definition parse_type_inner :: "Grammar \<Rightarrow> RuaType parse" where
  "parse_type_inner r =
     pbind (accept NotTok) (\<lambda>is_never. if is_never then pret TyNever else
     pbind (accept KwFn) (\<lambda>is_fn. if is_fn then parse_fn_type r else
     pbind (accept Amp) (\<lambda>is_ref. if is_ref then parse_ref_type r else
     pbind cur (\<lambda>k.
       if k = LParen then pbind p_bump (\<lambda>_. parse_paren_type r) else parse_path_type r))))"

definition parse_type :: "Grammar \<Rightarrow> RuaType parse" where
  "parse_type r = with_nesting (parse_type_inner r)"

section \<open>Patterns\<close>

definition parse_scalar :: "ExprKind \<Rightarrow> SourceRange \<Rightarrow> AstExpr parse" where
  "parse_scalar kind start = pbind p_bump (\<lambda>_. mk kind start)"

text \<open>The literal tokens, in expressions and in patterns.\<close>

definition literal_token :: "TokenKind \<Rightarrow> bool" where
  "literal_token k \<longleftrightarrow> k = IntTok \<or> k = FloatTok \<or> k = Str \<or> k = KwTrue \<or> k = KwFalse"

definition parse_literal :: "TokenKind \<Rightarrow> SourceRange \<Rightarrow> AstExpr parse" where
  "parse_literal k start =
     (if k = KwTrue then parse_scalar (XBool True) start
      else if k = KwFalse then parse_scalar (XBool False) start
      else pbind p_text (\<lambda>s.
        parse_scalar (if k = IntTok then XInt s else if k = FloatTok then XFloat s else XStr s) start))"

definition parse_pattern_literal_inner :: "Grammar \<Rightarrow> AstExpr parse" where
  "parse_pattern_literal_inner r =
     pbind current_range (\<lambda>start.
     pbind (accept Minus) (\<lambda>is_neg.
       if is_neg then pbind (r_pattern_literal r) (\<lambda>e. mk (XUnary UnNeg e) start)
       else pbind cur (\<lambda>k.
         if literal_token k then parse_literal k start
         else fail (''expected literal in pattern, found `'' @ user_string k @ ''`''))))"

definition parse_pattern_literal :: "Grammar \<Rightarrow> AstExpr parse" where
  "parse_pattern_literal r = with_nesting (parse_pattern_literal_inner r)"

definition parse_literal_pattern :: "Grammar \<Rightarrow> AstPattern parse" where
  "parse_literal_pattern r =
     pbind (r_pattern_literal r) (\<lambda>lo.
     pbind (accept DotDotEq) (\<lambda>closed.
       if closed then pbind (r_pattern_literal r) (\<lambda>hi. pret (PRange lo hi True))
       else pbind (accept DotDot) (\<lambda>half_open.
         if half_open then pbind (r_pattern_literal r) (\<lambda>hi. pret (PRange lo hi False))
         else pret (PLiteral lo))))"

text \<open>A field of a struct pattern: \<open>name: pattern\<close>, or \<open>name\<close> for a binding of that name.\<close>

definition parse_field_pattern :: "Grammar \<Rightarrow> (bytes \<times> AstPattern) parse" where
  "parse_field_pattern r =
     pbind current_range (\<lambda>name_span.
     pbind expect_ident (\<lambda>name.
     pbind (accept Colon) (\<lambda>b.
       if b then pmap (Pair name) (r_pattern r)
       else pret (name, PBinding name name_span))))"

definition parse_field_patterns :: "Grammar \<Rightarrow> ((bytes \<times> AstPattern) list \<times> bool) parse" where
  "parse_field_patterns r = repeat_parse (\<lambda>(fs, rest). pbind cur (\<lambda>k.
     if k = RBrace then pret ((fs, rest), False)
     else pbind (accept DotDot) (\<lambda>dots.
       if dots then pret ((fs, True), False)
       else pbind (parse_field_pattern r) (\<lambda>f.
         pbind (accept Comma) (\<lambda>again. pret ((fs @ [f], rest), again)))))) ([], False)"

definition parse_name_pattern :: "Grammar \<Rightarrow> AstPattern parse" where
  "parse_name_pattern r =
     pbind current_range (\<lambda>first_span.
     pbind parse_path_segments (\<lambda>segs.
     pbind cur (\<lambda>k.
       if k = LParen then
         pbind p_bump (\<lambda>_.
         pbind (comma_separated (\<lambda>k. k = RParen) (r_pattern r)) (\<lambda>elems.
         pbind (expect RParen) (\<lambda>_.
         pbind next_pattern_id (\<lambda>i. pret (PTupleVariant i segs elems)))))
       else if k = LBrace then
         pbind p_bump (\<lambda>_.
         pbind (parse_field_patterns r) (\<lambda>(flds_pat, rest).
         pbind (expect RBrace) (\<lambda>_.
         pbind next_pattern_id (\<lambda>i. pret (PStructVariant i segs flds_pat rest)))))
       else
         (case segs of
            [name] \<Rightarrow>
              if starts_lowercase name then pret (PBinding name first_span)
              else pbind next_pattern_id (\<lambda>i. pret (PPath i segs))
          | _ \<Rightarrow> pbind next_pattern_id (\<lambda>i. pret (PPath i segs))))))"

definition parse_pattern_inner :: "Grammar \<Rightarrow> AstPattern parse" where
  "parse_pattern_inner r = pbind cur (\<lambda>k.
     if literal_token k \<or> k = Minus then parse_literal_pattern r
     else if k = Ident \<or> k = KwSelf then
       pbind p_text (\<lambda>first.
         if first = ''_'' then pbind p_bump (\<lambda>_. pret PWildcard) else parse_name_pattern r)
     else fail (''expected pattern, found `'' @ user_string k @ ''`''))"

definition parse_pattern :: "Grammar \<Rightarrow> AstPattern parse" where
  "parse_pattern r = with_nesting (parse_pattern_inner r)"

section \<open>Expressions\<close>

definition parse_cond :: "Grammar \<Rightarrow> AstExpr parse" where
  "parse_cond r = with_no_struct True (r_expr r)"

definition parse_expr_allow_struct :: "Grammar \<Rightarrow> AstExpr parse" where
  "parse_expr_allow_struct r = with_no_struct False (r_expr r)"

definition parse_expr_inner :: "Grammar \<Rightarrow> AstExpr parse" where
  "parse_expr_inner r =
     pbind current_range (\<lambda>start.
     pbind (r_bin r 0) (\<lambda>lhs.
     pbind cur (\<lambda>k.
       case assignop k of
         Some op \<Rightarrow>
           pbind p_bump (\<lambda>_.
           pbind (r_expr r) (\<lambda>val. mk (XAssign op lhs val) start))
       | None \<Rightarrow> pret lhs)))"

definition parse_expr :: "Grammar \<Rightarrow> AstExpr parse" where
  "parse_expr r = with_nesting (parse_expr_inner r)"

text \<open>One operator and its right operand, while it binds at least as tightly as \<open>min_bp\<close>.\<close>

definition RANGE_BP :: nat where
  "RANGE_BP = 4"

definition parse_operator :: "Grammar \<Rightarrow> nat \<Rightarrow> SourceRange \<Rightarrow> AstExpr \<Rightarrow> (AstExpr \<times> bool) parse" where
  "parse_operator r min_bp start lhs = pbind cur (\<lambda>k.
     if k = DotDot \<or> k = DotDotEq then
       (if RANGE_BP < min_bp then pret (lhs, False)
        else
          pbind p_bump (\<lambda>_.
          pbind (r_bin r (RANGE_BP + 1)) (\<lambda>rhs.
          pbind (mk (XRange lhs rhs (k = DotDotEq)) start) (\<lambda>e. pret (e, True)))))
     else
       (case binop k of
          None \<Rightarrow> pret (lhs, False)
        | Some (op, lbp) \<Rightarrow>
            if lbp < min_bp then pret (lhs, False)
            else
              pbind p_bump (\<lambda>_.
              pbind (r_bin r (lbp + 1)) (\<lambda>rhs.
              pbind (mk (XBinary op lhs rhs) start) (\<lambda>e. pret (e, True))))))"

definition parse_bin_inner :: "Grammar \<Rightarrow> nat \<Rightarrow> AstExpr parse" where
  "parse_bin_inner r min_bp =
     pbind current_range (\<lambda>start.
     pbind (r_unary r) (\<lambda>lhs. repeat_parse (parse_operator r min_bp start) lhs))"

definition parse_bin :: "Grammar \<Rightarrow> nat \<Rightarrow> AstExpr parse" where
  "parse_bin r min_bp = with_nesting (parse_bin_inner r min_bp)"

definition parse_call_args :: "Grammar \<Rightarrow> AstExpr list parse" where
  "parse_call_args r =
     pbind (expect LParen) (\<lambda>_.
     pbind (comma_separated (\<lambda>k. k = RParen) (parse_expr_allow_struct r)) (\<lambda>args.
     pbind (expect RParen) (\<lambda>_. pret args)))"

text \<open>The turbofish of a method call, \<open>::<A, B>\<close>.\<close>

definition parse_turbofish :: "Grammar \<Rightarrow> RuaType list parse" where
  "parse_turbofish r = pbind (accept ColonColon) (\<lambda>b.
     if \<not> b then pret []
     else
       pbind (expect LtTok) (\<lambda>_.
       pbind (comma_separated (\<lambda>k. k = GtTok) (r_type r)) (\<lambda>args.
       pbind (expect GtTok) (\<lambda>_. pret args))))"

definition parse_member :: "Grammar \<Rightarrow> SourceRange \<Rightarrow> AstExpr \<Rightarrow> bool \<Rightarrow> AstExpr parse" where
  "parse_member r start e optional =
     pbind current_range (\<lambda>member_span.
     pbind expect_ident (\<lambda>name.
     pbind (parse_turbofish r) (\<lambda>type_args.
     pbind cur (\<lambda>k.
       if k = LParen then
         pbind (parse_call_args r) (\<lambda>args.
           mk (XMethodCall e name optional type_args args member_span) start)
       else if type_args \<noteq> [] then fail ''method turbofish must be followed by `(...)`''
       else mk (XField e name optional member_span) start))))"

definition parse_suffix :: "Grammar \<Rightarrow> SourceRange \<Rightarrow> AstExpr \<Rightarrow> (AstExpr \<times> bool) parse" where
  "parse_suffix r start e = pbind cur (\<lambda>k.
     if k = LParen then
       pbind (parse_call_args r) (\<lambda>args.
       pbind (mk (XCall e args) start) (\<lambda>e'. pret (e', True)))
     else if k = Dot \<or> k = QuestionDot then
       pbind p_bump (\<lambda>_.
       pbind (parse_member r start e (k = QuestionDot)) (\<lambda>e'. pret (e', True)))
     else if k = Question then
       pbind p_bump (\<lambda>_. pbind (mk (XTry e) start) (\<lambda>e'. pret (e', True)))
     else if k = LBracket then
       pbind p_bump (\<lambda>_.
       pbind (parse_expr_allow_struct r) (\<lambda>index.
       pbind (expect RBracket) (\<lambda>_.
       pbind (mk (XIndex e index) start) (\<lambda>e'. pret (e', True)))))
     else pret (e, False))"

definition parse_closure_param :: "Grammar \<Rightarrow> ClosureParam parse" where
  "parse_closure_param r =
     pbind current_range (\<lambda>name_span.
     pbind expect_ident (\<lambda>name.
     pbind (optional_after Colon (r_type r)) (\<lambda>ty.
     pret \<lparr>cparam_name = name, cparam_span = name_span, cparam_type = ty\<rparr>)))"

definition parse_closure_params :: "Grammar \<Rightarrow> ClosureParam list parse" where
  "parse_closure_params r = pbind cur (\<lambda>k.
     if k = OrOr then pbind p_bump (\<lambda>_. pret [])
     else
       pbind (expect Pipe) (\<lambda>_.
       pbind (comma_separated (\<lambda>k. k = Pipe \<or> k = Eof) (parse_closure_param r)) (\<lambda>params.
       pbind (expect Pipe) (\<lambda>_. pret params))))"

definition parse_closure_body :: "Grammar \<Rightarrow> ClosureBody parse" where
  "parse_closure_body r = pbind cur (\<lambda>k.
     if k = LBrace then pmap ClosureBlock (r_block r)
     else pmap ClosureExpr (parse_expr_allow_struct r))"

definition parse_closure :: "Grammar \<Rightarrow> AstExpr parse" where
  "parse_closure r =
     pbind current_range (\<lambda>start.
     pbind (parse_closure_params r) (\<lambda>params.
     pbind (optional_after Arrow (r_type r)) (\<lambda>ret.
     pbind (parse_closure_body r) (\<lambda>closure.
     mk (XClosure params ret closure) start))))"

definition parse_map_entry :: "Grammar \<Rightarrow> (AstExpr \<times> AstExpr) parse" where
  "parse_map_entry r =
     pbind (parse_expr_allow_struct r) (\<lambda>key.
     pbind (expect Colon) (\<lambda>_.
     pbind (parse_expr_allow_struct r) (\<lambda>val. pret (key, val))))"

definition parse_map_literal :: "Grammar \<Rightarrow> SourceRange \<Rightarrow> AstExpr parse" where
  "parse_map_literal r start =
     pbind (expect Hash) (\<lambda>_.
     pbind (expect LBrace) (\<lambda>_.
     pbind (comma_separated (\<lambda>k. k = RBrace) (parse_map_entry r)) (\<lambda>entries.
     pbind (expect RBrace) (\<lambda>_. mk (XMapLit entries) start))))"

definition parse_struct_lit_field :: "Grammar \<Rightarrow> (bytes \<times> AstExpr) parse" where
  "parse_struct_lit_field r =
     pbind current_range (\<lambda>start.
     pbind expect_ident (\<lambda>name.
     pbind (accept Colon) (\<lambda>b.
     pbind (if b then parse_expr_allow_struct r else mk (XPath [name]) start) (\<lambda>val.
     pret (name, val)))))"

definition parse_struct_lit_fields :: "Grammar \<Rightarrow> (bytes \<times> AstExpr) list parse" where
  "parse_struct_lit_fields r =
     pbind (expect LBrace) (\<lambda>_.
     pbind (comma_separated (\<lambda>k. k = RBrace) (parse_struct_lit_field r)) (\<lambda>field_values.
     pbind (expect RBrace) (\<lambda>_. pret field_values)))"

definition parse_else :: "Grammar \<Rightarrow> ElseBranch option parse" where
  "parse_else r = pbind (accept KwElse) (\<lambda>b.
     if \<not> b then pret None
     else pbind cur (\<lambda>k.
       if k = KwIf then pmap (\<lambda>e. Some (ElseIf e)) (r_if r)
       else pmap (\<lambda>b. Some (ElseBlock b)) (r_block r)))"

definition parse_if_let :: "Grammar \<Rightarrow> SourceRange \<Rightarrow> AstExpr parse" where
  "parse_if_let r start =
     pbind (expect KwLet) (\<lambda>_.
     pbind (r_pattern r) (\<lambda>pat.
     pbind (expect EqTok) (\<lambda>_.
     pbind (parse_cond r) (\<lambda>e.
     pbind (r_block r) (\<lambda>then_block.
     pbind (parse_else r) (\<lambda>else_block.
     mk (XIfLet pat e then_block else_block) start))))))"

definition parse_if_rest :: "Grammar \<Rightarrow> SourceRange \<Rightarrow> AstExpr parse" where
  "parse_if_rest r start = pbind cur (\<lambda>k.
     if k = KwLet then parse_if_let r start
     else
       pbind (parse_cond r) (\<lambda>cond.
       pbind (r_block r) (\<lambda>then_block.
       pbind (parse_else r) (\<lambda>else_block.
       mk (XIf cond then_block else_block) start))))"

definition parse_if :: "Grammar \<Rightarrow> AstExpr parse" where
  "parse_if r =
     pbind current_range (\<lambda>start. pbind (expect KwIf) (\<lambda>_. parse_if_rest r start))"

definition parse_more_patterns :: "Grammar \<Rightarrow> AstPattern list \<Rightarrow> (AstPattern list \<times> bool) parse" where
  "parse_more_patterns r pats = pbind (accept Pipe) (\<lambda>b.
     if b then pbind (r_pattern r) (\<lambda>p. pret (pats @ [p], True)) else pret (pats, False))"

definition parse_match_arm :: "Grammar \<Rightarrow> MatchArm parse" where
  "parse_match_arm r =
     pbind (r_pattern r) (\<lambda>first.
     pbind (repeat_parse (parse_more_patterns r) [first]) (\<lambda>pats.
     pbind (optional_after KwIf (parse_cond r)) (\<lambda>guard_expr.
     pbind (expect FatArrow) (\<lambda>_.
     pbind (parse_expr_allow_struct r) (\<lambda>arm_expr.
     pbind (accept Comma) (\<lambda>_. pret (MatchArm pats guard_expr arm_expr)))))))"

definition parse_match :: "Grammar \<Rightarrow> AstExpr parse" where
  "parse_match r =
     pbind current_range (\<lambda>start.
     pbind (expect KwMatch) (\<lambda>_.
     pbind (parse_cond r) (\<lambda>scrut.
     pbind (expect LBrace) (\<lambda>_.
     pbind (many_until (\<lambda>k. k = RBrace \<or> k = Eof) (parse_match_arm r)) (\<lambda>arms.
     pbind (expect RBrace) (\<lambda>_. mk (XMatch scrut arms) start))))))"

definition parse_path_expr :: "Grammar \<Rightarrow> SourceRange \<Rightarrow> AstExpr parse" where
  "parse_path_expr r start =
     pbind parse_path_segments (\<lambda>segs.
     pbind (pget p_no_struct) (\<lambda>no_struct.
     pbind cur (\<lambda>k.
       if \<not> no_struct \<and> k = LBrace then
         pbind (parse_struct_lit_fields r) (\<lambda>field_values. mk (XStructLit segs field_values) start)
       else mk (XPath segs) start)))"

definition parse_vec_literal :: "Grammar \<Rightarrow> SourceRange \<Rightarrow> AstExpr parse" where
  "parse_vec_literal r start =
     pbind p_bump (\<lambda>_.
     pbind (comma_separated (\<lambda>k. k = RBracket \<or> k = Eof) (parse_expr_allow_struct r)) (\<lambda>elements.
     pbind (expect RBracket) (\<lambda>_. mk (XVecLit elements) start)))"

definition parse_primary :: "Grammar \<Rightarrow> AstExpr parse" where
  "parse_primary r =
     pbind current_range (\<lambda>start.
     pbind cur (\<lambda>k.
       if k = Pipe \<or> k = OrOr then parse_closure r
       else if literal_token k then parse_literal k start
       else if k = LBracket then parse_vec_literal r start
       else if k = KwLoop then
         pbind p_bump (\<lambda>_. pbind (r_block r) (\<lambda>b. mk (XLoop b) start))
       else if k = Hash then parse_map_literal r start
       else if k = Ident \<or> k = KwSelf then parse_path_expr r start
       else if k = LParen then
         pbind p_bump (\<lambda>_.
         pbind (parse_expr_allow_struct r) (\<lambda>e.
         pbind (expect RParen) (\<lambda>_. pret e)))
       else if k = LBrace then pbind (r_block r) (\<lambda>b. mk (XBlock b) start)
       else if k = KwIf then parse_if r
       else if k = KwMatch then parse_match r
       else fail (''expected expression, found `'' @ user_string k @ ''`'')))"

definition parse_postfix :: "Grammar \<Rightarrow> AstExpr parse" where
  "parse_postfix r =
     pbind current_range (\<lambda>start.
     pbind (parse_primary r) (\<lambda>e. repeat_parse (parse_suffix r start) e))"

definition parse_unary_inner :: "Grammar \<Rightarrow> AstExpr parse" where
  "parse_unary_inner r =
     pbind current_range (\<lambda>start.
     pbind cur (\<lambda>k.
       if k = Minus then
         pbind p_bump (\<lambda>_. pbind (r_unary r) (\<lambda>e. mk (XUnary UnNeg e) start))
       else if k = NotTok then
         pbind p_bump (\<lambda>_. pbind (r_unary r) (\<lambda>e. mk (XUnary UnNot e) start))
       else parse_postfix r))"

definition parse_unary :: "Grammar \<Rightarrow> AstExpr parse" where
  "parse_unary r = with_nesting (parse_unary_inner r)"

section \<open>Statements and blocks\<close>

definition parse_lua_block :: "Stmt parse" where
  "parse_lua_block =
     pbind current_range (\<lambda>span.
     pbind p_text (\<lambda>raw.
     pbind p_bump (\<lambda>_.
       case find_char (CHR ''{'') raw of
         None \<Rightarrow> fail ''Lua block must use `lua! { ... }`''
       | Some open_at \<Rightarrow>
           (case rfind_char (CHR ''}'') raw of
              None \<Rightarrow> fail ''Lua block must end with `}`''
            | Some close_at \<Rightarrow>
                if \<not> open_at < close_at then fail ''Lua block must end with `}`''
                else
                  pbind (accept Semi) (\<lambda>_.
                  pbind (plift (\<lambda>s. str_slice raw (open_at + 1) close_at)) (\<lambda>code.
                  pret (StLua code span)))))))"

definition parse_let :: "Grammar \<Rightarrow> Stmt parse" where
  "parse_let r =
     pbind (expect KwLet) (\<lambda>_.
     pbind (accept KwMut) (\<lambda>is_mutable.
     pbind current_range (\<lambda>name_span.
     pbind expect_ident (\<lambda>name.
     pbind (optional_after Colon (r_type r)) (\<lambda>ty.
     pbind (expect EqTok) (\<lambda>_.
     pbind (r_expr r) (\<lambda>init.
     pbind (expect Semi) (\<lambda>_. pret (StLet name name_span is_mutable ty init)))))))))"

text \<open>The operand of \<open>return\<close> and \<open>break\<close>: nothing before the semicolon, or an expression.\<close>

definition parse_operand :: "Grammar \<Rightarrow> AstExpr option parse" where
  "parse_operand r = pbind (accept Semi) (\<lambda>b.
     if b then pret None
     else pbind (r_expr r) (\<lambda>e. pbind (expect Semi) (\<lambda>_. pret (Some e))))"

definition parse_return :: "Grammar \<Rightarrow> Stmt parse" where
  "parse_return r = pbind (expect KwReturn) (\<lambda>_. pmap StReturn (parse_operand r))"

definition parse_break :: "Grammar \<Rightarrow> Stmt parse" where
  "parse_break r = pbind p_bump (\<lambda>_. pmap StBreak (parse_operand r))"

definition parse_continue :: "Stmt parse" where
  "parse_continue = pbind p_bump (\<lambda>_. pbind (expect Semi) (\<lambda>_. pret StContinue))"

definition parse_while :: "Grammar \<Rightarrow> Stmt parse" where
  "parse_while r =
     pbind (expect KwWhile) (\<lambda>_. pbind cur (\<lambda>k.
       if k = KwLet then
         pbind (expect KwLet) (\<lambda>_.
         pbind (r_pattern r) (\<lambda>pat.
         pbind (expect EqTok) (\<lambda>_.
         pbind (parse_cond r) (\<lambda>e.
         pbind (r_block r) (\<lambda>b. pret (StWhileLet pat e b))))))
       else
         pbind (parse_cond r) (\<lambda>cond.
         pbind (r_block r) (\<lambda>b. pret (StWhile cond b)))))"

definition parse_for :: "Grammar \<Rightarrow> Stmt parse" where
  "parse_for r =
     pbind (expect KwFor) (\<lambda>_.
     pbind current_range (\<lambda>var_span.
     pbind expect_ident (\<lambda>var.
     pbind (expect KwIn) (\<lambda>_.
     pbind (parse_cond r) (\<lambda>iter.
     pbind (r_block r) (\<lambda>b. pret (StFor var var_span iter b)))))))"

text \<open>The statements that start with a keyword, in a block and at the top level.\<close>

definition statement_keyword :: "TokenKind \<Rightarrow> bool" where
  "statement_keyword k \<longleftrightarrow>
     k = KwLet \<or> k = KwReturn \<or> k = KwWhile \<or> k = KwFor \<or> k = KwBreak \<or> k = KwContinue"

definition parse_keyword_statement :: "Grammar \<Rightarrow> TokenKind \<Rightarrow> Stmt parse" where
  "parse_keyword_statement r k =
     (if k = KwLet then parse_let r
      else if k = KwReturn then parse_return r
      else if k = KwWhile then parse_while r
      else if k = KwFor then parse_for r
      else if k = KwBreak then parse_break r
      else parse_continue)"

record block_state =
  bs_stmts :: "Stmt list"
  bs_blanks :: "bool list"
  bs_tail :: "AstExpr option"
  bs_tail_blank :: bool

definition push_statement :: "bool \<Rightarrow> Stmt \<Rightarrow> block_state \<Rightarrow> block_state" where
  "push_statement blank st b = b\<lparr>bs_stmts := bs_stmts b @ [st], bs_blanks := bs_blanks b @ [blank]\<rparr>"

text \<open>An expression in a block is a statement, the tail of the block, or an error.\<close>

definition parse_block_expression :: "Grammar \<Rightarrow> bool \<Rightarrow> block_state \<Rightarrow> block_state parse" where
  "parse_block_expression r blank b =
     pbind (r_expr r) (\<lambda>e.
     pbind (accept Semi) (\<lambda>semi.
       if semi then pret (push_statement blank (StExpr e) b)
       else pbind cur (\<lambda>k.
         if k = RBrace then pret (b\<lparr>bs_tail := Some e, bs_tail_blank := blank\<rparr>)
         else if is_block_like e then pret (push_statement blank (StExpr e) b)
         else fail (''expected `;` or `}`, found `'' @ user_string k @ ''`''))))"

definition parse_block_step :: "Grammar \<Rightarrow> block_state \<Rightarrow> (block_state \<times> bool) parse" where
  "parse_block_step r b = pbind cur (\<lambda>k.
     if k = RBrace \<or> k = Eof then pret (b, False)
     else pbind blank_line_before_current (\<lambda>blank.
       if statement_keyword k then
         pbind (parse_keyword_statement r k) (\<lambda>st. pret (push_statement blank st b, True))
       else pbind (parse_block_expression r blank b) (\<lambda>b'. pret (b', True))))"

definition block_of :: "block_state \<Rightarrow> AstBlock" where
  "block_of b = AstBlock (bs_stmts b) (bs_blanks b) (bs_tail b) (bs_tail_blank b)"

definition empty_block_state :: block_state where
  "empty_block_state = \<lparr>bs_stmts = [], bs_blanks = [], bs_tail = None, bs_tail_blank = False\<rparr>"

definition parse_block_inner :: "Grammar \<Rightarrow> AstBlock parse" where
  "parse_block_inner r =
     pbind (expect LBrace) (\<lambda>_.
     with_no_struct False
       (pbind (repeat_parse (parse_block_step r) empty_block_state) (\<lambda>b.
        pbind (expect RBrace) (\<lambda>_. pret (block_of b)))))"

definition parse_block :: "Grammar \<Rightarrow> AstBlock parse" where
  "parse_block r = with_nesting (parse_block_inner r)"

section \<open>Signatures and items\<close>

definition parse_param :: "Grammar \<Rightarrow> Param parse" where
  "parse_param r =
     pbind current_range (\<lambda>name_span.
     pbind expect_ident (\<lambda>name.
     pbind (expect Colon) (\<lambda>_.
     pbind (r_type r) (\<lambda>ty.
     pret \<lparr>param_name = name, param_span = name_span, param_type = ty\<rparr>))))"

type_synonym FnSig =
  "bytes \<times> SourceRange \<times> GenericParam list \<times> bool \<times> bool \<times> Param list \<times> RuaType option"

text \<open>The receiver: whether there is one and whether it is mutable.\<close>

definition parse_receiver :: "(bool \<times> bool) parse" where
  "parse_receiver = pbind cur (\<lambda>k.
     if k = Amp then
       pbind p_bump (\<lambda>_.
       pbind (accept KwMut) (\<lambda>is_mutable.
       pbind (expect KwSelf) (\<lambda>_.
       pbind (accept Comma) (\<lambda>_. pret (True, is_mutable)))))
     else if k = KwSelf then
       pbind p_bump (\<lambda>_. pbind (accept Comma) (\<lambda>_. pret (True, False)))
     else pret (False, False))"

definition parse_fn_sig :: "Grammar \<Rightarrow> FnSig parse" where
  "parse_fn_sig r =
     pbind (expect KwFn) (\<lambda>_.
     pbind current_range (\<lambda>name_span.
     pbind expect_ident (\<lambda>name.
     pbind parse_generics (\<lambda>generics.
     pbind (expect LParen) (\<lambda>_.
     pbind parse_receiver (\<lambda>(has_self, receiver_mutable).
     pbind (comma_separated (\<lambda>k. k = RParen) (parse_param r)) (\<lambda>params.
     pbind (expect RParen) (\<lambda>_.
     pbind (optional_after Arrow (r_type r)) (\<lambda>ret.
     pbind (parse_where generics) (\<lambda>generics'.
     pret (name, name_span, generics', has_self, receiver_mutable, params, ret)))))))))))"

definition parse_fn :: "Grammar \<Rightarrow> FnDecl parse" where
  "parse_fn r =
     pbind (parse_fn_sig r) (\<lambda>(name, name_span, generics, has_self, receiver_mutable, params, ret).
     pbind (r_block r) (\<lambda>b.
     pret \<lparr>fn_name = name, fn_attributes = [], fn_documentation = None, fn_name_span = name_span,
       fn_generics = generics, fn_public = False, fn_has_self = has_self,
       fn_receiver_mutable = receiver_mutable, fn_params = params, fn_ret = ret, fn_body = b\<rparr>))"

definition parse_annotation :: "Grammar \<Rightarrow> bool \<Rightarrow> bytes option \<Rightarrow> AnnotationDecl parse" where
  "parse_annotation r is_pub documentation =
     pbind p_bump (\<lambda>_.
     pbind current_range (\<lambda>name_span.
     pbind expect_ident (\<lambda>name.
     pbind (expect LParen) (\<lambda>_.
     pbind (comma_separated (\<lambda>k. k = RParen) (parse_param r)) (\<lambda>params.
     pbind (expect RParen) (\<lambda>_.
     pbind (expect Semi) (\<lambda>_.
     pret \<lparr>ann_name = name, ann_name_span = name_span, ann_attributes = [],
       ann_documentation = documentation, ann_params = params, ann_public = is_pub\<rparr>)))))))"

text \<open>The parameters of an extern function; \<open>...\<close> ends them and makes it variadic.\<close>

definition parse_extern_params :: "Grammar \<Rightarrow> (Param list \<times> bool) parse" where
  "parse_extern_params r = repeat_parse (\<lambda>(params, variadic). pbind cur (\<lambda>k.
     if k = RParen then pret ((params, variadic), False)
     else if k = DotDot then
       pbind p_bump (\<lambda>_. pbind (accept Dot) (\<lambda>_. pret ((params, True), False)))
     else
       pbind (parse_param r) (\<lambda>param.
       pbind (accept Comma) (\<lambda>again. pret ((params @ [param], variadic), again))))) ([], False)"

definition parse_extern_fn :: "Grammar \<Rightarrow> ExternFn parse" where
  "parse_extern_fn r =
     pbind leading_documentation (\<lambda>documentation.
     pbind (parse_outer_attributes r) (\<lambda>attributes.
     pbind (accept KwPub) (\<lambda>_.
     pbind (expect KwFn) (\<lambda>_.
     pbind current_range (\<lambda>name_span.
     pbind expect_ident (\<lambda>name.
     pbind parse_generics (\<lambda>generics.
     pbind (expect LParen) (\<lambda>_.
     pbind (parse_extern_params r) (\<lambda>(params, variadic).
     pbind (expect RParen) (\<lambda>_.
     pbind (optional_after Arrow (r_type r)) (\<lambda>ret.
     pbind (parse_where generics) (\<lambda>generics'.
     pbind (expect Semi) (\<lambda>_.
     pret \<lparr>extern_name = name, extern_attributes = attributes, extern_name_span = name_span,
       extern_documentation = documentation, extern_generics = generics', extern_params = params,
       extern_ret = ret, extern_variadic = variadic\<rparr>)))))))))))))"

definition parse_abi :: "bytes parse" where
  "parse_abi = pbind cur (\<lambda>k.
     if k = Str then pbind p_text (\<lambda>s. pbind p_bump (\<lambda>_. pret (trim_chars {quote_char} s)))
     else pret ''C'')"

definition item_list_end :: "TokenKind \<Rightarrow> bool" where
  "item_list_end k \<longleftrightarrow> k = RBrace \<or> k = Eof"

definition parse_extern :: "Grammar \<Rightarrow> ExternBlock parse" where
  "parse_extern r =
     pbind (expect KwExtern) (\<lambda>_.
     pbind parse_abi (\<lambda>abi.
     pbind (expect LBrace) (\<lambda>_.
     pbind (many_until item_list_end (parse_extern_fn r)) (\<lambda>fns.
     pbind (expect RBrace) (\<lambda>_.
     pret \<lparr>extern_block_attributes = [], extern_abi = abi, extern_block_documentation = None,
       extern_fns = fns\<rparr>)))))"

definition parse_trait_method :: "Grammar \<Rightarrow> TraitMethod parse" where
  "parse_trait_method r =
     pbind leading_documentation (\<lambda>documentation.
     pbind (parse_outer_attributes r) (\<lambda>attributes.
     pbind (parse_fn_sig r) (\<lambda>(name, name_span, generics, has_self, receiver_mutable, params, ret).
     pbind cur (\<lambda>k.
     pbind (if k = LBrace then pmap Some (r_block r) else pbind (expect Semi) (\<lambda>_. pret None))
       (\<lambda>default_body.
     pret \<lparr>tm_name = name, tm_attributes = attributes, tm_documentation = documentation,
       tm_name_span = name_span, tm_generics = generics, tm_has_self = has_self,
       tm_receiver_mutable = receiver_mutable, tm_params = params, tm_ret = ret,
       tm_default = default_body\<rparr>)))))"

definition parse_trait :: "Grammar \<Rightarrow> TraitDecl parse" where
  "parse_trait r =
     pbind (expect KwTrait) (\<lambda>_.
     pbind expect_ident (\<lambda>name.
     pbind parse_generics (\<lambda>generics.
     pbind (parse_where generics) (\<lambda>generics'.
     pbind (expect LBrace) (\<lambda>_.
     pbind (many_until item_list_end (parse_trait_method r)) (\<lambda>methods.
     pbind (expect RBrace) (\<lambda>_.
     pret \<lparr>trait_decl_name = name, trait_attributes = [], trait_documentation = None,
       trait_generics = generics', trait_methods = methods, trait_public = False\<rparr>)))))))"

definition parse_field :: "Grammar \<Rightarrow> Field parse" where
  "parse_field r =
     pbind leading_documentation (\<lambda>documentation.
     pbind (parse_outer_attributes r) (\<lambda>attributes.
     pbind (accept KwPub) (\<lambda>_.
     pbind current_range (\<lambda>name_span.
     pbind expect_ident (\<lambda>name.
     pbind (expect Colon) (\<lambda>_.
     pbind (r_type r) (\<lambda>ty.
     pret \<lparr>field_name = name, field_attributes = attributes, field_documentation = documentation,
       field_type = ty, field_span = name_span\<rparr>)))))))"

definition parse_field_list :: "Grammar \<Rightarrow> Field list parse" where
  "parse_field_list r =
     pbind (expect LBrace) (\<lambda>_.
     pbind (comma_separated (\<lambda>k. k = RBrace) (parse_field r)) (\<lambda>field_decls.
     pbind (expect RBrace) (\<lambda>_. pret field_decls)))"

definition parse_struct :: "Grammar \<Rightarrow> StructDecl parse" where
  "parse_struct r =
     pbind (expect KwStruct) (\<lambda>_.
     pbind expect_ident (\<lambda>name.
     pbind parse_generics (\<lambda>generics.
     pbind (parse_where generics) (\<lambda>generics'.
     pbind (accept Semi) (\<lambda>is_unit.
     pbind (if is_unit then pret [] else parse_field_list r) (\<lambda>field_decls.
     pret \<lparr>struct_name = name, struct_attributes = [], struct_documentation = None,
       struct_generics = generics', struct_fields = field_decls, struct_public = False\<rparr>))))))"

definition parse_variant_kind :: "Grammar \<Rightarrow> VariantKind parse" where
  "parse_variant_kind r = pbind cur (\<lambda>k.
     if k = LParen then
       pbind p_bump (\<lambda>_.
       pbind (comma_separated (\<lambda>k. k = RParen) (r_type r)) (\<lambda>tys.
       pbind (expect RParen) (\<lambda>_. pret (VariantTuple tys))))
     else if k = LBrace then pmap VariantStruct (parse_field_list r)
     else pret VariantUnit)"

definition parse_variant :: "Grammar \<Rightarrow> Variant parse" where
  "parse_variant r =
     pbind leading_documentation (\<lambda>documentation.
     pbind (parse_outer_attributes r) (\<lambda>attributes.
     pbind expect_ident (\<lambda>name.
     pbind (parse_variant_kind r) (\<lambda>kind.
     pret \<lparr>variant_name = name, variant_attributes = attributes,
       variant_documentation = documentation, variant_kind = kind\<rparr>))))"

definition parse_enum :: "Grammar \<Rightarrow> EnumDecl parse" where
  "parse_enum r =
     pbind (expect KwEnum) (\<lambda>_.
     pbind expect_ident (\<lambda>name.
     pbind parse_generics (\<lambda>generics.
     pbind (parse_where generics) (\<lambda>generics'.
     pbind (expect LBrace) (\<lambda>_.
     pbind (comma_separated (\<lambda>k. k = RBrace) (parse_variant r)) (\<lambda>variants.
     pbind (expect RBrace) (\<lambda>_.
     pret \<lparr>enum_name = name, enum_attributes = [], enum_documentation = None,
       enum_generics = generics', enum_variants = variants, enum_public = False\<rparr>)))))))"

text \<open>\<open>impl Trait for Type\<close> or \<open>impl Type\<close>: the trait and the type.\<close>

definition parse_impl_header :: "(bytes option \<times> bytes) parse" where
  "parse_impl_header =
     pbind expect_ident (\<lambda>first.
     pbind skip_generics (\<lambda>_.
     pbind (accept KwFor) (\<lambda>is_trait.
       if is_trait then
         pbind expect_ident (\<lambda>ty. pbind skip_generics (\<lambda>_. pret (Some first, ty)))
       else pret (None, first))))"

definition parse_impl_method :: "Grammar \<Rightarrow> FnDecl parse" where
  "parse_impl_method r =
     pbind leading_documentation (\<lambda>documentation.
     pbind (parse_outer_attributes r) (\<lambda>attributes.
     pbind (accept KwPub) (\<lambda>is_pub.
     pbind (parse_fn r) (\<lambda>f.
     pret (f\<lparr>fn_public := is_pub, fn_documentation := documentation, fn_attributes := attributes\<rparr>)))))"

definition parse_impl :: "Grammar \<Rightarrow> ImplDecl parse" where
  "parse_impl r =
     pbind (expect KwImpl) (\<lambda>_.
     pbind parse_generics (\<lambda>generics.
     pbind parse_impl_header (\<lambda>(trait_name, type_name).
     pbind (parse_where generics) (\<lambda>generics'.
     pbind (expect LBrace) (\<lambda>_.
     pbind (many_until item_list_end (parse_impl_method r)) (\<lambda>methods.
     pbind (expect RBrace) (\<lambda>_.
     pret \<lparr>impl_attributes = [], impl_generics = generics', impl_type_name = type_name,
       impl_trait_name = trait_name, impl_methods = methods\<rparr>)))))))"

definition parse_alias :: "bytes option parse" where
  "parse_alias = optional_after KwAs expect_ident"

text \<open>The prefix of an import, and whether a group \<open>{ .. }\<close> follows it.\<close>

definition parse_use_prefix :: "(bytes list \<times> bool) parse" where
  "parse_use_prefix =
     pbind expect_ident (\<lambda>first. repeat_parse (\<lambda>(prefix, grouped).
       pbind (accept ColonColon) (\<lambda>b.
         if \<not> b then pret ((prefix, grouped), False)
         else pbind cur (\<lambda>k.
           if k = LBrace then pret ((prefix, True), False)
           else pbind expect_ident (\<lambda>seg. pret ((prefix @ [seg], grouped), True)))))
       ([first], False))"

definition parse_use_leaf :: "bytes list \<Rightarrow> UseImport parse" where
  "parse_use_leaf prefix =
     pbind expect_ident (\<lambda>leaf.
     pbind parse_alias (\<lambda>alias_name.
     pret \<lparr>use_path = prefix @ [leaf], use_alias = alias_name\<rparr>))"

definition parse_use :: "UseDecl parse" where
  "parse_use =
     pbind (expect KwUse) (\<lambda>_.
     pbind parse_use_prefix (\<lambda>(prefix, grouped).
       if grouped then
         pbind (expect LBrace) (\<lambda>_.
         pbind (comma_separated (\<lambda>k. k = RBrace) (parse_use_leaf prefix)) (\<lambda>imports.
         pbind (expect RBrace) (\<lambda>_.
         pbind (expect Semi) (\<lambda>_.
         pret \<lparr>use_attributes = [], use_imports = imports\<rparr>))))
       else
         pbind parse_alias (\<lambda>alias_name.
         pbind (expect Semi) (\<lambda>_.
         pret \<lparr>use_attributes = [],
           use_imports = [\<lparr>use_path = prefix, use_alias = alias_name\<rparr>]\<rparr>))))"

definition item_keyword :: "TokenKind \<Rightarrow> bool" where
  "item_keyword k \<longleftrightarrow>
     k = KwPub \<or> k = KwFn \<or> k = KwStruct \<or> k = KwEnum \<or> k = KwImpl \<or> k = KwTrait
     \<or> k = KwExtern \<or> k = KwUse"

text \<open>\<open>self.cur() == T::Ident && self.text() == word\<close>.\<close>

definition at_word :: "bytes \<Rightarrow> bool parse" where
  "at_word word = pbind cur (\<lambda>k.
     if k = Ident then pbind p_text (\<lambda>name. pret (name = word)) else pret False)"

definition at_item_start :: "bool parse" where
  "at_item_start = pbind cur (\<lambda>k.
     pbind (at_word ''annotation'') (\<lambda>b. pret (b \<or> item_keyword k)))"

definition parse_plain_item :: "Grammar \<Rightarrow> bool \<Rightarrow> bytes option \<Rightarrow> Item parse" where
  "parse_plain_item r is_pub documentation = pbind cur (\<lambda>k.
     if k = KwFn then
       pmap (\<lambda>f. ItFn (f\<lparr>fn_public := is_pub, fn_documentation := documentation\<rparr>)) (parse_fn r)
     else if k = KwStruct then
       pmap (\<lambda>d. ItStruct (d\<lparr>struct_public := is_pub, struct_documentation := documentation\<rparr>))
         (parse_struct r)
     else if k = KwEnum then
       pmap (\<lambda>d. ItEnum (d\<lparr>enum_public := is_pub, enum_documentation := documentation\<rparr>))
         (parse_enum r)
     else if k = KwImpl then pmap ItImpl (parse_impl r)
     else if k = KwTrait then
       pmap (\<lambda>d. ItTrait (d\<lparr>trait_public := is_pub, trait_documentation := documentation\<rparr>))
         (parse_trait r)
     else if k = KwExtern then
       pmap (\<lambda>d. ItExtern (d\<lparr>extern_block_documentation := documentation\<rparr>)) (parse_extern r)
     else if k = KwUse then pmap ItUse parse_use
     else fail (''expected item (`annotation`/`fn`/`struct`/`enum`/`impl`/`trait`/`extern`/`use`), found `''
                @ user_string k @ ''`''))"

definition parse_item :: "Grammar \<Rightarrow> bytes option \<Rightarrow> Item parse" where
  "parse_item r documentation =
     pbind (accept KwPub) (\<lambda>is_pub.
     pbind (at_word ''annotation'') (\<lambda>b.
       if b then pmap ItAnnotation (parse_annotation r is_pub documentation)
       else parse_plain_item r is_pub documentation))"

section \<open>Files\<close>

definition parse_chunk_stmt :: "Grammar \<Rightarrow> TokenKind \<Rightarrow> Stmt parse" where
  "parse_chunk_stmt r terminator = pbind cur (\<lambda>k.
     if k = LuaBlock then parse_lua_block
     else if statement_keyword k then parse_keyword_statement r k
     else
       pbind (r_expr r) (\<lambda>e.
       pbind (accept Semi) (\<lambda>semi.
         if semi \<or> is_block_like e then pret (StExpr e)
         else pbind cur (\<lambda>k.
           fail (''expected `;` or `'' @ user_string terminator @ ''`, found `'' @ user_string k @ ''`'')))))"

record chunk_state =
  cs_items :: "Item list"
  cs_stmts :: "Stmt list"
  cs_blanks :: "bool list"
  cs_order :: "ChunkEntry list"

definition parse_chunk_item :: "Grammar \<Rightarrow> Item parse" where
  "parse_chunk_item r =
     pbind leading_documentation (\<lambda>documentation.
     pbind (parse_outer_attributes r) (\<lambda>attributes.
     pbind at_item_start (\<lambda>b.
       if \<not> b then fail ''outer attributes currently require an item''
       else pmap (set_attributes attributes) (parse_item r documentation))))"

definition parse_chunk_step :: "Grammar \<Rightarrow> TokenKind \<Rightarrow> chunk_state \<Rightarrow> (chunk_state \<times> bool) parse" where
  "parse_chunk_step r terminator c = pbind cur (\<lambda>k.
     if k = terminator \<or> k = Eof then pret (c, False)
     else
       pbind at_item_start (\<lambda>is_item. pbind at_attribute_start (\<lambda>is_attribute.
         if is_item \<or> is_attribute then
           pbind (parse_chunk_item r) (\<lambda>item.
           pret (c\<lparr>cs_items := cs_items c @ [item],
                   cs_order := cs_order c @ [ChunkItem (length (cs_items c))]\<rparr>, True))
         else
           pbind blank_line_before_current (\<lambda>blank.
           pbind (parse_chunk_stmt r terminator) (\<lambda>st.
           pret (c\<lparr>cs_stmts := cs_stmts c @ [st], cs_blanks := cs_blanks c @ [blank],
                   cs_order := cs_order c @ [ChunkStatement (length (cs_stmts c))]\<rparr>, True))))))"

definition parse_chunk_contents :: "Grammar \<Rightarrow> TokenKind \<Rightarrow> chunk_state parse" where
  "parse_chunk_contents r terminator =
     repeat_parse (parse_chunk_step r terminator)
       \<lparr>cs_items = [], cs_stmts = [], cs_blanks = [], cs_order = []\<rparr>"

fun parsers :: "nat \<Rightarrow> Grammar" where
  "parsers 0 =
     \<lparr>r_type = (\<lambda>s. OutOfFuel), r_block = (\<lambda>s. OutOfFuel), r_expr = (\<lambda>s. OutOfFuel),
      r_bin = (\<lambda>bp s. OutOfFuel), r_unary = (\<lambda>s. OutOfFuel), r_pattern = (\<lambda>s. OutOfFuel),
      r_pattern_literal = (\<lambda>s. OutOfFuel), r_if = (\<lambda>s. OutOfFuel),
      r_meta_item = (\<lambda>s. OutOfFuel), r_meta_value = (\<lambda>s. OutOfFuel)\<rparr>"
| "parsers (Suc n) =
     (let r = parsers n in
      \<lparr>r_type = parse_type r, r_block = parse_block r, r_expr = parse_expr r,
       r_bin = parse_bin r, r_unary = parse_unary r, r_pattern = parse_pattern r,
       r_pattern_literal = parse_pattern_literal r, r_if = parse_if r,
       r_meta_item = parse_meta_item r, r_meta_value = parse_meta_value r\<rparr>)"

definition program_of :: "chunk_state \<Rightarrow> Program" where
  "program_of c =
     \<lparr>prog_items = cs_items c, prog_chunk = AstBlock (cs_stmts c) (cs_blanks c) None False,
      prog_source_order = cs_order c, prog_is_decl = False, prog_standard_library = None\<rparr>"

definition parse_program :: "Program parse" where
  "parse_program = (\<lambda>s.
     pmap program_of
       (parse_chunk_contents
         (parsers (Suc (tokens_ahead (p_lexer s) + (max_nesting (p_budget s) - p_nesting s)))) Eof) s)"

definition new_parser :: "RuaLexer \<Rightarrow> u32 \<Rightarrow> ParseBudget \<Rightarrow> Parser" where
  "new_parser lx file budget =
     \<lparr>p_lexer = lx, p_semantic_file = file, p_budget = budget, p_nesting = 0,
      p_no_struct = False, p_next_expr = 0, p_next_pattern = 0, p_next_type = 0,
      p_next_trait_ref = 0, p_next_generic = 0\<rparr>"

text \<open>The result of a parse: no state is left.\<close>

datatype parse_result = NoFuel | ParsePanic | ParseErr ParseError | ParseOk Program

fun reply_result :: "Program reply \<Rightarrow> parse_result" where
  "reply_result OutOfFuel = NoFuel"
| "reply_result Crash = ParsePanic"
| "reply_result (Reject e) = ParseErr e"
| "reply_result (Parsed program s) = ParseOk program"

definition parse_error_result :: "ParseError outcome \<Rightarrow> parse_result" where
  "parse_error_result e = (case e of Panic \<Rightarrow> ParsePanic | Return e' \<Rightarrow> ParseErr e')"

text \<open>An error of the first two tokens gets the file of the parser.\<close>

definition stamp_file :: "u32 \<Rightarrow> ParseError \<Rightarrow> ParseError" where
  "stamp_file file e = e\<lparr>pe_diagnostic := (pe_diagnostic e)\<lparr>sd_file := Some (FileId file)\<rparr>\<rparr>"

definition parse_token_stream_with_file :: "StrictTokenStream \<Rightarrow> u32 \<Rightarrow> ParseBudget \<Rightarrow> parse_result" where
  "parse_token_stream_with_file stream file budget =
     (case RuaLexer_from_stream stream of
        Panic \<Rightarrow> ParsePanic
      | Return (Inl e) \<Rightarrow> parse_error_result (map_outcome (stamp_file file) (ParseError_from e))
      | Return (Inr lx) \<Rightarrow> reply_result (parse_program (new_parser lx file budget)))"

definition parse_token_stream :: "StrictTokenStream \<Rightarrow> ParseBudget \<Rightarrow> parse_result" where
  "parse_token_stream stream budget = parse_token_stream_with_file stream 0 budget"

definition token_limit_error :: "bytes \<Rightarrow> u32 \<Rightarrow> ParseBudget \<Rightarrow> TokenLimitError \<Rightarrow> ParseError outcome" where
  "token_limit_error src file budget e =
     (let start = unat (range_start (limit_range e)) in
      bind_outcome (str_slice src 0 start) (\<lambda>prefix_text.
      ParseError_at_code
        \<lparr>sr_start = start, sr_len = unat (range_len (limit_range e)),
         sr_line = 1 + length (filter (\<lambda>c. c = LF) prefix_text), sr_file = file\<rparr>
        ParseResourceLimit
        (''token budget exceeded (limit '' @ show_nat (max_tokens budget) @ '')'')))"

definition parse_with_semantic_file_and_budget :: "bytes \<Rightarrow> u32 \<Rightarrow> ParseBudget \<Rightarrow> parse_result" where
  "parse_with_semantic_file_and_budget src file budget =
     (case StrictTokenStream_new src (max_tokens budget) of
        Panic \<Rightarrow> ParsePanic
      | Return (Inl e) \<Rightarrow> parse_error_result (token_limit_error src file budget e)
      | Return (Inr stream) \<Rightarrow> parse_token_stream_with_file stream file budget)"

definition parse_with_semantic_file :: "bytes \<Rightarrow> u32 \<Rightarrow> parse_result" where
  "parse_with_semantic_file src file =
     parse_with_semantic_file_and_budget src file ParseBudget_default"

definition parse_with_budget :: "bytes \<Rightarrow> ParseBudget \<Rightarrow> parse_result" where
  "parse_with_budget src budget = parse_with_semantic_file_and_budget src 0 budget"

definition parse :: "bytes \<Rightarrow> parse_result" where
  "parse src = parse_with_budget src ParseBudget_default"

end
