(* ===== verification/Tokenize_Props.thy ===== *)
theory Tokenize_Props
  imports Tokenize
begin

text \<open>
  What the strict cursor promises: on valid text it never panics, every token it hands out
  carries the line its first byte is on, and the lexer with lookahead shows the tokens of the
  plain cursor one and two positions ahead. Lines can be counted token by token because no
  well-formed token ends between a carriage return and a line feed.
\<close>

section \<open>No token ends inside a line break\<close>

definition splits_crlf :: "bytes \<Rightarrow> nat \<Rightarrow> bool" where
  "splits_crlf s e \<longleftrightarrow> 0 < e \<and> e < length s \<and> s ! (e - 1) = CR \<and> s ! e = LF"

lemma not_splitsI: "s ! (e - 1) \<noteq> CR \<Longrightarrow> \<not> splits_crlf s e"
  by (simp add: splits_crlf_def)

lemma skip_while_last:
  assumes "i < skip_while p s i"
  shows "p (s ! (skip_while p s i - 1))"
  using skip_while_all [of i "skip_while p s i - 1" p s] assms by simp

lemma block_comment_loop_closed:
  "block_comment_loop s e d = Return (e', 0) \<Longrightarrow> 0 < d \<Longrightarrow> s ! (e' - 1) = CHR ''/''"
proof (induction s e d rule: block_comment_loop.induct)
  case (1 s e d)
  show ?case
  proof (cases "e < length s")
    case True
    with "1.prems" obtain e1 d1 where st: "block_comment_step s e d = Return (e1, d1)"
      and lp: "block_comment_loop s e1 d1 = Return (e', 0)"
      by (subst (asm) block_comment_loop.simps) (auto split: outcome.splits)
    show ?thesis
    proof (cases "0 < d1")
      case True
      with "1.IH" [OF _ st refl lp] \<open>e < length s\<close> "1.prems"(2) show ?thesis by simp
    next
      case False
      with lp have "e' = e1" by (subst (asm) block_comment_loop.simps) simp
      moreover have "s ! (e1 - 1) = CHR ''/''"
        using st False "1.prems"(2) by (auto simp: block_comment_step_def split: if_splits)
      ultimately show ?thesis by simp
    qed
  next
    case False
    with "1.prems" show ?thesis by (subst (asm) block_comment_loop.simps) simp
  qed
qed

lemma string_loop_closed: "string_loop s e = Return (e', True) \<Longrightarrow> s ! (e' - 1) = quote_char"
proof (induction s e rule: string_loop.induct)
  case (1 s e)
  show ?case
  proof (cases "\<exists>e1. e < length s \<and> string_step s e = Return (Inr e1)")
    case True
    then obtain e1 where len: "e < length s" and st: "string_step s e = Return (Inr e1)" by blast
    with "1.prems" have "string_loop s e1 = Return (e', True)" by (subst (asm) string_loop.simps) simp
    from "1.IH" [OF len st refl this] show ?thesis .
  next
    case False
    with "1.prems" show ?thesis
      by (subst (asm) string_loop.simps)
         (auto simp: string_step_def split: if_splits outcome.splits sum.splits)
  qed
qed

lemma lua_block_loop_closed: "lua_block_loop s i d = Return (e, None) \<Longrightarrow> s ! (e - 1) = CHR ''}''"
proof (induction s i d rule: lua_block_loop.induct)
  case (1 s i d)
  show ?case
  proof (cases "\<exists>i1 d1. i < length s \<and> lua_block_step s i d = Return (Inr (i1, d1))")
    case True
    then obtain i1 d1 where len: "i < length s" and st: "lua_block_step s i d = Return (Inr (i1, d1))"
      by blast
    with "1.prems" have "lua_block_loop s i1 d1 = Return (e, None)"
      by (subst (asm) lua_block_loop.simps) simp
    from "1.IH" [OF len st refl refl this] show ?thesis .
  next
    case False
    with "1.prems" show ?thesis
      by (subst (asm) lua_block_loop.simps)
         (auto dest: lua_block_step_exit split: if_splits outcome.splits sum.splits)
  qed
qed

lemma not_CR [simp]: "\<not> is_name_continue CR" "\<not> is_name_start CR" "\<not> is_number_digit CR" "\<not> is_ascii_digit CR"
  by (simp_all add: is_name_continue_def is_name_start_def is_number_digit_def ascii_class_defs)

text \<open>A scanning loop over bytes other than CR leaves the last byte other than CR.\<close>

definition no_CR_before :: "bytes \<Rightarrow> nat \<Rightarrow> bool" where
  "no_CR_before s e \<longleftrightarrow> s ! (e - 1) \<noteq> CR"

lemma skip_while_no_CR:
  assumes "\<not> p CR" and "no_CR_before s i"
  shows "no_CR_before s (skip_while p s i)"
proof (cases "i < skip_while p s i")
  case True
  with skip_while_last [OF True] assms(1) show ?thesis by (auto simp: no_CR_before_def)
next
  case False
  with skip_while_ge [of i p s] have "skip_while p s i = i" by linarith
  with assms(2) show ?thesis by simp
qed

lemma number_parts_no_CR:
  "no_CR_before s (fst st) \<Longrightarrow> no_CR_before s (fst (number_fraction s st))"
  "no_CR_before s (fst st) \<Longrightarrow> no_CR_before s (fst (number_exponent s st))"
  by (auto simp: number_fraction_def number_exponent_def Let_def split: prod.splits
      intro!: skip_while_no_CR) (auto simp: no_CR_before_def)

lemma lex_number_no_CR:
  assumes "number_start s i" and "i < length s" and "lex_number s i = (k, e)"
  shows "no_CR_before s e"
proof -
  have "no_CR_before s (fst (number_mantissa s i))"
  proof (cases "s ! i = CHR ''.''")
    case True
    then show ?thesis
      by (auto simp: number_mantissa_def intro!: skip_while_no_CR) (simp add: no_CR_before_def)
  next
    case False
    with assms(1,2) have "skip_while is_number_digit s i = skip_while is_number_digit s (Suc i)"
      by (intro skip_while_step) (auto simp: is_number_digit_def number_start_def)
    moreover have "no_CR_before s (Suc i)"
      using assms(1) False by (auto simp: no_CR_before_def number_start_def)
    ultimately show ?thesis
      using False by (auto simp: number_mantissa_def intro: skip_while_no_CR)
  qed
  then have "no_CR_before s (fst (number_exponent s (number_fraction s (number_mantissa s i))))"
    by (intro number_parts_no_CR)
  moreover have "no_CR_before s (skip_while is_name_continue s (i + 2))"
    if "s ! (i + 1) \<in> set ''xXbB''"
    using that by (intro skip_while_no_CR) (auto simp: no_CR_before_def)
  ultimately show ?thesis
    using assms(3) by (auto simp: lex_number_def split: if_splits prod.splits option.splits)
qed

lemma punct_table_no_CR: "(p, kind) \<in> set punct_table \<Longrightarrow> p \<noteq> [] \<and> last p \<noteq> CR"
  by (auto simp: punct_table_def)

lemma lex_punct_no_CR:
  assumes "i < length s" and "lex_punct s i = Some (k, e, err)"
  shows "no_CR_before s e"
proof -
  obtain p where p: "(p, k) \<in> set punct_table" "starts_at s i p" and e: "e = i + length p"
    using assms(2) by (auto simp: lex_punct_def simple_def find_Some_iff split: option.splits)
      (metis nth_mem)
  from punct_table_no_CR [OF p(1)] have "p \<noteq> []" "last p \<noteq> CR" by auto
  moreover have "s ! (i + (length p - 1)) = p ! (length p - 1)"
    using starts_at_bounds(2) [OF p(2), of "length p - 1"] \<open>p \<noteq> []\<close> by simp
  moreover have "e - 1 = i + (length p - 1)" using \<open>p \<noteq> []\<close> e by (cases p) simp_all
  ultimately show ?thesis by (simp add: no_CR_before_def last_conv_nth)
qed

lemma utf8_inside_char:
  assumes "utf8 (c # r)" and "0 < j" and "j < lead_width c"
  shows "is_cont ((c # r) ! j)"
  using assms(1)
proof (cases rule: utf8_Cons_cases)
  case (two b s2)
  with assms(2,3) have "j = 1" by simp
  with two show ?thesis by (simp add: scalar2_def)
next
  case (three b c' s3)
  with assms(2,3) have "j = 1 \<or> j = 2" by auto
  with three show ?thesis by (auto simp: scalar3_def)
next
  case (four b c' d s4)
  with assms(2,3) have "j = 1 \<or> j = 2 \<or> j = 3" by auto
  with four show ?thesis by (auto simp: scalar4_def)
qed (use assms in simp)

lemma char_end_no_CR:
  assumes "utf8 s" and "is_char_boundary s i" and "i < length s" and "s ! i \<noteq> CR"
  shows "no_CR_before s (i + lead_width (s ! i))"
proof (cases "lead_width (s ! i) = 1")
  case True
  with assms(4) show ?thesis by (simp add: no_CR_before_def)
next
  case False
  with lead_width_pos [of "s ! i"] obtain w where w: "lead_width (s ! i) = Suc (Suc w)"
    by (metis One_nat_def Suc_pred gr0_implies_Suc not_gr0)
  have d: "drop i s = s ! i # drop (Suc i) s" using assms(3) by (simp add: Cons_nth_drop_Suc)
  have "utf8 (s ! i # drop (Suc i) s)" using boundary_drop [OF assms(1,2)] d by simp
  from utf8_inside_char [OF this, of "Suc w"] w have "is_cont (drop (Suc i) s ! w)" by simp
  then have "is_cont (s ! (Suc i + w))" using assms(3) by simp
  with w show ?thesis by (auto simp: no_CR_before_def is_cont_def)
qed

lemma lex_step_no_split:
  assumes u: "utf8 s" and b: "is_char_boundary s i" and i: "i < length s"
    and st: "lex_step s i = Return (k, e, err)" and err: "err = None \<or> err = Some UnknownCharacter"
  shows "\<not> splits_crlf s e"
proof -
  consider (space) "is_lex_space (s ! i)" "e = skip_while is_lex_space s (i + 1)"
    | (line) "starts_at s i ''//''" "e = skip_while (\<lambda>c. \<not> is_line_end c) s (i + 2)"
    | (block) "lex_block_comment s i = Return (k, e, err)"
    | (str) "lex_string s i = Return (k, e, err)"
    | (lua) "lex_lua_block s i = Return (Some (e, err))"
    | (word) "is_name_start (s ! i)" "lex_word s i = Return (k, e, err)"
    | (num) "number_start s i" "lex_number s i = (k, e)"
    | (punct) "lex_punct s i = Some (k, e, err)"
    | (unknown) "\<not> is_lex_space (s ! i)" "lex_unknown s i = Return (k, e, err)"
    using st lua_start_name [of s i]
    by (auto simp: lex_step_def split: if_splits option.splits prod.splits outcome.splits)
  then show ?thesis
  proof cases
    case space
    have "\<not> splits_crlf s (skip_while is_lex_space s (i + 1))"
      using skip_while_stop [of is_lex_space s "i + 1"] by (auto simp: splits_crlf_def is_lex_space_def)
    with space show ?thesis by simp
  next
    case line
    have "no_CR_before s (i + 2)"
      using starts_at_bounds(2) [OF line(1), of 1] by (simp add: no_CR_before_def)
    then have "no_CR_before s e"
      unfolding line(2) by (intro skip_while_no_CR) (simp_all add: is_line_end_def)
    then show ?thesis by (simp add: no_CR_before_def not_splitsI)
  next
    case block
    with err have "block_comment_loop s (i + 2) 1 = Return (e, 0)"
      by (auto simp: lex_block_comment_def split: if_splits)
    then show ?thesis using block_comment_loop_closed [of s "i + 2" 1 e] by (simp add: not_splitsI)
  next
    case str
    with err have "string_loop s (i + 1) = Return (e, True)"
      by (auto simp: lex_string_def split: if_splits)
    then show ?thesis using string_loop_closed [of s "i + 1" e] by (simp add: not_splitsI)
  next
    case lua
    then obtain j where lp: "lua_block_loop s j 0 = Return (e, err)"
      by (auto simp: lex_lua_block_def Let_def split: if_splits)
    with err lua_block_loop_error [OF lp] have "lua_block_loop s j 0 = Return (e, None)" by auto
    then show ?thesis using lua_block_loop_closed by (intro not_splitsI) fastforce
  next
    case word
    then have "no_CR_before s (i + 1)" and "e = skip_while is_name_continue s (i + 1)"
      by (auto simp: no_CR_before_def lex_word_def Let_def)
    with skip_while_no_CR [of is_name_continue s "i + 1"] show ?thesis
      by (simp add: no_CR_before_def not_splitsI)
  next
    case num
    with lex_number_no_CR [OF num(1) i num(2)] show ?thesis by (simp add: no_CR_before_def not_splitsI)
  next
    case punct
    with lex_punct_no_CR [OF i punct] show ?thesis by (simp add: no_CR_before_def not_splitsI)
  next
    case unknown
    then have "e = i + lead_width (s ! i)"
      using char_width_at_boundary(1) [OF u b i] by (auto simp: lex_unknown_def)
    moreover have "s ! i \<noteq> CR" using unknown(1) by (auto simp: is_lex_space_def)
    ultimately show ?thesis
      using char_end_no_CR [OF u b i] by (simp add: no_CR_before_def not_splitsI)
  qed
qed

section \<open>Counting lines token by token\<close>

lemma line_breaks_append:
  assumes "\<not> (xs \<noteq> [] \<and> ys \<noteq> [] \<and> last xs = CR \<and> hd ys = LF)"
  shows "line_breaks (xs @ ys) = line_breaks xs + line_breaks ys"
  using assms
proof (induction xs rule: line_breaks.induct)
  case (2 c s)
  show ?case
  proof (cases s)
    case Nil
    with "2.prems" show ?thesis by (cases ys) auto
  next
    case (Cons d r)
    with "2.prems" have s: "\<not> (s \<noteq> [] \<and> ys \<noteq> [] \<and> last s = CR \<and> hd ys = LF)"
      and r: "\<not> (r \<noteq> [] \<and> ys \<noteq> [] \<and> last r = CR \<and> hd ys = LF)" by auto
    consider "c = CR" "d = LF" | "c = CR" "d \<noteq> LF" | "c = LF" | "c \<noteq> CR" "c \<noteq> LF" by blast
    then show ?thesis
    proof cases
      case 1
      with "2.IH"(1) [OF _ Cons _ r] Cons show ?thesis by simp
    next
      case 2
      with "2.IH"(2) [OF _ Cons _ s] Cons show ?thesis by simp
    next
      case 3
      with "2.IH"(3) [OF _ _ s] show ?thesis by simp
    next
      case 4
      with "2.IH"(4) [OF _ _ s] show ?thesis by simp
    qed
  qed
qed simp

lemma line_breaks_take:
  assumes "i \<le> e" and "e \<le> length s" and "\<not> splits_crlf s i"
  shows "line_breaks (take e s) = line_breaks (take i s) + line_breaks (slice s i e)"
proof -
  have "take e s = take i s @ slice s i e"
    using assms(1) by (metis append_take_drop_id le_add_diff_inverse slice_def take_add)
  moreover have "\<not> (take i s \<noteq> [] \<and> slice s i e \<noteq> [] \<and> last (take i s) = CR \<and> hd (slice s i e) = LF)"
  proof
    assume *: "take i s \<noteq> [] \<and> slice s i e \<noteq> [] \<and> last (take i s) = CR \<and> hd (slice s i e) = LF"
    then have "0 < i" "i < length s" by (auto simp: slice_def)
    moreover from this have "last (take i s) = s ! (i - 1)" using * by (subst last_conv_nth) simp_all
    moreover have "hd (slice s i e) = s ! i"
      using * \<open>i < length s\<close> by (cases "e - i") (auto simp: slice_def hd_drop_conv_nth hd_take)
    ultimately show False using * assms(3) by (simp add: splits_crlf_def)
  qed
  ultimately show ?thesis using line_breaks_append by metis
qed

section \<open>The cursor\<close>

text \<open>
  The invariant of a cursor that has not failed: the tokens ahead are a lexer run from the
  offset it stands at, and its line is the line of that offset.
\<close>

definition wf_cursor :: "bytes \<Rightarrow> RuaTokenize \<Rightarrow> bool" where
  "wf_cursor s tz \<longleftrightarrow>
     tz_text tz = s
     \<and> lexes s (cursor_offset tz) (drop (tz_cursor tz) (tz_tokens tz)) (length s)
     \<and> tz_cursor tz \<le> length (tz_tokens tz)
     \<and> \<not> splits_crlf s (cursor_offset tz)
     \<and> tz_line tz = 1 + line_breaks (take (cursor_offset tz) s)"

definition token_failed :: "LexToken \<Rightarrow> bool" where
  "token_failed tok \<longleftrightarrow> tok_error tok \<noteq> None \<and> tok_error tok \<noteq> Some UnknownCharacter"

lemma range_len_nat:
  assumes "range_start r \<le> range_end r"
  shows "unat (range_len r) = unat (range_end r) - unat (range_start r)"
  using assms by (simp add: range_len_def unat_sub)

text \<open>Taking the token at the cursor.\<close>

lemma take_token_wf:
  assumes u: "utf8 s" and wf: "wf_cursor s tz" and tok: "get_at (tz_tokens tz) (tz_cursor tz) = Some tok"
  obtains tz' where "take_token tz tok = Return tz'"
    and "\<not> token_failed tok \<Longrightarrow> wf_cursor s tz'"
    and "start_of tok = cursor_offset tz" and "end_of tok = cursor_offset tz'"
    and "start_of tok < end_of tok" and "end_of tok \<le> length s"
    and "unat (range_len (tok_range tok)) = end_of tok - start_of tok"
    and "tz_line tz = 1 + line_breaks (take (start_of tok) s)"
    and "lex_step s (start_of tok) = Return (tok_kind tok, end_of tok, tok_error tok)"
proof -
  let ?i = "cursor_offset tz" and ?e = "end_of tok"
  from tok have lt: "tz_cursor tz < length (tz_tokens tz)" and nth: "tz_tokens tz ! tz_cursor tz = tok" by auto
  then have dr: "drop (tz_cursor tz) (tz_tokens tz) = tok # drop (tz_cursor tz + 1) (tz_tokens tz)"
    using Cons_nth_drop_Suc [OF lt] by simp
  with wf have i: "start_of tok = ?i" and st: "lex_step s ?i = Return (tok_kind tok, ?e, tok_error tok)"
    and ie: "?i < ?e" and bi: "is_char_boundary s ?i" and be: "is_char_boundary s ?e"
    and rest: "lexes s ?e (drop (tz_cursor tz + 1) (tz_tokens tz)) (length s)"
    by (auto simp: wf_cursor_def)
  have el: "?e \<le> length s" using be by (rule is_char_boundary_le)
  define tz1 where "tz1 = tz\<lparr>tz_cursor := tz_cursor tz + 1, tz_line := tz_line tz + line_breaks (slice s ?i ?e)\<rparr>"
  have off: "cursor_offset tz1 = ?e"
  proof (cases "tz_cursor tz + 1 < length (tz_tokens tz)")
    case True
    then have "drop (tz_cursor tz + 1) (tz_tokens tz) = tz_tokens tz ! (tz_cursor tz + 1) # drop (tz_cursor tz + 2) (tz_tokens tz)"
      by (simp add: Cons_nth_drop_Suc)
    with rest True show ?thesis by (simp add: tz1_def cursor_offset_def get_at_def)
  next
    case False
    with rest wf show ?thesis by (simp add: tz1_def cursor_offset_def get_at_def wf_cursor_def)
  qed
  have t: "take_token tz tok = Return tz1"
    using wf i bi be ie by (simp add: take_token_def advance_lines_def str_slice_def tz1_def wf_cursor_def)
  have wf1: "wf_cursor s tz1" if "\<not> token_failed tok"
  proof -
    have "\<not> splits_crlf s ?e"
      using lex_step_no_split [OF u bi _ st] that ie el by (auto simp: token_failed_def)
    moreover have "line_breaks (take ?e s) = line_breaks (take ?i s) + line_breaks (slice s ?i ?e)"
      using wf ie el by (intro line_breaks_take) (auto simp: wf_cursor_def)
    ultimately show ?thesis
      using wf rest lt by (simp add: wf_cursor_def off) (simp add: tz1_def)
  qed
  have len: "unat (range_len (tok_range tok)) = ?e - start_of tok"
    using i ie by (intro range_len_nat) (simp add: word_le_nat_alt)
  have line: "tz_line tz = 1 + line_breaks (take (start_of tok) s)"
    using wf i by (simp only: wf_cursor_def)
  have step: "lex_step s (start_of tok) = Return (tok_kind tok, ?e, tok_error tok)"
    using st i by (simp only:)
  have "start_of tok < ?e" using i ie by (simp only:)
  with wf1 show thesis by (intro that [OF t _ i off [symmetric] _ el len line step])
qed

text \<open>What a range over the text must say.\<close>

definition located :: "bytes \<Rightarrow> SourceRange \<Rightarrow> bool" where
  "located s r \<longleftrightarrow> sr_end r \<le> length s \<and> sr_line r = 1 + line_breaks (take (sr_start r) s)"

lemma token_located:
  assumes "start_of tok < end_of tok" "end_of tok \<le> length s"
    "unat (range_len (tok_range tok)) = end_of tok - start_of tok"
    "l = 1 + line_breaks (take (start_of tok) s)"
  shows "located s (token_source_range tok l)"
  using assms by (simp add: located_def token_source_range_def SourceRange_new_def sr_end_def)

lemma trivia_not_failed:
  "error_fits (tok_kind tok) (tok_error tok) \<Longrightarrow> is_trivia (tok_kind tok) \<Longrightarrow>
   tok_error tok = None \<or> token_failed tok"
  by (cases "tok_error tok") (auto simp: token_failed_def error_fits_def is_trivia_def split: LexErrorKind.splits)

lemma skip_trivia_wf:
  assumes u: "utf8 s"
  shows "wf_cursor s tz \<Longrightarrow>
    (\<exists>tz'. skip_trivia tz = Return (None, tz') \<and> wf_cursor s tz' \<and> cursor_offset tz \<le> cursor_offset tz'
       \<and> tz_cursor tz \<le> tz_cursor tz' \<and> tz_tokens tz' = tz_tokens tz
       \<and> (\<forall>tok. get_at (tz_tokens tz') (tz_cursor tz') = Some tok \<longrightarrow> \<not> is_trivia (tok_kind tok)))
    \<or> (\<exists>e tz'. skip_trivia tz = Return (Some e, tz') \<and> located s (te_range e))"
proof (induction tz rule: skip_trivia.induct)
  case (1 tz)
  show ?case
  proof (cases "\<exists>tok. get_at (tz_tokens tz) (tz_cursor tz) = Some tok \<and> is_trivia (tok_kind tok)")
    case False
    then have "skip_trivia tz = Return (None, tz)"
      by (subst skip_trivia.simps) (auto split: option.splits)
    with "1.prems" False show ?thesis by blast
  next
    case True
    then obtain tok where tok: "get_at (tz_tokens tz) (tz_cursor tz) = Some tok" "is_trivia (tok_kind tok)"
      by blast
    obtain tz1 where t: "take_token tz tok = Return tz1"
      and wf1: "\<not> token_failed tok \<Longrightarrow> wf_cursor s tz1"
      and st: "start_of tok = cursor_offset tz" and en: "end_of tok = cursor_offset tz1"
      and lt: "start_of tok < end_of tok" and le: "end_of tok \<le> length s"
      and len: "unat (range_len (tok_range tok)) = end_of tok - start_of tok"
      and line: "tz_line tz = 1 + line_breaks (take (start_of tok) s)"
      and step: "lex_step s (start_of tok) = Return (tok_kind tok, end_of tok, tok_error tok)"
      using take_token_wf [OF u "1.prems" tok(1)] by blast
    show ?thesis
    proof (cases "tok_error tok")
      case (Some e)
      with tok t have "skip_trivia tz =
          Return (Some \<lparr>te_kind = e, te_range = token_source_range tok (tz_line tz)\<rparr>, tz1)"
        by (subst skip_trivia.simps) (simp add: get_at_def)
      with token_located [OF lt le len line] show ?thesis by simp
    next
      case None
      then have wf: "wf_cursor s tz1" by (intro wf1) (simp add: token_failed_def)
      have sk: "skip_trivia tz = skip_trivia tz1"
        using tok t None by (subst skip_trivia.simps) (simp add: get_at_def)
      from "1.IH" [OF tok(1) _ t None wf] tok(2) consider
        (ok) tz' where "skip_trivia tz1 = Return (None, tz')" "wf_cursor s tz'"
          "cursor_offset tz1 \<le> cursor_offset tz'" "tz_cursor tz1 \<le> tz_cursor tz'" "tz_tokens tz' = tz_tokens tz1"
          "\<forall>tok. get_at (tz_tokens tz') (tz_cursor tz') = Some tok \<longrightarrow> \<not> is_trivia (tok_kind tok)"
        | (err) e tz' where "skip_trivia tz1 = Return (Some e, tz')" "located s (te_range e)" by blast
      then show ?thesis
      proof cases
        case ok
        with sk st en lt take_token_cursor [OF t] show ?thesis by auto
      qed (use sk in auto)
    qed
  qed
qed

text \<open>States of the cursor before it has failed.\<close>

inductive cursor_reaches :: "bytes \<Rightarrow> RuaTokenize \<Rightarrow> bool" for s where
  start: "RuaTokenize_new s = Return tz \<Longrightarrow> cursor_reaches s tz"
| step: "cursor_reaches s tz \<Longrightarrow> next_token tz = Return (Inr tok, tz') \<Longrightarrow> cursor_reaches s tz'"

inductive_cases cursor_reaches_cases: "cursor_reaches s tz"

lemma wf_cursor_start:
  assumes "utf8 s" and "length s < 2 ^ 32"
  shows "\<exists>tz. RuaTokenize_new s = Return tz \<and> wf_cursor s tz"
proof -
  obtain ts where "lex s = Return ts" and ts: "lexes s 0 ts (length s)"
    using lex_run_steps [OF assms] by blast
  then have new: "RuaTokenize_new s = Return \<lparr>tz_text = s, tz_tokens = ts, tz_cursor = 0, tz_line = 1\<rparr>"
    by (simp add: RuaTokenize_new_def StrictTokenStream_unlimited_def RuaTokenize_from_stream_def)
  from ts have "cursor_offset \<lparr>tz_text = s, tz_tokens = ts, tz_cursor = 0, tz_line = 1\<rparr> = 0"
    by (cases ts) (simp_all add: cursor_offset_def get_at_def)
  with new ts show ?thesis by (simp add: wf_cursor_def splits_crlf_def)
qed

text \<open>The contract of one \<open>next_token\<close> from a well-formed cursor.\<close>

lemma next_token_wf:
  assumes u: "utf8 s" and wf: "wf_cursor s tz"
  obtains (error) e tz' where "next_token tz = Return (Inl e, tz')" and "located s (te_range e)"
  | (token) tok tz' where "next_token tz = Return (Inr tok, tz')" and "wf_cursor s tz'"
      and "located s (td_range tok)" and "\<not> is_trivia (td_kind tok)"
      and "sr_start (td_trivia tok) = cursor_offset tz" and "sr_end (td_trivia tok) = sr_start (td_range tok)"
      and "sr_end (td_range tok) = cursor_offset tz'"
      and "td_kind tok \<noteq> Eof \<Longrightarrow> tz_cursor tz < tz_cursor tz'"
      and "tz_tokens tz' = tz_tokens tz"
proof -
  from skip_trivia_wf [OF u wf] consider
    (ok) tz1 where "skip_trivia tz = Return (None, tz1)" "wf_cursor s tz1" "cursor_offset tz \<le> cursor_offset tz1"
      "tz_cursor tz \<le> tz_cursor tz1" "tz_tokens tz1 = tz_tokens tz"
      "\<forall>tok. get_at (tz_tokens tz1) (tz_cursor tz1) = Some tok \<longrightarrow> \<not> is_trivia (tok_kind tok)"
    | (err) e tz1 where "skip_trivia tz = Return (Some e, tz1)" "located s (te_range e)" by blast
  then show thesis
  proof cases
    case err
    then show thesis using error by (simp add: next_token_def)
  next
    case ok
    let ?trivia = "SourceRange_new (cursor_offset tz) (cursor_offset tz1 - cursor_offset tz) (tz_line tz)"
    have nt: "next_token tz = token_at_cursor tz1 ?trivia" using ok(1) by (simp add: next_token_def)
    show thesis
    proof (cases "get_at (tz_tokens tz1) (tz_cursor tz1)")
      case None
      let ?tok = "TokenData_new Eof (SourceRange_new (length s) 0 (tz_line tz1)) ?trivia"
      have "tz_text tz1 = s" using ok(2) by (simp add: wf_cursor_def)
      then have off: "cursor_offset tz1 = length s" using None by (simp only: cursor_offset_def option.case)
      have "next_token tz = Return (Inr ?tok, tz1)"
        using nt None ok(2) by (simp add: token_at_cursor_def wf_cursor_def)
      moreover have "located s (td_range ?tok)"
        using ok(2) off by (simp add: located_def TokenData_new_def SourceRange_new_def sr_end_def wf_cursor_def)
      ultimately show thesis
        using token [of ?tok tz1] ok off
        by (simp add: TokenData_new_def SourceRange_new_def sr_end_def is_trivia_def)
    next
      case (Some tok)
      obtain tz2 where t: "take_token tz1 tok = Return tz2"
        and wf2: "\<not> token_failed tok \<Longrightarrow> wf_cursor s tz2"
        and st: "start_of tok = cursor_offset tz1" and en: "end_of tok = cursor_offset tz2"
        and lt: "start_of tok < end_of tok" and le: "end_of tok \<le> length s"
        and len: "unat (range_len (tok_range tok)) = end_of tok - start_of tok"
        and line: "tz_line tz1 = 1 + line_breaks (take (start_of tok) s)"
        and "lex_step s (start_of tok) = Return (tok_kind tok, end_of tok, tok_error tok)"
        using take_token_wf [OF u ok(2) Some] by blast
      note loc = token_located [OF lt le len line]
      let ?tok = "TokenData_new (tok_kind tok) (token_source_range tok (tz_line tz1)) ?trivia"
      show thesis
      proof (cases "token_failed tok")
        case True
        with nt Some t loc show thesis
          using error by (auto simp: token_at_cursor_def token_failed_def)
      next
        case False
        then have "next_token tz = Return (Inr ?tok, tz2)"
          using nt Some t by (auto simp: token_at_cursor_def token_failed_def)
        moreover have "sr_end (td_range ?tok) = cursor_offset tz2" "sr_start (td_range ?tok) = cursor_offset tz1"
          using len lt st en by (simp_all add: TokenData_new_def token_source_range_def SourceRange_new_def sr_end_def)
        ultimately show thesis
          using token [of ?tok tz2] wf2 [OF False] loc ok Some take_token_cursor [OF t]
          by (simp add: TokenData_new_def SourceRange_new_def sr_end_def)
      qed
    qed
  qed
qed

lemma cursor_reaches_wf:
  "cursor_reaches s tz \<Longrightarrow> utf8 s \<Longrightarrow> length s < 2 ^ 32 \<Longrightarrow> wf_cursor s tz"
proof (induction rule: cursor_reaches.induct)
  case (start tz)
  with wf_cursor_start [of s] show ?case by auto
next
  case (step tz tok tz')
  then have wf: "wf_cursor s tz" by simp
  show ?case by (rule next_token_wf [OF step.prems(1) wf]) (use step.hyps(2) in auto)
qed

text \<open>
  C20. The strict cursor never panics on valid text, whatever was read before: it yields an error
  or a token that is not trivia, and the range of either lies in the text and carries the line of
  its first byte, counting CR, LF and CR LF as one break each; the trivia range spans exactly
  the gap before the token.
\<close>

theorem next_token_located:
  assumes "utf8 s" and "length s < 2 ^ 32" and "cursor_reaches s tz"
  shows "\<exists>r tz'. next_token tz = Return (r, tz') \<and>
    (case r of
       Inl e \<Rightarrow> located s (te_range e)
     | Inr tok \<Rightarrow> located s (td_range tok) \<and> \<not> is_trivia (td_kind tok)
         \<and> sr_start (td_trivia tok) = cursor_offset tz
         \<and> sr_end (td_trivia tok) = sr_start (td_range tok)
         \<and> sr_end (td_range tok) = cursor_offset tz')"
  by (rule next_token_wf [OF assms(1) cursor_reaches_wf [OF assms(3,1,2)]]) auto

lemma next_token_located_witness:
  "\<exists>tz r tz'. RuaTokenize_new ''fn f'' = Return tz \<and> next_token tz = Return (r, tz') \<and>
    (case r of
       Inl e \<Rightarrow> located ''fn f'' (te_range e)
     | Inr tok \<Rightarrow> located ''fn f'' (td_range tok) \<and> \<not> is_trivia (td_kind tok)
         \<and> sr_start (td_trivia tok) = cursor_offset tz
         \<and> sr_end (td_trivia tok) = sr_start (td_range tok)
         \<and> sr_end (td_range tok) = cursor_offset tz')"
proof -
  have u: "utf8 ''fn f''" and l: "length ''fn f'' < 2 ^ 32" by (simp_all add: is_ascii_def)
  obtain tz where tz: "RuaTokenize_new ''fn f'' = Return tz" using wf_cursor_start [OF u l] by blast
  from next_token_located [OF u l cursor_reaches.start [OF tz]] tz show ?thesis by blast
qed

section \<open>Lookahead\<close>

lemma skip_trivia_progress:
  "skip_trivia tz = Return (r, tz') \<Longrightarrow> tz_cursor tz \<le> tz_cursor tz' \<and> tz_tokens tz' = tz_tokens tz"
proof (induction tz rule: skip_trivia.induct)
  case (1 tz)
  show ?case
  proof (cases "\<exists>tok tz1. get_at (tz_tokens tz) (tz_cursor tz) = Some tok \<and> is_trivia (tok_kind tok)
      \<and> take_token tz tok = Return tz1 \<and> tok_error tok = None")
    case True
    then obtain tok tz1 where tok: "get_at (tz_tokens tz) (tz_cursor tz) = Some tok" "is_trivia (tok_kind tok)"
      and t: "take_token tz tok = Return tz1" and err: "tok_error tok = None" by blast
    then have "skip_trivia tz = skip_trivia tz1" by (subst skip_trivia.simps) (simp add: get_at_def)
    with "1.prems" "1.IH" [OF tok(1) _ t err] tok(2) take_token_cursor [OF t] show ?thesis by auto
  next
    case False
    with "1.prems" show ?thesis
      by (subst (asm) skip_trivia.simps)
         (auto simp: get_at_def dest: take_token_cursor split: if_splits option.splits outcome.splits)
  qed
qed

lemma next_token_progress:
  assumes "next_token tz = Return (Inr tok, tz')" and "td_kind tok \<noteq> Eof"
  shows "tz_cursor tz < tz_cursor tz'" and "tz_tokens tz' = tz_tokens tz"
    and "tz_cursor tz < length (tz_tokens tz)"
proof -
  obtain tz1 trivia where sk: "skip_trivia tz = Return (None, tz1)"
    and at: "token_at_cursor tz1 trivia = Return (Inr tok, tz')"
    using assms(1) by (auto simp: next_token_def split: outcome.splits option.splits prod.splits)
  obtain t where t: "get_at (tz_tokens tz1) (tz_cursor tz1) = Some t" and tk: "take_token tz1 t = Return tz'"
    using at assms(2) by (auto simp: token_at_cursor_def TokenData_new_def
        split: option.splits outcome.splits if_splits)
  from t skip_trivia_progress [OF sk] take_token_cursor [OF tk]
  show "tz_cursor tz < tz_cursor tz'" "tz_tokens tz' = tz_tokens tz" "tz_cursor tz < length (tz_tokens tz)"
    by auto
qed

lemma next_token_decreases:
  "next_token tz = Return (Inr tok, tz') \<Longrightarrow> td_kind tok \<noteq> Eof \<Longrightarrow>
   length (tz_tokens tz') - tz_cursor tz' < length (tz_tokens tz) - tz_cursor tz"
  using next_token_progress [of tz tok tz'] by simp

text \<open>
  All tokens from here to the end of file, and the error that stops them, if one does; no
  list at all on a panic.
\<close>

function tokens_from :: "RuaTokenize \<Rightarrow> (TokenData list \<times> TokenizeError option) option" where
  "tokens_from tz =
     (case next_token tz of
        Panic \<Rightarrow> None
      | Return (Inl e, tz') \<Rightarrow> Some ([], Some e)
      | Return (Inr tok, tz') \<Rightarrow>
          if td_kind tok = Eof then Some ([tok], None)
          else map_option (\<lambda>(toks, e). (tok # toks, e)) (tokens_from tz'))"
  by pat_completeness auto
termination
  by (relation "measure (\<lambda>tz. length (tz_tokens tz) - tz_cursor tz)")
     (auto dest: next_token_decreases)

declare tokens_from.simps [simp del]

lemma tokens_from_Cons:
  "tokens_from tz = Some (tok # toks, e) \<Longrightarrow>
   \<exists>tz'. next_token tz = Return (Inr tok, tz') \<and>
     (if td_kind tok = Eof then toks = [] \<and> e = None else tokens_from tz' = Some (toks, e))"
  by (subst (asm) tokens_from.simps)
     (auto split: outcome.splits prod.splits sum.splits if_splits)

lemma tokens_from_nonempty: "tokens_from tz = Some (toks, None) \<Longrightarrow> toks \<noteq> []"
  by (subst (asm) tokens_from.simps)
     (auto split: outcome.splits prod.splits sum.splits if_splits)

lemma keyword_kind_not_Eof: "keyword_kind w \<noteq> Eof"
  by (auto simp: keyword_kind.simps)

lemma lex_step_not_Eof:
  assumes "lex_step s i = Return (k, e, err)"
  shows "k \<noteq> Eof"
proof -
  have "fst (lex_number s i) \<noteq> Eof" by (auto simp: lex_number_def split: prod.splits)
  moreover have "k' \<noteq> Eof" if "lex_punct s i = Some (k', e', err')" for k' e' err'
  proof -
    from that obtain p where "(p, k') \<in> set punct_table"
      by (auto simp: lex_punct_def simple_def find_Some_iff split: option.splits) (metis nth_mem)
    then show ?thesis by (auto simp: punct_table_def)
  qed
  ultimately show ?thesis
    using assms keyword_kind_not_Eof
    by (auto simp: lex_step_def lex_word_def lex_unknown_def lex_block_comment_def lex_string_def Let_def
        split: if_splits option.splits prod.splits outcome.splits)
qed

definition same_token :: "TokenData \<Rightarrow> TokenData \<Rightarrow> bool" where
  "same_token a b \<longleftrightarrow> td_kind a = td_kind b \<and> td_range a = td_range b"

lemma same_token_refl [simp]: "same_token t t"
  by (simp add: same_token_def)

text \<open>The view the lexer has on the tokens still to come: the current one first.\<close>

definition lexer_view :: "RuaLexer \<Rightarrow> TokenData list \<Rightarrow> bool" where
  "lexer_view lx toks \<longleftrightarrow>
     (case toks of
        [] \<Rightarrow> False
      | [t] \<Rightarrow> td_kind t = Eof \<and> same_token (lx_current lx) t \<and> same_token (lx_next lx) t
      | t # t' # rest \<Rightarrow> td_kind t \<noteq> Eof \<and> lx_current lx = t \<and> lx_next lx = t'
          \<and> (if td_kind t' = Eof then rest = [] else tokens_from (lx_tokenizer lx) = Some (rest, None)))"

lemma next_token_at_end:
  assumes "next_token tz = Return (Inr tok, tz')" and "td_kind tok = Eof" and "wf_cursor s tz" and "utf8 s"
  shows "\<exists>tok' tz''. next_token tz' = Return (Inr tok', tz'') \<and> same_token tok' tok"
proof -
  obtain tz1 trivia where sk: "skip_trivia tz = Return (None, tz1)"
    and at: "token_at_cursor tz1 trivia = Return (Inr tok, tz')"
    using assms(1) by (auto simp: next_token_def split: outcome.splits option.splits prod.splits)
  have wf1: "wf_cursor s tz1" and nt: "\<And>t. get_at (tz_tokens tz1) (tz_cursor tz1) = Some t \<Longrightarrow> \<not> is_trivia (tok_kind t)"
    using skip_trivia_wf [OF assms(4,3)] sk by auto
  show ?thesis
  proof (cases "get_at (tz_tokens tz1) (tz_cursor tz1)")
    case None
    with at have tz': "tz' = tz1" and tok: "tok = TokenData_new Eof (SourceRange_new (length (tz_text tz1)) 0 (tz_line tz1)) trivia"
      by (auto simp: token_at_cursor_def)
    have "skip_trivia tz1 = Return (None, tz1)"
      using None by (subst skip_trivia.simps) (simp add: get_at_def split: if_splits)
    with None tz' tok show ?thesis
      by (simp add: next_token_def token_at_cursor_def get_at_def same_token_def TokenData_new_def split: if_splits)
  next
    case (Some t)
    with at assms(2) have "tok_kind t = Eof"
      by (auto simp: token_at_cursor_def TokenData_new_def split: outcome.splits option.splits if_splits)
    moreover have "lex_step s (start_of t) = Return (tok_kind t, end_of t, tok_error t)"
      using take_token_wf [OF assms(4) wf1 Some] by blast
    ultimately have False using lex_step_not_Eof by metis
    then show ?thesis ..
  qed
qed

lemma bump_view:
  assumes "lexer_view lx toks"
  obtains lx' where "bump lx = Return (None, lx')"
    and "lexer_view lx' (if length toks = 1 then toks else tl toks)"
proof -
  obtain t ts where toks: "toks = t # ts" using assms by (cases toks) (auto simp: lexer_view_def)
  show thesis
  proof (cases ts)
    case Nil
    with assms toks have "bump lx =
        Return (None, lx\<lparr>lx_previous := Some (td_range (lx_current lx)), lx_current := lx_next lx\<rparr>)"
      by (simp add: bump_def Let_def same_token_def lexer_view_def)
    with assms toks Nil that show thesis by (simp add: lexer_view_def)
  next
    case (Cons t' rest)
    show thesis
    proof (cases "td_kind t' = Eof")
      case True
      with assms toks Cons have "bump lx =
          Return (None, lx\<lparr>lx_previous := Some (td_range t), lx_current := t'\<rparr>)"
        by (simp add: bump_def Let_def lexer_view_def)
      with assms toks Cons True that show thesis by (simp add: lexer_view_def)
    next
      case False
      with assms toks Cons have tf: "tokens_from (lx_tokenizer lx) = Some (rest, None)"
        by (simp add: lexer_view_def)
      then obtain t'' rest' where rest: "rest = t'' # rest'"
        using tokens_from_nonempty by (metis neq_Nil_conv)
      from tokens_from_Cons [OF tf [unfolded rest]] obtain tz'
        where nt: "next_token (lx_tokenizer lx) = Return (Inr t'', tz')"
          and tl: "if td_kind t'' = Eof then rest' = [] else tokens_from tz' = Some (rest', None)" by auto
      have "bump lx = Return (None, lx\<lparr>lx_previous := Some (td_range t), lx_current := t',
          lx_tokenizer := tz', lx_next := t''\<rparr>)"
        using assms toks Cons False nt by (simp add: bump_def Let_def lexer_view_def)
      with assms toks Cons False rest tl that show thesis by (simp add: lexer_view_def)
    qed
  qed
qed

text \<open>\<open>n\<close> calls of \<open>bump\<close>, stopping at the first error.\<close>

fun bumps :: "nat \<Rightarrow> RuaLexer \<Rightarrow> (TokenizeError option \<times> RuaLexer) outcome" where
  "bumps 0 lx = Return (None, lx)"
| "bumps (Suc n) lx = bind_outcome (bump lx) (\<lambda>(e, lx').
     case e of Some _ \<Rightarrow> Return (e, lx') | None \<Rightarrow> bumps n lx')"

lemma bumps_view:
  "lexer_view lx toks \<Longrightarrow>
   \<exists>lx'. bumps n lx = Return (None, lx') \<and> lexer_view lx' (drop (min n (length toks - 1)) toks)"
proof (induction n arbitrary: lx toks)
  case (Suc n)
  from bump_view [OF Suc.prems] obtain lx1 where b: "bump lx = Return (None, lx1)"
    and v: "lexer_view lx1 (if length toks = 1 then toks else tl toks)" .
  from Suc.IH [OF v] obtain lx' where "bumps n lx1 = Return (None, lx')"
    and v': "lexer_view lx' (drop (min n (length (if length toks = 1 then toks else tl toks) - 1))
              (if length toks = 1 then toks else tl toks))" by blast
  moreover have "toks \<noteq> []" using Suc.prems by (auto simp: lexer_view_def)
  then have "drop (min n (length (if length toks = 1 then toks else tl toks) - 1))
      (if length toks = 1 then toks else tl toks) = drop (min (Suc n) (length toks - 1)) toks"
    by (cases toks; cases "tl toks") (auto simp: drop_Cons' min_def)
  ultimately show ?case using b by simp
qed simp

lemma view_tokens:
  assumes "lexer_view lx (drop k toks)" and "k < length toks"
  shows "same_token (lx_current lx) (toks ! k)"
    and "same_token (lx_next lx) (toks ! min (Suc k) (length toks - 1))"
proof -
  obtain t ts where d: "drop k toks = t # ts" using assms(2) by (metis Cons_nth_drop_Suc)
  then have t: "toks ! k = t" and ts: "ts = drop (Suc k) toks"
    using Cons_nth_drop_Suc [OF assms(2)] by auto
  show "same_token (lx_current lx) (toks ! k)"
    using assms(1) d t by (cases ts) (auto simp: lexer_view_def)
  show "same_token (lx_next lx) (toks ! min (Suc k) (length toks - 1))"
  proof (cases ts)
    case Nil
    with ts assms(2) have "min (Suc k) (length toks - 1) = k" by auto
    with assms(1) d t Nil show ?thesis by (simp add: lexer_view_def)
  next
    case (Cons t' rest)
    with ts have "Suc k < length toks" and "toks ! Suc k = t'"
      by (metis Cons_nth_drop_Suc drop_eq_Nil list.distinct(1) list.inject not_le_imp_less)+
    moreover from this have "min (Suc k) (length toks - 1) = Suc k" by simp
    ultimately show ?thesis using assms(1) d Cons by (simp add: lexer_view_def)
  qed
qed

lemma RuaLexer_new_view:
  assumes "utf8 s" and "length s < 2 ^ 32" and new: "RuaTokenize_new s = Return tz"
    and toks: "tokens_from tz = Some (toks, None)"
  obtains lx where "RuaLexer_new s = Return (Inr lx)" and "lexer_view lx toks"
proof -
  obtain stream where stream: "StrictTokenStream_unlimited s = Return stream"
    and tz: "tz = RuaTokenize_from_stream stream"
    using new by (auto simp: RuaTokenize_new_def)
  have wf: "wf_cursor s tz" using wf_cursor_start [OF assms(1,2)] new by auto
  obtain t ts where ts: "toks = t # ts" using tokens_from_nonempty [OF toks] by (cases toks) auto
  from tokens_from_Cons [OF toks [unfolded ts]] obtain tz1
    where n1: "next_token tz = Return (Inr t, tz1)"
      and rest: "if td_kind t = Eof then ts = [] else tokens_from tz1 = Some (ts, None)" by auto
  show thesis
  proof (cases "td_kind t = Eof")
    case True
    from next_token_at_end [OF n1 True wf assms(1)] obtain t' tz2
      where "next_token tz1 = Return (Inr t', tz2)" and "same_token t' t" by blast
    with n1 stream tz True rest ts that show thesis
      by (simp add: RuaLexer_new_def RuaLexer_from_stream_def lexer_view_def)
  next
    case False
    with rest have tf: "tokens_from tz1 = Some (ts, None)" by simp
    then obtain t' ts' where ts': "ts = t' # ts'" using tokens_from_nonempty by (metis neq_Nil_conv)
    from tokens_from_Cons [OF tf [unfolded ts']] obtain tz2
      where "next_token tz1 = Return (Inr t', tz2)"
        and "if td_kind t' = Eof then ts' = [] else tokens_from tz2 = Some (ts', None)" by auto
    with n1 stream tz False ts ts' that show thesis
      by (simp add: RuaLexer_new_def RuaLexer_from_stream_def lexer_view_def)
  qed
qed

text \<open>
  C21. The lexer with lookahead is an index into the token sequence: after \<open>n\<close> bumps it shows
  the \<open>n\<close>-th token and, as the next one, the token after it; past the end both stay at end of
  file, and no bump fails.
\<close>

theorem RuaLexer_lookahead:
  assumes "utf8 s" and "length s < 2 ^ 32" and "RuaTokenize_new s = Return tz"
    and "tokens_from tz = Some (toks, None)"
  shows "\<exists>lx lx'. RuaLexer_new s = Return (Inr lx) \<and> bumps n lx = Return (None, lx')
    \<and> same_token (lx_current lx') (toks ! min n (length toks - 1))
    \<and> same_token (lx_next lx') (toks ! min (Suc n) (length toks - 1))"
proof -
  obtain lx where lx: "RuaLexer_new s = Return (Inr lx)" and v: "lexer_view lx toks"
    by (rule RuaLexer_new_view [OF assms])
  from bumps_view [OF v, of n] obtain lx' where b: "bumps n lx = Return (None, lx')"
    and v': "lexer_view lx' (drop (min n (length toks - 1)) toks)" by blast
  have "min n (length toks - 1) < length toks"
    using tokens_from_nonempty [OF assms(4)] by (cases toks) auto
  moreover have "min (Suc (min n (length toks - 1))) (length toks - 1) = min (Suc n) (length toks - 1)"
    by simp
  ultimately show ?thesis using lx b view_tokens [OF v'] by metis
qed

lemma RuaLexer_lookahead_witness:
  "\<exists>tz toks lx lx'. RuaTokenize_new ''a'' = Return tz \<and> tokens_from tz = Some (toks, None)
    \<and> RuaLexer_new ''a'' = Return (Inr lx) \<and> bumps 1 lx = Return (None, lx')
    \<and> same_token (lx_current lx') (toks ! min 1 (length toks - 1))
    \<and> same_token (lx_next lx') (toks ! min (Suc 1) (length toks - 1))"
proof -
  let ?t = "\<lparr>tok_kind = Ident, tok_range = \<lparr>range_start = 0, range_end = 1\<rparr>, tok_error = None\<rparr>"
  let ?tz = "\<lparr>tz_text = ''a'', tz_tokens = [?t], tz_cursor = 0, tz_line = 1\<rparr>"
  have u: "utf8 ''a''" and l: "length ''a'' < 2 ^ 32" by (simp_all add: is_ascii_def)
  have "lex_step ''a'' 0 = Return (Ident, length ''a'', None)" by code_simp
  then have "lex ''a'' = Return [?t]" using lex_single [of "''a''" Ident None] by simp
  then have new: "RuaTokenize_new ''a'' = Return ?tz"
    by (simp add: RuaTokenize_new_def StrictTokenStream_unlimited_def RuaTokenize_from_stream_def)
  obtain toks where toks: "tokens_from ?tz = Some (toks, None)"
    by (simp add: tokens_from.simps next_token_def skip_trivia.simps token_at_cursor_def get_at_def
        is_trivia_def take_token_def advance_lines_def str_slice_def is_char_boundary_def slice_def
        TokenData_new_def)
  from RuaLexer_lookahead [OF u l new toks, of 1] new toks show ?thesis by blast
qed

section \<open>Line continuations\<close>


end
