(* ===== verification/Hir_Types.thy ===== *)
theory Hir_Types
  imports Hir_Collect
begin

text \<open>
  The type resolver of \<open>crates/ruac/src/hir.rs\<close>: every type reference of a module gets a
  target, first the signatures and fields of its items, then the types written inside bodies.
  The walk only reads names and writes \<open>type_targets\<close>, \<open>trait_ref_targets\<close> and diagnostics.
\<close>

section \<open>Names in scope\<close>

text \<open>The arguments every function of the walk passes on unchanged.\<close>

record TypeScope =
  ts_module :: ModuleId
  ts_aliases :: "bytes \<rightharpoonup> ResolvedTarget"
  ts_generics :: "bytes \<rightharpoonup> GenericParamId"

definition generic_names :: "GenericParam list \<Rightarrow> GenericParam list \<Rightarrow> bytes \<rightharpoonup> GenericParamId" where
  "generic_names outer inner =
     fold (\<lambda>p names. names(generic_name p \<mapsto> generic_id p)) (outer @ inner) Map.empty"

fun primitive_type :: "bytes \<Rightarrow> PrimitiveType option" where
  "primitive_type name =
     (if name \<in> {''i8'', ''i16'', ''i32'', ''i64'', ''isize'',
                 ''u8'', ''u16'', ''u32'', ''u64'', ''usize''} then Some PrimI64
      else if name = ''f32'' \<or> name = ''f64'' then Some PrimF64
      else if name = ''bool'' then Some PrimBool
      else if name = ''Box'' then Some PrimBox
      else None)"

fun has_separator :: "bytes \<Rightarrow> bool" where
  "has_separator (c # d # s) = (c = CHR '':'' \<and> d = CHR '':'' \<or> has_separator (d # s))"
| "has_separator s = False"

text \<open>A name of one segment is looked up among the imports first.\<close>

definition resolve_type_name :: "TypeScope \<Rightarrow> bytes \<Rightarrow> ResolvedHir \<Rightarrow> ResolvedTarget option outcome" where
  "resolve_type_name c name h =
     (let path = split_path name in
      if length path = 1
      then (case ts_aliases c name of
              Some t \<Rightarrow> Return (Some t)
            | None \<Rightarrow> resolve_path h (ts_module c) NsType path)
      else resolve_path h (ts_module c) NsType path)"

definition canonical_type_target :: "ResolvedHir \<Rightarrow> DefId \<Rightarrow> TypeTarget outcome" where
  "canonical_type_target h d =
     (case language_item h d of
        Some LangOption \<Rightarrow> Return (TypeBuiltin TypeOption)
      | Some LangResult \<Rightarrow> Return (TypeBuiltin TypeResult)
      | _ \<Rightarrow>
          bind_outcome (hir_definition h d) (\<lambda>data.
            map_outcome
              (\<lambda>root.
                if scope_modules (mod_scope root) ''__rua_builtin'' = Some (def_module data)
                then (case builtin_type (def_name data) of
                        Some b \<Rightarrow> TypeBuiltin b
                      | None \<Rightarrow> TypeItem d)
                else TypeItem d)
              (hir_module h (hir_root h))))"

definition fallback_type_target :: "bytes \<Rightarrow> TypeTarget option" where
  "fallback_type_target name =
     (case primitive_type name of
        Some p \<Rightarrow> Some (TypePrimitive p)
      | None \<Rightarrow>
          (case builtin_type name of
             Some b \<Rightarrow> Some (TypeBuiltin b)
           | None \<Rightarrow> if name = ''str'' then Some (TypeBuiltin TypeString) else None))"

definition path_type_target ::
    "TypeScope \<Rightarrow> bytes \<Rightarrow> ResolvedHir \<Rightarrow> (TypeTarget \<times> ResolvedHir) outcome" where
  "path_type_target c name h =
     (if name = ''_'' then Return (TypeInfer, h)
      else if name = ''Self'' then Return (TypeSelf, h)
      else (case if has_separator name then None else ts_generics c name of
              Some p \<Rightarrow> Return (TypeGeneric p, h)
            | None \<Rightarrow>
                bind_outcome (resolve_type_name c name h) (\<lambda>resolved.
                  case resolved of
                    Some (ResolvedItem d) \<Rightarrow> map_outcome (\<lambda>t. (t, h)) (canonical_type_target h d)
                  | _ \<Rightarrow>
                      (case fallback_type_target name of
                         Some t \<Rightarrow> Return (t, h)
                       | None \<Rightarrow> map_outcome (Pair TypeError) (report_unresolved None name h)))))"

definition set_type_target :: "TypeId \<Rightarrow> TypeTarget \<Rightarrow> ResolvedHir \<Rightarrow> ResolvedHir" where
  "set_type_target i t h = h\<lparr>hir_type_targets := (hir_type_targets h)(i \<mapsto> t)\<rparr>"

fun resolve_type :: "TypeScope \<Rightarrow> RuaType \<Rightarrow> ResolvedHir \<Rightarrow> ResolvedHir outcome" where
  "resolve_type c (TyPath i name args) h =
     bind_outcome (fold_outcome (\<lambda>a. resolve_type c a) args h) (\<lambda>h1.
       map_outcome (\<lambda>(target, h2). set_type_target i target h2) (path_type_target c name h1))"
| "resolve_type c (TyRef is_mutable inner) h = resolve_type c inner h"
| "resolve_type c (TyFunction params ret) h =
     bind_outcome (fold_outcome (\<lambda>p. resolve_type c p) params h) (\<lambda>h1. resolve_type c ret h1)"
| "resolve_type c (TyTuple elems) h = fold_outcome (\<lambda>e. resolve_type c e) elems h"
| "resolve_type c TyNever h = Return h"
| "resolve_type c TyUnit h = Return h"

definition resolve_optional_type :: "TypeScope \<Rightarrow> RuaType option \<Rightarrow> ResolvedHir \<Rightarrow> ResolvedHir outcome" where
  "resolve_optional_type c ty h = (case ty of None \<Rightarrow> Return h | Some t \<Rightarrow> resolve_type c t h)"

definition resolve_signature_types ::
    "TypeScope \<Rightarrow> Param list \<Rightarrow> RuaType option \<Rightarrow> ResolvedHir \<Rightarrow> ResolvedHir outcome" where
  "resolve_signature_types c params ret h =
     bind_outcome (fold_outcome (\<lambda>p. resolve_type c (param_type p)) params h)
       (resolve_optional_type c ret)"

section \<open>Trait bounds\<close>

definition resolve_trait_ref :: "TypeScope \<Rightarrow> TraitRef \<Rightarrow> ResolvedHir \<Rightarrow> ResolvedHir outcome" where
  "resolve_trait_ref c bound h =
     bind_outcome (resolve_type_name c (traitref_path bound) h) (\<lambda>resolved.
       map_outcome
         (\<lambda>target. case target of
            None \<Rightarrow> h
          | Some t \<Rightarrow> h\<lparr>hir_trait_ref_targets :=
                          (hir_trait_ref_targets h)(traitref_id bound \<mapsto> t)\<rparr>)
         (trait_target_of h (traitref_path bound) resolved))"

definition resolve_trait_refs :: "TypeScope \<Rightarrow> GenericParam list \<Rightarrow> ResolvedHir \<Rightarrow> ResolvedHir outcome" where
  "resolve_trait_refs c generics =
     fold_outcome (\<lambda>p. fold_outcome (resolve_trait_ref c) (generic_bounds p)) generics"

section \<open>Types written inside bodies\<close>

definition seq_outcome :: "('s \<Rightarrow> 's outcome) \<Rightarrow> ('s \<Rightarrow> 's outcome) \<Rightarrow> 's \<Rightarrow> 's outcome" where
  "seq_outcome f g s = bind_outcome (f s) g"

lemma seq_outcome_cong [fundef_cong]:
  assumes "s = t" and "\<And>u. f u = f' u" and "\<And>u. g u = g' u"
  shows "seq_outcome f g s = seq_outcome f' g' t"
proof -
  have "f = f'" "g = g'" using assms(2,3) by blast+
  with assms(1) show ?thesis by simp
qed

text \<open>Sizes of the parts of a list node, for the termination of the walks over a body.\<close>

lemma size_list_mem: "x \<in> set xs \<Longrightarrow> size x \<le> size_list size xs"
  by (simp add: size_list_estimation')

lemma size_pair_mem:
  "(a, b) \<in> set xs \<Longrightarrow> size b \<le> size_list (size_prod (\<lambda>_. 0) size) xs"
  "(c, b) \<in> set ys \<Longrightarrow> size c + size b \<le> size_list (size_prod size size) ys"
  for a :: "char list" and c :: AstExpr
  using size_list_estimation' [of "(a, b)" xs "size b" "size_prod (\<lambda>_. 0) size"]
    size_list_estimation' [of "(c, b)" ys "size c + size b" "size_prod size size"] by simp_all

lemma size_arm_mem:
  assumes "MatchArm pats guard_expr arm_expr \<in> set arms"
  shows "size_list size pats + size_option size guard_expr + size arm_expr < size_list size arms"
  using size_list_estimation [of "MatchArm pats guard_expr arm_expr" arms _ size] assms by simp

function (sequential) resolve_block_types :: "TypeScope \<Rightarrow> AstBlock \<Rightarrow> ResolvedHir \<Rightarrow> ResolvedHir outcome"
and resolve_statement_types :: "TypeScope \<Rightarrow> Stmt \<Rightarrow> ResolvedHir \<Rightarrow> ResolvedHir outcome"
and resolve_expression_types :: "TypeScope \<Rightarrow> AstExpr \<Rightarrow> ResolvedHir \<Rightarrow> ResolvedHir outcome"
and resolve_else_types :: "TypeScope \<Rightarrow> ElseBranch option \<Rightarrow> ResolvedHir \<Rightarrow> ResolvedHir outcome"
and resolve_pattern_types :: "TypeScope \<Rightarrow> AstPattern \<Rightarrow> ResolvedHir \<Rightarrow> ResolvedHir outcome"
where
  "resolve_block_types c (AstBlock stmts blanks tail tail_blank) h =
     seq_outcome (\<lambda>h. fold_outcome (\<lambda>st. resolve_statement_types c st) stmts h)
       (\<lambda>h. case tail of None \<Rightarrow> Return h | Some e \<Rightarrow> resolve_expression_types c e h) h"
| "resolve_statement_types c (StLua code sp) h = Return h"
| "resolve_statement_types c (StLet name name_span is_mutable ty init) h =
     seq_outcome (resolve_optional_type c ty) (\<lambda>h. resolve_expression_types c init h) h"
| "resolve_statement_types c (StExpr e) h = resolve_expression_types c e h"
| "resolve_statement_types c (StReturn val) h =
     (case val of None \<Rightarrow> Return h | Some e \<Rightarrow> resolve_expression_types c e h)"
| "resolve_statement_types c (StBreak val) h =
     (case val of None \<Rightarrow> Return h | Some e \<Rightarrow> resolve_expression_types c e h)"
| "resolve_statement_types c StContinue h = Return h"
| "resolve_statement_types c (StWhile cond body) h =
     seq_outcome (\<lambda>h. resolve_expression_types c cond h) (\<lambda>h. resolve_block_types c body h) h"
| "resolve_statement_types c (StLoop body) h = resolve_block_types c body h"
| "resolve_statement_types c (StFor var var_span iter body) h =
     seq_outcome (\<lambda>h. resolve_expression_types c iter h) (\<lambda>h. resolve_block_types c body h) h"
| "resolve_statement_types c (StWhileLet pat e body) h =
     seq_outcome (\<lambda>h. resolve_pattern_types c pat h)
       (seq_outcome (\<lambda>h. resolve_expression_types c e h) (\<lambda>h. resolve_block_types c body h)) h"
| "resolve_expression_types c (AstExpr i (XVecLit elements) sp) h =
     fold_outcome (\<lambda>e. resolve_expression_types c e) elements h"
| "resolve_expression_types c (AstExpr i (XClosure params ret (ClosureExpr e)) sp) h =
     seq_outcome (fold_outcome (\<lambda>p. resolve_optional_type c (cparam_type p)) params)
       (seq_outcome (resolve_optional_type c ret) (\<lambda>h. resolve_expression_types c e h)) h"
| "resolve_expression_types c (AstExpr i (XClosure params ret (ClosureBlock b)) sp) h =
     seq_outcome (fold_outcome (\<lambda>p. resolve_optional_type c (cparam_type p)) params)
       (seq_outcome (resolve_optional_type c ret) (\<lambda>h. resolve_block_types c b h)) h"
| "resolve_expression_types c (AstExpr i (XUnary op e) sp) h = resolve_expression_types c e h"
| "resolve_expression_types c (AstExpr i (XTry e) sp) h = resolve_expression_types c e h"
| "resolve_expression_types c (AstExpr i (XBinary op l r) sp) h =
     seq_outcome (\<lambda>h. resolve_expression_types c l h) (\<lambda>h. resolve_expression_types c r h) h"
| "resolve_expression_types c (AstExpr i (XLoop b) sp) h = resolve_block_types c b h"
| "resolve_expression_types c (AstExpr i (XCall callee args) sp) h =
     seq_outcome (\<lambda>h. resolve_expression_types c callee h)
       (\<lambda>h. fold_outcome (\<lambda>e. resolve_expression_types c e) args h) h"
| "resolve_expression_types c (AstExpr i (XMethodCall recv name optional type_args args name_span) sp) h =
     seq_outcome (\<lambda>h. resolve_expression_types c recv h)
       (seq_outcome (fold_outcome (\<lambda>ty. resolve_type c ty) type_args)
         (\<lambda>h. fold_outcome (\<lambda>e. resolve_expression_types c e) args h)) h"
| "resolve_expression_types c (AstExpr i (XField base name optional name_span) sp) h =
     resolve_expression_types c base h"
| "resolve_expression_types c (AstExpr i (XStructLit path flds) sp) h =
     fold_outcome (\<lambda>(name, val). resolve_expression_types c val) flds h"
| "resolve_expression_types c (AstExpr i (XMapLit entries) sp) h =
     fold_outcome (\<lambda>(key, val). seq_outcome (\<lambda>h. resolve_expression_types c key h)
       (\<lambda>h. resolve_expression_types c val h)) entries h"
| "resolve_expression_types c (AstExpr i (XMatch scrut arms) sp) h =
     seq_outcome (\<lambda>h. resolve_expression_types c scrut h)
       (\<lambda>h. fold_outcome (\<lambda>arm h. case arm of MatchArm pats guard_expr arm_expr \<Rightarrow>
          seq_outcome (\<lambda>h. fold_outcome (\<lambda>p. resolve_pattern_types c p) pats h)
            (seq_outcome
              (\<lambda>h. case guard_expr of None \<Rightarrow> Return h | Some g \<Rightarrow> resolve_expression_types c g h)
              (\<lambda>h. resolve_expression_types c arm_expr h)) h) arms h) h"
| "resolve_expression_types c (AstExpr i (XRange lo hi inclusive) sp) h =
     seq_outcome (\<lambda>h. resolve_expression_types c lo h) (\<lambda>h. resolve_expression_types c hi h) h"
| "resolve_expression_types c (AstExpr i (XIndex base index) sp) h =
     seq_outcome (\<lambda>h. resolve_expression_types c base h) (\<lambda>h. resolve_expression_types c index h) h"
| "resolve_expression_types c (AstExpr i (XIf cond then_block else_block) sp) h =
     seq_outcome (\<lambda>h. resolve_expression_types c cond h)
       (seq_outcome (\<lambda>h. resolve_block_types c then_block h)
         (\<lambda>h. resolve_else_types c else_block h)) h"
| "resolve_expression_types c (AstExpr i (XIfLet pat e then_block else_block) sp) h =
     seq_outcome (\<lambda>h. resolve_pattern_types c pat h)
       (seq_outcome (\<lambda>h. resolve_expression_types c e h)
         (seq_outcome (\<lambda>h. resolve_block_types c then_block h)
           (\<lambda>h. resolve_else_types c else_block h))) h"
| "resolve_expression_types c (AstExpr i (XBlock b) sp) h = resolve_block_types c b h"
| "resolve_expression_types c (AstExpr i (XAssign op target val) sp) h =
     seq_outcome (\<lambda>h. resolve_expression_types c target h) (\<lambda>h. resolve_expression_types c val h) h"
| "resolve_expression_types c (AstExpr i (XInt val) sp) h = Return h"
| "resolve_expression_types c (AstExpr i (XFloat val) sp) h = Return h"
| "resolve_expression_types c (AstExpr i (XStr val) sp) h = Return h"
| "resolve_expression_types c (AstExpr i (XBool b) sp) h = Return h"
| "resolve_expression_types c (AstExpr i (XPath path) sp) h = Return h"
| "resolve_else_types c None h = Return h"
| "resolve_else_types c (Some (ElseBlock b)) h = resolve_block_types c b h"
| "resolve_else_types c (Some (ElseIf e)) h = resolve_expression_types c e h"
| "resolve_pattern_types c PWildcard h = Return h"
| "resolve_pattern_types c (PBinding name source) h = Return h"
| "resolve_pattern_types c (PPath i path) h = Return h"
| "resolve_pattern_types c (PLiteral e) h = resolve_expression_types c e h"
| "resolve_pattern_types c (PRange lo hi inclusive) h =
     seq_outcome (\<lambda>h. resolve_expression_types c lo h) (\<lambda>h. resolve_expression_types c hi h) h"
| "resolve_pattern_types c (PTupleVariant i path elems) h =
     fold_outcome (\<lambda>p. resolve_pattern_types c p) elems h"
| "resolve_pattern_types c (PStructVariant i path flds rest) h =
     fold_outcome (\<lambda>(name, p). resolve_pattern_types c p) flds h"
  by pat_completeness auto

termination
proof (relation "measure (case_sum
    (case_sum (\<lambda>(c, b, s). size b) (\<lambda>(c, st, s). size st))
    (case_sum (\<lambda>(c, e, s). size e)
      (case_sum (\<lambda>(c, br, s). size_option size br) (\<lambda>(c, p, s). size p))))",
    simp_all)
qed (auto dest!: size_list_mem size_pair_mem size_arm_mem)

section \<open>Types of a module\<close>

definition resolve_variant_types :: "TypeScope \<Rightarrow> Variant \<Rightarrow> ResolvedHir \<Rightarrow> ResolvedHir outcome" where
  "resolve_variant_types c v h =
     (case variant_kind v of
        VariantUnit \<Rightarrow> Return h
      | VariantTuple types \<Rightarrow> fold_outcome (resolve_type c) types h
      | VariantStruct flds \<Rightarrow> fold_outcome (\<lambda>f. resolve_type c (field_type f)) flds h)"

definition with_generics :: "TypeScope \<Rightarrow> GenericParam list \<Rightarrow> GenericParam list \<Rightarrow> TypeScope" where
  "with_generics c outer inner = c\<lparr>ts_generics := generic_names outer inner\<rparr>"

text \<open>The shared tail of functions and methods: bounds, signature, body.\<close>

definition resolve_function_types ::
    "TypeScope \<Rightarrow> GenericParam list \<Rightarrow> GenericParam list \<Rightarrow> Param list \<Rightarrow> RuaType option
     \<Rightarrow> AstBlock option \<Rightarrow> ResolvedHir \<Rightarrow> ResolvedHir outcome" where
  "resolve_function_types c outer inner params ret body =
     (let c' = with_generics c outer inner in
      seq_outcome (resolve_trait_refs c inner)
        (seq_outcome (resolve_signature_types c' params ret)
          (\<lambda>h. case body of None \<Rightarrow> Return h | Some b \<Rightarrow> resolve_block_types c' b h)))"

definition resolve_item_types :: "TypeScope \<Rightarrow> Item \<Rightarrow> ResolvedHir \<Rightarrow> ResolvedHir outcome" where
  "resolve_item_types c item h =
     (case item of
        ItAnnotation it \<Rightarrow> resolve_signature_types c (ann_params it) None h
      | ItFn it \<Rightarrow>
          resolve_function_types c [] (fn_generics it) (fn_params it) (fn_ret it) (Some (fn_body it)) h
      | ItStruct it \<Rightarrow>
          seq_outcome (resolve_trait_refs c (struct_generics it))
            (fold_outcome
              (\<lambda>f. resolve_type (with_generics c (struct_generics it) []) (field_type f))
              (struct_fields it)) h
      | ItEnum it \<Rightarrow>
          seq_outcome (resolve_trait_refs c (enum_generics it))
            (fold_outcome (resolve_variant_types (with_generics c (enum_generics it) []))
              (enum_variants it)) h
      | ItImpl it \<Rightarrow>
          seq_outcome (resolve_trait_refs c (impl_generics it))
            (fold_outcome
              (\<lambda>f. resolve_function_types c (impl_generics it) (fn_generics f) (fn_params f) (fn_ret f)
                 (Some (fn_body f)))
              (impl_methods it)) h
      | ItTrait it \<Rightarrow>
          seq_outcome (resolve_trait_refs c (trait_generics it))
            (fold_outcome
              (\<lambda>f. resolve_function_types c (trait_generics it) (tm_generics f) (tm_params f) (tm_ret f)
                 (tm_default f))
              (trait_methods it)) h
      | ItExtern it \<Rightarrow>
          fold_outcome
            (\<lambda>f. resolve_function_types c [] (extern_generics f) (extern_params f) (extern_ret f) None)
            (extern_fns it) h
      | ItMod it \<Rightarrow> Return h
      | ItUse it \<Rightarrow> Return h)"

definition resolve_module_types ::
    "ModuleId \<Rightarrow> (bytes \<rightharpoonup> ResolvedTarget) \<Rightarrow> Item list \<Rightarrow> AstBlock \<Rightarrow> ResolvedHir
     \<Rightarrow> ResolvedHir outcome" where
  "resolve_module_types m aliases items chunk =
     (let c = \<lparr>ts_module = m, ts_aliases = aliases, ts_generics = Map.empty\<rparr> in
      seq_outcome (fold_outcome (resolve_item_types c) items)
        (\<lambda>h. resolve_block_types c chunk h))"

end
