(* ===== verification/Hir_Resolve.thy ===== *)
theory Hir_Resolve
  imports Hir_Types
begin

text \<open>
  The second half of \<open>crates/ruac/src/hir.rs\<close>: import aliases and the body resolver with its
  stack of lexical scopes. A run is \<open>None\<close> when it does not return (the visibility test
  follows parent links), \<open>Some Panic\<close> when it panics, and otherwise the state it ends in.
\<close>

section \<open>Runs\<close>

type_synonym 'r run = "'r outcome option"

definition ret_run :: "'r \<Rightarrow> 'r run" where
  "ret_run x = Some (Return x)"

fun bind_run :: "'a run \<Rightarrow> ('a \<Rightarrow> 'b run) \<Rightarrow> 'b run" where
  "bind_run None f = None"
| "bind_run (Some Panic) f = Some Panic"
| "bind_run (Some (Return x)) f = f x"

definition lift_run :: "'a outcome \<Rightarrow> 'a run" where
  "lift_run m = Some m"

fun fold_run :: "('a \<Rightarrow> 's \<Rightarrow> 's run) \<Rightarrow> 'a list \<Rightarrow> 's \<Rightarrow> 's run" where
  "fold_run f [] s = ret_run s"
| "fold_run f (x # xs) s = bind_run (f x s) (fold_run f xs)"

lemma bind_run_cong [fundef_cong]:
  assumes "m = n" and "\<And>x. n = Some (Return x) \<Longrightarrow> f x = g x"
  shows "bind_run m f = bind_run n g"
proof (cases n)
  case (Some m')
  then show ?thesis using assms by (cases m') simp_all
qed (simp add: assms)

lemma fold_run_cong [fundef_cong]:
  assumes "xs = ys" and "s = t" and "\<And>x s. x \<in> set ys \<Longrightarrow> f x s = g x s"
  shows "fold_run f xs s = fold_run g ys t"
  using assms(3) unfolding assms(1,2)
proof (induction ys arbitrary: t)
  case (Cons y ys)
  then have "f y t = g y t" and "fold_run f ys u = fold_run g ys u" for u by simp_all
  then show ?case by (auto intro: bind_run_cong)
qed simp

section \<open>The resolver\<close>

record Resolver =
  rs_hir :: ResolvedHir
  rs_module :: ModuleId
  rs_aliases :: "bytes \<rightharpoonup> ResolvedTarget"
  rs_scopes :: "(bytes \<rightharpoonup> LocalId) list"

text \<open>The innermost scope is the head of the list.\<close>

definition push_scope :: "Resolver \<Rightarrow> Resolver" where
  "push_scope s = s\<lparr>rs_scopes := Map.empty # rs_scopes s\<rparr>"

definition pop_scope :: "Resolver \<Rightarrow> Resolver" where
  "pop_scope s = s\<lparr>rs_scopes := tl (rs_scopes s)\<rparr>"

definition range_key :: "SourceRange \<Rightarrow> u32 \<times> nat \<times> nat" where
  "range_key r = (sr_file r, sr_start r, sr_len r)"

definition bind_name :: "bytes \<Rightarrow> bool \<Rightarrow> SourceRange option \<Rightarrow> Resolver \<Rightarrow> Resolver run" where
  "bind_name name is_mutable source s =
     (let h = rs_hir s;
          l = LocalId (of_nat (length (hir_locals h)));
          h1 = h\<lparr>hir_locals := hir_locals h
                 @ [\<lparr>local_id = l, local_name = name, local_module = rs_module s,
                     local_mutable = is_mutable\<rparr>]\<rparr> in
      case rs_scopes s of
        [] \<Rightarrow> Some Panic
      | scope # outer \<Rightarrow>
          let s1 = s\<lparr>rs_scopes := scope(name \<mapsto> l) # outer\<rparr> in
          case source of
            None \<Rightarrow> ret_run (s1\<lparr>rs_hir := h1\<rparr>)
          | Some r \<Rightarrow>
              lift_run (assert_outcome (hir_binding_targets h1 (range_key r) = None)
                (Return (s1\<lparr>rs_hir := h1\<lparr>hir_binding_targets :=
                   (hir_binding_targets h1)(range_key r \<mapsto> l)\<rparr>\<rparr>))))"

fun find_local :: "(bytes \<rightharpoonup> LocalId) list \<Rightarrow> bytes \<Rightarrow> LocalId option" where
  "find_local [] name = None"
| "find_local (scope # outer) name =
     (case scope name of Some l \<Rightarrow> Some l | None \<Rightarrow> find_local outer name)"

text \<open>The local at the root of an assignment target.\<close>

fun root_local_target :: "ResolvedHir \<Rightarrow> AstExpr \<Rightarrow> LocalId option" where
  "root_local_target h (AstExpr i (XPath path) sp) =
     (case hir_expression_targets h i of Some (ResolvedLocal l) \<Rightarrow> Some l | _ \<Rightarrow> None)"
| "root_local_target h (AstExpr i (XField base name optional name_span) sp) = root_local_target h base"
| "root_local_target h (AstExpr i (XIndex base index) sp) = root_local_target h base"
| "root_local_target h e = None"

definition update_hir :: "(ResolvedHir \<Rightarrow> ResolvedHir outcome) \<Rightarrow> Resolver \<Rightarrow> Resolver run" where
  "update_hir f s = lift_run (map_outcome (\<lambda>h. s\<lparr>rs_hir := h\<rparr>) (f (rs_hir s)))"

definition body_resolve_path ::
    "Resolver \<Rightarrow> Namespace \<Rightarrow> bytes list \<Rightarrow> ResolvedTarget option outcome" where
  "body_resolve_path s ns path =
     (case path of
        [] \<Rightarrow> Return None
      | head_name # rest \<Rightarrow>
          (case rs_aliases s head_name of
             None \<Rightarrow> resolve_path (rs_hir s) (rs_module s) ns path
           | Some target \<Rightarrow>
               if rest = [] then Return (Some target)
               else (case target of
                       ResolvedModule m \<Rightarrow> resolve_path (rs_hir s) m ns rest
                     | ResolvedItem owner \<Rightarrow>
                         Return (case rest of
                                   [member] \<Rightarrow> resolve_member (rs_hir s) owner member
                                 | _ \<Rightarrow> None)
                     | _ \<Rightarrow> Return None)))"

definition owner_description ::
    "ResolvedHir \<Rightarrow> bytes list \<Rightarrow> ResolvedTarget \<Rightarrow> (bytes \<times> bytes) outcome" where
  "owner_description h path owner =
     (case owner of
        ResolvedItem d \<Rightarrow>
          map_outcome
            (\<lambda>data. (def_name data, if def_kind data = KEnum then ''enum'' else ''item''))
            (hir_definition h d)
      | ResolvedModule m \<Rightarrow>
          map_outcome (\<lambda>data. (ModulePath_display (mod_path data), ''module'')) (hir_module h m)
      | _ \<Rightarrow> Return (join ''::'' (butlast path), ''item''))"

definition report_unresolved_path :: "SourceRange option \<Rightarrow> bytes list \<Rightarrow> Resolver \<Rightarrow> Resolver run" where
  "report_unresolved_path span path s =
     (let member = (if path = [] then ''<unknown>'' else last path);
          prefix = butlast path in
      bind_run
        (lift_run (if prefix = [] then Return None
                   else or_else (body_resolve_path s NsType prefix) (body_resolve_path s NsModule prefix)))
        (\<lambda>owner. case owner of
           Some target \<Rightarrow>
             bind_run (lift_run (owner_description (rs_hir s) path target)) (\<lambda>(name, kind).
               update_hir (report_unknown_member span name member kind) s)
         | None \<Rightarrow> update_hir (report_unresolved span (join ''::'' path)) s))"

definition check_access ::
    "ResolvedTarget \<Rightarrow> SourceRange option \<Rightarrow> Resolver \<Rightarrow> (ResolvedTarget \<times> Resolver) run" where
  "check_access target span s =
     bind_run (private_barrier (rs_hir s) (rs_module s) target) (\<lambda>barrier.
       case barrier of
         None \<Rightarrow> ret_run (target, s)
       | Some (name, owner) \<Rightarrow>
           bind_run (update_hir (report_private_access span name owner) s) (\<lambda>s1. ret_run (ResolvedError, s1)))"

text \<open>The tail shared by the path resolvers: check the target, or report the path.\<close>

definition access_or_report ::
    "SourceRange option \<Rightarrow> bytes list \<Rightarrow> ResolvedTarget option \<Rightarrow> Resolver
     \<Rightarrow> (ResolvedTarget \<times> Resolver) run" where
  "access_or_report span path resolved s =
     (case resolved of
        Some target \<Rightarrow> check_access target span s
      | None \<Rightarrow> bind_run (report_unresolved_path span path s) (\<lambda>s1. ret_run (ResolvedError, s1)))"

definition resolve_value :: "SourceRange \<Rightarrow> bytes list \<Rightarrow> Resolver \<Rightarrow> (ResolvedTarget \<times> Resolver) run" where
  "resolve_value span path s =
     (case (path, find_local (rs_scopes s) (hd path)) of
        ([name], Some l) \<Rightarrow> ret_run (ResolvedLocal l, s)
      | _ \<Rightarrow>
          bind_run (lift_run (body_resolve_path s NsValue path)) (\<lambda>resolved.
            access_or_report (Some span) path
              (map_option (canonical_value_target (rs_hir s)) resolved) s))"

definition resolve_struct_path :: "SourceRange \<Rightarrow> bytes list \<Rightarrow> Resolver \<Rightarrow> (ResolvedTarget \<times> Resolver) run" where
  "resolve_struct_path span path s =
     bind_run (lift_run (or_else (body_resolve_path s NsType path) (body_resolve_path s NsValue path)))
       (\<lambda>resolved. access_or_report (Some span) path resolved s)"

definition set_expression_target :: "ExprId \<Rightarrow> ResolvedTarget \<Rightarrow> Resolver \<Rightarrow> Resolver" where
  "set_expression_target i t s =
     s\<lparr>rs_hir := (rs_hir s)\<lparr>hir_expression_targets := (hir_expression_targets (rs_hir s))(i \<mapsto> t)\<rparr>\<rparr>"

definition resolve_pattern_path :: "PatternId \<Rightarrow> bytes list \<Rightarrow> Resolver \<Rightarrow> Resolver run" where
  "resolve_pattern_path i path s =
     bind_run (lift_run (or_else (body_resolve_path s NsValue path) (body_resolve_path s NsType path)))
       (\<lambda>resolved.
         bind_run
           (access_or_report None path (map_option (canonical_value_target (rs_hir s)) resolved) s)
           (\<lambda>(target, s1). ret_run (s1\<lparr>rs_hir := (rs_hir s1)
              \<lparr>hir_pattern_targets := (hir_pattern_targets (rs_hir s1))(i \<mapsto> target)\<rparr>\<rparr>)))"

text \<open>The mutability test of an assignment whose root is a local.\<close>

definition check_assignment :: "AstExpr \<Rightarrow> Resolver \<Rightarrow> Resolver run" where
  "check_assignment target s =
     (case root_local_target (rs_hir s) target of
        None \<Rightarrow> ret_run s
      | Some l \<Rightarrow>
          bind_run (lift_run (index_at (hir_locals (rs_hir s)) (LocalId_index l))) (\<lambda>data.
            if local_mutable data then ret_run s
            else update_hir (report_immutable_assignment (expr_span target) (local_name data)) s))"

definition in_scope :: "(Resolver \<Rightarrow> Resolver run) \<Rightarrow> Resolver \<Rightarrow> Resolver run" where
  "in_scope body s = bind_run (body (push_scope s)) (\<lambda>s1. ret_run (pop_scope s1))"

definition seq_run :: "('s \<Rightarrow> 's run) \<Rightarrow> ('s \<Rightarrow> 's run) \<Rightarrow> 's \<Rightarrow> 's run" where
  "seq_run f g s = bind_run (f s) g"

lemma in_scope_cong [fundef_cong]:
  assumes "s = t" and "\<And>u. f u = g u"
  shows "in_scope f s = in_scope g t"
proof -
  have "f = g" using assms(2) by blast
  with assms(1) show ?thesis by simp
qed

lemma seq_run_cong [fundef_cong]:
  assumes "s = t" and "\<And>u. f u = f' u" and "\<And>u. g u = g' u"
  shows "seq_run f g s = seq_run f' g' t"
proof -
  have "f = f'" "g = g'" using assms(2,3) by blast+
  with assms(1) show ?thesis by simp
qed

function (sequential) body_block :: "AstBlock \<Rightarrow> Resolver \<Rightarrow> Resolver run"
and body_statement :: "Stmt \<Rightarrow> Resolver \<Rightarrow> Resolver run"
and body_expression :: "AstExpr \<Rightarrow> Resolver \<Rightarrow> Resolver run"
and body_else :: "ElseBranch option \<Rightarrow> Resolver \<Rightarrow> Resolver run"
and body_pattern :: "bool \<Rightarrow> AstPattern \<Rightarrow> Resolver \<Rightarrow> Resolver run"
where
  "body_block (AstBlock stmts blanks tail tail_blank) s =
     in_scope (\<lambda>s. seq_run (fold_run (\<lambda>st. body_statement st) stmts)
       (\<lambda>s. case tail of None \<Rightarrow> ret_run s | Some e \<Rightarrow> body_expression e s) s) s"
| "body_statement (StLua code sp) s = ret_run s"
| "body_statement (StLet name name_span is_mutable ty init) s =
     seq_run (\<lambda>s. body_expression init s) (bind_name name is_mutable (Some name_span)) s"
| "body_statement (StExpr e) s = body_expression e s"
| "body_statement (StReturn val) s = (case val of None \<Rightarrow> ret_run s | Some e \<Rightarrow> body_expression e s)"
| "body_statement (StBreak val) s = (case val of None \<Rightarrow> ret_run s | Some e \<Rightarrow> body_expression e s)"
| "body_statement StContinue s = ret_run s"
| "body_statement (StWhile cond body) s =
     seq_run (\<lambda>s. body_expression cond s) (\<lambda>s. body_block body s) s"
| "body_statement (StLoop body) s = body_block body s"
| "body_statement (StFor var var_span iter body) s =
     seq_run (\<lambda>s. body_expression iter s)
       (\<lambda>s. in_scope (\<lambda>s. seq_run (bind_name var False (Some var_span)) (\<lambda>s. body_block body s) s) s) s"
| "body_statement (StWhileLet pat e body) s =
     seq_run (\<lambda>s. body_expression e s)
       (\<lambda>s. in_scope (\<lambda>s. seq_run (\<lambda>s. body_pattern True pat s) (\<lambda>s. body_block body s) s) s) s"
| "body_expression (AstExpr i (XPath path) sp) s =
     bind_run (resolve_value sp path s) (\<lambda>(target, s1). ret_run (set_expression_target i target s1))"
| "body_expression (AstExpr i (XStructLit path flds) sp) s =
     bind_run (resolve_struct_path sp path s) (\<lambda>(target, s1).
       fold_run (\<lambda>(name, val). body_expression val) flds (set_expression_target i target s1))"
| "body_expression (AstExpr i (XMapLit entries) sp) s =
     fold_run (\<lambda>(key, val). seq_run (\<lambda>s. body_expression key s) (\<lambda>s. body_expression val s)) entries s"
| "body_expression (AstExpr i (XVecLit elements) sp) s = fold_run (\<lambda>e. body_expression e) elements s"
| "body_expression (AstExpr i (XClosure params ret (ClosureExpr e)) sp) s =
     in_scope (\<lambda>s. seq_run
       (fold_run (\<lambda>p. bind_name (cparam_name p) False (Some (cparam_span p))) params)
       (\<lambda>s. body_expression e s) s) s"
| "body_expression (AstExpr i (XClosure params ret (ClosureBlock b)) sp) s =
     in_scope (\<lambda>s. seq_run
       (fold_run (\<lambda>p. bind_name (cparam_name p) False (Some (cparam_span p))) params)
       (\<lambda>s. body_block b s) s) s"
| "body_expression (AstExpr i (XUnary op e) sp) s = body_expression e s"
| "body_expression (AstExpr i (XTry e) sp) s = body_expression e s"
| "body_expression (AstExpr i (XBinary op l r) sp) s =
     seq_run (\<lambda>s. body_expression l s) (\<lambda>s. body_expression r s) s"
| "body_expression (AstExpr i (XLoop b) sp) s = body_block b s"
| "body_expression (AstExpr i (XCall callee args) sp) s =
     seq_run (\<lambda>s. body_expression callee s) (fold_run (\<lambda>e. body_expression e) args) s"
| "body_expression (AstExpr i (XMethodCall recv name optional type_args args name_span) sp) s =
     seq_run (\<lambda>s. body_expression recv s) (fold_run (\<lambda>e. body_expression e) args) s"
| "body_expression (AstExpr i (XField base name optional name_span) sp) s = body_expression base s"
| "body_expression (AstExpr i (XMatch scrut arms) sp) s =
     seq_run (\<lambda>s. body_expression scrut s)
       (fold_run (\<lambda>arm s. case arm of MatchArm pats guard_expr arm_expr \<Rightarrow>
          in_scope (seq_run (fold_run (\<lambda>p. body_pattern True p) pats)
            (seq_run (\<lambda>s. case guard_expr of None \<Rightarrow> ret_run s | Some g \<Rightarrow> body_expression g s)
               (\<lambda>s. body_expression arm_expr s))) s) arms) s"
| "body_expression (AstExpr i (XRange lo hi inclusive) sp) s =
     seq_run (\<lambda>s. body_expression lo s) (\<lambda>s. body_expression hi s) s"
| "body_expression (AstExpr i (XIndex base index) sp) s =
     seq_run (\<lambda>s. body_expression base s) (\<lambda>s. body_expression index s) s"
| "body_expression (AstExpr i (XIf cond then_block else_block) sp) s =
     seq_run (\<lambda>s. body_expression cond s)
       (seq_run (\<lambda>s. body_block then_block s) (\<lambda>s. body_else else_block s)) s"
| "body_expression (AstExpr i (XIfLet pat e then_block else_block) sp) s =
     seq_run (\<lambda>s. body_expression e s)
       (seq_run
         (\<lambda>s. in_scope (seq_run (\<lambda>s. body_pattern True pat s) (\<lambda>s. body_block then_block s)) s)
         (\<lambda>s. body_else else_block s)) s"
| "body_expression (AstExpr i (XBlock b) sp) s = body_block b s"
| "body_expression (AstExpr i (XAssign op target val) sp) s =
     seq_run (\<lambda>s. body_expression target s)
       (seq_run (check_assignment target) (\<lambda>s. body_expression val s)) s"
| "body_expression (AstExpr i (XInt text_val) sp) s = ret_run s"
| "body_expression (AstExpr i (XFloat text_val) sp) s = ret_run s"
| "body_expression (AstExpr i (XStr text_val) sp) s = ret_run s"
| "body_expression (AstExpr i (XBool b) sp) s = ret_run s"
| "body_else None s = ret_run s"
| "body_else (Some (ElseBlock b)) s = body_block b s"
| "body_else (Some (ElseIf e)) s = body_expression e s"
| "body_pattern bind PWildcard s = ret_run s"
| "body_pattern bind (PBinding name source) s =
     (if bind then bind_name name False (Some source) s else ret_run s)"
| "body_pattern bind (PLiteral e) s = body_expression e s"
| "body_pattern bind (PRange lo hi inclusive) s =
     seq_run (\<lambda>s. body_expression lo s) (\<lambda>s. body_expression hi s) s"
| "body_pattern bind (PPath i path) s = resolve_pattern_path i path s"
| "body_pattern bind (PTupleVariant i path elems) s =
     seq_run (resolve_pattern_path i path) (fold_run (\<lambda>p. body_pattern bind p) elems) s"
| "body_pattern bind (PStructVariant i path flds rest) s =
     seq_run (resolve_pattern_path i path) (fold_run (\<lambda>(name, p). body_pattern bind p) flds) s"
  by pat_completeness auto

termination
proof (relation "measure (case_sum (case_sum (\<lambda>(b, s). size b) (\<lambda>(st, s). size st))
    (case_sum (\<lambda>(e, s). size e) (case_sum (\<lambda>(br, s). size_option size br) (\<lambda>(bind, p, s). size p))))",
    simp_all)
qed (auto dest!: size_list_mem size_pair_mem size_arm_mem)

section \<open>Import aliases\<close>

definition import_local_name :: "UseImport \<Rightarrow> bytes" where
  "import_local_name i =
     (case use_alias i of
        Some name \<Rightarrow> name
      | None \<Rightarrow> if use_path i = [] then [] else last (use_path i))"

definition find_import :: "ResolvedHir \<Rightarrow> ModuleId \<Rightarrow> bytes list \<Rightarrow> ResolvedTarget option outcome" where
  "find_import h m path =
     or_else (resolve_path h m NsValue path)
       (or_else (resolve_path h m NsType path) (resolve_path h m NsModule path))"

definition import_alias_target ::
    "ModuleId \<Rightarrow> bytes list \<Rightarrow> ResolvedHir \<Rightarrow> (ResolvedTarget \<times> ResolvedHir) run" where
  "import_alias_target m path h =
     bind_run (lift_run (find_import h m path)) (\<lambda>resolved.
       let target = (case resolved of Some t \<Rightarrow> t | None \<Rightarrow> ResolvedError) in
       if target = ResolvedError
       then lift_run (map_outcome (Pair ResolvedError) (report_unresolved None (join ''::'' path) h))
       else bind_run (private_barrier h m target) (\<lambda>barrier.
         case barrier of
           Some (private, owner) \<Rightarrow>
             lift_run (map_outcome (Pair ResolvedError) (report_private_access None private owner h))
         | None \<Rightarrow> ret_run (canonical_value_target h target, h)))"

type_synonym Aliases = "bytes \<rightharpoonup> ResolvedTarget"

definition collect_import :: "ModuleId \<Rightarrow> UseImport \<Rightarrow> Aliases \<times> ResolvedHir \<Rightarrow> (Aliases \<times> ResolvedHir) run" where
  "collect_import m i s =
     bind_run (import_alias_target m (use_path i) (snd s)) (\<lambda>(target, h).
       ret_run ((fst s)(import_local_name i \<mapsto> target),
         h\<lparr>hir_imports := hir_imports h
             @ [\<lparr>import_module = m, import_name = import_local_name i, import_target = target\<rparr>]\<rparr>))"

definition collect_use :: "ModuleId \<Rightarrow> Item \<Rightarrow> Aliases \<times> ResolvedHir \<Rightarrow> (Aliases \<times> ResolvedHir) run" where
  "collect_use m item s =
     (case item of ItUse it \<Rightarrow> fold_run (collect_import m) (use_imports it) s | _ \<Rightarrow> ret_run s)"

definition collect_aliases :: "ModuleId \<Rightarrow> Item list \<Rightarrow> ResolvedHir \<Rightarrow> (Aliases \<times> ResolvedHir) run" where
  "collect_aliases m items h = fold_run (collect_use m) items (Map.empty, h)"

section \<open>The bodies of a module\<close>

definition Resolver_new :: "ResolvedHir \<Rightarrow> ModuleId \<Rightarrow> Aliases \<Rightarrow> Resolver" where
  "Resolver_new h m aliases =
     \<lparr>rs_hir = h, rs_module = m, rs_aliases = aliases, rs_scopes = []\<rparr>"

definition run_body ::
    "(Resolver \<Rightarrow> Resolver run) \<Rightarrow> ModuleId \<Rightarrow> Aliases \<Rightarrow> ResolvedHir \<Rightarrow> ResolvedHir run" where
  "run_body f m aliases h = bind_run (f (Resolver_new h m aliases)) (\<lambda>s. ret_run (rs_hir s))"

definition callable_body :: "bool \<Rightarrow> bool \<Rightarrow> Param list \<Rightarrow> AstBlock \<Rightarrow> Resolver \<Rightarrow> Resolver run" where
  "callable_body has_self receiver_mutable params body =
     in_scope
       (seq_run (if has_self then bind_name ''self'' receiver_mutable None else ret_run)
         (seq_run (fold_run (\<lambda>p. bind_name (param_name p) False (Some (param_span p))) params)
           (body_block body)))"

definition fn_body_run :: "FnDecl \<Rightarrow> Resolver \<Rightarrow> Resolver run" where
  "fn_body_run f = callable_body (fn_has_self f) (fn_receiver_mutable f) (fn_params f) (fn_body f)"

definition trait_body_run :: "TraitMethod \<Rightarrow> Resolver \<Rightarrow> Resolver run" where
  "trait_body_run t =
     (case tm_default t of
        None \<Rightarrow> ret_run
      | Some body \<Rightarrow> callable_body (tm_has_self t) (tm_receiver_mutable t) (tm_params t) body)"

fun resolve_module_bodies ::
      "ModuleId \<Rightarrow> Item list \<Rightarrow> AstBlock \<Rightarrow> ResolvedHir \<Rightarrow> ResolvedHir run"
and resolve_item_bodies :: "ModuleId \<Rightarrow> Aliases \<Rightarrow> Item \<Rightarrow> ResolvedHir \<Rightarrow> ResolvedHir run"
where
  "resolve_module_bodies m items chunk h =
     bind_run (collect_aliases m items h) (\<lambda>(aliases, h1).
       bind_run (lift_run (resolve_module_types m aliases items chunk h1)) (\<lambda>h2.
         bind_run (fold_run (\<lambda>item. resolve_item_bodies m aliases item) items h2)
           (run_body (body_block chunk) m aliases)))"
| "resolve_item_bodies m aliases (ItFn f) h = run_body (fn_body_run f) m aliases h"
| "resolve_item_bodies m aliases (ItImpl it) h =
     fold_run (\<lambda>f. run_body (fn_body_run f) m aliases) (impl_methods it) h"
| "resolve_item_bodies m aliases (ItTrait it) h =
     fold_run (\<lambda>t. run_body (trait_body_run t) m aliases) (trait_methods it) h"
| "resolve_item_bodies m aliases (ItMod (ModDecl name attrs doc items chunk order pub is_file is_decl)) h =
     bind_run (lift_run (hir_module h m)) (\<lambda>data.
       case scope_modules (mod_scope data) name of
         None \<Rightarrow> ret_run h
       | Some child \<Rightarrow> resolve_module_bodies child items chunk h)"
| "resolve_item_bodies m aliases (ItAnnotation it) h = ret_run h"
| "resolve_item_bodies m aliases (ItStruct it) h = ret_run h"
| "resolve_item_bodies m aliases (ItEnum it) h = ret_run h"
| "resolve_item_bodies m aliases (ItExtern it) h = ret_run h"
| "resolve_item_bodies m aliases (ItUse it) h = ret_run h"

definition resolve_program :: "Program \<Rightarrow> ResolvedHir run" where
  "resolve_program program =
     bind_run (lift_run (collect_declarations program)) (\<lambda>h.
       resolve_module_bodies (hir_root h) (prog_items program) (prog_chunk program) h)"

end
