(* ===== verification/Hir_Resolve_Props.thy ===== *)
theory Hir_Resolve_Props
  imports Hir_Resolve Hir_Collect_Props
begin

text \<open>
  What name resolution of bodies guarantees. A walk over a body is described by its sites: the
  places, in walk order, where it binds a local, resolves a name or a pattern path, or checks
  an assignment. \<open>walk_ok sites f\<close> says that \<open>f\<close> returns from every state that is ready for the
  sites, and what it adds; it composes along the combinators of the resolver, so the proof for
  the whole syntax is one rule per construct.
\<close>

section \<open>Sites of a body\<close>

datatype Site =
  BindSite "SourceRange option"
| NameSite ExprId "bytes list" SourceRange
| PatternSite PatternId
| AssignSite SourceRange

definition site_keys :: "Site list \<Rightarrow> (u32 \<times> nat \<times> nat) list" where
  "site_keys sites =
     concat (map (\<lambda>x. case x of BindSite (Some r) \<Rightarrow> [range_key r] | _ \<Rightarrow> []) sites)"

definition site_binds :: "Site list \<Rightarrow> nat" where
  "site_binds sites = length (filter (\<lambda>x. case x of BindSite r \<Rightarrow> True | _ \<Rightarrow> False) sites)"

definition site_names :: "Site list \<Rightarrow> (ExprId \<times> bytes list) list" where
  "site_names sites =
     concat (map (\<lambda>x. case x of NameSite i path sp \<Rightarrow> [(i, path)] | _ \<Rightarrow> []) sites)"

definition site_patterns :: "Site list \<Rightarrow> PatternId list" where
  "site_patterns sites = concat (map (\<lambda>x. case x of PatternSite i \<Rightarrow> [i] | _ \<Rightarrow> []) sites)"

definition site_spans :: "Site list \<Rightarrow> SourceRange list" where
  "site_spans sites =
     concat (map (\<lambda>x. case x of NameSite i path sp \<Rightarrow> [sp] | AssignSite sp \<Rightarrow> [sp] | _ \<Rightarrow> []) sites)"

lemmas site_defs = site_keys_def site_binds_def site_names_def site_patterns_def site_spans_def

lemma site_append [simp]:
  "site_keys (xs @ ys) = site_keys xs @ site_keys ys"
  "site_binds (xs @ ys) = site_binds xs + site_binds ys"
  "site_names (xs @ ys) = site_names xs @ site_names ys"
  "site_patterns (xs @ ys) = site_patterns xs @ site_patterns ys"
  "site_spans (xs @ ys) = site_spans xs @ site_spans ys"
  by (simp_all add: site_defs)

lemma site_empty [simp]:
  "site_keys [] = []" "site_binds [] = 0" "site_names [] = []" "site_patterns [] = []"
  "site_spans [] = []"
  by (simp_all add: site_defs)

fun block_sites :: "AstBlock \<Rightarrow> Site list"
and statement_sites :: "Stmt \<Rightarrow> Site list"
and expression_sites :: "AstExpr \<Rightarrow> Site list"
and closure_sites :: "ClosureBody \<Rightarrow> Site list"
and else_sites :: "ElseBranch \<Rightarrow> Site list"
and arm_sites :: "MatchArm \<Rightarrow> Site list"
and pattern_sites :: "AstPattern \<Rightarrow> Site list"
where
  "block_sites (AstBlock stmts blanks tail tail_blank) =
     concat (map statement_sites stmts) @ (case tail of None \<Rightarrow> [] | Some e \<Rightarrow> expression_sites e)"
| "statement_sites (StLua code sp) = []"
| "statement_sites (StLet name name_span is_mutable ty init) =
     expression_sites init @ [BindSite (Some name_span)]"
| "statement_sites (StExpr e) = expression_sites e"
| "statement_sites (StReturn val) = (case val of None \<Rightarrow> [] | Some e \<Rightarrow> expression_sites e)"
| "statement_sites (StBreak val) = (case val of None \<Rightarrow> [] | Some e \<Rightarrow> expression_sites e)"
| "statement_sites StContinue = []"
| "statement_sites (StWhile cond body) = expression_sites cond @ block_sites body"
| "statement_sites (StLoop body) = block_sites body"
| "statement_sites (StFor var var_span iter body) =
     expression_sites iter @ BindSite (Some var_span) # block_sites body"
| "statement_sites (StWhileLet pat e body) =
     expression_sites e @ pattern_sites pat @ block_sites body"
| "expression_sites (AstExpr i (XPath path) sp) = [NameSite i path sp]"
| "expression_sites (AstExpr i (XStructLit path flds) sp) =
     NameSite i path sp # concat (map (\<lambda>(name, val). expression_sites val) flds)"
| "expression_sites (AstExpr i (XMapLit entries) sp) =
     concat (map (\<lambda>(key, val). expression_sites key @ expression_sites val) entries)"
| "expression_sites (AstExpr i (XVecLit elements) sp) = concat (map expression_sites elements)"
| "expression_sites (AstExpr i (XClosure params ret body) sp) =
     map (\<lambda>p. BindSite (Some (cparam_span p))) params @ closure_sites body"
| "expression_sites (AstExpr i (XUnary op e) sp) = expression_sites e"
| "expression_sites (AstExpr i (XTry e) sp) = expression_sites e"
| "expression_sites (AstExpr i (XBinary op l r) sp) = expression_sites l @ expression_sites r"
| "expression_sites (AstExpr i (XLoop b) sp) = block_sites b"
| "expression_sites (AstExpr i (XCall callee args) sp) =
     expression_sites callee @ concat (map expression_sites args)"
| "expression_sites (AstExpr i (XMethodCall recv name optional type_args args name_span) sp) =
     expression_sites recv @ concat (map expression_sites args)"
| "expression_sites (AstExpr i (XField base name optional name_span) sp) = expression_sites base"
| "expression_sites (AstExpr i (XMatch scrut arms) sp) =
     expression_sites scrut @ concat (map arm_sites arms)"
| "expression_sites (AstExpr i (XRange lo hi inclusive) sp) =
     expression_sites lo @ expression_sites hi"
| "expression_sites (AstExpr i (XIndex base index) sp) =
     expression_sites base @ expression_sites index"
| "expression_sites (AstExpr i (XIf cond then_block else_block) sp) =
     expression_sites cond @ block_sites then_block
     @ (case else_block of None \<Rightarrow> [] | Some b \<Rightarrow> else_sites b)"
| "expression_sites (AstExpr i (XIfLet pat e then_block else_block) sp) =
     expression_sites e @ (pattern_sites pat @ block_sites then_block)
     @ (case else_block of None \<Rightarrow> [] | Some b \<Rightarrow> else_sites b)"
| "expression_sites (AstExpr i (XBlock b) sp) = block_sites b"
| "expression_sites (AstExpr i (XAssign op target val) sp) =
     expression_sites target @ AssignSite (expr_span target) # expression_sites val"
| "expression_sites (AstExpr i (XInt val) sp) = []"
| "expression_sites (AstExpr i (XFloat val) sp) = []"
| "expression_sites (AstExpr i (XStr val) sp) = []"
| "expression_sites (AstExpr i (XBool b) sp) = []"
| "closure_sites (ClosureExpr e) = expression_sites e"
| "closure_sites (ClosureBlock b) = block_sites b"
| "else_sites (ElseBlock b) = block_sites b"
| "else_sites (ElseIf e) = expression_sites e"
| "arm_sites (MatchArm pats guard_expr arm_expr) =
     concat (map pattern_sites pats)
     @ (case guard_expr of None \<Rightarrow> [] | Some g \<Rightarrow> expression_sites g) @ expression_sites arm_expr"
| "pattern_sites PWildcard = []"
| "pattern_sites (PBinding name source) = [BindSite (Some source)]"
| "pattern_sites (PLiteral e) = expression_sites e"
| "pattern_sites (PRange lo hi inclusive) = expression_sites lo @ expression_sites hi"
| "pattern_sites (PPath i path) = [PatternSite i]"
| "pattern_sites (PTupleVariant i path elems) = PatternSite i # concat (map pattern_sites elems)"
| "pattern_sites (PStructVariant i path flds rest) =
     PatternSite i # concat (map (\<lambda>(name, p). pattern_sites p) flds)"

section \<open>States of the resolver\<close>

definition local_ok :: "ResolvedHir \<Rightarrow> ModuleId \<Rightarrow> bytes \<Rightarrow> LocalId \<Rightarrow> bool" where
  "local_ok h m name l \<longleftrightarrow>
     LocalId_index l < length (hir_locals h)
     \<and> local_name (hir_locals h ! LocalId_index l) = name
     \<and> local_module (hir_locals h ! LocalId_index l) = m"

text \<open>A name resolves to a local of that name and module, or to a target of the tables.\<close>

definition name_ok :: "ResolvedHir \<Rightarrow> ModuleId \<Rightarrow> bytes list \<Rightarrow> ResolvedTarget \<Rightarrow> bool" where
  "name_ok h m path t \<longleftrightarrow>
     table_target h t \<or> (\<exists>name l. path = [name] \<and> t = ResolvedLocal l \<and> local_ok h m name l)"

definition resolver_ok :: "Resolver \<Rightarrow> bool" where
  "resolver_ok s \<longleftrightarrow>
     wf_hir (rs_hir s) \<and> module_ok (rs_hir s) (rs_module s)
     \<and> (\<forall>t \<in> ran (rs_aliases s). table_target (rs_hir s) t)
     \<and> (\<forall>sc \<in> set (rs_scopes s). \<forall>name l. sc name = Some l
          \<longrightarrow> local_ok (rs_hir s) (rs_module s) name l)
     \<and> (\<forall>l. ResolvedLocal l \<in> ran (hir_expression_targets (rs_hir s))
          \<longrightarrow> LocalId_index l < length (hir_locals (rs_hir s)))"

definition span_fits :: "SourceRange \<Rightarrow> bool" where
  "span_fits r \<longleftrightarrow> sr_start r + sr_len r < 2 ^ 32"

definition ready :: "Site list \<Rightarrow> ResolvedHir \<Rightarrow> bool" where
  "ready sites h \<longleftrightarrow>
     distinct (site_keys sites) \<and> set (site_keys sites) \<inter> dom (hir_binding_targets h) = {}
     \<and> distinct (map fst (site_names sites))
     \<and> fst ` set (site_names sites) \<inter> dom (hir_expression_targets h) = {}
     \<and> (\<forall>r \<in> set (site_spans sites). span_fits r)
     \<and> length (hir_locals h) + site_binds sites \<le> 2 ^ 32"

text \<open>What a walk over the bodies of the modules \<open>ms\<close> adds to the tables.\<close>

definition adds :: "ModuleId set \<Rightarrow> Site list \<Rightarrow> ResolvedHir \<Rightarrow> ResolvedHir \<Rightarrow> bool" where
  "adds ms sites h h' \<longleftrightarrow>
     quiet_update h h'
     \<and> (\<exists>ls. hir_locals h' = hir_locals h @ ls \<and> length ls = site_binds sites)
     \<and> dom (hir_binding_targets h') = dom (hir_binding_targets h) \<union> set (site_keys sites)
     \<and> dom (hir_pattern_targets h') = dom (hir_pattern_targets h) \<union> set (site_patterns sites)
     \<and> hir_expression_targets h \<subseteq>\<^sub>m hir_expression_targets h'
     \<and> dom (hir_expression_targets h')
         = dom (hir_expression_targets h) \<union> fst ` set (site_names sites)
     \<and> (\<forall>(i, path) \<in> set (site_names sites).
          \<exists>t. hir_expression_targets h' i = Some t \<and> (\<exists>m \<in> ms. name_ok h' m path t))"

definition walk_ok :: "Site list \<Rightarrow> (Resolver \<Rightarrow> Resolver run) \<Rightarrow> bool" where
  "walk_ok sites f \<longleftrightarrow>
     (\<forall>s. resolver_ok s \<and> rs_scopes s \<noteq> [] \<and> ready sites (rs_hir s) \<longrightarrow>
        (\<exists>s'. f s = Some (Return s') \<and> resolver_ok s' \<and> adds {rs_module s} sites (rs_hir s) (rs_hir s')
          \<and> rs_module s' = rs_module s \<and> rs_aliases s' = rs_aliases s
          \<and> length (rs_scopes s') = length (rs_scopes s) \<and> tl (rs_scopes s') = tl (rs_scopes s)))"

lemma quiet_update_refl [simp]: "quiet_update h h"
  by (simp add: quiet_update_def)

lemma quiet_update_trans: "quiet_update a b \<Longrightarrow> quiet_update b c \<Longrightarrow> quiet_update a c"
  by (simp add: quiet_update_def)

lemma quiet_update_ok:
  assumes "quiet_update h h'"
  shows "module_ok h' = module_ok h" and "table_target h' = table_target h"
  using assms target_ok_cong [of h' h]
  by (auto simp: quiet_update_def module_ok_def table_target_def fun_eq_iff)

lemma local_ok_append:
  "local_ok h m name l \<Longrightarrow> hir_locals h' = hir_locals h @ ls \<Longrightarrow> local_ok h' m name l"
  by (auto simp: local_ok_def nth_append)

lemma name_ok_mono:
  assumes "name_ok h m path t" and "quiet_update h h'" and "hir_locals h' = hir_locals h @ ls"
  shows "name_ok h' m path t"
  using assms local_ok_append [OF _ assms(3)] by (auto simp: name_ok_def quiet_update_ok(2))

lemma adds_refl [simp]: "adds ms [] h h"
  by (simp add: adds_def)

lemma adds_trans:
  assumes "adds ms xs h1 h2" and "adds ms ys h2 h3"
  shows "adds ms (xs @ ys) h1 h3"
proof -
  obtain ls where ls: "hir_locals h2 = hir_locals h1 @ ls" "length ls = site_binds xs"
    using assms(1) by (auto simp: adds_def)
  obtain ks where ks: "hir_locals h3 = hir_locals h2 @ ks" "length ks = site_binds ys"
    using assms(2) by (auto simp: adds_def)
  have le: "hir_expression_targets h2 \<subseteq>\<^sub>m hir_expression_targets h3" and q: "quiet_update h2 h3"
    using assms(2) by (auto simp: adds_def)
  have names: "\<exists>t. hir_expression_targets h3 i = Some t \<and> (\<exists>m \<in> ms. name_ok h3 m path t)"
    if "(i, path) \<in> set (site_names xs)" for i path
  proof -
    obtain t m where "hir_expression_targets h2 i = Some t" "m \<in> ms" "name_ok h2 m path t"
      using assms(1) \<open>(i, path) \<in> set (site_names xs)\<close> by (fastforce simp: adds_def)
    with le name_ok_mono [OF _ q ks(1)] show ?thesis by (force simp: map_le_def)
  qed
  show ?thesis
    using assms ls ks names
    by (auto simp: adds_def intro: quiet_update_trans map_le_trans)
qed

lemma adds_mono: "adds ms sites h h' \<Longrightarrow> ms \<subseteq> ms' \<Longrightarrow> adds ms' sites h h'"
  by (fastforce simp: adds_def)

lemma ready_append:
  "ready (xs @ ys) h \<Longrightarrow> ready xs h"
  "ready (xs @ ys) h \<Longrightarrow> adds ms xs h h' \<Longrightarrow> ready ys h'"
  by (auto simp: ready_def adds_def)

lemma walk_okI:
  assumes "\<And>s. resolver_ok s \<Longrightarrow> rs_scopes s \<noteq> [] \<Longrightarrow> ready sites (rs_hir s) \<Longrightarrow>
      \<exists>s'. f s = Some (Return s') \<and> resolver_ok s' \<and> adds {rs_module s} sites (rs_hir s) (rs_hir s')
        \<and> rs_module s' = rs_module s \<and> rs_aliases s' = rs_aliases s
        \<and> length (rs_scopes s') = length (rs_scopes s) \<and> tl (rs_scopes s') = tl (rs_scopes s)"
  shows "walk_ok sites f"
  using assms by (simp add: walk_ok_def)

lemma walk_okE:
  assumes "walk_ok sites f" and "resolver_ok s" and "rs_scopes s \<noteq> []" and "ready sites (rs_hir s)"
  obtains s' where "f s = Some (Return s')" and "resolver_ok s'"
    and "adds {rs_module s} sites (rs_hir s) (rs_hir s')"
    and "rs_module s' = rs_module s" and "rs_aliases s' = rs_aliases s"
    and "length (rs_scopes s') = length (rs_scopes s)" and "tl (rs_scopes s') = tl (rs_scopes s)"
  using assms by (auto simp: walk_ok_def)

section \<open>Composing walks\<close>

named_theorems walks

lemma walk_ret [walks]: "walk_ok [] ret_run" "walk_ok [] (\<lambda>s. ret_run s)"
  by (auto simp: walk_ok_def ret_run_def)

lemma walk_seq [walks]:
  assumes "walk_ok xs f" and "walk_ok ys g"
  shows "walk_ok (xs @ ys) (seq_run f g)"
proof (rule walk_okI)
  fix s assume s: "resolver_ok s" "rs_scopes s \<noteq> []" "ready (xs @ ys) (rs_hir s)"
  obtain s1 where s1: "f s = Some (Return s1)" "resolver_ok s1"
      "adds {rs_module s} xs (rs_hir s) (rs_hir s1)"
      "rs_module s1 = rs_module s" "rs_aliases s1 = rs_aliases s"
      "length (rs_scopes s1) = length (rs_scopes s)" "tl (rs_scopes s1) = tl (rs_scopes s)"
    using walk_okE [OF assms(1) s(1,2) ready_append(1) [OF s(3)]] by metis
  have ne: "rs_scopes s1 \<noteq> []" using s1(6) s(2) by auto
  obtain s2 where s2: "g s1 = Some (Return s2)" "resolver_ok s2"
      "adds {rs_module s1} ys (rs_hir s1) (rs_hir s2)"
      "rs_module s2 = rs_module s1" "rs_aliases s2 = rs_aliases s1"
      "length (rs_scopes s2) = length (rs_scopes s1)" "tl (rs_scopes s2) = tl (rs_scopes s1)"
    using walk_okE [OF assms(2) s1(2) ne ready_append(2) [OF s(3) s1(3)]] by metis
  show "\<exists>s'. seq_run f g s = Some (Return s') \<and> resolver_ok s'
      \<and> adds {rs_module s} (xs @ ys) (rs_hir s) (rs_hir s')
      \<and> rs_module s' = rs_module s \<and> rs_aliases s' = rs_aliases s
      \<and> length (rs_scopes s') = length (rs_scopes s) \<and> tl (rs_scopes s') = tl (rs_scopes s)"
    using s1 s2 adds_trans [OF s1(3), of ys "rs_hir s2"] by (auto simp: seq_run_def)
qed

lemma walk_seq_Cons [walks]:
  "walk_ok [x] f \<Longrightarrow> walk_ok ys g \<Longrightarrow> walk_ok (x # ys) (seq_run f g)"
  using walk_seq [of "[x]" f ys g] by simp

lemma fold_run_as_seq:
  "fold_run f [] = ret_run" "fold_run f (x # xs) = seq_run (f x) (fold_run f xs)"
  by (auto simp: seq_run_def fun_eq_iff)

lemma walk_fold [walks]:
  assumes "\<And>x. x \<in> set xs \<Longrightarrow> walk_ok (sites x) (f x)"
  shows "walk_ok (concat (map sites xs)) (fold_run f xs)"
  using assms by (induction xs) (simp_all add: fold_run_as_seq walks)

text \<open>A scope can be opened on an empty stack, and closing it restores the stack.\<close>

lemma in_scope_returns:
  assumes "walk_ok sites f" and "resolver_ok s" and "ready sites (rs_hir s)"
  shows "\<exists>s'. in_scope f s = Some (Return s') \<and> resolver_ok s'
           \<and> adds {rs_module s} sites (rs_hir s) (rs_hir s')
           \<and> rs_module s' = rs_module s \<and> rs_aliases s' = rs_aliases s \<and> rs_scopes s' = rs_scopes s"
proof -
  have push: "resolver_ok (push_scope s)" using assms(2) by (simp add: resolver_ok_def push_scope_def)
  obtain s1 where s1: "f (push_scope s) = Some (Return s1)" "resolver_ok s1"
      "adds {rs_module s} sites (rs_hir s) (rs_hir s1)"
      "rs_module s1 = rs_module s" "rs_aliases s1 = rs_aliases s" "tl (rs_scopes s1) = rs_scopes s"
    by (rule walk_okE [OF assms(1) push]) (use assms(3) in \<open>auto simp: push_scope_def\<close>)
  have "resolver_ok (pop_scope s1)"
    using s1(2) by (cases "rs_scopes s1") (auto simp: resolver_ok_def pop_scope_def)
  with s1 show ?thesis by (auto simp: in_scope_def pop_scope_def ret_run_def)
qed

lemma walk_scope [walks]: "walk_ok sites f \<Longrightarrow> walk_ok sites (in_scope f)"
  using in_scope_returns by (intro walk_okI) fastforce

section \<open>Binding a local\<close>

lemma local_ok_new:
  assumes "length (hir_locals h) < 2 ^ 32"
  shows "local_ok (h\<lparr>hir_locals := hir_locals h @ [\<lparr>local_id = l', local_name = name,
      local_module = m, local_mutable = mut\<rparr>], hir_binding_targets := bt\<rparr>) m name
      (LocalId (of_nat (length (hir_locals h))))"
proof -
  have "unat (of_nat (length (hir_locals h)) :: u32) = length (hir_locals h)"
    using assms by (simp add: unat_of_nat)
  then show ?thesis by (simp add: local_ok_def LocalId_index_def nth_append)
qed

lemma wf_hir_quiet: "quiet_update h h' \<Longrightarrow> wf_hir h \<Longrightarrow> wf_hir h'"
  using quiet_update_wf(1) by blast

text \<open>An update that only adds locals and use-site targets keeps the resolver well formed.\<close>

lemma resolver_ok_update:
  assumes "resolver_ok s" and "quiet_update (rs_hir s) h'"
    and "hir_locals h' = hir_locals (rs_hir s) @ ls"
    and "\<forall>sc \<in> set scopes. \<forall>name l. sc name = Some l \<longrightarrow> local_ok h' (rs_module s) name l"
    and "\<And>l. ResolvedLocal l \<in> ran (hir_expression_targets h') \<Longrightarrow> LocalId_index l < length (hir_locals h')"
  shows "resolver_ok (s\<lparr>rs_hir := h', rs_scopes := scopes\<rparr>)"
  using assms wf_hir_quiet [OF assms(2)] quiet_update_ok [OF assms(2)]
  by (simp add: resolver_ok_def)

lemma walk_bind [walks]: "walk_ok [BindSite source] (bind_name name mut source)"
proof (rule walk_okI)
  fix s assume s: "resolver_ok s" "rs_scopes s \<noteq> []" "ready [BindSite source] (rs_hir s)"
  let ?h = "rs_hir s" and ?m = "rs_module s"
  let ?l = "LocalId (of_nat (length (hir_locals ?h)))"
  let ?new = "\<lparr>local_id = ?l, local_name = name, local_module = ?m, local_mutable = mut\<rparr>"
  obtain scope outer where sc: "rs_scopes s = scope # outer" using s(2) by (cases "rs_scopes s") auto
  let ?scopes = "scope(name \<mapsto> ?l) # outer"
  define bt where "bt = (case source of None \<Rightarrow> hir_binding_targets ?h
    | Some r \<Rightarrow> (hir_binding_targets ?h)(range_key r \<mapsto> ?l))"
  let ?h' = "?h\<lparr>hir_locals := hir_locals ?h @ [?new], hir_binding_targets := bt\<rparr>"
  have free: "hir_binding_targets ?h (range_key r) = None" if "source = Some r" for r
    using s(3) that by (auto simp: ready_def site_defs)
  have run: "bind_name name mut source s = Some (Return (s\<lparr>rs_hir := ?h', rs_scopes := ?scopes\<rparr>))"
    using free sc by (auto simp: bind_name_def Let_def bt_def ret_run_def lift_run_def split: option.split)
  have lt: "length (hir_locals ?h) < 2 ^ 32" using s(3) by (simp add: ready_def site_defs)
  have new: "local_ok ?h' ?m name ?l" by (rule local_ok_new [OF lt])
  have old: "local_ok ?h' ?m n l" if "local_ok ?h ?m n l" for n l
    using local_ok_append [OF that, of ?h' "[?new]"] by simp
  have ok: "resolver_ok (s\<lparr>rs_hir := ?h', rs_scopes := ?scopes\<rparr>)"
  proof (rule resolver_ok_update [OF s(1)])
    show "\<forall>sc \<in> set ?scopes. \<forall>n l. sc n = Some l \<longrightarrow> local_ok ?h' ?m n l"
      using s(1) sc new old by (auto simp: resolver_ok_def split: if_splits)
    show "LocalId_index l < length (hir_locals ?h')"
      if "ResolvedLocal l \<in> ran (hir_expression_targets ?h')" for l
    proof -
      have "LocalId_index l < length (hir_locals ?h)" using s(1) that by (simp add: resolver_ok_def)
      then show ?thesis by simp
    qed
  qed (simp_all add: quiet_update_def)
  have "adds {?m} [BindSite source] ?h ?h'"
    by (auto simp: adds_def quiet_update_def site_defs bt_def split: option.splits)
  with run ok sc show "\<exists>s'. bind_name name mut source s = Some (Return s') \<and> resolver_ok s'
      \<and> adds {?m} [BindSite source] ?h (rs_hir s')
      \<and> rs_module s' = ?m \<and> rs_aliases s' = rs_aliases s
      \<and> length (rs_scopes s') = length (rs_scopes s) \<and> tl (rs_scopes s') = tl (rs_scopes s)"
    by simp
qed

section \<open>Reports and access checks\<close>

text \<open>A report returns and only appends a diagnostic.\<close>

definition noted :: "ResolvedHir \<Rightarrow> ResolvedHir \<Rightarrow> bool" where
  "noted h h' \<longleftrightarrow> (\<exists>ds. h' = h\<lparr>hir_diagnostics := ds\<rparr>)"

definition span_option_fits :: "SourceRange option \<Rightarrow> bool" where
  "span_option_fits span \<longleftrightarrow> (\<forall>r \<in> set_option span. span_fits r)"

lemma span_range_returns:
  assumes "span_option_fits span"
  shows "\<exists>r. span_range span = Return r"
proof (cases span)
  case (Some r)
  then have "sr_start r + sr_len r < 2 ^ 32"
    using assms by (simp add: span_option_fits_def span_fits_def)
  then have "unat (of_nat (sr_start r) :: u32) + unat (of_nat (sr_len r) :: u32) < 2 ^ 32"
    by (simp add: unat_of_nat)
  then show ?thesis
    using Some by (simp add: span_range_def map_outcome_Return_iff TextRange_at_Return)
qed (simp add: span_range_def)

lemma reports_return:
  assumes "span_option_fits span"
  shows "\<exists>h'. report_unresolved span name h = Return h' \<and> noted h h'"
    and "\<exists>h'. report_unknown_member span owner member kind h = Return h' \<and> noted h h'"
    and "\<exists>h'. report_private_access span name owner h = Return h' \<and> noted h h'"
    and "span = Some r \<Longrightarrow> \<exists>h'. report_immutable_assignment r name h = Return h' \<and> noted h h'"
  using span_range_returns [OF assms]
  by (auto simp: report_unresolved_def report_unknown_member_def report_private_access_def
      report_immutable_assignment_def diagnostic_at_def noted_def push_diagnostic_def)

lemma noted_quiet: "noted h h' \<Longrightarrow> quiet_update h h'"
  by (auto simp: noted_def quiet_update_def)

lemma update_reports:
  assumes "span_option_fits span"
  shows "\<exists>h'. update_hir (report_unresolved span name) s = Some (Return (s\<lparr>rs_hir := h'\<rparr>))
           \<and> noted (rs_hir s) h'"
    and "\<exists>h'. update_hir (report_unknown_member span owner member kind) s
             = Some (Return (s\<lparr>rs_hir := h'\<rparr>)) \<and> noted (rs_hir s) h'"
    and "\<exists>h'. update_hir (report_private_access span name owner) s = Some (Return (s\<lparr>rs_hir := h'\<rparr>))
           \<and> noted (rs_hir s) h'"
    and "span = Some r \<Longrightarrow> \<exists>h'. update_hir (report_immutable_assignment r name) s
             = Some (Return (s\<lparr>rs_hir := h'\<rparr>)) \<and> noted (rs_hir s) h'"
  using reports_return(1) [OF assms, of name "rs_hir s"]
    reports_return(2) [OF assms, of owner member kind "rs_hir s"]
    reports_return(3) [OF assms, of name owner "rs_hir s"]
    reports_return(4) [OF assms, of r name "rs_hir s"]
  by (auto simp: update_hir_def lift_run_def)

lemma canonical_table_target: "table_target h t \<Longrightarrow> table_target h (canonical_value_target h t)"
  by (auto simp: canonical_value_target_def split: ResolvedTarget.splits option.splits LanguageItem.splits)

lemma body_resolve_path_safe:
  assumes "resolver_ok s"
  shows "safe_lookup (rs_hir s) (body_resolve_path s ns path)"
proof (cases path)
  case (Cons head_name rest)
  have wf: "wf_hir (rs_hir s)" and m: "module_ok (rs_hir s) (rs_module s)"
    using assms by (simp_all add: resolver_ok_def)
  show ?thesis
  proof (cases "rs_aliases s head_name")
    case None
    with Cons show ?thesis by (simp add: body_resolve_path_def resolve_path_lookup [OF wf m])
  next
    case (Some t)
    then have t: "table_target (rs_hir s) t" using assms by (auto simp: resolver_ok_def ran_def)
    note member = resolve_member_safe [OF wf]
    show ?thesis
      using Cons Some t member resolve_path_lookup [OF wf]
      by (cases t) (auto simp: body_resolve_path_def split: list.split)
  qed
qed (simp add: body_resolve_path_def)

lemma owner_description_returns:
  assumes "wf_hir h" and "table_target h t"
  shows "\<exists>name kind. owner_description h path t = Return (name, kind)"
proof (cases t)
  case (ResolvedItem d)
  with assms(2) have "def_ok h d" by simp
  from hir_definition_ok [OF assms(1) this] obtain data where "hir_definition h d = Return data" by metis
  with ResolvedItem show ?thesis by (simp add: owner_description_def)
next
  case (ResolvedModule m)
  with assms(2) have "module_ok h m" by simp
  from hir_module_ok [OF assms(1) this] obtain data where "hir_module h m = Return data" by metis
  with ResolvedModule show ?thesis by (simp add: owner_description_def)
qed (simp_all add: owner_description_def)

lemma report_unresolved_path_returns:
  assumes "resolver_ok s" and "span_option_fits span"
  shows "\<exists>h'. report_unresolved_path span path s = Some (Return (s\<lparr>rs_hir := h'\<rparr>)) \<and> noted (rs_hir s) h'"
proof -
  let ?owner = "if butlast path = [] then Return None
    else or_else (body_resolve_path s NsType (butlast path)) (body_resolve_path s NsModule (butlast path))"
  have "safe_lookup (rs_hir s) ?owner"
    by (simp add: body_resolve_path_safe [OF assms(1)] safe_lookup_or_else)
  then obtain r where r: "?owner = Return r" "\<forall>t \<in> set_option r. table_target (rs_hir s) t"
    by (auto simp: safe_lookup_def)
  show ?thesis
  proof (cases r)
    case None
    with r show ?thesis
      using update_reports(1) [OF assms(2)]
      by (simp add: report_unresolved_path_def Let_def lift_run_def)
  next
    case (Some t)
    obtain name kind where "owner_description (rs_hir s) path t = Return (name, kind)"
      using owner_description_returns assms(1) r(2) Some by (fastforce simp: resolver_ok_def)
    with Some r(1) show ?thesis
      using update_reports(2) [OF assms(2)]
      by (simp add: report_unresolved_path_def Let_def lift_run_def)
  qed
qed

lemma access_or_report_returns:
  assumes "resolver_ok s" and "span_option_fits span" and "\<forall>t \<in> set_option r. table_target (rs_hir s) t"
  shows "\<exists>t h'. access_or_report span path r s = Some (Return (t, s\<lparr>rs_hir := h'\<rparr>))
           \<and> table_target (rs_hir s) t \<and> noted (rs_hir s) h'"
proof (cases r)
  case None
  then show ?thesis
    using report_unresolved_path_returns [OF assms(1,2), of path]
    by (auto simp: access_or_report_def ret_run_def)
next
  case (Some t)
  then have t: "table_target (rs_hir s) t" using assms(3) by simp
  have wf: "wf_hir (rs_hir s)" and m: "module_ok (rs_hir s) (rs_module s)"
    using assms(1) by (simp_all add: resolver_ok_def)
  obtain b where b: "private_barrier (rs_hir s) (rs_module s) t = Some (Return b)"
    using private_barrier_returns [OF wf m, of t] t by (auto simp: table_target_def)
  show ?thesis
  proof (cases b)
    case None
    with Some b t show ?thesis
      by (auto simp: access_or_report_def check_access_def ret_run_def noted_def intro!: exI [of _ "rs_hir s"] exI [of _ "hir_diagnostics (rs_hir s)"])
  next
    case (Some barrier)
    obtain name owner where "barrier = (name, owner)" by (cases barrier)
    with Some \<open>r = Some t\<close> b show ?thesis
      using update_reports(3) [OF assms(2), of name owner s]
      by (auto simp: access_or_report_def check_access_def ret_run_def)
  qed
qed

section \<open>Names, patterns and assignments\<close>

lemma bind_run_assoc: "bind_run (bind_run m f) g = bind_run m (\<lambda>x. bind_run (f x) g)"
  by (cases "(m, f)" rule: bind_run.cases) simp_all

lemma find_local_scope:
  "find_local scopes name = Some l \<Longrightarrow> \<exists>sc \<in> set scopes. sc name = Some l"
  by (induction scopes) (auto split: option.splits)

lemma resolve_value_returns:
  assumes "resolver_ok s" and "span_fits span"
  shows "\<exists>t h'. resolve_value span path s = Some (Return (t, s\<lparr>rs_hir := h'\<rparr>))
           \<and> name_ok (rs_hir s) (rs_module s) path t \<and> noted (rs_hir s) h'"
proof (cases "\<exists>name l. path = [name] \<and> find_local (rs_scopes s) name = Some l")
  case True
  then obtain name l where l: "path = [name]" "find_local (rs_scopes s) name = Some l" by blast
  then have "local_ok (rs_hir s) (rs_module s) name l"
    using assms(1) find_local_scope [OF l(2)] by (auto simp: resolver_ok_def)
  with l show ?thesis
    by (auto simp: resolve_value_def ret_run_def name_ok_def noted_def
        intro!: exI [of _ "rs_hir s"] exI [of _ "hir_diagnostics (rs_hir s)"])
next
  case False
  obtain r where r: "body_resolve_path s NsValue path = Return r"
      "\<forall>t \<in> set_option r. table_target (rs_hir s) t"
    using body_resolve_path_safe [OF assms(1), of NsValue path] by (auto simp: safe_lookup_def)
  have "resolve_value span path s
      = access_or_report (Some span) path (map_option (canonical_value_target (rs_hir s)) r) s"
    using False r(1) by (auto simp: resolve_value_def lift_run_def split: list.splits option.splits)
  then show ?thesis
    using access_or_report_returns [OF assms(1), of "Some span"
        "map_option (canonical_value_target (rs_hir s)) r" path] r(2) assms(2)
    by (auto simp: span_option_fits_def canonical_table_target name_ok_def option.set_map)
qed

lemma resolve_struct_path_returns:
  assumes "resolver_ok s" and "span_fits span"
  shows "\<exists>t h'. resolve_struct_path span path s = Some (Return (t, s\<lparr>rs_hir := h'\<rparr>))
           \<and> name_ok (rs_hir s) (rs_module s) path t \<and> noted (rs_hir s) h'"
proof -
  have "safe_lookup (rs_hir s)
      (or_else (body_resolve_path s NsType path) (body_resolve_path s NsValue path))"
    by (intro safe_lookup_or_else body_resolve_path_safe assms)
  then obtain r where r: "or_else (body_resolve_path s NsType path) (body_resolve_path s NsValue path)
      = Return r" "\<forall>t \<in> set_option r. table_target (rs_hir s) t"
    by (auto simp: safe_lookup_def)
  then show ?thesis
    using access_or_report_returns [OF assms(1), of "Some span" r path] assms(2)
    by (auto simp: resolve_struct_path_def lift_run_def span_option_fits_def name_ok_def)
qed

text \<open>Recording the target of a name.\<close>

lemma walk_target:
  assumes "\<And>s. resolver_ok s \<Longrightarrow> span_fits sp \<Longrightarrow>
      \<exists>t h'. f s = Some (Return (t, s\<lparr>rs_hir := h'\<rparr>))
        \<and> name_ok (rs_hir s) (rs_module s) path t \<and> noted (rs_hir s) h'"
  shows "walk_ok [NameSite i path sp]
           (\<lambda>s. bind_run (f s) (\<lambda>(t, s1). ret_run (set_expression_target i t s1)))"
proof (rule walk_okI)
  fix s assume s: "resolver_ok s" "rs_scopes s \<noteq> []" "ready [NameSite i path sp] (rs_hir s)"
  let ?h = "rs_hir s"
  have sp: "span_fits sp" and fresh: "hir_expression_targets ?h i = None"
    using s(3) by (auto simp: ready_def site_defs)
  obtain t h1 where run: "f s = Some (Return (t, s\<lparr>rs_hir := h1\<rparr>))"
      and t: "name_ok ?h (rs_module s) path t" and "noted ?h h1"
    using assms [OF s(1) sp] by blast
  then obtain ds where h1: "h1 = ?h\<lparr>hir_diagnostics := ds\<rparr>" by (auto simp: noted_def)
  let ?h' = "h1\<lparr>hir_expression_targets := (hir_expression_targets h1)(i \<mapsto> t)\<rparr>"
  have q: "quiet_update ?h ?h'" by (simp add: h1 quiet_update_def)
  have loc: "hir_locals ?h' = hir_locals ?h @ []" by (simp add: h1)
  note mono = name_ok_mono [OF _ q loc] local_ok_append [OF _ loc]
  have ok: "resolver_ok (s\<lparr>rs_hir := ?h', rs_scopes := rs_scopes s\<rparr>)"
  proof (rule resolver_ok_update [OF s(1) q loc])
    show "\<forall>sc \<in> set (rs_scopes s). \<forall>n l. sc n = Some l \<longrightarrow> local_ok ?h' (rs_module s) n l"
      using s(1) mono(2) by (simp add: resolver_ok_def)
    show "LocalId_index l < length (hir_locals ?h')"
      if "ResolvedLocal l \<in> ran (hir_expression_targets ?h')" for l
    proof -
      have "ResolvedLocal l = t \<or> ResolvedLocal l \<in> ran (hir_expression_targets ?h)"
        using subsetD [OF ran_upd_subset, of "ResolvedLocal l" "hir_expression_targets ?h" i t] that
        by (simp add: h1)
      moreover have "LocalId_index l < length (hir_locals ?h)" if "ResolvedLocal l = t"
        using t by (simp add: that [symmetric] name_ok_def local_ok_def)
      ultimately show ?thesis using s(1) by (auto simp: h1 resolver_ok_def)
    qed
  qed
  have "adds {rs_module s} [NameSite i path sp] ?h ?h'"
    using q fresh mono(1) [OF t] by (auto simp: adds_def site_defs h1 map_le_def)
  with run ok show "\<exists>s'. bind_run (f s) (\<lambda>(t, s1). ret_run (set_expression_target i t s1)) = Some (Return s')
      \<and> resolver_ok s' \<and> adds {rs_module s} [NameSite i path sp] ?h (rs_hir s')
      \<and> rs_module s' = rs_module s \<and> rs_aliases s' = rs_aliases s
      \<and> length (rs_scopes s') = length (rs_scopes s) \<and> tl (rs_scopes s') = tl (rs_scopes s)"
    by (simp add: ret_run_def set_expression_target_def)
qed

lemmas walk_value [walks] = walk_target [OF resolve_value_returns]
lemmas walk_struct_path = walk_target [OF resolve_struct_path_returns]

text \<open>Steps that keep the locals and the expression targets.\<close>

lemma resolver_ok_quiet:
  assumes "resolver_ok s" and "quiet_update (rs_hir s) h'" and "hir_locals h' = hir_locals (rs_hir s)"
    and "hir_expression_targets h' = hir_expression_targets (rs_hir s)"
  shows "resolver_ok (s\<lparr>rs_hir := h'\<rparr>)"
proof -
  have loc: "hir_locals h' = hir_locals (rs_hir s) @ []" using assms(3) by simp
  have "resolver_ok (s\<lparr>rs_hir := h', rs_scopes := rs_scopes s\<rparr>)"
    by (rule resolver_ok_update [OF assms(1,2) loc])
      (use assms local_ok_append [OF _ loc] in \<open>simp_all add: resolver_ok_def\<close>)
  then show ?thesis by simp
qed

lemma walk_pattern_path [walks]: "walk_ok [PatternSite i] (resolve_pattern_path i path)"
proof (rule walk_okI)
  fix s assume s: "resolver_ok s" "rs_scopes s \<noteq> []" "ready [PatternSite i] (rs_hir s)"
  let ?h = "rs_hir s"
  have "safe_lookup ?h (or_else (body_resolve_path s NsValue path) (body_resolve_path s NsType path))"
    by (intro safe_lookup_or_else body_resolve_path_safe s)
  then obtain r where r: "or_else (body_resolve_path s NsValue path) (body_resolve_path s NsType path)
      = Return r" "\<forall>t \<in> set_option r. table_target ?h t"
    by (auto simp: safe_lookup_def)
  obtain t h1 where run: "access_or_report None path (map_option (canonical_value_target ?h) r) s
      = Some (Return (t, s\<lparr>rs_hir := h1\<rparr>))" and "noted ?h h1"
    using access_or_report_returns [OF s(1), of None "map_option (canonical_value_target ?h) r" path] r(2)
    by (auto simp: span_option_fits_def canonical_table_target option.set_map)
  then obtain ds where h1: "h1 = ?h\<lparr>hir_diagnostics := ds\<rparr>" by (auto simp: noted_def)
  let ?h' = "h1\<lparr>hir_pattern_targets := (hir_pattern_targets h1)(i \<mapsto> t)\<rparr>"
  have "resolver_ok (s\<lparr>rs_hir := ?h'\<rparr>)"
    by (rule resolver_ok_quiet [OF s(1)]) (simp_all add: h1 quiet_update_def)
  moreover have "adds {rs_module s} [PatternSite i] ?h ?h'"
    by (auto simp: adds_def site_defs h1 quiet_update_def)
  ultimately show "\<exists>s'. resolve_pattern_path i path s = Some (Return s') \<and> resolver_ok s'
      \<and> adds {rs_module s} [PatternSite i] ?h (rs_hir s')
      \<and> rs_module s' = rs_module s \<and> rs_aliases s' = rs_aliases s
      \<and> length (rs_scopes s') = length (rs_scopes s) \<and> tl (rs_scopes s') = tl (rs_scopes s)"
    using r(1) run by (simp add: resolve_pattern_path_def lift_run_def ret_run_def)
qed

lemma root_local_target_ran:
  "root_local_target h e = Some l \<Longrightarrow> ResolvedLocal l \<in> ran (hir_expression_targets h)"
  by (induction h e rule: root_local_target.induct) (auto intro: ranI split: option.splits ResolvedTarget.splits)

lemma walk_assignment [walks]: "walk_ok [AssignSite (expr_span target)] (check_assignment target)"
proof (rule walk_okI)
  fix s assume s: "resolver_ok s" "rs_scopes s \<noteq> []" "ready [AssignSite (expr_span target)] (rs_hir s)"
  let ?h = "rs_hir s" and ?sp = "expr_span target"
  have sp: "span_option_fits (Some ?sp)" using s(3) by (simp add: ready_def site_defs span_option_fits_def)
  have "\<exists>h'. check_assignment target s = Some (Return (s\<lparr>rs_hir := h'\<rparr>)) \<and> noted ?h h'"
  proof (cases "root_local_target ?h target")
    case None
    then show ?thesis
      by (auto simp: check_assignment_def ret_run_def noted_def
          intro!: exI [of _ ?h] exI [of _ "hir_diagnostics ?h"])
  next
    case (Some l)
    have "LocalId_index l < length (hir_locals ?h)"
      using root_local_target_ran [OF Some] s(1) by (simp add: resolver_ok_def)
    then obtain data where data: "index_at (hir_locals ?h) (LocalId_index l) = Return data"
      by (simp add: index_at_def)
    show ?thesis
    proof (cases "local_mutable data")
      case True
      then have "check_assignment target s = Some (Return (s\<lparr>rs_hir := ?h\<rparr>))"
        using Some data by (simp add: check_assignment_def lift_run_def ret_run_def del: index_at_Return_iff)
      moreover have "noted ?h ?h" unfolding noted_def by (rule exI [of _ "hir_diagnostics ?h"]) simp
      ultimately show ?thesis by blast
    next
      case False
      with Some data show ?thesis
        using update_reports(4) [OF sp refl, of "local_name data" s]
        by (simp add: check_assignment_def lift_run_def del: index_at_Return_iff)
    qed
  qed
  then obtain ds where run: "check_assignment target s
      = Some (Return (s\<lparr>rs_hir := ?h\<lparr>hir_diagnostics := ds\<rparr>\<rparr>))"
    by (auto simp: noted_def)
  moreover have "resolver_ok (s\<lparr>rs_hir := ?h\<lparr>hir_diagnostics := ds\<rparr>\<rparr>)"
    by (rule resolver_ok_quiet [OF s(1)]) (simp_all add: quiet_update_def)
  moreover have "adds {rs_module s} [AssignSite ?sp] ?h (?h\<lparr>hir_diagnostics := ds\<rparr>)"
    by (simp add: adds_def site_defs quiet_update_def)
  ultimately show "\<exists>s'. check_assignment target s = Some (Return s') \<and> resolver_ok s'
      \<and> adds {rs_module s} [AssignSite ?sp] ?h (rs_hir s')
      \<and> rs_module s' = rs_module s \<and> rs_aliases s' = rs_aliases s
      \<and> length (rs_scopes s') = length (rs_scopes s) \<and> tl (rs_scopes s') = tl (rs_scopes s)"
    by simp
qed

section \<open>Every body\<close>

lemma walk_ok_ext: "(\<And>s. f s = g s) \<Longrightarrow> walk_ok sites g \<Longrightarrow> walk_ok sites f"
  by (simp add: walk_ok_def)

lemma walk_option [walks]:
  assumes "\<And>e. e \<in> set_option x \<Longrightarrow> walk_ok (sites e) (f e)"
  shows "walk_ok (case x of None \<Rightarrow> [] | Some e \<Rightarrow> sites e)
           (\<lambda>s. case x of None \<Rightarrow> ret_run s | Some e \<Rightarrow> f e s)"
  using assms by (cases x) (simp_all add: walk_ret)

lemma walk_else [walks]:
  assumes "\<And>b. b \<in> set_option x \<Longrightarrow> walk_ok (else_sites b) (body_else (Some b))"
  shows "walk_ok (case x of None \<Rightarrow> [] | Some b \<Rightarrow> else_sites b) (body_else x)"
proof (cases x)
  case None
  have "walk_ok [] (body_else None)" by (rule walk_ok_ext [OF _ walk_ret(1)]) simp
  with None show ?thesis by simp
qed (use assms in simp)

lemma walk_pair [walks]:
  assumes "\<And>a b. x = (a, b) \<Longrightarrow> walk_ok (sites a b) (f a b)"
  shows "walk_ok (case x of (a, b) \<Rightarrow> sites a b) (case x of (a, b) \<Rightarrow> f a b)"
  using assms by (cases x) simp

lemma walk_params [walks]:
  "walk_ok (map (\<lambda>p. BindSite (Some (span p))) ps) (fold_run (\<lambda>p. bind_name (name p) mut (Some (span p))) ps)"
proof -
  have "walk_ok (concat (map (\<lambda>p. [BindSite (Some (span p))]) ps))
      (fold_run (\<lambda>p. bind_name (name p) mut (Some (span p))) ps)"
    by (intro walks)
  then show ?thesis by simp
qed

lemma walk_struct_lit [walks]:
  assumes "walk_ok sites f"
  shows "walk_ok (NameSite i path sp # sites)
    (\<lambda>s. bind_run (resolve_struct_path sp path s) (\<lambda>(target, s1). f (set_expression_target i target s1)))"
proof (rule walk_ok_ext [OF _ walk_seq_Cons [OF walk_struct_path assms]])
  fix s
  show "bind_run (resolve_struct_path sp path s) (\<lambda>(target, s1). f (set_expression_target i target s1))
      = seq_run (\<lambda>s. bind_run (resolve_struct_path sp path s)
          (\<lambda>(t, s1). ret_run (set_expression_target i t s1))) f s"
    by (simp add: seq_run_def bind_run_assoc ret_run_def split_def)
qed

lemma walk_arm:
  assumes "\<And>p. p \<in> set pats \<Longrightarrow> walk_ok (pattern_sites p) (body_pattern True p)"
    and "\<And>e. e \<in> set_option guard_expr \<Longrightarrow> walk_ok (expression_sites e) (body_expression e)"
    and "walk_ok (expression_sites arm_expr) (body_expression arm_expr)"
  shows "walk_ok (arm_sites (MatchArm pats guard_expr arm_expr))
    (\<lambda>s. case MatchArm pats guard_expr arm_expr of MatchArm pats guard_expr arm_expr \<Rightarrow>
       in_scope (seq_run (fold_run (\<lambda>p. body_pattern True p) pats)
         (seq_run (\<lambda>s. case guard_expr of None \<Rightarrow> ret_run s | Some g \<Rightarrow> body_expression g s)
            (\<lambda>s. body_expression arm_expr s))) s)"
  unfolding arm_sites.simps MatchArm.case by (intro walks assms)

lemmas body_equations = body_block.simps body_statement.simps body_expression.simps
  body_else.simps body_pattern.simps

lemmas site_equations = block_sites.simps statement_sites.simps expression_sites.simps
  closure_sites.simps else_sites.simps pattern_sites.simps

lemma bodies_walk:
  "walk_ok (block_sites b) (body_block b)
   \<and> walk_ok (statement_sites st) (body_statement st)
   \<and> walk_ok (expression_sites e) (body_expression e)
   \<and> (\<forall>i params ret sp. walk_ok (expression_sites (AstExpr i (XClosure params ret cb) sp))
        (body_expression (AstExpr i (XClosure params ret cb) sp)))
   \<and> (\<forall>i sp. walk_ok (expression_sites (AstExpr i k sp)) (body_expression (AstExpr i k sp)))
   \<and> walk_ok (else_sites br) (body_else (Some br))
   \<and> walk_ok (arm_sites arm)
       (\<lambda>s. case arm of MatchArm pats guard_expr arm_expr \<Rightarrow>
          in_scope (seq_run (fold_run (\<lambda>p. body_pattern True p) pats)
            (seq_run (\<lambda>s. case guard_expr of None \<Rightarrow> ret_run s | Some g \<Rightarrow> body_expression g s)
               (\<lambda>s. body_expression arm_expr s))) s)
   \<and> walk_ok (pattern_sites p) (body_pattern True p)"
  by (induction rule: AstBlock_Stmt_AstExpr_ClosureBody_ExprKind_ElseBranch_MatchArm_AstPattern.induct)
    (((intro allI)?, ((elim allE, assumption) | rule walk_arm
        | (rule walk_ok_ext, rule body_equations, (simp only: site_equations if_True)?, (intro walks)?));
      (auto; fail)?)+)

lemmas walk_block [walks] = bodies_walk [THEN conjunct1]

lemma body_block_scope: "body_block b s = in_scope (\<lambda>s. seq_run (fold_run body_statement (block_stmts b))
    (\<lambda>s. case block_tail b of None \<Rightarrow> ret_run s | Some e \<Rightarrow> body_expression e s) s) s"
  by (cases b) simp

lemma body_block_returns:
  assumes "resolver_ok s" and "ready (block_sites b) (rs_hir s)"
  shows "\<exists>s'. body_block b s = Some (Return s') \<and> resolver_ok s'
           \<and> adds {rs_module s} (block_sites b) (rs_hir s) (rs_hir s')
           \<and> rs_module s' = rs_module s \<and> rs_aliases s' = rs_aliases s \<and> rs_scopes s' = rs_scopes s"
proof -
  have "walk_ok (block_sites b) (seq_run (fold_run body_statement (block_stmts b))
      (\<lambda>s. case block_tail b of None \<Rightarrow> ret_run s | Some e \<Rightarrow> body_expression e s))"
    by (cases b) (auto simp only: block_sites.simps AstBlock.sel intro!: walks bodies_walk [THEN conjunct2, THEN conjunct1]
        bodies_walk [THEN conjunct2, THEN conjunct2, THEN conjunct1])
  from in_scope_returns [OF this assms] show ?thesis by (simp add: body_block_scope)
qed

text \<open>
  C5. A body resolves from every resolver state that is fit for its sites, nested scopes
  included: it returns, leaves the scope stack, module and aliases as they were, and adds
  exactly the locals, name targets and pattern targets of its sites; a name that became a
  local names a local of that name bound in the same module.
\<close>

theorem body_block_resolves:
  assumes "resolver_ok s" and "ready (block_sites b) (rs_hir s)"
  shows "\<exists>s'. body_block b s = Some (Return s') \<and> resolver_ok s'
           \<and> adds {rs_module s} (block_sites b) (rs_hir s) (rs_hir s')
           \<and> rs_module s' = rs_module s \<and> rs_aliases s' = rs_aliases s \<and> rs_scopes s' = rs_scopes s"
  using body_block_returns [OF assms] .

definition sample_body :: AstBlock where
  "sample_body =
     (let path = (\<lambda>i name. AstExpr \<lparr>exid_file = 0, exid_local = i\<rparr> (XPath [name])
            \<lparr>sr_start = unat i, sr_len = 1, sr_line = 1, sr_file = 0\<rparr>);
          span = (\<lambda>i. \<lparr>sr_start = i, sr_len = 1, sr_line = 1, sr_file = 0\<rparr>) in
      AstBlock
        [StLet ''x'' (span 10) True None (path 1 ''helper''),
         StFor ''y'' (span 12) (path 2 ''x'')
           (AstBlock [StLet ''x'' (span 14) False None (path 3 ''y'')] [] (Some (path 4 ''x'')) False)]
        [] (Some (path 5 ''x'')) False)"

theorem body_block_resolves_witness:
  "\<exists>s'. body_block sample_body (Resolver_new sample_hir (ModuleId 1) Map.empty) = Some (Return s')
     \<and> rs_scopes s' = []
     \<and> dom (hir_expression_targets (rs_hir s'))
         = {\<lparr>exid_file = 0, exid_local = 1\<rparr>, \<lparr>exid_file = 0, exid_local = 2\<rparr>,
            \<lparr>exid_file = 0, exid_local = 3\<rparr>, \<lparr>exid_file = 0, exid_local = 4\<rparr>,
            \<lparr>exid_file = 0, exid_local = 5\<rparr>}"
proof -
  let ?s = "Resolver_new sample_hir (ModuleId 1) Map.empty"
  have "resolver_ok ?s"
    using sample_hir_wf sample_hir_modules(2)
    by (simp add: resolver_ok_def Resolver_new_def) (simp add: sample_hir_def)
  moreover have "ready (block_sites sample_body) (rs_hir ?s)"
    by (simp add: ready_def Resolver_new_def sample_body_def Let_def site_defs range_key_def span_fits_def
        sample_hir_def)
  ultimately have "\<exists>s'. body_block sample_body ?s = Some (Return s') \<and> resolver_ok s'
      \<and> adds {rs_module ?s} (block_sites sample_body) (rs_hir ?s) (rs_hir s')
      \<and> rs_module s' = rs_module ?s \<and> rs_aliases s' = rs_aliases ?s \<and> rs_scopes s' = rs_scopes ?s"
    by (rule body_block_resolves)
  then obtain s' where s': "body_block sample_body ?s = Some (Return s')" "rs_scopes s' = []"
      "adds {ModuleId 1} (block_sites sample_body) sample_hir (rs_hir s')"
    by (auto simp: Resolver_new_def)
  have "dom (hir_expression_targets (rs_hir s')) = {} \<union> fst ` set (site_names (block_sites sample_body))"
    using s'(3) by (simp add: adds_def) (simp add: sample_hir_def)
  also have "\<dots> = {\<lparr>exid_file = 0, exid_local = 1\<rparr>, \<lparr>exid_file = 0, exid_local = 2\<rparr>,
            \<lparr>exid_file = 0, exid_local = 3\<rparr>, \<lparr>exid_file = 0, exid_local = 4\<rparr>,
            \<lparr>exid_file = 0, exid_local = 5\<rparr>}"
    by (auto simp: sample_body_def Let_def site_defs)
  finally show ?thesis using s' by blast
qed

section \<open>Shadowing\<close>

lemma bind_name_scopes:
  assumes "bind_name name mut source s = Some (Return s')"
  shows "\<exists>scope outer. rs_scopes s = scope # outer
           \<and> rs_scopes s' = scope(name \<mapsto> LocalId (of_nat (length (hir_locals (rs_hir s))))) # outer"
  using assms by (auto simp: bind_name_def Let_def ret_run_def lift_run_def split: list.splits option.splits)

text \<open>
  C6. The innermost binding of a name wins: after a name is bound, it resolves to the new
  local and to nothing else, without touching the tables, and every other single name finds
  the local it found before.
\<close>

theorem bind_name_shadows:
  assumes "bind_name name mut source s = Some (Return s')"
  shows "resolve_value span [name] s'
           = Some (Return (ResolvedLocal (LocalId (of_nat (length (hir_locals (rs_hir s))))), s'))
         \<and> (\<forall>other. other \<noteq> name \<longrightarrow> find_local (rs_scopes s') other = find_local (rs_scopes s) other)"
  using bind_name_scopes [OF assms] by (auto simp: resolve_value_def ret_run_def)

theorem bind_name_shadows_witness:
  "\<exists>s'. bind_name ''x'' True None (push_scope (Resolver_new sample_hir (ModuleId 1) Map.empty)) = Some (Return s')
     \<and> resolve_value SourceRange_EMPTY [''x''] s' = Some (Return (ResolvedLocal (LocalId 1), s'))
     \<and> find_local (rs_scopes s') ''y'' = None"
proof -
  let ?s = "push_scope (Resolver_new sample_hir (ModuleId 1) Map.empty)"
  obtain s' where s': "bind_name ''x'' True None ?s = Some (Return s')"
    by (simp add: bind_name_def push_scope_def Resolver_new_def ret_run_def Let_def)
  have "length (hir_locals (rs_hir ?s)) = 1"
    by (simp add: push_scope_def Resolver_new_def sample_hir_def)
  then show ?thesis
    using s' bind_name_shadows [OF s', of SourceRange_EMPTY]
    by (simp add: push_scope_def Resolver_new_def)
qed

end
