(* ===== verification/Parser_Logic.thy ===== *)
theory Parser_Logic
  imports Parser Tokenize_Props Hir_Resolve_Props "HOL-Library.Multiset"
begin

text \<open>
  A program logic for the parser. \<open>runs x P m Q\<close> says that from a state in \<open>P\<close> the step \<open>m\<close>
  neither panics nor runs out of fuel, that an error it raises points into the text, and that
  a result satisfies \<open>Q\<close>. The states are described by \<open>at_state\<close>, which counts: the tokens
  ahead bound the loops, the nesting left and the tokens ahead bound the recursion, and the
  identities given out never exceed the tokens read. It also collects the sites of the syntax
  built so far.
\<close>

section \<open>Tokens of the cursor\<close>

lemma wf_cursor_boundary:
  assumes "wf_cursor s tz"
  shows "is_char_boundary s (cursor_offset tz)"
  using assms
  by (cases "drop (tz_cursor tz) (tz_tokens tz)") (auto simp: wf_cursor_def)

text \<open>What the parser needs of a token: its text and the trivia before it can be sliced.\<close>

definition wf_token :: "bytes \<Rightarrow> TokenData \<Rightarrow> bool" where
  "wf_token s tok \<longleftrightarrow>
     located s (td_range tok) \<and> sr_file (td_range tok) = 0
     \<and> is_char_boundary s (sr_start (td_range tok)) \<and> is_char_boundary s (sr_end (td_range tok))
     \<and> is_char_boundary s (sr_start (td_trivia tok))
     \<and> sr_end (td_trivia tok) = sr_start (td_range tok)
     \<and> (td_kind tok = Eof \<longleftrightarrow> sr_len (td_range tok) = 0)"

lemma next_token_start:
  assumes u: "utf8 s" and wf: "wf_cursor s tz" and nt: "next_token tz = Return (Inr tok, tz')"
  shows "is_char_boundary s (sr_start (td_range tok)) \<and> sr_file (td_range tok) = 0
    \<and> (td_kind tok = Eof \<longleftrightarrow> sr_len (td_range tok) = 0)"
proof -
  obtain tz1 trivia where sk: "skip_trivia tz = Return (None, tz1)"
    and at: "token_at_cursor tz1 trivia = Return (Inr tok, tz')"
    using nt by (auto simp: next_token_def split: outcome.splits option.splits prod.splits)
  have wf1: "wf_cursor s tz1" using skip_trivia_wf [OF u wf] sk by auto
  note bd = wf_cursor_boundary [OF wf1]
  show ?thesis
  proof (cases "get_at (tz_tokens tz1) (tz_cursor tz1)")
    case None
    with at have "tok = TokenData_new Eof (SourceRange_new (length (tz_text tz1)) 0 (tz_line tz1)) trivia"
      unfolding token_at_cursor_def None by auto
    moreover have "tz_text tz1 = s" using wf1 by (simp add: wf_cursor_def)
    ultimately show ?thesis by (simp add: TokenData_new_def SourceRange_new_def)
  next
    case (Some t)
    have t: "start_of t = cursor_offset tz1" "start_of t < end_of t"
      "unat (range_len (tok_range t)) = end_of t - start_of t"
      "lex_step s (start_of t) = Return (tok_kind t, end_of t, tok_error t)"
      using take_token_wf [OF u wf1 Some] by blast+
    have "tok_kind t \<noteq> Eof" using lex_step_not_Eof [OF t(4)] .
    moreover have "tok = TokenData_new (tok_kind t) (token_source_range t (tz_line tz1)) trivia"
      using at unfolding token_at_cursor_def Some
      by (simp split: outcome.splits option.splits if_splits)
    ultimately show ?thesis using t(1-3) bd
      by (simp add: TokenData_new_def token_source_range_def SourceRange_new_def)
  qed
qed

lemma skip_trivia_error_file:
  "skip_trivia tz = Return (Some e, tz') \<Longrightarrow> sr_file (te_range e) = 0"
proof (induction tz rule: skip_trivia.induct)
  case (1 tz)
  then show ?case
    by (subst (asm) (2) skip_trivia.simps)
       (auto simp: token_source_range_def SourceRange_new_def
         split: option.splits outcome.splits if_splits)
qed

lemma next_token_error_file:
  assumes "next_token tz = Return (Inl e, tz')"
  shows "sr_file (te_range e) = 0"
  using assms
  by (auto simp: next_token_def token_at_cursor_def token_source_range_def SourceRange_new_def
      split: outcome.splits option.splits prod.splits if_splits dest: skip_trivia_error_file)

lemma next_token_wf_token:
  assumes u: "utf8 s" and wf: "wf_cursor s tz" and nt: "next_token tz = Return (Inr tok, tz')"
  shows "wf_token s tok \<and> wf_cursor s tz' \<and> cursor_offset tz \<le> sr_start (td_range tok)
    \<and> sr_end (td_range tok) = cursor_offset tz' \<and> tz_tokens tz' = tz_tokens tz
    \<and> (td_kind tok \<noteq> Eof \<longrightarrow> tz_cursor tz < tz_cursor tz' \<and> tz_cursor tz' \<le> length (tz_tokens tz'))"
proof (rule next_token_wf [OF u wf])
  fix e tz'' assume "next_token tz = Return (Inl e, tz'')"
  with nt show ?thesis by simp
next
  fix tok' tz''
  assume t: "next_token tz = Return (Inr tok', tz'')" "wf_cursor s tz''" "located s (td_range tok')"
    "sr_start (td_trivia tok') = cursor_offset tz" "sr_end (td_trivia tok') = sr_start (td_range tok')"
    "sr_end (td_range tok') = cursor_offset tz''" "td_kind tok' \<noteq> Eof \<Longrightarrow> tz_cursor tz < tz_cursor tz''"
    "tz_tokens tz'' = tz_tokens tz"
  from t(1) nt have eq: "tok' = tok" "tz'' = tz'" by simp_all
  have "sr_start (td_trivia tok) \<le> sr_end (td_trivia tok)" by (simp add: sr_end_def)
  then show ?thesis
    using t next_token_start [OF u wf nt] wf_cursor_boundary [OF wf] wf_cursor_boundary [OF t(2)]
    unfolding eq by (simp add: wf_token_def wf_cursor_def)
qed

section \<open>The lexer\<close>

lemma utf8_slice:
  assumes "utf8 s" and "is_char_boundary s a" and "is_char_boundary s b" and "a \<le> b"
  shows "utf8 (slice s a b)"
proof -
  have "is_char_boundary (take b s) a"
    using assms(2,4) is_char_boundary_le [OF assms(3)] by (auto simp: is_char_boundary_def)
  then have "utf8 (drop a (take b s))" using boundary_drop utf8_take assms(1,3) by blast
  then show ?thesis by (simp add: slice_def drop_take)
qed

text \<open>The lexer of a parser that has not failed.\<close>

definition wf_lexer :: "bytes \<Rightarrow> RuaLexer \<Rightarrow> bool" where
  "wf_lexer s lx \<longleftrightarrow>
     utf8 s \<and> length s < 2 ^ 32 \<and> lx_text lx = s
     \<and> wf_token s (lx_current lx) \<and> wf_token s (lx_next lx) \<and> wf_cursor s (lx_tokenizer lx)
     \<and> (td_kind (lx_current lx) \<noteq> Eof \<longrightarrow>
          sr_end (td_range (lx_current lx)) \<le> sr_start (td_range (lx_next lx))
          \<and> (td_kind (lx_next lx) \<noteq> Eof \<longrightarrow>
               sr_end (td_range (lx_next lx)) \<le> cursor_offset (lx_tokenizer lx)))
     \<and> (\<forall>r. lx_previous lx = Some r \<longrightarrow> sr_end r \<le> length s)"

definition error_located :: "bytes \<Rightarrow> TokenizeError \<Rightarrow> bool" where
  "error_located s e \<longleftrightarrow> located s (te_range e) \<and> sr_file (te_range e) = 0"

lemma next_token_total:
  assumes "utf8 s" and "wf_cursor s tz"
  shows "(\<exists>e tz'. next_token tz = Return (Inl e, tz') \<and> error_located s e)
    \<or> (\<exists>tok tz'. next_token tz = Return (Inr tok, tz'))"
  by (rule next_token_wf [OF assms]) (auto simp: error_located_def dest: next_token_error_file)

lemma bump_wf:
  assumes wf: "wf_lexer s lx" and here: "td_kind (lx_current lx) \<noteq> Eof"
  shows "(\<exists>e lx'. bump lx = Return (Some e, lx') \<and> error_located s e)
    \<or> (\<exists>lx'. bump lx = Return (None, lx') \<and> wf_lexer s lx'
         \<and> tokens_ahead lx' < tokens_ahead lx
         \<and> sr_end (td_range (lx_current lx)) \<le> sr_start (td_range (lx_current lx')))"
proof (cases "td_kind (lx_next lx) = Eof")
  case True
  then show ?thesis
    using wf here by (auto simp: bump_def Let_def wf_lexer_def tokens_ahead_def wf_token_def located_def)
next
  case False
  let ?tz = "lx_tokenizer lx"
  have u: "utf8 s" and wc: "wf_cursor s ?tz" using wf by (simp_all add: wf_lexer_def)
  from next_token_total [OF u wc] show ?thesis
  proof (elim disjE exE conjE)
    fix e tz' assume "next_token ?tz = Return (Inl e, tz')" "error_located s e"
    with False show ?thesis by (simp add: bump_def Let_def)
  next
    fix tok tz' assume nt: "next_token ?tz = Return (Inr tok, tz')"
    let ?lx = "lx\<lparr>lx_previous := Some (td_range (lx_current lx)), lx_current := lx_next lx,
      lx_tokenizer := tz', lx_next := tok\<rparr>"
    have b: "bump lx = Return (None, ?lx)" using nt False by (simp add: bump_def Let_def)
    note t = next_token_wf_token [OF u wc nt]
    have "wf_lexer s ?lx"
      using wf here False t by (auto simp: wf_lexer_def wf_token_def located_def)
    moreover have "tokens_ahead ?lx < tokens_ahead lx"
      using here False t next_token_progress(3) [OF nt] by (auto simp: tokens_ahead_def)
    ultimately show ?thesis using b wf here by (simp add: wf_lexer_def)
  qed
qed

lemma lexer_slices:
  assumes "wf_lexer s lx"
  shows "\<exists>t. current_text lx = Return t \<and> utf8 t \<and> (td_kind (lx_current lx) = Eof \<longrightarrow> t = [])"
    and "\<exists>t. current_leading_trivia lx = Return t \<and> utf8 t \<and> length t < 2 ^ 32"
proof -
  let ?r = "td_range (lx_current lx)" and ?v = "td_trivia (lx_current lx)"
  have wf: "wf_token s (lx_current lx)" "utf8 s" "length s < 2 ^ 32" "lx_text lx = s"
    using assms by (simp_all add: wf_lexer_def)
  have le: "sr_start ?r \<le> sr_end ?r" "sr_start ?v \<le> sr_end ?v" by (simp_all add: sr_end_def)
  have sub: "utf8 (slice s a b)" if "is_char_boundary s a" "is_char_boundary s b" "a \<le> b" for a b
    using that wf(2) utf8_slice by blast
  have "length (slice s a b) \<le> length s" for a b by (simp add: slice_def)
  then have len: "length (slice s a b) < 2 ^ 32" for a b using wf(3) le_less_trans by blast
  have "slice s a b = []" if "a = b" for a b using that by simp
  then have "td_kind (lx_current lx) = Eof \<Longrightarrow> slice s (sr_start ?r) (sr_end ?r) = []"
    using wf(1) by (simp add: wf_token_def sr_end_def)
  then show "\<exists>t. current_text lx = Return t \<and> utf8 t \<and> (td_kind (lx_current lx) = Eof \<longrightarrow> t = [])"
    using wf le sub by (simp add: current_text_def str_slice_def wf_token_def)
  show "\<exists>t. current_leading_trivia lx = Return t \<and> utf8 t \<and> length t < 2 ^ 32"
    using wf le sub len by (auto simp: current_leading_trivia_def str_slice_def wf_token_def)
qed

section \<open>Sites\<close>

text \<open>
  The sites of syntax read so far: a binding range starts before the current token, a name
  carries an identity already given out, and every range fits into 32 bits.
\<close>

fun site_fits :: "nat \<Rightarrow> nat \<Rightarrow> Site \<Rightarrow> bool" where
  "site_fits pos next_name (BindSite None) = True"
| "site_fits pos next_name (BindSite (Some r)) = (sr_start r < pos)"
| "site_fits pos next_name (NameSite i path sp) = (unat (exid_local i) < next_name \<and> span_fits sp)"
| "site_fits pos next_name (PatternSite i) = True"
| "site_fits pos next_name (AssignSite sp) = span_fits sp"

definition sites_ok :: "nat \<Rightarrow> nat \<Rightarrow> nat \<Rightarrow> Site list \<Rightarrow> bool" where
  "sites_ok pos next_name cap L \<longleftrightarrow>
     (\<forall>site \<in> set L. site_fits pos next_name site)
     \<and> distinct (site_keys L) \<and> distinct (map fst (site_names L)) \<and> site_binds L \<le> cap"

lemma site_fits_mono:
  "site_fits pos m site \<Longrightarrow> pos \<le> pos' \<Longrightarrow> m \<le> m' \<Longrightarrow> site_fits pos' m' site"
  by (cases "(pos, m, site)" rule: site_fits.cases) auto

text \<open>Only which sites there are matters, not their order.\<close>

lemma mset_concat_map: "mset (concat (map f L)) = (\<Sum>y \<in># mset L. mset (f y))"
  by (induction L) simp_all

lemma sub_mset_append:
  assumes "mset L' \<subseteq># mset L"
  obtains R where "mset L = mset (L' @ R)"
  using assms by (metis ex_mset mset_append subset_mset.less_eqE)

lemma distinct_concat_mono:
  assumes "mset L' \<subseteq># mset L" and "distinct (concat (map f L))"
  shows "distinct (concat (map f L'))"
proof -
  obtain R where "mset L = mset (L' @ R)" using sub_mset_append [OF assms(1)] .
  then have "mset (concat (map f L)) = mset (concat (map f (L' @ R)))"
    unfolding mset_concat_map by simp
  then have "distinct (concat (map f (L' @ R)))"
    using assms(2) mset_eq_imp_distinct_iff by blast
  then show ?thesis by simp
qed

lemma site_names_ids: "map fst (site_names L) =
    concat (map (\<lambda>s. case s of NameSite i path sp \<Rightarrow> [i] | _ \<Rightarrow> []) L)"
  by (induction L) (auto simp: site_names_def split: Site.split)

lemma site_binds_mono:
  assumes "mset L' \<subseteq># mset L"
  shows "site_binds L' \<le> site_binds L"
proof -
  let ?b = "\<lambda>s. case s of BindSite r \<Rightarrow> True | _ \<Rightarrow> False"
  have "site_binds K = size (filter_mset ?b (mset K))" for K
    unfolding site_binds_def by (metis mset_filter size_mset)
  then show ?thesis using assms by (simp add: size_mset_mono multiset_filter_mono)
qed

lemma sites_ok_mono:
  assumes "sites_ok pos m cap L" and "pos \<le> pos'" and "m \<le> m'" and "cap \<le> cap'"
    and "mset L' \<subseteq># mset L"
  shows "sites_ok pos' m' cap' L'"
proof -
  have "set L' \<subseteq> set L" using assms(5) by (metis set_mset_mono set_mset_mset)
  then have "\<forall>site \<in> set L'. site_fits pos' m' site"
    using assms(1-3) site_fits_mono unfolding sites_ok_def by blast
  moreover have "distinct (site_keys L')"
    using distinct_concat_mono [OF assms(5)] assms(1) unfolding sites_ok_def site_keys_def by blast
  moreover have "distinct (map fst (site_names L'))"
    using distinct_concat_mono [OF assms(5)] assms(1) unfolding sites_ok_def site_names_ids by blast
  moreover have "site_binds L' \<le> cap'"
    using site_binds_mono [OF assms(5)] assms(1,4) unfolding sites_ok_def by linarith
  ultimately show ?thesis by (simp add: sites_ok_def)
qed

lemma site_singles [simp]:
  "site_keys [BindSite None] = []" "site_keys [BindSite (Some r)] = [range_key r]"
  "site_keys [NameSite i path sp] = []" "site_keys [PatternSite q] = []" "site_keys [AssignSite sp] = []"
  "site_names [BindSite b] = []" "site_names [NameSite i path sp] = [(i, path)]"
  "site_names [PatternSite q] = []" "site_names [AssignSite sp] = []"
  "site_binds [BindSite b] = 1" "site_binds [NameSite i path sp] = 0"
  "site_binds [PatternSite q] = 0" "site_binds [AssignSite sp] = 0"
  by (simp_all add: site_defs)

lemma site_keys_before:
  assumes "sites_ok pos m cap L" and "key \<in> set (site_keys L)"
  shows "fst (snd key) < pos"
proof -
  obtain r where "BindSite (Some r) \<in> set L" "key = range_key r"
    using assms(2) by (auto simp: site_keys_def split: Site.splits option.splits)
  then show ?thesis using assms(1) by (auto simp: sites_ok_def range_key_def)
qed

lemma site_names_before:
  assumes "sites_ok pos m cap L" and "i \<in> fst ` set (site_names L)"
  shows "unat (exid_local i) < m"
  using assms by (auto simp: sites_ok_def site_names_def split: Site.splits)

text \<open>Adding a site.\<close>

lemma sites_ok_bind:
  assumes "sites_ok pos m cap L" and "sr_start r = pos" and "pos < pos'" and "cap < cap'"
  shows "sites_ok pos' m cap' (L @ [BindSite (Some r)])"
proof -
  have "sites_ok pos' m cap' L" using assms by (auto intro: sites_ok_mono)
  moreover have "range_key r \<notin> set (site_keys L)"
    using site_keys_before [OF assms(1)] assms(2) by (fastforce simp: range_key_def)
  ultimately show ?thesis using assms by (simp add: sites_ok_def)
qed

lemma sites_ok_receiver:
  "sites_ok pos m cap L \<Longrightarrow> cap < cap' \<Longrightarrow> sites_ok pos m cap' (L @ [BindSite None])"
  by (auto simp: sites_ok_def)

lemma sites_ok_name:
  assumes "sites_ok pos m cap L" and "unat (exid_local i) = m" and "span_fits sp"
  shows "sites_ok pos (Suc m) cap (L @ [NameSite i path sp])"
proof -
  have "sites_ok pos (Suc m) cap L" using assms(1) by (auto intro: sites_ok_mono)
  moreover have "i \<notin> fst ` set (site_names L)" using site_names_before [OF assms(1)] assms(2) by blast
  ultimately show ?thesis using assms(2,3) by (simp add: sites_ok_def)
qed

lemma sites_ok_other:
  "sites_ok pos m cap L \<Longrightarrow> sites_ok pos m cap (L @ [PatternSite i])"
  "sites_ok pos m cap L \<Longrightarrow> span_fits sp \<Longrightarrow> sites_ok pos m cap (L @ [AssignSite sp])"
  by (simp_all add: sites_ok_def)

section \<open>The states of the parser\<close>

record source =
  src_text :: bytes
  src_file :: u32
  src_nesting :: nat

definition ids_given :: "Parser \<Rightarrow> nat" where
  "ids_given s = unat (p_next_expr s) + unat (p_next_pattern s) + unat (p_next_type s)
     + unat (p_next_trait_ref s) + unat (p_next_generic s)"

abbreviation here_of :: "Parser \<Rightarrow> TokenData" where
  "here_of s \<equiv> lx_current (p_lexer s)"

abbreviation ahead :: "Parser \<Rightarrow> nat" where
  "ahead s \<equiv> tokens_ahead (p_lexer s)"

text \<open>
  \<open>at_state x n F d t j k c ro L s\<close>: the parser is at \<open>nesting\<close> \<open>d\<close> with recursion measure below
  \<open>n\<close>; it has read \<open>j\<close> of the \<open>t\<close> tokens that were ahead; of the \<open>F\<close> tokens of the text the identities
  given out and the tokens ahead leave \<open>k\<close> spare; if \<open>c\<close>, it is not at the end of the file; if
  \<open>ro = Some r\<close>, the current token is at \<open>r\<close>; and \<open>L\<close> are the sites read so far.
\<close>

definition at_state ::
    "source \<Rightarrow> nat \<Rightarrow> nat \<Rightarrow> nat \<Rightarrow> nat \<Rightarrow> nat \<Rightarrow> nat \<Rightarrow> bool \<Rightarrow> SourceRange option \<Rightarrow> Site list \<Rightarrow> Parser \<Rightarrow> bool" where
  "at_state x n F d t j k c ro L s \<longleftrightarrow>
     wf_lexer (src_text x) (p_lexer s) \<and> p_semantic_file s = src_file x
     \<and> max_nesting (p_budget s) = src_nesting x \<and> p_nesting s = d
     \<and> ahead s + (src_nesting x - d) < n
     \<and> ahead s + j \<le> t
     \<and> ids_given s + ahead s + k \<le> F \<and> F < 2 ^ 31
     \<and> (c \<longrightarrow> td_kind (here_of s) \<noteq> Eof)
     \<and> (\<forall>r. ro = Some r \<longrightarrow> td_range (here_of s) = r)
     \<and> sites_ok (sr_start (td_range (here_of s))) (unat (p_next_expr s)) (F - ahead s) L"

definition error_ok :: "source \<Rightarrow> ParseError \<Rightarrow> bool" where
  "error_ok x e \<longleftrightarrow>
     (\<exists>r. sd_range (pe_diagnostic e) = Some r
        \<and> range_start r \<le> range_end r \<and> unat (range_end r) \<le> length (src_text x)
        \<and> pe_line e = 1 + line_breaks (take (unat (range_start r)) (src_text x)))
     \<and> sd_file (pe_diagnostic e) \<in> {Some (FileId (src_file x)), Some (FileId 0)}"

definition runs :: "source \<Rightarrow> (Parser \<Rightarrow> bool) \<Rightarrow> 'a parse \<Rightarrow> ('a \<Rightarrow> Parser \<Rightarrow> bool) \<Rightarrow> bool" where
  "runs x P m Q \<longleftrightarrow>
     (\<forall>s. P s \<longrightarrow>
        (case m s of
           OutOfFuel \<Rightarrow> False
         | Crash \<Rightarrow> False
         | Reject e \<Rightarrow> error_ok x e
         | Parsed v s' \<Rightarrow> Q v s'))"

lemma at_state_weaken:
  assumes "at_state x n F d t j k c ro L s"
    and "n \<le> n'" and "t + j' \<le> t' + j" and "k' \<le> k" and "c' \<longrightarrow> c" and "ro' = None \<or> ro' = ro"
    and "mset L' \<subseteq># mset L"
  shows "at_state x n' F d t' j' k' c' ro' L' s"
proof -
  have "sites_ok (sr_start (td_range (here_of s))) (unat (p_next_expr s)) (F - ahead s) L'"
    using assms(1,7) by (auto simp: at_state_def intro: sites_ok_mono)
  then show ?thesis using assms by (auto simp: at_state_def)
qed

section \<open>Rules for the combinators\<close>

named_theorems vcg

lemma runsI:
  assumes "\<And>s. P s \<Longrightarrow> (case m s of OutOfFuel \<Rightarrow> False | Crash \<Rightarrow> False
      | Reject e \<Rightarrow> error_ok x e | Parsed v s' \<Rightarrow> Q v s')"
  shows "runs x P m Q"
  using assms by (simp add: runs_def)

lemma runsE:
  assumes "runs x P m Q" and "P s"
  obtains (rejected) e where "m s = Reject e" and "error_ok x e"
  | (parsed) v s' where "m s = Parsed v s'" and "Q v s'"
proof -
  have "case m s of OutOfFuel \<Rightarrow> False | Crash \<Rightarrow> False | Reject e \<Rightarrow> error_ok x e | Parsed v s' \<Rightarrow> Q v s'"
    using assms unfolding runs_def by blast
  then show thesis using rejected parsed by (cases "m s") simp_all
qed

lemma runs_conseq:
  assumes "runs x P m Q" and "\<And>s. P' s \<Longrightarrow> P s" and "\<And>v s. Q v s \<Longrightarrow> Q' v s"
  shows "runs x P' m Q'"
proof (rule runsI)
  fix s assume "P' s"
  then have "P s" by (rule assms(2))
  with assms(1) show "case m s of OutOfFuel \<Rightarrow> False | Crash \<Rightarrow> False
      | Reject e \<Rightarrow> error_ok x e | Parsed v s' \<Rightarrow> Q' v s'"
    by (rule runsE) (simp_all add: assms(3))
qed

lemma runs_pre: "runs x P m Q \<Longrightarrow> (\<And>s. P' s \<Longrightarrow> P s) \<Longrightarrow> runs x P' m Q"
  by (rule runs_conseq)

lemma runs_bind:
  assumes "runs x P m R" and "\<And>v. runs x (R v) (f v) Q"
  shows "runs x P (pbind m f) Q"
proof (rule runsI)
  fix s assume "P s"
  with assms(1) show "case pbind m f s of OutOfFuel \<Rightarrow> False | Crash \<Rightarrow> False
      | Reject e \<Rightarrow> error_ok x e | Parsed v s' \<Rightarrow> Q v s'"
  proof (rule runsE)
    fix v s' assume v: "m s = Parsed v s'" "R v s'"
    show ?thesis by (rule runsE [OF assms(2) v(2)]) (simp_all add: pbind_def v(1))
  qed (simp add: pbind_def)
qed

lemma runs_ret: "(\<And>s. P s \<Longrightarrow> Q v s) \<Longrightarrow> runs x P (pret v) Q"
  by (simp add: runs_def pret_def)

lemma runs_ret_bind [vcg]: "runs x P (f v) Q \<Longrightarrow> runs x P (pbind (pret v) f) Q"
  by (simp add: runs_def pbind_def pret_def)

lemma pbind_assoc: "pbind (pbind m f) g = pbind m (\<lambda>v. pbind (f v) g)"
  by (simp add: pbind_def fun_eq_iff split: reply.split)

lemma pbind_pret: "pbind m pret = m"
  by (simp add: pbind_def pret_def fun_eq_iff split: reply.split)

lemma pret_bind: "pbind (pret v) f = f v"
  by (simp add: pbind_def pret_def)

lemma runs_bind_assoc [vcg]:
  "runs x P (pbind m (\<lambda>v. pbind (f v) g)) Q \<Longrightarrow> runs x P (pbind (pbind m f) g) Q"
  by (simp add: pbind_assoc)

lemma runs_map [vcg]: "runs x P (pbind m (\<lambda>v. pret (f v))) Q \<Longrightarrow> runs x P (pmap f m) Q"
  by (simp add: pmap_def)

lemma runs_map_bind [vcg]: "runs x P (pbind m (\<lambda>v. g (f v))) Q \<Longrightarrow> runs x P (pbind (pmap f m) g) Q"
  by (simp add: pmap_def pbind_assoc pret_bind)

lemma runs_if [vcg]:
  "(b \<Longrightarrow> runs x P m1 Q) \<Longrightarrow> (\<not> b \<Longrightarrow> runs x P m2 Q) \<Longrightarrow> runs x P (if b then m1 else m2) Q"
  by simp

lemma runs_if_bind [vcg]:
  "(b \<Longrightarrow> runs x P (pbind m1 f) Q) \<Longrightarrow> (\<not> b \<Longrightarrow> runs x P (pbind m2 f) Q)
   \<Longrightarrow> runs x P (pbind (if b then m1 else m2) f) Q"
  by simp

lemma runs_option [vcg]:
  "(v = None \<Longrightarrow> runs x P m Q) \<Longrightarrow> (\<And>y. v = Some y \<Longrightarrow> runs x P (f y) Q)
   \<Longrightarrow> runs x P (case v of None \<Rightarrow> m | Some y \<Rightarrow> f y) Q"
  by (cases v) simp_all

lemma runs_prod [vcg]:
  "(\<And>a b. v = (a, b) \<Longrightarrow> runs x P (f a b) Q) \<Longrightarrow> runs x P (case v of (a, b) \<Rightarrow> f a b) Q"
  by (cases v) simp

lemma runs_list [vcg]:
  "(w = [] \<Longrightarrow> runs x P m Q) \<Longrightarrow> (\<And>y ys. w = y # ys \<Longrightarrow> runs x P (f y ys) Q)
   \<Longrightarrow> runs x P (case w of [] \<Rightarrow> m | y # ys \<Rightarrow> f y ys) Q"
  by (cases w) simp_all

section \<open>Rules for the token helpers\<close>

lemma runs_get:
  assumes "\<And>v. runs x (\<lambda>s. P s \<and> v = g s) (f v) Q"
  shows "runs x P (pbind (pget g) f) Q"
  using assms by (simp add: runs_def pbind_def pget_def)

lemma runs_cur [vcg]:
  assumes "\<And>kind. runs x (at_state x n F d t j k (c \<or> kind \<noteq> Eof) ro L) (f kind) Q"
  shows "runs x (at_state x n F d t j k c ro L) (pbind cur f) Q"
  unfolding cur_def
  by (rule runs_get, rule runs_pre [OF assms]) (auto simp: at_state_def)

lemma runs_peek [vcg]:
  assumes "\<And>kind. runs x (at_state x n F d t j k c ro L) (f kind) Q"
  shows "runs x (at_state x n F d t j k c ro L) (pbind peek_next f) Q"
  unfolding peek_next_def
  by (rule runs_get, rule runs_pre [OF assms]) simp

lemma runs_no_struct [vcg]:
  assumes "\<And>v. runs x (at_state x n F d t j k c ro L) (f v) Q"
  shows "runs x (at_state x n F d t j k c ro L) (pbind (pget p_no_struct) f) Q"
  by (rule runs_get, rule runs_pre [OF assms]) simp

lemma runs_range [vcg]:
  assumes "\<And>r. span_fits r \<Longrightarrow> runs x (at_state x n F d t j k c (Some r) L) (f r) Q"
  shows "runs x (at_state x n F d t j k c ro L) (pbind current_range f) Q"
  unfolding current_range_def
proof (rule runs_get)
  fix r
  show "runs x (\<lambda>s. at_state x n F d t j k c ro L s \<and> r = td_range (here_of s)) (f r) Q"
  proof (cases "span_fits r")
    case True
    show ?thesis by (rule runs_pre [OF assms [OF True]]) (auto simp: at_state_def)
  next
    case False
    then have "\<not> (at_state x n F d t j k c ro L s \<and> r = td_range (here_of s))" for s
      by (auto simp: at_state_def wf_lexer_def wf_token_def located_def span_fits_def sr_end_def)
    then show ?thesis unfolding runs_def by blast
  qed
qed

text \<open>Raising an error at the current token.\<close>

lemma ParseError_at_code_returns:
  assumes "sr_end r \<le> size_of_text" and "size_of_text < 2 ^ 32"
  obtains e rng where "ParseError_at_code r code msg = Return e"
    and "sd_range (pe_diagnostic e) = Some rng" and "sd_file (pe_diagnostic e) = Some (FileId (sr_file r))"
    and "range_start rng \<le> range_end rng" and "unat (range_end rng) \<le> size_of_text"
    and "unat (range_start rng) = sr_start r" and "pe_line e = sr_line r"
proof -
  have fits: "sr_start r + sr_len r < 2 ^ 32" using assms by (simp add: sr_end_def)
  then have s: "unat (of_nat (sr_start r) :: u32) = sr_start r"
      and l: "unat (of_nat (sr_len r) :: u32) = sr_len r"
    by (simp_all add: unat_u32)
  let ?r = "\<lparr>range_start = of_nat (sr_start r), range_end = of_nat (sr_start r) + of_nat (sr_len r)\<rparr>"
  have at: "TextRange_at (of_nat (sr_start r)) (of_nat (sr_len r)) = Return ?r"
    using fits s l by (simp add: TextRange_at_Return)
  have e: "unat (range_end ?r) = sr_start r + sr_len r"
    using fits s l by (simp add: unat_word_ariths)
  have "range_start ?r \<le> range_end ?r" using e s by (simp add: word_le_nat_alt)
  then show thesis
    using at e s assms(1) that [of _ ?r]
    by (simp add: ParseError_at_code_def with_argument_def StructuredDiagnostic_new_def sr_end_def)
qed

lemma error_at_located:
  assumes "located (src_text x) r" and "length (src_text x) < 2 ^ 32"
    and "sr_file r \<in> {src_file x, 0}"
  shows "\<exists>e. ParseError_at_code r code msg = Return e \<and> error_ok x e"
proof -
  have "sr_end r \<le> length (src_text x)" using assms(1) by (simp add: located_def)
  then obtain e rng where "ParseError_at_code r code msg = Return e"
      "sd_range (pe_diagnostic e) = Some rng" "sd_file (pe_diagnostic e) = Some (FileId (sr_file r))"
      "range_start rng \<le> range_end rng" "unat (range_end rng) \<le> length (src_text x)"
      "unat (range_start rng) = sr_start r" "pe_line e = sr_line r"
    using assms(2) by (rule ParseError_at_code_returns)
  then show ?thesis using assms(1,3) by (auto simp: error_ok_def located_def)
qed

lemma error_at_current:
  assumes "at_state x n F d t j k c ro L s"
  shows "\<exists>e. err_at_current code msg s = Return e \<and> error_ok x e"
proof -
  let ?r = "(td_range (here_of s))\<lparr>sr_file := p_semantic_file s\<rparr>"
  have "located (src_text x) ?r" "length (src_text x) < 2 ^ 32" "sr_file ?r \<in> {src_file x, 0}"
    using assms by (simp_all add: at_state_def wf_lexer_def wf_token_def located_def sr_end_def)
  then show ?thesis unfolding err_at_current_def by (rule error_at_located)
qed

lemma runs_fail [vcg]: "runs x (at_state x n F d t j k c ro L) (fail msg) Q"
  unfolding fail_def praise_def
proof (rule runsI)
  fix s assume "at_state x n F d t j k c ro L s"
  from error_at_current [OF this, of ParseUnexpectedToken msg]
  show "case case err_at_current ParseUnexpectedToken msg s of Panic \<Rightarrow> Crash | Return e \<Rightarrow> Reject e of
      OutOfFuel \<Rightarrow> False | Crash \<Rightarrow> False | Reject e \<Rightarrow> error_ok x e | Parsed v s' \<Rightarrow> Q v s'"
    by auto
qed

text \<open>Slices of the text and the trivia.\<close>

lemma runs_lift:
  assumes "\<And>s. P s \<Longrightarrow> \<exists>v. g s = Return v \<and> ok v" and "\<And>v. ok v \<Longrightarrow> runs x P (f v) Q"
  shows "runs x P (pbind (plift g) f) Q"
proof (rule runsI)
  fix s assume P: "P s"
  with assms(1) obtain v where v: "g s = Return v" "ok v" by blast
  show "case pbind (plift g) f s of OutOfFuel \<Rightarrow> False | Crash \<Rightarrow> False
      | Reject e \<Rightarrow> error_ok x e | Parsed v s' \<Rightarrow> Q v s'"
    by (rule runsE [OF assms(2) [OF v(2)] P]) (simp_all add: pbind_def plift_def v(1))
qed

lemma runs_text [vcg]:
  assumes "\<And>w. utf8 w \<Longrightarrow> runs x (at_state x n F d t j k (c \<or> w \<noteq> []) ro L) (f w) Q"
  shows "runs x (at_state x n F d t j k c ro L) (pbind p_text f) Q"
  unfolding p_text_def
proof (rule runsI)
  fix s assume st: "at_state x n F d t j k c ro L s"
  then obtain w where w: "current_text (p_lexer s) = Return w" "utf8 w"
      "td_kind (here_of s) = Eof \<longrightarrow> w = []"
    using lexer_slices(1) [of "src_text x" "p_lexer s"] by (auto simp: at_state_def)
  have st': "at_state x n F d t j k (c \<or> w \<noteq> []) ro L s" using st w(3) by (auto simp: at_state_def)
  show "case pbind (plift (\<lambda>s. current_text (p_lexer s))) f s of OutOfFuel \<Rightarrow> False | Crash \<Rightarrow> False
      | Reject e \<Rightarrow> error_ok x e | Parsed v s' \<Rightarrow> Q v s'"
    by (rule runsE [OF assms [OF w(2)] st']) (simp_all add: pbind_def plift_def w(1))
qed

lemma runs_documentation [vcg]:
  assumes "\<And>v. runs x (at_state x n F d t j k c ro L) (f v) Q"
  shows "runs x (at_state x n F d t j k c ro L) (pbind leading_documentation f) Q"
  unfolding leading_documentation_def
proof (rule runs_lift [where ok = "\<lambda>_. True"])
  fix s assume "at_state x n F d t j k c ro L s"
  then obtain w where "current_leading_trivia (p_lexer s) = Return w" "utf8 w" "length w < 2 ^ 32"
    using lexer_slices(2) [of "src_text x" "p_lexer s"] by (auto simp: at_state_def)
  then show "\<exists>v. bind_outcome (current_leading_trivia (p_lexer s))
      (\<lambda>trivia. render_leading_documentation trivia False) = Return v \<and> True"
    using trivia_functions_return(2) [of w False] by auto
qed (rule assms)

lemma runs_blank_line [vcg]:
  assumes "\<And>v. runs x (at_state x n F d t j k c ro L) (f v) Q"
  shows "runs x (at_state x n F d t j k c ro L) (pbind blank_line_before_current f) Q"
  unfolding blank_line_before_current_def
proof (rule runs_lift [where ok = "\<lambda>_. True"])
  fix s assume "at_state x n F d t j k c ro L s"
  then obtain w where "current_leading_trivia (p_lexer s) = Return w" "utf8 w" "length w < 2 ^ 32"
    using lexer_slices(2) [of "src_text x" "p_lexer s"] by (auto simp: at_state_def)
  then show "\<exists>v. bind_outcome (current_leading_trivia (p_lexer s)) leading_trivia_has_blank_line
      = Return v \<and> True"
    using trivia_functions_return(1) [of w] by auto
qed (rule assms)

text \<open>Reading a token: the states before and after, with what the token contributes.\<close>

lemma bump_state:
  assumes "at_state x n F d t j k True ro L s"
  shows "(\<exists>e. p_bump s = Reject e \<and> error_ok x e)
    \<or> (\<exists>s'. p_bump s = Parsed () s'
         \<and> at_state x n F d t (j + 1) (k + 1) False None
             (L @ (case ro of None \<Rightarrow> [BindSite None] | Some r \<Rightarrow> [BindSite (Some r)])) s')"
proof -
  let ?lx = "p_lexer s"
  have wf: "wf_lexer (src_text x) ?lx" and here: "td_kind (lx_current ?lx) \<noteq> Eof"
    using assms by (simp_all add: at_state_def)
  from bump_wf [OF wf here] show ?thesis
  proof (elim disjE exE conjE)
    fix e lx' assume b: "bump ?lx = Return (Some e, lx')" and e: "error_located (src_text x) e"
    then have "\<exists>pe. ParseError_from e = Return pe \<and> error_ok x pe"
      unfolding ParseError_from_def
      by (intro error_at_located) (use wf in \<open>auto simp: error_located_def wf_lexer_def\<close>)
    with b show ?thesis by (auto simp: p_bump_def praise_def)
  next
    fix lx' assume b: "bump ?lx = Return (None, lx')" and wf': "wf_lexer (src_text x) lx'"
      and dec: "tokens_ahead lx' < tokens_ahead ?lx"
      and pos: "sr_end (td_range (lx_current ?lx)) \<le> sr_start (td_range (lx_current lx'))"
    let ?s = "s\<lparr>p_lexer := lx'\<rparr>" and ?p = "sr_start (td_range (here_of s))"
    have lt: "?p < sr_start (td_range (lx_current lx'))"
      using pos wf here by (simp add: wf_lexer_def wf_token_def sr_end_def)
    have sites: "sites_ok ?p (unat (p_next_expr s)) (F - ahead s) L"
      and le: "ahead s \<le> F"
      using assms by (simp_all add: at_state_def)
    have cap: "F - ahead s < F - tokens_ahead lx'" using dec le by linarith
    let ?L = "L @ (case ro of None \<Rightarrow> [BindSite None] | Some r \<Rightarrow> [BindSite (Some r)])"
    have "sites_ok (sr_start (td_range (lx_current lx'))) (unat (p_next_expr s)) (F - tokens_ahead lx') ?L"
    proof (cases ro)
      case None
      have "sites_ok (sr_start (td_range (lx_current lx'))) (unat (p_next_expr s)) (F - ahead s) L"
        using sites lt by (auto intro: sites_ok_mono)
      then show ?thesis using sites_ok_receiver cap None by simp
    next
      case (Some r)
      then have "td_range (here_of s) = r" using assms by (simp add: at_state_def)
      then show ?thesis using sites_ok_bind [OF sites _ lt cap] Some by simp
    qed
    then have "at_state x n F d t (j + 1) (k + 1) False None ?L ?s"
      using assms wf' dec by (simp add: at_state_def ids_given_def)
    then show ?thesis using b by (auto simp: p_bump_def)
  qed
qed

lemma runs_step:
  assumes "\<And>s. P s \<Longrightarrow> (\<exists>e. m s = Reject e \<and> error_ok x e) \<or> (\<exists>v s'. m s = Parsed v s' \<and> R v s')"
    and "\<And>v. runs x (R v) (f v) Q"
  shows "runs x P (pbind m f) Q"
proof (rule runs_bind)
  show "runs x P m R"
    using assms(1) by (intro runsI) (fastforce split: reply.split)
qed (rule assms(2))

lemma runs_bump_all:
  assumes "c" and "\<And>u. runs x (at_state x n F d t (j + 1) (k + 1) False None
      (L @ (case ro of None \<Rightarrow> [BindSite None] | Some r \<Rightarrow> [BindSite (Some r)]))) (f u) Q"
  shows "runs x (at_state x n F d t j k c ro L) (pbind p_bump f) Q"
proof (rule runs_step [where R = "\<lambda>_. at_state x n F d t (j + 1) (k + 1) False None
      (L @ (case ro of None \<Rightarrow> [BindSite None] | Some r \<Rightarrow> [BindSite (Some r)]))"])
  fix s assume "at_state x n F d t j k c ro L s"
  then show "(\<exists>e. p_bump s = Reject e \<and> error_ok x e) \<or> (\<exists>v s'. p_bump s = Parsed v s'
      \<and> at_state x n F d t (j + 1) (k + 1) False None
          (L @ (case ro of None \<Rightarrow> [BindSite None] | Some r \<Rightarrow> [BindSite (Some r)])) s')"
    using bump_state [of x n F d t j k ro L s] assms(1) by auto
qed (use assms(2) in simp)

lemma runs_bump [vcg]:
  assumes "c" and "\<And>u. runs x (at_state x n F d t (j + 1) (k + 1) False None L) (f u) Q"
  shows "runs x (at_state x n F d t j k c ro L) (pbind p_bump f) Q"
  by (rule runs_bump_all [OF assms(1)], rule runs_pre [OF assms(2)])
    (erule at_state_weaken; simp)

lemma runs_fail_bind [vcg]: "runs x (at_state x n F d t j k c ro L) (pbind (fail msg) f) Q"
  by (rule runs_bind [where R = "\<lambda>_ _. False"], rule runs_fail) (simp add: runs_def)

lemma runs_accept [vcg]:
  assumes "kind \<noteq> Eof"
    and "\<And>b. runs x (at_state x n F d t (j + of_bool b) (k + of_bool b) False None L) (f b) Q"
  shows "runs x (at_state x n F d t j k c ro L) (pbind (accept kind) f) Q"
  unfolding accept_def
proof (rule runs_bind_assoc, rule runs_cur, rule runs_if_bind)
  fix v assume v: "v = kind"
  show "runs x (at_state x n F d t j k (c \<or> v \<noteq> Eof) ro L)
      (pbind (pbind p_bump (\<lambda>_. pret True)) f) Q"
    by (rule runs_bind_assoc, rule runs_bump, simp add: v assms(1), rule runs_ret_bind)
      (use assms(2) [of True] in simp)
next
  fix v assume "v \<noteq> kind"
  show "runs x (at_state x n F d t j k (c \<or> v \<noteq> Eof) ro L) (pbind (pret False) f) Q"
    by (rule runs_ret_bind, rule runs_pre [OF assms(2) [of False]]) (erule at_state_weaken; simp)
qed

lemma runs_expect [vcg]:
  assumes "kind \<noteq> Eof"
    and "\<And>u. runs x (at_state x n F d t (j + 1) (k + 1) False None L) (f u) Q"
  shows "runs x (at_state x n F d t j k c ro L) (pbind (expect kind) f) Q"
  unfolding expect_def
  by (rule runs_bind_assoc, rule runs_cur, rule runs_if_bind,
      rule runs_bump [OF _ assms(2)], use assms(1) in simp, rule runs_fail_bind)

text \<open>An identifier whose range was taken before is a site for a binding.\<close>

lemma runs_ident [vcg]:
  assumes "\<And>w. runs x (at_state x n F d t (j + 1) (k + 1) False None
      (L @ (case ro of None \<Rightarrow> [BindSite None] | Some r \<Rightarrow> [BindSite (Some r)]))) (f w) Q"
  shows "runs x (at_state x n F d t j k c ro L) (pbind expect_ident f) Q"
  unfolding expect_ident_def
  by (rule runs_bind_assoc, rule runs_cur, rule runs_if_bind, rule runs_bind_assoc, rule runs_text,
      rule runs_bind_assoc, rule runs_bump_all, force, rule runs_ret_bind, rule assms,
      rule runs_fail_bind)

section \<open>Rules for identities\<close>

lemma next_id_below: "unat n < 2 ^ 31 \<Longrightarrow> next_id n = Some (n + 1) \<and> unat (n + 1) = unat n + 1"
proof -
  assume lt: "unat n < 2 ^ 31"
  have "n \<noteq> - 1"
  proof
    assume "n = - 1"
    then have "unat n = 2 ^ 32 - 1" by (simp add: unsigned_minus_1_eq_mask mask_eq_exp_minus_1)
    with lt show False by simp
  qed
  moreover have "unat (n + 1) = unat n + 1" using lt by (simp add: unat_word_ariths)
  ultimately show ?thesis by (simp add: next_id_def)
qed

text \<open>The sites of a node itself, without its children.\<close>

fun own_sites :: "ExprId \<Rightarrow> ExprKind \<Rightarrow> SourceRange \<Rightarrow> Site list" where
  "own_sites i (XPath path) sp = [NameSite i path sp]"
| "own_sites i (XStructLit path flds) sp = [NameSite i path sp]"
| "own_sites i (XAssign op target val) sp = [AssignSite (expr_span target)]"
| "own_sites i kind sp = []"

fun kind_ok :: "ExprKind \<Rightarrow> bool" where
  "kind_ok (XAssign op target val) = span_fits (expr_span target)"
| "kind_ok kind = True"

lemma own_sites_ok:
  assumes "sites_ok pos m cap L" and "kind_ok kind" and "unat (exid_local i) = m" and "span_fits sp"
  shows "sites_ok pos (Suc m) cap (L @ own_sites i kind sp)"
proof -
  have L: "sites_ok pos (Suc m) cap L" using assms(1) by (auto intro: sites_ok_mono)
  show ?thesis
    using L assms sites_ok_name [OF assms(1,3,4)] sites_ok_other(2) [OF L]
    by (cases "(i, kind, sp)" rule: own_sites.cases) simp_all
qed

lemma runs_mk [vcg]:
  assumes "0 < k" and "kind_ok kind" and "span_fits start"
    and "\<And>i sp. span_fits sp \<Longrightarrow>
      runs x (at_state x n F d t j (k - 1) c ro (L @ own_sites i kind sp)) (f (AstExpr i kind sp)) Q"
  shows "runs x (at_state x n F d t j k c ro L) (pbind (mk kind start) f) Q"
proof (rule runsI)
  fix s assume st: "at_state x n F d t j k c ro L s"
  let ?i = "\<lparr>exid_file = p_semantic_file s, exid_local = p_next_expr s\<rparr>"
  let ?sp = "SourceRange_new (sr_start start)
    (sr_end (previous_range (p_lexer s)) - sr_start start) (sr_line start)"
  let ?s = "s\<lparr>p_next_expr := p_next_expr s + 1\<rparr>"
  have wf: "wf_lexer (src_text x) (p_lexer s)" using st by (simp add: at_state_def)
  have "sr_end (previous_range (p_lexer s)) < 2 ^ 32"
    using wf by (fastforce simp: wf_lexer_def previous_range_def SourceRange_EMPTY_def sr_end_def
        split: option.split)
  then have sp: "span_fits ?sp"
    using assms(3) by (auto simp: span_fits_def SourceRange_new_def)
  have "unat (p_next_expr s) < 2 ^ 31" using st by (simp add: at_state_def ids_given_def)
  note nx = next_id_below [OF this]
  have "sites_ok (sr_start (td_range (here_of s))) (unat (p_next_expr s)) (F - ahead s) L"
    using st by (simp add: at_state_def)
  from own_sites_ok [OF this assms(2) _ sp, of ?i]
  have "at_state x n F d t j (k - 1) c ro (L @ own_sites ?i kind ?sp) ?s"
    using st nx assms(1) by (simp add: at_state_def ids_given_def)
  from assms(4) [OF sp] this
  show "case pbind (mk kind start) f s of OutOfFuel \<Rightarrow> False | Crash \<Rightarrow> False
      | Reject e \<Rightarrow> error_ok x e | Parsed v s' \<Rightarrow> Q v s'"
    by (rule runsE) (simp_all add: pbind_def mk_def nx)
qed

lemma runs_mk_last [vcg]:
  "runs x P (pbind (mk kind start) pret) Q \<Longrightarrow> runs x P (mk kind start) Q"
  by (simp add: pbind_pret)

text \<open>The other counters.\<close>

lemma runs_counter:
  assumes "0 < k"
    and "\<And>s. unat (counter s) \<le> ids_given s"
    and "\<And>s i s'. m s = (case next_id (counter s) of None \<Rightarrow> Crash | Some i \<Rightarrow> Parsed (g s) (upd i s))"
    and "\<And>s. next_id (counter s) = Some (counter s + 1) \<Longrightarrow> unat (counter s + 1) = unat (counter s) + 1 \<Longrightarrow>
      at_state x n F d t j k c ro L s \<Longrightarrow> at_state x n F d t j (k - 1) c ro L (upd (counter s + 1) s)"
    and "\<And>i. runs x (at_state x n F d t j (k - 1) c ro L) (f i) Q"
  shows "runs x (at_state x n F d t j k c ro L) (pbind m f) Q"
proof (rule runs_step [where R = "\<lambda>_. at_state x n F d t j (k - 1) c ro L"])
  fix s assume st: "at_state x n F d t j k c ro L s"
  have "unat (counter s) < 2 ^ 31" using st assms(2) [of s] by (simp add: at_state_def)
  note nx = next_id_below [OF this]
  show "(\<exists>e. m s = Reject e \<and> error_ok x e)
      \<or> (\<exists>v s'. m s = Parsed v s' \<and> at_state x n F d t j (k - 1) c ro L s')"
    using assms(3) [of s] assms(4) [OF _ _ st] nx by simp
qed (rule assms(5))

lemma runs_type_id [vcg]:
  assumes "0 < k" and "\<And>i. runs x (at_state x n F d t j (k - 1) c ro L) (f i) Q"
  shows "runs x (at_state x n F d t j k c ro L) (pbind next_type_id f) Q"
  by (rule runs_counter [where counter = p_next_type
        and upd = "\<lambda>i s. s\<lparr>p_next_type := i\<rparr>", OF assms(1) _ _ _ assms(2)])
    (use assms(1) in \<open>auto simp: next_type_id_def ids_given_def at_state_def split: option.split\<close>)

lemma runs_trait_ref [vcg]:
  assumes "0 < k" and "\<And>i. runs x (at_state x n F d t j (k - 1) c ro L) (f i) Q"
  shows "runs x (at_state x n F d t j k c ro L) (pbind (trait_ref path) f) Q"
  by (rule runs_counter [where counter = p_next_trait_ref
        and upd = "\<lambda>i s. s\<lparr>p_next_trait_ref := i\<rparr>", OF assms(1) _ _ _ assms(2)])
    (use assms(1) in \<open>auto simp: trait_ref_def ids_given_def at_state_def split: option.split\<close>)

lemma runs_generic_id [vcg]:
  assumes "0 < k" and "\<And>i. runs x (at_state x n F d t j (k - 1) c ro L) (f i) Q"
  shows "runs x (at_state x n F d t j k c ro L) (pbind next_generic_id f) Q"
  by (rule runs_counter [where counter = p_next_generic
        and upd = "\<lambda>i s. s\<lparr>p_next_generic := i\<rparr>", OF assms(1) _ _ _ assms(2)])
    (use assms(1) in \<open>auto simp: next_generic_id_def ids_given_def at_state_def split: option.split\<close>)

lemma runs_pattern_id [vcg]:
  assumes "0 < k"
    and "\<And>i. runs x (at_state x n F d t j (k - 1) c ro (L @ [PatternSite i])) (f i) Q"
  shows "runs x (at_state x n F d t j k c ro L) (pbind next_pattern_id f) Q"
proof (rule runs_counter [where counter = p_next_pattern
        and upd = "\<lambda>i s. s\<lparr>p_next_pattern := i\<rparr>", OF assms(1)])
  fix i
  show "runs x (at_state x n F d t j (k - 1) c ro L) (f i) Q"
    by (rule runs_pre [OF assms(2) [of i]]) (simp add: at_state_def sites_ok_other(1))
qed (use assms(1) in \<open>auto simp: next_pattern_id_def ids_given_def at_state_def split: option.split\<close>)

section \<open>What a method reads and builds\<close>

text \<open>
  \<open>gains x n g a here ok sites m\<close>: with recursion measure below \<open>n\<close> (and, if \<open>here\<close>, when not
  at the end of the file), \<open>m\<close> reads at least \<open>g\<close> tokens, \<open>a\<close> of them without an identity, and
  its result is \<open>ok\<close> and has the \<open>sites\<close> it added.
\<close>

definition gains ::
    "source \<Rightarrow> nat \<Rightarrow> nat \<Rightarrow> nat \<Rightarrow> bool \<Rightarrow> ('a \<Rightarrow> bool) \<Rightarrow> ('a \<Rightarrow> Site list) \<Rightarrow> 'a parse \<Rightarrow> bool" where
  "gains x n g a here ok sites m \<longleftrightarrow>
     (\<forall>F d t j k c ro L. (here \<longrightarrow> c) \<longrightarrow>
        runs x (at_state x n F d t j k c ro L) m
          (\<lambda>v s. ok v \<and> at_state x n F d t (j + g) (k + a) False None (L @ sites v) s))"

abbreviation no_sites :: "'a \<Rightarrow> Site list" where
  "no_sites \<equiv> \<lambda>_. []"

abbreviation anything :: "'a \<Rightarrow> bool" where
  "anything \<equiv> \<lambda>_. True"

lemma gainsI:
  assumes "\<And>F d t j k c ro L. (here \<Longrightarrow> c) \<Longrightarrow> runs x (at_state x n F d t j k c ro L) m
    (\<lambda>v s. ok v \<and> at_state x n F d t (j + g) (k + a) False None (L @ sites v) s)"
  shows "gains x n g a here ok sites m"
  using assms unfolding gains_def by blast

lemma gainsD:
  assumes "gains x n g a here ok sites m" and "here \<Longrightarrow> c"
  shows "runs x (at_state x n F d t j k c ro L) m
    (\<lambda>v s. ok v \<and> at_state x n F d t (j + g) (k + a) False None (L @ sites v) s)"
  using assms unfolding gains_def by blast

lemma gains_here_bind:
  assumes "gains x n g a here ok sites m" and "c"
    and "\<And>v. ok v \<Longrightarrow> runs x (at_state x n F d t (j + g) (k + a) False None (L @ sites v)) (f v) Q"
  shows "runs x (at_state x n F d t j k c ro L) (pbind m f) Q"
proof (rule runs_bind [OF gainsD [OF assms(1)]])
  fix v
  show "runs x (\<lambda>s. ok v \<and> at_state x n F d t (j + g) (k + a) False None (L @ sites v) s) (f v) Q"
    using assms(3) [of v] unfolding runs_def by blast
qed (rule assms(2))

lemma gains_bind:
  assumes "gains x n g a False ok sites m"
    and "\<And>v. ok v \<Longrightarrow> runs x (at_state x n F d t (j + g) (k + a) False None (L @ sites v)) (f v) Q"
  shows "runs x (at_state x n F d t j k c ro L) (pbind m f) Q"
proof (rule runs_bind [OF gainsD [OF assms(1)]])
  fix v
  show "runs x (\<lambda>s. ok v \<and> at_state x n F d t (j + g) (k + a) False None (L @ sites v) s) (f v) Q"
    using assms(2) [of v] unfolding runs_def by blast
qed simp

lemma gains_last: "gains x n g a here ok sites m \<Longrightarrow> runs x P (pbind m pret) Q \<Longrightarrow> runs x P m Q"
  by (simp add: pbind_pret)

lemma gains_weaken:
  assumes "gains x n g a here ok sites m" and "g' \<le> g" and "a' \<le> a"
    and "\<And>v. mset (sites' v) \<subseteq># mset (sites v)" and "\<And>v. ok v \<Longrightarrow> ok' v" and "here \<longrightarrow> here'"
  shows "gains x n g' a' here' ok' sites' m"
proof (rule gainsI)
  fix F d t j k ro and c :: bool and L assume c: "here' \<Longrightarrow> c"
  show "runs x (at_state x n F d t j k c ro L) m
      (\<lambda>v s. ok' v \<and> at_state x n F d t (j + g') (k + a') False None (L @ sites' v) s)"
  proof (rule runs_conseq [OF gainsD [OF assms(1)]])
    fix v s assume "ok v \<and> at_state x n F d t (j + g) (k + a) False None (L @ sites v) s"
    then show "ok' v \<and> at_state x n F d t (j + g') (k + a') False None (L @ sites' v) s"
      using assms(2-5) by (auto intro: at_state_weaken)
  qed (use c assms(6) in auto)
qed

text \<open>The end of a method: what was read and built is enough for the claim.\<close>

lemma runs_ret_gains [vcg]:
  assumes "ok v" and "j + g \<le> j'" and "k + a \<le> k'" and "mset (L @ sites v) \<subseteq># mset L'"
  shows "runs x (at_state x n F d t j' k' c' ro' L') (pret v)
    (\<lambda>v s. ok v \<and> at_state x n F d t (j + g) (k + a) False None (L @ sites v) s)"
proof (rule runs_ret)
  fix s assume "at_state x n F d t j' k' c' ro' L' s"
  then have "at_state x n F d t (j + g) (k + a) False None (L @ sites v) s"
    by (rule at_state_weaken) (use assms in simp_all)
  with assms(1) show "ok v \<and> at_state x n F d t (j + g) (k + a) False None (L @ sites v) s" by blast
qed

lemma at_state_rebase: "at_state x n F d t j k c ro L s \<Longrightarrow> at_state x n F d (ahead s) 0 k c ro L s"
  by (simp add: at_state_def)

text \<open>A method that has read a token has used up some of the recursion measure.\<close>

lemma gains_drop:
  assumes "gains x (Suc n) 1 a here ok sites m" and "here \<Longrightarrow> c"
    and "\<And>v. ok v \<Longrightarrow> runs x (at_state x n F d t (j + 1) (k + a) False None (L @ sites v)) (f v) Q"
  shows "runs x (at_state x (Suc n) F d t j k c ro L) (pbind m f) Q"
proof (rule runs_step [where R = "\<lambda>v s. ok v \<and> at_state x n F d t (j + 1) (k + a) False None (L @ sites v) s"])
  fix s assume st: "at_state x (Suc n) F d t j k c ro L s"
  then have le: "ahead s + j \<le> t" "ahead s + (src_nesting x - d) \<le> n" by (simp_all add: at_state_def)
  show "(\<exists>e. m s = Reject e \<and> error_ok x e) \<or> (\<exists>v s'. m s = Parsed v s'
      \<and> ok v \<and> at_state x n F d t (j + 1) (k + a) False None (L @ sites v) s')"
  proof (rule runsE [OF gainsD [OF assms(1,2)] at_state_rebase [OF st]])
    fix v s' assume v: "m s = Parsed v s'" and s': "ok v
      \<and> at_state x (Suc n) F d (ahead s) (0 + 1) (k + a) False None (L @ sites v) s'"
    then have "at_state x n F d t (j + 1) (k + a) False None (L @ sites v) s'"
      using le by (simp add: at_state_def)
    with v s' show ?thesis by blast
  qed simp_all
next
  fix v
  show "runs x (\<lambda>s. ok v \<and> at_state x n F d t (j + 1) (k + a) False None (L @ sites v) s) (f v) Q"
    using assms(3) [of v] unfolding runs_def by blast
qed

lemma runs_drop:
  assumes "gains x (Suc n) 1 a here ok sites m" and "here \<Longrightarrow> c"
    and "\<And>v. ok v \<Longrightarrow> runs x (at_state x n F d t (j + 1) (k + a) False None (L @ sites v)) (f v)
      (\<lambda>w s. ok' w \<and> at_state x n F d t j' k' False None (L @ sites' w) s)"
  shows "runs x (at_state x (Suc n) F d t j k c ro L) (pbind m f)
      (\<lambda>w s. ok' w \<and> at_state x (Suc n) F d t j' k' False None (L @ sites' w) s)"
proof (rule runs_conseq)
  show "runs x (at_state x (Suc n) F d t j k c ro L) (pbind m f)
      (\<lambda>w s. ok' w \<and> at_state x n F d t j' k' False None (L @ sites' w) s)"
    by (rule gains_drop [OF assms])
qed (auto simp: at_state_def)

lemma expect_gains:
  assumes "kind \<noteq> Eof"
  shows "gains x n 1 1 False anything no_sites (expect kind)"
proof (rule gainsI)
  fix F d t j k ro and c :: bool and L
  have "runs x (at_state x n F d t j k c ro L) (pbind (expect kind) pret)
      (\<lambda>v s. True \<and> at_state x n F d t (j + 1) (k + 1) False None (L @ []) s)"
    by (rule runs_expect [OF assms], rule runs_ret_gains) simp_all
  then show "runs x (at_state x n F d t j k c ro L) (expect kind)
      (\<lambda>v s. True \<and> at_state x n F d t (j + 1) (k + 1) False None (L @ []) s)"
    by (simp add: pbind_pret)
qed

lemma bump_gains: "gains x n 1 1 True anything no_sites p_bump"
proof (rule gainsI)
  fix F d t j k ro and c :: bool and L assume c: "True \<Longrightarrow> c"
  have "runs x (at_state x n F d t j k c ro L) (pbind p_bump pret)
      (\<lambda>v s. True \<and> at_state x n F d t (j + 1) (k + 1) False None (L @ []) s)"
    by (rule runs_bump, use c in simp, rule runs_ret_gains) simp_all
  then show "runs x (at_state x n F d t j k c ro L) p_bump
      (\<lambda>v s. True \<and> at_state x n F d t (j + 1) (k + 1) False None (L @ []) s)"
    by (simp add: pbind_pret)
qed

section \<open>Nesting and the struct-literal flag\<close>

lemma gains_nesting:
  assumes "gains x n g a here ok sites m"
  shows "gains x (Suc n) g a here ok sites (with_nesting m)"
proof (rule gainsI)
  fix F d t j k ro and c :: bool and L assume c: "here \<Longrightarrow> c"
  show "runs x (at_state x (Suc n) F d t j k c ro L) (with_nesting m)
      (\<lambda>v s. ok v \<and> at_state x (Suc n) F d t (j + g) (k + a) False None (L @ sites v) s)"
  proof (rule runsI)
    fix s assume st: "at_state x (Suc n) F d t j k c ro L s"
    show "case with_nesting m s of OutOfFuel \<Rightarrow> False | Crash \<Rightarrow> False | Reject e \<Rightarrow> error_ok x e
      | Parsed v s' \<Rightarrow> ok v \<and> at_state x (Suc n) F d t (j + g) (k + a) False None (L @ sites v) s'"
    proof (cases "max_nesting (p_budget s) \<le> p_nesting s")
      case True
      obtain e where "nesting_error s = Return e" "error_ok x e"
        using error_at_current [OF st] unfolding nesting_error_def by blast
      with True show ?thesis by (simp add: with_nesting_def praise_def)
    next
      case False
      let ?s = "s\<lparr>p_nesting := p_nesting s + 1\<rparr>"
      have "at_state x n F (Suc d) t j k c ro L ?s"
        using st False by (auto simp: at_state_def ids_given_def)
      from gainsD [OF assms c] this show ?thesis
      proof (rule runsE)
        fix v s' assume v: "m ?s = Parsed v s'"
          and s': "ok v \<and> at_state x n F (Suc d) t (j + g) (k + a) False None (L @ sites v) s'"
        have "at_state x (Suc n) F d t (j + g) (k + a) False None (L @ sites v)
            (s'\<lparr>p_nesting := p_nesting s' - 1\<rparr>)"
          using s' by (auto simp: at_state_def ids_given_def)
        then show ?thesis using v s' False by (simp add: with_nesting_def at_state_def)
      next
        fix e assume "m ?s = Reject e" "error_ok x e"
        then show ?thesis using False by (simp add: with_nesting_def)
      qed
    qed
  qed
qed

lemma at_state_no_struct [simp]:
  "at_state x n F d t j k c ro L (s\<lparr>p_no_struct := b\<rparr>) = at_state x n F d t j k c ro L s"
  by (simp add: at_state_def ids_given_def)

lemma gains_no_struct:
  assumes "gains x n g a here ok sites m"
  shows "gains x n g a here ok sites (with_no_struct b m)"
proof (rule gainsI)
  fix F d t j k ro and c :: bool and L assume c: "here \<Longrightarrow> c"
  show "runs x (at_state x n F d t j k c ro L) (with_no_struct b m)
      (\<lambda>v s. ok v \<and> at_state x n F d t (j + g) (k + a) False None (L @ sites v) s)"
  proof (rule runsI)
    fix s assume "at_state x n F d t j k c ro L s"
    then have "at_state x n F d t j k c ro L (s\<lparr>p_no_struct := b\<rparr>)" by simp
    from gainsD [OF assms c] this
    show "case with_no_struct b m s of OutOfFuel \<Rightarrow> False | Crash \<Rightarrow> False | Reject e \<Rightarrow> error_ok x e
      | Parsed v s' \<Rightarrow> ok v \<and> at_state x n F d t (j + g) (k + a) False None (L @ sites v) s'"
      by (rule runsE) (simp_all add: with_no_struct_def)
  qed
qed

section \<open>Loops\<close>

text \<open>
  \<open>steps x n cr ok sites body\<close>: a round that goes on has read a token; \<open>cr\<close> counts the tokens
  without an identity that the accumulator stands for.
\<close>

definition steps ::
    "source \<Rightarrow> nat \<Rightarrow> ('a \<Rightarrow> nat) \<Rightarrow> ('a \<Rightarrow> bool) \<Rightarrow> ('a \<Rightarrow> Site list) \<Rightarrow> ('a \<Rightarrow> ('a \<times> bool) parse) \<Rightarrow> bool" where
  "steps x n cr ok sites body \<longleftrightarrow>
     (\<forall>acc F d t j k c ro L. ok acc \<longrightarrow>
        runs x (at_state x n F d t j (k + cr acc) c ro (L @ sites acc)) (body acc)
          (\<lambda>p s. ok (fst p)
             \<and> at_state x n F d t (j + of_bool (snd p)) (k + cr (fst p)) False None (L @ sites (fst p)) s))"

lemma stepsI:
  assumes "\<And>acc F d t j k c ro L. ok acc \<Longrightarrow>
    runs x (at_state x n F d t j (k + cr acc) c ro (L @ sites acc)) (body acc)
      (\<lambda>p s. ok (fst p)
         \<and> at_state x n F d t (j + of_bool (snd p)) (k + cr (fst p)) False None (L @ sites (fst p)) s)"
  shows "steps x n cr ok sites body"
  using assms unfolding steps_def by blast

text \<open>The end of a round.\<close>

lemma runs_ret_steps [vcg]:
  assumes "ok (fst p)" and "j + of_bool (snd p) \<le> j'" and "k + cr (fst p) \<le> k'"
    and "mset (L @ sites (fst p)) \<subseteq># mset L'"
  shows "runs x (at_state x n F d t j' k' c' ro' L') (pret p)
    (\<lambda>p s. ok (fst p)
       \<and> at_state x n F d t (j + of_bool (snd p)) (k + cr (fst p)) False None (L @ sites (fst p)) s)"
proof (rule runs_ret)
  fix s assume "at_state x n F d t j' k' c' ro' L' s"
  then have "at_state x n F d t (j + of_bool (snd p)) (k + cr (fst p)) False None (L @ sites (fst p)) s"
    by (rule at_state_weaken) (use assms in simp_all)
  with assms(1) show "ok (fst p)
      \<and> at_state x n F d t (j + of_bool (snd p)) (k + cr (fst p)) False None (L @ sites (fst p)) s"
    by blast
qed

lemma loop_fuel_runs:
  assumes body: "steps x n cr ok sites body"
  shows "ok acc \<Longrightarrow> at_state x n F d t j (k + cr acc) c ro (L @ sites acc) s \<Longrightarrow> ahead s < m \<Longrightarrow>
    (case loop_fuel m body acc s of OutOfFuel \<Rightarrow> False | Crash \<Rightarrow> False | Reject e \<Rightarrow> error_ok x e
     | Parsed v s' \<Rightarrow> ok v \<and> at_state x n F d t j (k + cr v) False None (L @ sites v) s')"
proof (induction m arbitrary: acc s c ro)
  case (Suc m)
  have le: "ahead s + j \<le> t" using Suc.prems(2) by (simp add: at_state_def)
  note b = body [unfolded steps_def, rule_format, OF Suc.prems(1), of F d "ahead s" 0 k c ro L]
  show ?case
  proof (rule runsE [OF b at_state_rebase [OF Suc.prems(2)]])
    fix p s' assume p: "body acc s = Parsed p s'" and st: "ok (fst p)
      \<and> at_state x n F d (ahead s) (0 + of_bool (snd p)) (k + cr (fst p)) False None (L @ sites (fst p)) s'"
    obtain acc' again where pq: "p = (acc', again)" by (cases p)
    have st': "at_state x n F d t j (k + cr acc') False None (L @ sites acc') s'"
      using st le unfolding pq by (auto elim: at_state_weaken)
    show ?thesis
    proof (cases again)
      case True
      then have "ahead s' < m" using st Suc.prems(3) by (simp add: pq at_state_def)
      with Suc.IH [OF _ st'] st True p show ?thesis by (simp add: pq pbind_def)
    next
      case False
      with st st' p show ?thesis by (simp add: pq pbind_def pret_def)
    qed
  qed (simp add: pbind_def)
qed simp

lemma runs_repeat:
  assumes "steps x n cr ok sites body" and "ok acc" and "cr acc \<le> k"
    and "\<And>v. ok v \<Longrightarrow> runs x (at_state x n F d t j (k - cr acc + cr v) False None (L @ sites v)) (f v) Q"
  shows "runs x (at_state x n F d t j k c ro (L @ sites acc)) (pbind (repeat_parse body acc) f) Q"
proof (rule runs_bind [where R = "\<lambda>v s. ok v
      \<and> at_state x n F d t j (k - cr acc + cr v) False None (L @ sites v) s"])
  show "runs x (at_state x n F d t j k c ro (L @ sites acc)) (repeat_parse body acc)
      (\<lambda>v s. ok v \<and> at_state x n F d t j (k - cr acc + cr v) False None (L @ sites v) s)"
  proof (rule runsI)
    fix s assume "at_state x n F d t j k c ro (L @ sites acc) s"
    then have "at_state x n F d t j (k - cr acc + cr acc) c ro (L @ sites acc) s" using assms(3) by simp
    from loop_fuel_runs [OF assms(1,2) this, of "Suc (ahead s)"]
    show "case repeat_parse body acc s of OutOfFuel \<Rightarrow> False | Crash \<Rightarrow> False | Reject e \<Rightarrow> error_ok x e
      | Parsed v s' \<Rightarrow> ok v \<and> at_state x n F d t j (k - cr acc + cr v) False None (L @ sites v) s'"
      by (simp only: repeat_parse_def lessI simp_thms)
  qed
  show "runs x (\<lambda>s. ok v \<and> at_state x n F d t j (k - cr acc + cr v) False None (L @ sites v) s) (f v) Q" for v
    using assms(4) [of v] unfolding runs_def by blast
qed

end
