(* ===== verification/Parser_Props.thy ===== *)
theory Parser_Props
  imports Parser_Logic
begin

text \<open>
  Every method of the parser, by the logic of \<open>Parser_Logic\<close>. The methods the grammar re-enters are
  assumed in a locale (\<open>grammar_calls\<close>), which is interpreted at every fuel.
\<close>

section \<open>Combinators\<close>

lemma gains_repeat:
  assumes "steps x n cr ok sites body" and "ok acc" and "sites acc = []" and "cr acc = 0"
  shows "gains x n 0 0 False ok sites (repeat_parse body acc)"
proof (rule gainsI)
  fix F d t j k ro and c :: bool and L
  have "runs x (at_state x n F d t j k c ro (L @ sites acc)) (pbind (repeat_parse body acc) pret)
      (\<lambda>v s. ok v \<and> at_state x n F d t (j + 0) (k + 0) False None (L @ sites v) s)"
    by (rule runs_repeat [OF assms(1,2)], use assms(4) in simp, rule runs_ret_gains)
      (use assms(4) in simp_all)
  then show "runs x (at_state x n F d t j k c ro L) (repeat_parse body acc)
      (\<lambda>v s. ok v \<and> at_state x n F d t (j + 0) (k + 0) False None (L @ sites v) s)"
    by (simp add: pbind_pret assms(3))
qed

lemma comma_gains:
  assumes "gains x n g a False ok sites item"
  shows "gains x n 0 0 False (\<lambda>vs. \<forall>v \<in> set vs. ok v) (\<lambda>vs. concat (map sites vs))
    (comma_separated stop item)"
  unfolding comma_separated_def
proof (rule gains_repeat [where cr = "\<lambda>_. 0"])
  show "steps x n (\<lambda>_. 0) (\<lambda>vs. \<forall>v \<in> set vs. ok v) (\<lambda>vs. concat (map sites vs))
      (\<lambda>xs. pbind cur (\<lambda>k. if stop k then pret (xs, False)
         else pbind item (\<lambda>x. pbind (accept Comma) (\<lambda>again. pret (xs @ [x], again)))))"
    by (rule stepsI) (intro vcg gains_bind [OF assms]; simp)
qed simp_all

lemma many_gains:
  assumes "gains x n 1 a False ok sites item"
  shows "gains x n 0 0 False (\<lambda>vs. \<forall>v \<in> set vs. ok v) (\<lambda>vs. concat (map sites vs))
    (many_until stop item)"
  unfolding many_until_def
proof (rule gains_repeat [where cr = "\<lambda>_. 0"])
  show "steps x n (\<lambda>_. 0) (\<lambda>vs. \<forall>v \<in> set vs. ok v) (\<lambda>vs. concat (map sites vs))
      (\<lambda>xs. pbind cur (\<lambda>k. if stop k then pret (xs, False)
         else pbind item (\<lambda>x. pret (xs @ [x], True))))"
    by (rule stepsI) (intro vcg gains_bind [OF assms]; simp)
qed simp_all

definition option_sites :: "('a \<Rightarrow> Site list) \<Rightarrow> 'a option \<Rightarrow> Site list" where
  "option_sites sites v = (case v of None \<Rightarrow> [] | Some y \<Rightarrow> sites y)"

lemma option_sites_simps [simp]:
  "option_sites sites None = []" "option_sites sites (Some v) = sites v"
  "option_sites no_sites w = []"
  by (simp_all add: option_sites_def split: option.split)

lemma optional_gains:
  assumes "gains x n g a False ok sites item" and "kind \<noteq> Eof"
  shows "gains x n 0 0 False (\<lambda>v. \<forall>y \<in> set_option v. ok y) (option_sites sites) (optional_after kind item)"
  unfolding optional_after_def
  by (rule gainsI) (intro vcg gains_bind [OF assms(1)]; simp add: assms(2))

text \<open>Methods that build no syntax with sites.\<close>

abbreviation plain :: "source \<Rightarrow> nat \<Rightarrow> nat \<Rightarrow> nat \<Rightarrow> 'a parse \<Rightarrow> bool" where
  "plain x n g a m \<equiv> gains x n g a False anything no_sites m"

lemma plain_from: "gains x n g a False ok sites m \<Longrightarrow> plain x n g a m"
  by (erule gains_weaken) simp_all

lemmas comma_plain = comma_gains [THEN plain_from]
lemmas many_plain = many_gains [THEN plain_from]
lemmas optional_plain = optional_gains [THEN plain_from]

lemma runs_repeat_plain:
  assumes "steps x n (\<lambda>_. 0) anything no_sites body"
    and "\<And>v. runs x (at_state x n F d t j k False None L) (f v) Q"
  shows "runs x (at_state x n F d t j k c ro L) (pbind (repeat_parse body acc) f) Q"
  using runs_repeat [OF assms(1), where acc = acc and k = k and L = L and f = f] assms(2) by simp

lemmas plain_loop = runs_repeat_plain stepsI

section \<open>Paths and generic parameters\<close>

text \<open>A path whose first range was taken before is a site for a binding, like an identifier.\<close>

lemma runs_segments [vcg]:
  assumes "\<And>w. runs x (at_state x n F d t (j + 1) (k + 1) False None
      (L @ (case ro of None \<Rightarrow> [BindSite None] | Some r \<Rightarrow> [BindSite (Some r)]))) (f w) Q"
  shows "runs x (at_state x n F d t j k c ro L) (pbind parse_path_segments f) Q"
  unfolding parse_path_segments_def
  by (intro vcg plain_loop; (rule assms | simp))

lemma runs_repeat_last [vcg]:
  "runs x P (pbind (repeat_parse body acc) pret) Q \<Longrightarrow> runs x P (repeat_parse body acc) Q"
  by (simp add: pbind_pret)

lemma path_string_gains: "plain x n 1 1 parse_path_string"
  unfolding parse_path_string_def
  by (rule gainsI) (intro vcg plain_loop; simp)

lemmas path_string_vcg [vcg] = path_string_gains [THEN gains_bind]

text \<open>The depth of \<open>skip_generics\<close> stays below the number of tokens, so an \<open>i32\<close> holds it.\<close>

lemma runs_crash:
  assumes "c" and "2 ^ 31 - 1 \<le> k"
  shows "runs x (at_state x n F d t j k c ro L) (\<lambda>s. Crash) Q"
proof (rule runsI)
  fix s assume "at_state x n F d t j k c ro L s"
  then have "td_kind (here_of s) \<noteq> Eof" "ahead s + k < 2 ^ 31"
    using assms(1) by (auto simp: at_state_def)
  with assms(2) show "case Crash of OutOfFuel \<Rightarrow> False | Crash \<Rightarrow> False | Reject e \<Rightarrow> error_ok x e
      | Parsed v s' \<Rightarrow> Q v s'"
    by (simp add: tokens_ahead_def split: if_splits)
qed

lemma skip_generics_step_steps: "steps x n (\<lambda>depth. depth) anything no_sites skip_generics_step"
  unfolding skip_generics_step_def
  by (rule stepsI) (intro vcg runs_crash; simp)

lemmas skip_loop_vcg [vcg] = gains_repeat [OF skip_generics_step_steps, THEN gains_bind]

lemma skip_generics_gains: "plain x n 0 0 skip_generics"
  unfolding skip_generics_def
  by (rule gainsI) (intro vcg; simp)

lemmas skip_generics_vcg [vcg] = skip_generics_gains [THEN gains_bind]

lemma bounds_gains: "plain x n 0 0 parse_bounds"
  unfolding parse_bounds_def
  by (rule gainsI) (intro vcg plain_loop; simp)

lemmas bounds_vcg [vcg] = bounds_gains [THEN gains_bind]

lemma optional_bounds_gains: "plain x n 0 0 parse_optional_bounds"
  unfolding parse_optional_bounds_def
  by (rule gainsI) (intro vcg bounds_gains [THEN gains_last]; simp)

lemmas optional_bounds_vcg [vcg] = optional_bounds_gains [THEN gains_bind]

lemma generic_param_gains: "plain x n 1 0 parse_generic_param"
  unfolding parse_generic_param_def
  by (rule gainsI) (intro vcg; simp)

lemmas generic_params_vcg [vcg] = generic_param_gains [THEN comma_plain, THEN gains_bind]

lemma generics_gains: "plain x n 0 0 parse_generics"
  unfolding parse_generics_def
  by (rule gainsI) (intro vcg; simp)

lemmas generics_vcg [vcg] = generics_gains [THEN gains_bind]

lemma where_subject_gains: "plain x n 1 0 parse_where_subject"
  unfolding parse_where_subject_def
  by (rule gainsI) (intro vcg plain_loop; simp)

lemmas where_subject_vcg [vcg] = where_subject_gains [THEN gains_bind]

lemma where_gains: "plain x n 0 0 (parse_where generics)"
  unfolding parse_where_def
  by (rule gainsI) (intro vcg plain_loop; simp)

lemmas where_vcg [vcg] = where_gains [THEN gains_bind]

section \<open>Attributes\<close>

lemma attribute_start_gains: "plain x n 0 0 at_attribute_start"
  unfolding at_attribute_start_def
  by (rule gainsI) (intro vcg; simp)

lemmas attribute_start_vcg [vcg] = attribute_start_gains [THEN gains_bind]

text \<open>A literal is not empty, so the current token is not the end of the file.\<close>

lemma literal_nonempty:
  "Option.bind (strip_prefix [q] w) f = Some val \<Longrightarrow> w \<noteq> []"
  "parse_i64 w = Some v \<Longrightarrow> w \<noteq> []"
  "f64_accepts w \<Longrightarrow> w \<noteq> []"
  by (auto simp: parse_i64_def f64_accepts_def strip_sign_def float_number_def)

lemma filter_nonempty: "filter p w \<noteq> [] \<Longrightarrow> w \<noteq> []"
  by auto

lemma meta_string_gains: "plain x n 1 1 meta_string"
  unfolding meta_string_def
  by (rule gainsI) (intro vcg; (force dest: literal_nonempty)?)

lemma meta_integer_gains: "plain x n 1 1 meta_integer"
  unfolding meta_integer_def
  by (rule gainsI) (intro vcg; (force dest!: literal_nonempty filter_nonempty)?)

lemma meta_float_gains: "plain x n 1 1 meta_float"
  unfolding meta_float_def
  by (rule gainsI) (intro vcg; (force dest!: literal_nonempty filter_nonempty)?)

lemmas meta_scalar_vcg [vcg] =
  meta_string_gains [THEN gains_bind] meta_integer_gains [THEN gains_bind]
  meta_float_gains [THEN gains_bind]

lemma meta_literal_gains: "gains x n 1 1 (meta_literal_start k) anything no_sites (meta_literal k)"
  unfolding meta_literal_def
  by (rule gainsI) (intro vcg; simp add: meta_literal_start_def)

lemma meta_literal_start_Eof [simp]: "\<not> meta_literal_start Eof"
  by (simp add: meta_literal_start_def)

lemma meta_name_gains: "plain x n 1 1 expect_meta_name"
  unfolding expect_meta_name_def
  by (rule gainsI) (intro vcg; simp)

lemmas meta_name_vcg [vcg] = meta_name_gains [THEN gains_bind]

lemma meta_path_gains: "plain x n 1 1 parse_meta_path"
  unfolding parse_meta_path_def
  by (rule gainsI) (intro vcg plain_loop; simp)

lemmas meta_path_vcg [vcg] = meta_path_gains [THEN gains_bind]

end
