(* ===== verification/Hir_Program_Props.thy ===== *)
theory Hir_Program_Props
  imports Hir_Resolve_Props
begin

text \<open>
  Name resolution of a whole program: types, imports and the bodies of every module. The steps
  that touch no body keep the use-site tables (\<open>keeps\<close>); the bodies of the modules compose
  like the walks of one body (\<open>hir_walk\<close>).
\<close>

section \<open>Steps that keep the use sites\<close>

definition keeps :: "ResolvedHir \<Rightarrow> ResolvedHir \<Rightarrow> bool" where
  "keeps h h' \<longleftrightarrow>
     quiet_update h h' \<and> hir_locals h' = hir_locals h
     \<and> hir_binding_targets h' = hir_binding_targets h
     \<and> hir_expression_targets h' = hir_expression_targets h
     \<and> hir_pattern_targets h' = hir_pattern_targets h"

lemma keeps_refl [simp]: "keeps h h"
  by (simp add: keeps_def)

lemma keeps_trans: "keeps a b \<Longrightarrow> keeps b c \<Longrightarrow> keeps a c"
  by (auto simp: keeps_def intro: quiet_update_trans)

lemma keeps_adds: "keeps h h' \<Longrightarrow> adds ms [] h h'"
  by (auto simp: keeps_def adds_def)

lemma noted_keeps: "noted h h' \<Longrightarrow> keeps h h'"
  by (auto simp: noted_def keeps_def quiet_update_def)

section \<open>Types\<close>

text \<open>The type identities a type mentions, in the order they are resolved.\<close>

fun type_ids :: "RuaType \<Rightarrow> TypeId list" where
  "type_ids (TyPath i name args) = concat (map type_ids args) @ [i]"
| "type_ids (TyRef is_mutable inner) = type_ids inner"
| "type_ids (TyFunction params ret) = concat (map type_ids params) @ type_ids ret"
| "type_ids (TyTuple elems) = concat (map type_ids elems)"
| "type_ids TyNever = []"
| "type_ids TyUnit = []"

definition names_ok :: "ModuleId \<Rightarrow> (bytes \<rightharpoonup> ResolvedTarget) \<Rightarrow> ResolvedHir \<Rightarrow> bool" where
  "names_ok m aliases h \<longleftrightarrow>
     wf_hir h \<and> module_ok h m \<and> (\<forall>t \<in> ran aliases. table_target h t)"

lemma names_ok_keeps: "names_ok m aliases h \<Longrightarrow> keeps h h' \<Longrightarrow> names_ok m aliases h'"
  using wf_hir_quiet by (auto simp: names_ok_def keeps_def quiet_update_ok)

text \<open>A type step returns, keeps the use sites, and gives at least the types \<open>ids\<close> a target.\<close>

definition types_ok :: "ModuleId \<Rightarrow> Aliases \<Rightarrow> TypeId set \<Rightarrow> (ResolvedHir \<Rightarrow> ResolvedHir outcome) \<Rightarrow> bool" where
  "types_ok m aliases ids f \<longleftrightarrow>
     (\<forall>h. names_ok m aliases h \<longrightarrow>
        (\<exists>h'. f h = Return h' \<and> keeps h h'
          \<and> dom (hir_type_targets h) \<union> ids \<subseteq> dom (hir_type_targets h')))"

named_theorems type_steps

lemma types_okI:
  assumes "\<And>h. names_ok m aliases h \<Longrightarrow> \<exists>h'. f h = Return h' \<and> keeps h h'
      \<and> dom (hir_type_targets h) \<union> ids \<subseteq> dom (hir_type_targets h')"
  shows "types_ok m aliases ids f"
  using assms by (simp add: types_ok_def)

lemma types_okE:
  assumes "types_ok m aliases ids f" and "names_ok m aliases h"
  obtains h' where "f h = Return h'" and "keeps h h'"
    and "dom (hir_type_targets h) \<union> ids \<subseteq> dom (hir_type_targets h')"
  using assms by (auto simp: types_ok_def)

lemma types_return [type_steps]: "types_ok m aliases {} Return" "types_ok m aliases {} (\<lambda>h. Return h)"
  by (simp_all add: types_ok_def)

lemma types_seq:
  assumes "types_ok m aliases xs f" and "types_ok m aliases ys g"
  shows "types_ok m aliases (xs \<union> ys) (seq_outcome f g)"
proof (rule types_okI)
  fix h assume h: "names_ok m aliases h"
  obtain h1 where h1: "f h = Return h1" "keeps h h1"
      "dom (hir_type_targets h) \<union> xs \<subseteq> dom (hir_type_targets h1)"
    using types_okE [OF assms(1) h] .
  obtain h2 where h2: "g h1 = Return h2" "keeps h1 h2"
      "dom (hir_type_targets h1) \<union> ys \<subseteq> dom (hir_type_targets h2)"
    using types_okE [OF assms(2) names_ok_keeps [OF h h1(2)]] .
  have "dom (hir_type_targets h) \<union> (xs \<union> ys) \<subseteq> dom (hir_type_targets h2)"
    using h1(3) h2(3) by blast
  then show "\<exists>h'. seq_outcome f g h = Return h' \<and> keeps h h'
      \<and> dom (hir_type_targets h) \<union> (xs \<union> ys) \<subseteq> dom (hir_type_targets h')"
    using h1 h2 keeps_trans by (auto simp: seq_outcome_def)
qed

lemma types_weaken: "types_ok m aliases ids f \<Longrightarrow> ids' \<subseteq> ids \<Longrightarrow> types_ok m aliases ids' f"
  unfolding types_ok_def by blast

lemma types_seq_none [type_steps]:
  "types_ok m aliases {} f \<Longrightarrow> types_ok m aliases {} g \<Longrightarrow> types_ok m aliases {} (seq_outcome f g)"
  using types_seq [of m aliases "{}" f "{}" g] by simp

lemma types_fold:
  assumes "\<And>x. x \<in> set xs \<Longrightarrow> types_ok m aliases (ids x) (f x)"
  shows "types_ok m aliases (\<Union>x \<in> set xs. ids x) (fold_outcome f xs)"
  using assms
proof (induction xs)
  case Nil
  have "fold_outcome f [] = Return" by (simp add: fun_eq_iff)
  then show ?case by (simp add: types_return)
next
  case (Cons x xs)
  have "fold_outcome f (x # xs) = seq_outcome (f x) (fold_outcome f xs)"
    by (simp add: fun_eq_iff seq_outcome_def)
  moreover have "types_ok m aliases (\<Union>x \<in> set xs. ids x) (fold_outcome f xs)"
    using Cons by simp
  ultimately show ?case using types_seq Cons.prems by auto
qed

lemma types_fold_none [type_steps]:
  "(\<And>x. x \<in> set xs \<Longrightarrow> types_ok m aliases {} (f x)) \<Longrightarrow> types_ok m aliases {} (fold_outcome f xs)"
  using types_fold [of xs m aliases "\<lambda>_. {}" f] by simp

lemma types_ok_ext: "(\<And>h. f h = g h) \<Longrightarrow> types_ok m aliases ids g \<Longrightarrow> types_ok m aliases ids f"
  by (simp add: types_ok_def)

text \<open>The scope of a type step names the module and the aliases; its generics do not matter.\<close>

definition scope_of :: "ModuleId \<Rightarrow> Aliases \<Rightarrow> TypeScope \<Rightarrow> bool" where
  "scope_of m aliases c \<longleftrightarrow> ts_module c = m \<and> ts_aliases c = aliases"

lemma scope_of_generics [simp]: "scope_of m aliases (with_generics c outer inner) = scope_of m aliases c"
  by (simp add: scope_of_def with_generics_def)

lemma resolve_type_name_safe:
  assumes "names_ok m aliases h" and "scope_of m aliases c"
  shows "safe_lookup h (resolve_type_name c name h)"
  using assms resolve_path_lookup [of h m]
  by (auto simp: resolve_type_name_def names_ok_def scope_of_def Let_def ran_def split: option.split)

lemma canonical_type_target_returns:
  assumes "wf_hir h" and "def_ok h d"
  shows "\<exists>t. canonical_type_target h d = Return t"
proof -
  obtain data where "hir_definition h d = Return data" using hir_definition_ok [OF assms] .
  moreover obtain root where "hir_module h (hir_root h) = Return root"
    using hir_module_ok [OF assms(1) wf_root [OF assms(1)]] .
  ultimately show ?thesis
    by (simp add: canonical_type_target_def split: option.split LanguageItem.split)
qed

lemma path_type_target_returns:
  assumes "names_ok m aliases h" and "scope_of m aliases c"
  shows "\<exists>t h'. path_type_target c name h = Return (t, h') \<and> noted h h'"
proof -
  have same: "noted h h" unfolding noted_def by (rule exI [of _ "hir_diagnostics h"]) simp
  obtain r where r: "resolve_type_name c name h = Return r" "\<forall>t \<in> set_option r. table_target h t"
    using resolve_type_name_safe [OF assms, of name] by (auto simp: safe_lookup_def)
  obtain h1 where report: "report_unresolved None name h = Return h1" "noted h h1"
    using reports_return(1) [of None name h] by (auto simp: span_option_fits_def)
  let ?fallback = "case fallback_type_target name of Some t \<Rightarrow> Return (t, h)
    | None \<Rightarrow> map_outcome (Pair TypeError) (report_unresolved None name h)"
  have fallback: "\<exists>t h'. ?fallback = Return (t, h') \<and> noted h h'"
    using same report by (auto split: option.split)
  have item: "\<exists>t h'. map_outcome (\<lambda>t. (t, h)) (canonical_type_target h d) = Return (t, h') \<and> noted h h'"
    if "r = Some (ResolvedItem d)" for d
    using canonical_type_target_returns [of h d] r(2) that assms(1) same by (auto simp: names_ok_def)
  show ?thesis
    using r(1) fallback item same
    by (auto simp: path_type_target_def split: option.split ResolvedTarget.split)
qed

lemma types_path:
  assumes "scope_of m aliases c"
  shows "types_ok m aliases {i}
    (\<lambda>h. map_outcome (\<lambda>(target, h2). set_type_target i target h2) (path_type_target c name h))"
proof (rule types_okI)
  fix h assume h: "names_ok m aliases h"
  obtain t h1 where h1: "path_type_target c name h = Return (t, h1)" "noted h h1"
    using path_type_target_returns [OF h assms] by blast
  then show "\<exists>h'. map_outcome (\<lambda>(target, h2). set_type_target i target h2) (path_type_target c name h) = Return h'
      \<and> keeps h h' \<and> dom (hir_type_targets h) \<union> {i} \<subseteq> dom (hir_type_targets h')"
    by (auto simp: set_type_target_def noted_def keeps_def quiet_update_def)
qed

lemma resolve_type_ids:
  assumes "scope_of m aliases c"
  shows "types_ok m aliases (set (type_ids ty)) (resolve_type c ty)"
proof (induction ty)
  case (TyPath i name args)
  have "types_ok m aliases (set (type_ids (TyPath i name args)))
      (seq_outcome (fold_outcome (\<lambda>a. resolve_type c a) args)
        (\<lambda>h. map_outcome (\<lambda>(target, h2). set_type_target i target h2) (path_type_target c name h)))"
    by (rule types_weaken [OF types_seq [OF types_fold [OF TyPath] types_path [OF assms]]]) auto
  then show ?case by (rule types_ok_ext [rotated]) (simp add: seq_outcome_def)
next
  case (TyRef is_mutable inner)
  then show ?case by (auto intro: types_ok_ext)
next
  case (TyFunction params ret)
  have "types_ok m aliases (set (type_ids (TyFunction params ret)))
      (seq_outcome (fold_outcome (\<lambda>a. resolve_type c a) params) (resolve_type c ret))"
    by (rule types_weaken [OF types_seq [OF types_fold [OF TyFunction(1)] TyFunction(2)]]) auto
  then show ?case by (rule types_ok_ext [rotated]) (simp add: seq_outcome_def)
next
  case (TyTuple elems)
  have "types_ok m aliases (set (type_ids (TyTuple elems))) (fold_outcome (\<lambda>a. resolve_type c a) elems)"
    by (rule types_weaken [OF types_fold [OF TyTuple]]) auto
  then show ?case by (rule types_ok_ext [rotated]) simp
qed (auto intro: types_ok_ext [OF _ types_return(2)])

lemma types_type [type_steps]: "scope_of m aliases c \<Longrightarrow> types_ok m aliases {} (resolve_type c ty)"
  using types_weaken [OF resolve_type_ids] by blast

lemma types_option [type_steps]:
  "(\<And>e. e \<in> set_option x \<Longrightarrow> types_ok m aliases {} (f e))
   \<Longrightarrow> types_ok m aliases {} (\<lambda>h. case x of None \<Rightarrow> Return h | Some e \<Rightarrow> f e h)"
  by (cases x) (simp_all add: types_return)

lemma types_optional [type_steps]:
  assumes "scope_of m aliases c"
  shows "types_ok m aliases {} (resolve_optional_type c ty)"
  by (rule types_ok_ext [OF _ types_option [OF types_type [OF assms]]])
    (simp add: resolve_optional_type_def)

lemma types_pair [type_steps]:
  "(\<And>a b. x = (a, b) \<Longrightarrow> types_ok m aliases {} (f a b))
   \<Longrightarrow> types_ok m aliases {} (case x of (a, b) \<Rightarrow> f a b)"
  by (cases x) simp

section \<open>Types inside bodies\<close>

lemmas type_equations = resolve_block_types.simps resolve_statement_types.simps
  resolve_expression_types.simps resolve_else_types.simps resolve_pattern_types.simps

lemma types_else [type_steps]:
  assumes "\<And>b. b \<in> set_option x \<Longrightarrow> types_ok m aliases {}
      (\<lambda>h. case b of ElseBlock blk \<Rightarrow> resolve_block_types c blk h | ElseIf e \<Rightarrow> resolve_expression_types c e h)"
  shows "types_ok m aliases {} (resolve_else_types c x)"
proof (rule types_ok_ext [OF _ types_option [OF assms]])
  show "resolve_else_types c x h = (case x of None \<Rightarrow> Return h
      | Some b \<Rightarrow> case b of ElseBlock blk \<Rightarrow> resolve_block_types c blk h | ElseIf e \<Rightarrow> resolve_expression_types c e h)"
    for h
    by (simp split: option.split ElseBranch.split)
qed

lemma types_else_cases:
  "types_ok m aliases {} (resolve_block_types c blk) \<Longrightarrow> types_ok m aliases {}
     (\<lambda>h. case ElseBlock blk of ElseBlock blk \<Rightarrow> resolve_block_types c blk h | ElseIf e \<Rightarrow> resolve_expression_types c e h)"
  "types_ok m aliases {} (resolve_expression_types c e) \<Longrightarrow> types_ok m aliases {}
     (\<lambda>h. case ElseIf e of ElseBlock blk \<Rightarrow> resolve_block_types c blk h | ElseIf e \<Rightarrow> resolve_expression_types c e h)"
  by simp_all

lemma types_arm:
  assumes "\<And>p. p \<in> set pats \<Longrightarrow> types_ok m aliases {} (resolve_pattern_types c p)"
    and "\<And>e. e \<in> set_option guard_expr \<Longrightarrow> types_ok m aliases {} (resolve_expression_types c e)"
    and "types_ok m aliases {} (resolve_expression_types c arm_expr)"
  shows "types_ok m aliases {}
    (\<lambda>h. case MatchArm pats guard_expr arm_expr of MatchArm pats guard_expr arm_expr \<Rightarrow>
       seq_outcome (\<lambda>h. fold_outcome (\<lambda>p. resolve_pattern_types c p) pats h)
         (seq_outcome
           (\<lambda>h. case guard_expr of None \<Rightarrow> Return h | Some g \<Rightarrow> resolve_expression_types c g h)
           (\<lambda>h. resolve_expression_types c arm_expr h)) h)"
  unfolding MatchArm.case by (intro type_steps assms)

lemma bodies_types:
  assumes "scope_of m aliases c"
  shows "types_ok m aliases {} (resolve_block_types c b)
    \<and> types_ok m aliases {} (resolve_statement_types c st)
    \<and> types_ok m aliases {} (resolve_expression_types c e)
    \<and> (\<forall>i params ret sp. types_ok m aliases {}
         (resolve_expression_types c (AstExpr i (XClosure params ret cb) sp)))
    \<and> (\<forall>i sp. types_ok m aliases {} (resolve_expression_types c (AstExpr i k sp)))
    \<and> types_ok m aliases {}
        (\<lambda>h. case br of ElseBlock blk \<Rightarrow> resolve_block_types c blk h | ElseIf e \<Rightarrow> resolve_expression_types c e h)
    \<and> types_ok m aliases {}
        (\<lambda>h. case arm of MatchArm pats guard_expr arm_expr \<Rightarrow>
           seq_outcome (\<lambda>h. fold_outcome (\<lambda>p. resolve_pattern_types c p) pats h)
             (seq_outcome
               (\<lambda>h. case guard_expr of None \<Rightarrow> Return h | Some g \<Rightarrow> resolve_expression_types c g h)
               (\<lambda>h. resolve_expression_types c arm_expr h)) h)
    \<and> types_ok m aliases {} (resolve_pattern_types c p)"
  by (induction rule: AstBlock_Stmt_AstExpr_ClosureBody_ExprKind_ElseBranch_MatchArm_AstPattern.induct)
    (((intro allI)?, ((elim allE, assumption) | (rule types_else_cases, assumption) | rule types_arm
        | (rule types_ok_ext, rule type_equations, (intro type_steps)?));
      (auto simp: assms; fail)?)+)

section \<open>Types of a module\<close>

lemmas types_block [type_steps] = bodies_types [THEN conjunct1]

lemma types_bound [type_steps]:
  assumes "scope_of m aliases c"
  shows "types_ok m aliases {} (resolve_trait_ref c bound)"
proof (rule types_okI)
  fix h assume h: "names_ok m aliases h"
  obtain r where r: "resolve_type_name c (traitref_path bound) h = Return r"
      "\<forall>t \<in> set_option r. table_target h t"
    using resolve_type_name_safe [OF h assms, of "traitref_path bound"] by (auto simp: safe_lookup_def)
  obtain t where "trait_target_of h (traitref_path bound) r = Return t"
  proof (rule trait_target_of_returns)
    show "wf_hir h" using h by (simp add: names_ok_def)
    show "def_ok h d" if "r = Some (ResolvedItem d)" for d using r(2) that by simp
  qed
  with r(1) show "\<exists>h'. resolve_trait_ref c bound h = Return h' \<and> keeps h h'
      \<and> dom (hir_type_targets h) \<union> {} \<subseteq> dom (hir_type_targets h')"
    by (auto simp: resolve_trait_ref_def keeps_def quiet_update_def split: option.split)
qed

lemma types_bounds [type_steps]:
  "scope_of m aliases c \<Longrightarrow> types_ok m aliases {} (resolve_trait_refs c generics)"
  unfolding resolve_trait_refs_def by (intro type_steps)

lemma types_signature [type_steps]:
  assumes "scope_of m aliases c"
  shows "types_ok m aliases {} (resolve_signature_types c params ret)"
proof -
  have "types_ok m aliases {}
      (seq_outcome (fold_outcome (\<lambda>p. resolve_type c (param_type p)) params) (resolve_optional_type c ret))"
    by (intro type_steps assms)
  then show ?thesis
    by (rule types_ok_ext [rotated]) (simp add: resolve_signature_types_def seq_outcome_def)
qed

lemma types_function [type_steps]:
  assumes "scope_of m aliases c"
  shows "types_ok m aliases {} (resolve_function_types c outer inner params ret body)"
  unfolding resolve_function_types_def Let_def by (intro type_steps) (simp_all add: assms)

lemma types_variant [type_steps]:
  assumes "scope_of m aliases c"
  shows "types_ok m aliases {} (resolve_variant_types c v)"
proof (cases "variant_kind v")
  case VariantUnit
  then show ?thesis by (auto intro!: types_ok_ext [OF _ types_return(2)] simp: resolve_variant_types_def)
next
  case (VariantTuple types)
  have "types_ok m aliases {} (fold_outcome (resolve_type c) types)" by (intro type_steps assms)
  with VariantTuple show ?thesis by (auto intro: types_ok_ext simp: resolve_variant_types_def)
next
  case (VariantStruct flds)
  have "types_ok m aliases {} (fold_outcome (\<lambda>f. resolve_type c (field_type f)) flds)"
    by (intro type_steps assms)
  with VariantStruct show ?thesis by (auto intro: types_ok_ext simp: resolve_variant_types_def)
qed

lemma types_item [type_steps]:
  assumes "scope_of m aliases c"
  shows "types_ok m aliases {} (resolve_item_types c item)"
proof (cases item)
  case (ItStruct it)
  have "types_ok m aliases {} (seq_outcome (resolve_trait_refs c (struct_generics it))
      (fold_outcome (\<lambda>f. resolve_type (with_generics c (struct_generics it) []) (field_type f))
        (struct_fields it)))"
    by (intro type_steps) (simp_all add: assms)
  with ItStruct show ?thesis by (auto intro: types_ok_ext simp: resolve_item_types_def)
next
  case (ItEnum it)
  have "types_ok m aliases {} (seq_outcome (resolve_trait_refs c (enum_generics it))
      (fold_outcome (resolve_variant_types (with_generics c (enum_generics it) [])) (enum_variants it)))"
    by (intro type_steps) (simp_all add: assms)
  with ItEnum show ?thesis by (auto intro: types_ok_ext simp: resolve_item_types_def)
next
  case (ItImpl it)
  have "types_ok m aliases {} (seq_outcome (resolve_trait_refs c (impl_generics it))
      (fold_outcome (\<lambda>f. resolve_function_types c (impl_generics it) (fn_generics f) (fn_params f) (fn_ret f)
        (Some (fn_body f))) (impl_methods it)))"
    by (intro type_steps assms)
  with ItImpl show ?thesis by (auto intro: types_ok_ext simp: resolve_item_types_def)
next
  case (ItTrait it)
  have "types_ok m aliases {} (seq_outcome (resolve_trait_refs c (trait_generics it))
      (fold_outcome (\<lambda>f. resolve_function_types c (trait_generics it) (tm_generics f) (tm_params f) (tm_ret f)
        (tm_default f)) (trait_methods it)))"
    by (intro type_steps assms)
  with ItTrait show ?thesis by (auto intro: types_ok_ext simp: resolve_item_types_def)
next
  case (ItExtern it)
  have "types_ok m aliases {} (fold_outcome
      (\<lambda>f. resolve_function_types c [] (extern_generics f) (extern_params f) (extern_ret f) None)
      (extern_fns it))"
    by (intro type_steps assms)
  with ItExtern show ?thesis by (auto intro: types_ok_ext simp: resolve_item_types_def)
next
  case (ItAnnotation it)
  with types_signature [OF assms] show ?thesis by (auto intro: types_ok_ext simp: resolve_item_types_def)
next
  case (ItFn it)
  with types_function [OF assms] show ?thesis by (auto intro: types_ok_ext simp: resolve_item_types_def)
qed (auto intro!: types_ok_ext [OF _ types_return(2)] simp: resolve_item_types_def)

lemma module_types_return:
  assumes "names_ok m aliases h"
  shows "\<exists>h'. resolve_module_types m aliases items chunk h = Return h' \<and> keeps h h'"
proof -
  have "types_ok m aliases {} (resolve_module_types m aliases items chunk)"
    unfolding resolve_module_types_def Let_def by (intro type_steps) (simp_all add: scope_of_def)
  from types_okE [OF this assms] show ?thesis by metis
qed

section \<open>Imports\<close>

lemma import_alias_target_returns:
  assumes "wf_hir h" and "module_ok h m"
  shows "\<exists>t h'. import_alias_target m path h = Some (Return (t, h')) \<and> table_target h t \<and> noted h h'"
proof -
  have same: "noted h h" unfolding noted_def by (rule exI [of _ "hir_diagnostics h"]) simp
  have "safe_lookup h (find_import h m path)"
    unfolding find_import_def by (intro safe_lookup_or_else resolve_path_lookup assms)
  then obtain r where r: "find_import h m path = Return r" "\<forall>t \<in> set_option r. table_target h t"
    by (auto simp: safe_lookup_def)
  define target where "target = (case r of Some t \<Rightarrow> t | None \<Rightarrow> ResolvedError)"
  have t: "table_target h target" using r(2) by (auto simp: target_def split: option.split)
  obtain b where b: "private_barrier h m target = Some (Return b)"
    using private_barrier_returns [OF assms, of target] t by (auto simp: table_target_def)
  obtain h1 where h1: "report_unresolved None (join ''::'' path) h = Return h1" "noted h h1"
    using reports_return(1) [of None "join ''::'' path" h] by (auto simp: span_option_fits_def)
  have step: "import_alias_target m path h =
      (if target = ResolvedError then Some (Return (ResolvedError, h1))
       else case b of
           Some (private, owner) \<Rightarrow>
             lift_run (map_outcome (Pair ResolvedError) (report_private_access None private owner h))
         | None \<Rightarrow> ret_run (canonical_value_target h target, h))"
    using r(1) h1(1) b by (simp add: import_alias_target_def lift_run_def Let_def flip: target_def split: option.split)
  show ?thesis
  proof (cases "target = ResolvedError")
    case True
    with step h1(2) show ?thesis by simp
  next
    case False
    show ?thesis
    proof (cases b)
      case None
      with step False t same canonical_table_target show ?thesis by (auto simp: ret_run_def)
    next
      case (Some barrier)
      obtain name owner where [simp]: "barrier = (name, owner)" by (cases barrier)
      show ?thesis
        using step False Some reports_return(3) [of None name owner h]
        by (auto simp: lift_run_def span_option_fits_def)
    qed
  qed
qed

text \<open>Folding a returning step of the import collector.\<close>

definition aliases_from :: "ModuleId \<Rightarrow> (Aliases \<times> ResolvedHir \<Rightarrow> (Aliases \<times> ResolvedHir) run) \<Rightarrow> bool" where
  "aliases_from m f \<longleftrightarrow>
     (\<forall>aliases h. names_ok m aliases h \<longrightarrow>
        (\<exists>aliases' h'. f (aliases, h) = Some (Return (aliases', h')) \<and> keeps h h'
          \<and> names_ok m aliases' h'))"

lemma aliases_fold:
  assumes "\<And>x. x \<in> set xs \<Longrightarrow> aliases_from m (f x)"
  shows "aliases_from m (fold_run f xs)"
  using assms
proof (induction xs)
  case Nil
  then show ?case by (auto simp: aliases_from_def ret_run_def)
next
  case (Cons x xs)
  have x: "aliases_from m (f x)" and xs: "aliases_from m (fold_run f xs)" using Cons by simp_all
  show ?case
    unfolding aliases_from_def
  proof (intro allI impI)
    fix aliases h assume "names_ok m aliases h"
    then obtain a1 h1 where h1: "f x (aliases, h) = Some (Return (a1, h1))" "keeps h h1" "names_ok m a1 h1"
      using x unfolding aliases_from_def by blast
    then obtain a2 h2 where "fold_run f xs (a1, h1) = Some (Return (a2, h2))" "keeps h1 h2" "names_ok m a2 h2"
      using xs unfolding aliases_from_def by blast
    with h1 keeps_trans show "\<exists>aliases' h'. fold_run f (x # xs) (aliases, h) = Some (Return (aliases', h'))
        \<and> keeps h h' \<and> names_ok m aliases' h'"
      by fastforce
  qed
qed

lemma collect_import_returns: "aliases_from m (collect_import m i)"
  unfolding aliases_from_def
proof (intro allI impI)
  fix aliases h assume h: "names_ok m aliases h"
  obtain t h1 where h1: "import_alias_target m (use_path i) h = Some (Return (t, h1))"
      "table_target h t" "noted h h1"
    using import_alias_target_returns [of h m "use_path i"] h by (auto simp: names_ok_def)
  let ?new = "\<lparr>import_module = m, import_name = import_local_name i, import_target = t\<rparr>"
  let ?h' = "h1\<lparr>hir_imports := hir_imports h1 @ [?new]\<rparr>"
  have k: "keeps h ?h'" using noted_keeps [OF h1(3)] by (simp add: keeps_def quiet_update_def)
  have "names_ok m (aliases(import_local_name i \<mapsto> t)) h"
    using h h1(2) subsetD [OF ran_upd_subset] by (force simp: names_ok_def)
  from names_ok_keeps [OF this k] k h1(1)
  show "\<exists>aliases' h'. collect_import m i (aliases, h) = Some (Return (aliases', h')) \<and> keeps h h'
      \<and> names_ok m aliases' h'"
    by (simp add: collect_import_def ret_run_def)
qed

lemma collect_aliases_returns:
  assumes "wf_hir h" and "module_ok h m"
  shows "\<exists>aliases h'. collect_aliases m items h = Some (Return (aliases, h')) \<and> keeps h h'
           \<and> names_ok m aliases h'"
proof -
  have "aliases_from m (collect_use m item)" for item
  proof (cases item)
    case (ItUse it)
    have "aliases_from m (fold_run (collect_import m) (use_imports it))"
      by (intro aliases_fold collect_import_returns)
    with ItUse show ?thesis by (simp add: aliases_from_def collect_use_def)
  qed (auto simp: aliases_from_def collect_use_def ret_run_def)
  then have "aliases_from m (fold_run (collect_use m) items)" by (intro aliases_fold)
  moreover have "names_ok m Map.empty h" using assms by (simp add: names_ok_def)
  ultimately show ?thesis by (simp add: aliases_from_def collect_aliases_def)
qed

section \<open>The bodies of all modules\<close>

definition param_sites :: "bool \<Rightarrow> Param list \<Rightarrow> AstBlock \<Rightarrow> Site list" where
  "param_sites has_self params body =
     (if has_self then [BindSite None] else [])
     @ map (\<lambda>p. BindSite (Some (param_span p))) params @ block_sites body"

definition fn_sites :: "FnDecl \<Rightarrow> Site list" where
  "fn_sites f = param_sites (fn_has_self f) (fn_params f) (fn_body f)"

definition trait_method_sites :: "TraitMethod \<Rightarrow> Site list" where
  "trait_method_sites t =
     (case tm_default t of
        None \<Rightarrow> []
      | Some body \<Rightarrow> param_sites (tm_has_self t) (tm_params t) body)"

text \<open>The sites of an item; the bodies of a child module are walked when the module is linked.\<close>

fun item_sites :: "ResolvedHir \<Rightarrow> ModuleId \<Rightarrow> Item \<Rightarrow> Site list" where
  "item_sites h m (ItFn f) = fn_sites f"
| "item_sites h m (ItImpl it) = concat (map fn_sites (impl_methods it))"
| "item_sites h m (ItTrait it) = concat (map trait_method_sites (trait_methods it))"
| "item_sites h m (ItMod (ModDecl name attrs doc items chunk order pub is_file is_decl)) =
     (case scope_modules (mod_scope (hir_modules h ! ModuleId_index m)) name of
        None \<Rightarrow> []
      | Some child \<Rightarrow> concat (map (item_sites h child) items) @ block_sites chunk)"
| "item_sites h m item = []"

definition module_sites :: "ResolvedHir \<Rightarrow> ModuleId \<Rightarrow> Item list \<Rightarrow> AstBlock \<Rightarrow> Site list" where
  "module_sites h m items chunk = concat (map (item_sites h m) items) @ block_sites chunk"

definition locals_resolved :: "ResolvedHir \<Rightarrow> bool" where
  "locals_resolved h \<longleftrightarrow>
     (\<forall>l. ResolvedLocal l \<in> ran (hir_expression_targets h) \<longrightarrow> LocalId_index l < length (hir_locals h))"

text \<open>
  A walk over bodies on any tables that extend \<open>h0\<close> quietly.
\<close>

definition modules_of :: "ResolvedHir \<Rightarrow> ModuleId set" where
  "modules_of h = {m. module_ok h m}"

definition hir_walk :: "ResolvedHir \<Rightarrow> Site list \<Rightarrow> (ResolvedHir \<Rightarrow> ResolvedHir run) \<Rightarrow> bool" where
  "hir_walk h0 sites f \<longleftrightarrow>
     (\<forall>h. quiet_update h0 h \<and> locals_resolved h \<and> ready sites h \<longrightarrow>
        (\<exists>h'. f h = Some (Return h') \<and> locals_resolved h' \<and> adds (modules_of h0) sites h h'))"

lemma hir_walk_ret: "hir_walk h0 [] ret_run" "hir_walk h0 [] (\<lambda>h. ret_run h)"
  by (auto simp: hir_walk_def ret_run_def)

lemma adds_quiet: "adds ms sites h h' \<Longrightarrow> quiet_update h h'"
  by (simp add: adds_def)

lemma hir_walk_seq:
  assumes "hir_walk h0 xs f" and "hir_walk h0 ys g"
  shows "hir_walk h0 (xs @ ys) (seq_run f g)"
  unfolding hir_walk_def
proof (intro allI impI, elim conjE)
  fix h assume h: "quiet_update h0 h" "locals_resolved h" "ready (xs @ ys) h"
  obtain h1 where h1: "f h = Some (Return h1)" "locals_resolved h1" "adds (modules_of h0) xs h h1"
    using assms(1) h ready_append(1) unfolding hir_walk_def by blast
  have q: "quiet_update h0 h1" using quiet_update_trans [OF h(1) adds_quiet [OF h1(3)]] .
  obtain h2 where "g h1 = Some (Return h2)" "locals_resolved h2" "adds (modules_of h0) ys h1 h2"
    using assms(2) q h1(2) ready_append(2) [OF h(3) h1(3)] unfolding hir_walk_def by blast
  with h1 adds_trans [OF h1(3)]
  show "\<exists>h'. seq_run f g h = Some (Return h') \<and> locals_resolved h' \<and> adds (modules_of h0) (xs @ ys) h h'"
    by (auto simp: seq_run_def)
qed

lemma hir_walk_fold:
  assumes "\<And>x. x \<in> set xs \<Longrightarrow> hir_walk h0 (sites x) (f x)"
  shows "hir_walk h0 (concat (map sites xs)) (fold_run f xs)"
  using assms by (induction xs) (simp_all add: fold_run_as_seq hir_walk_ret hir_walk_seq)

text \<open>A body run from a fresh resolver.\<close>

lemma hir_walk_body:
  assumes "wf_hir h0" and "names_ok m aliases h0"
    and "\<And>s. resolver_ok s \<Longrightarrow> ready sites (rs_hir s) \<Longrightarrow>
      \<exists>s'. f s = Some (Return s') \<and> resolver_ok s' \<and> adds {rs_module s} sites (rs_hir s) (rs_hir s')"
  shows "hir_walk h0 sites (run_body f m aliases)"
  unfolding hir_walk_def
proof (intro allI impI, elim conjE)
  fix h assume h: "quiet_update h0 h" "locals_resolved h" "ready sites h"
  have ok: "resolver_ok (Resolver_new h m aliases)"
    using assms(2) h(1,2) wf_hir_quiet [OF h(1)]
    by (auto simp: resolver_ok_def Resolver_new_def names_ok_def locals_resolved_def quiet_update_ok)
  obtain s' where s': "f (Resolver_new h m aliases) = Some (Return s')" "resolver_ok s'"
      "adds {m} sites h (rs_hir s')"
    using assms(3) [OF ok] h(3) by (auto simp: Resolver_new_def)
  moreover have "adds (modules_of h0) sites h (rs_hir s')"
    by (rule adds_mono [OF s'(3)]) (use assms(2) in \<open>simp add: modules_of_def names_ok_def\<close>)
  ultimately show "\<exists>h'. run_body f m aliases h = Some (Return h') \<and> locals_resolved h'
      \<and> adds (modules_of h0) sites h h'"
    by (auto simp: run_body_def ret_run_def resolver_ok_def locals_resolved_def)
qed

lemma callable_body_walk:
  "walk_ok (param_sites has_self params body)
     (seq_run (if has_self then bind_name ''self'' receiver_mutable None else ret_run)
       (seq_run (fold_run (\<lambda>p. bind_name (param_name p) False (Some (param_span p))) params)
         (body_block body)))"
  unfolding param_sites_def by (cases has_self) (auto intro!: walks simp only: if_True if_False)

lemma callable_body_returns:
  assumes "resolver_ok s" and "ready (param_sites has_self params body) (rs_hir s)"
  shows "\<exists>s'. callable_body has_self receiver_mutable params body s = Some (Return s') \<and> resolver_ok s'
           \<and> adds {rs_module s} (param_sites has_self params body) (rs_hir s) (rs_hir s')"
  unfolding callable_body_def
  using in_scope_returns [OF callable_body_walk [where receiver_mutable = receiver_mutable] assms] by blast

lemma fn_body_walk:
  assumes "wf_hir h0" and "names_ok m aliases h0"
  shows "hir_walk h0 (fn_sites f) (run_body (fn_body_run f) m aliases)"
  unfolding fn_sites_def fn_body_run_def
  by (rule hir_walk_body [OF assms]) (rule callable_body_returns)

lemma trait_body_walk:
  assumes "wf_hir h0" and "names_ok m aliases h0"
  shows "hir_walk h0 (trait_method_sites t) (run_body (trait_body_run t) m aliases)"
proof (cases "tm_default t")
  case None
  show ?thesis
    by (rule hir_walk_body [OF assms]) (simp add: None trait_method_sites_def trait_body_run_def ret_run_def)
next
  case (Some body)
  show ?thesis
    unfolding trait_method_sites_def trait_body_run_def Some option.case
    by (rule hir_walk_body [OF assms]) (rule callable_body_returns)
qed

lemma names_ok_quiet:
  assumes "quiet_update h0 h" and "names_ok m aliases h"
  shows "names_ok m aliases h0"
proof -
  have sym: "quiet_update h h0" using assms(1) by (simp add: quiet_update_def)
  show ?thesis
    using assms(2) wf_hir_quiet [OF sym] quiet_update_ok [OF sym] by (simp add: names_ok_def)
qed

lemma module_bodies_walk:
  assumes wf: "wf_hir h0" and m: "module_ok h0 m"
    and items: "\<And>item aliases. item \<in> set items \<Longrightarrow> names_ok m aliases h0 \<Longrightarrow>
      hir_walk h0 (item_sites h0 m item) (resolve_item_bodies m aliases item)"
  shows "hir_walk h0 (module_sites h0 m items chunk) (resolve_module_bodies m items chunk)"
  unfolding hir_walk_def
proof (intro allI impI, elim conjE)
  fix h assume h: "quiet_update h0 h" "locals_resolved h" "ready (module_sites h0 m items chunk) h"
  have wfh: "wf_hir h" "module_ok h m"
    using wf_hir_quiet [OF h(1) wf] m quiet_update_ok(1) [OF h(1)] by simp_all
  obtain aliases h1 where h1: "collect_aliases m items h = Some (Return (aliases, h1))" "keeps h h1"
      "names_ok m aliases h1"
    using collect_aliases_returns [OF wfh] by blast
  obtain h2 where h2: "resolve_module_types m aliases items chunk h1 = Return h2" "keeps h1 h2"
    using module_types_return [OF h1(3)] by blast
  have k: "keeps h h2" by (rule keeps_trans [OF h1(2) h2(2)])
  have q: "quiet_update h0 h2" using k quiet_update_trans [OF h(1)] by (simp add: keeps_def)
  have names: "names_ok m aliases h0"
    by (rule names_ok_quiet [OF q names_ok_keeps [OF h1(3) h2(2)]])
  have "hir_walk h0 (module_sites h0 m items chunk)
      (seq_run (fold_run (\<lambda>item. resolve_item_bodies m aliases item) items)
        (run_body (body_block chunk) m aliases))"
    unfolding module_sites_def
    by (intro hir_walk_seq hir_walk_fold hir_walk_body [OF wf names] items names)
      (use body_block_returns in blast)+
  moreover have "locals_resolved h2" "ready (module_sites h0 m items chunk) h2"
    using h(2,3) k by (simp_all add: locals_resolved_def ready_def keeps_def)
  ultimately obtain h' where h': "seq_run (fold_run (\<lambda>item. resolve_item_bodies m aliases item) items)
      (run_body (body_block chunk) m aliases) h2 = Some (Return h')" "locals_resolved h'"
      "adds (modules_of h0) (module_sites h0 m items chunk) h2 h'"
    using q unfolding hir_walk_def by blast
  have "adds (modules_of h0) ([] @ module_sites h0 m items chunk) h h'"
    by (rule adds_trans [OF keeps_adds [OF k] h'(3)])
  with h' h1(1) h2(1) show "\<exists>h'. resolve_module_bodies m items chunk h = Some (Return h') \<and> locals_resolved h'
      \<and> adds (modules_of h0) (module_sites h0 m items chunk) h h'"
    by (simp add: lift_run_def seq_run_def)
qed

lemma hir_walk_ext: "(\<And>h. f h = g h) \<Longrightarrow> hir_walk h0 sites g \<Longrightarrow> hir_walk h0 sites f"
  by (simp add: hir_walk_def)

lemma item_bodies_walk:
  assumes wf: "wf_hir h0"
  shows "(\<forall>m aliases. names_ok m aliases h0 \<longrightarrow>
            hir_walk h0 (item_sites h0 m item) (resolve_item_bodies m aliases item))
    \<and> (\<forall>m aliases. names_ok m aliases h0 \<longrightarrow>
            hir_walk h0 (item_sites h0 m (ItMod md)) (resolve_item_bodies m aliases (ItMod md)))"
proof (induction rule: Item_ModDecl.induct)
  case (ItFn f)
  then show ?case
    using fn_body_walk [OF wf] by (auto intro: hir_walk_ext)
next
  case (ItImpl it)
  have "hir_walk h0 (concat (map fn_sites (impl_methods it)))
      (fold_run (\<lambda>f. run_body (fn_body_run f) m aliases) (impl_methods it))"
    if "names_ok m aliases h0" for m aliases
    by (intro hir_walk_fold fn_body_walk wf that)
  then show ?case by (auto intro: hir_walk_ext)
next
  case (ItTrait it)
  have "hir_walk h0 (concat (map trait_method_sites (trait_methods it)))
      (fold_run (\<lambda>t. run_body (trait_body_run t) m aliases) (trait_methods it))"
    if "names_ok m aliases h0" for m aliases
    by (intro hir_walk_fold trait_body_walk wf that)
  then show ?case by (auto intro: hir_walk_ext)
next
  case (ModDecl name attrs doc items chunk order pub is_file is_decl)
  let ?md = "ModDecl name attrs doc items chunk order pub is_file is_decl"
  show ?case
  proof (intro allI impI)
    fix m aliases assume names: "names_ok m aliases h0"
    then have m: "ModuleId_index m < length (hir_modules h0)" by (simp add: names_ok_def module_ok_def)
    let ?child = "scope_modules (mod_scope (hir_modules h0 ! ModuleId_index m)) name"
    show "hir_walk h0 (item_sites h0 m (ItMod ?md)) (resolve_item_bodies m aliases (ItMod ?md))"
    proof (cases ?child)
      case None
      have "resolve_item_bodies m aliases (ItMod ?md) h = ret_run h" if "quiet_update h0 h" for h
        using that m None by (simp add: hir_module_def index_at_def quiet_update_def lift_run_def)
      with None show ?thesis by (auto simp: hir_walk_def ret_run_def)
    next
      case (Some child)
      have "scope_ok h0 (mod_scope (hir_modules h0 ! ModuleId_index m))"
        using wf m by (auto simp: wf_hir_def module_data_ok_def)
      with Some have "module_ok h0 child" by (auto simp: scope_ok_def ran_def)
      then have "hir_walk h0 (module_sites h0 child items chunk) (resolve_module_bodies child items chunk)"
        by (rule module_bodies_walk [OF wf]) (use ModDecl in blast)
      moreover have "resolve_item_bodies m aliases (ItMod ?md) h = resolve_module_bodies child items chunk h"
        if "quiet_update h0 h" for h
        using that m Some by (simp add: hir_module_def index_at_def quiet_update_def lift_run_def)
      ultimately show ?thesis using Some by (simp add: hir_walk_def module_sites_def)
    qed
  qed
qed (auto intro: hir_walk_ext [OF _ hir_walk_ret(2)])

lemma program_bodies_walk:
  assumes "wf_hir h0" and "module_ok h0 m"
  shows "hir_walk h0 (module_sites h0 m items chunk) (resolve_module_bodies m items chunk)"
  by (rule module_bodies_walk [OF assms]) (use item_bodies_walk [OF assms(1)] in blast)

section \<open>Declarations touch no use site\<close>

definition use_tables where
  "use_tables h = (hir_locals h, hir_binding_targets h, hir_expression_targets h, hir_pattern_targets h)"

definition silent :: "('s \<Rightarrow> 't) \<Rightarrow> ('s \<Rightarrow> 's outcome) \<Rightarrow> bool" where
  "silent view f \<longleftrightarrow> (\<forall>s s'. f s = Return s' \<longrightarrow> view s' = view s)"

lemma silent_fold:
  "(\<And>x. x \<in> set xs \<Longrightarrow> silent view (f x)) \<Longrightarrow> silent view (fold_outcome f xs)"
proof (induction xs)
  case (Cons x xs)
  then have "silent view (f x)" "silent view (fold_outcome f xs)" by simp_all
  then show ?case by (auto simp: silent_def)
qed (simp add: silent_def)

lemma use_tables_updates [simp]:
  "use_tables (push_diagnostic dg h) = use_tables h"
  "use_tables (set_scope m sc h) = use_tables h"
  "use_tables (set_item_target m i t h) = use_tables h"
  "use_tables (set_definition_file x file h) = use_tables h"
  "use_tables (add_type_trait owner target h) = use_tables h"
  "use_tables (link_trait_method d name link h) = use_tables h"
  "use_tables (h\<lparr>hir_modules := ms\<rparr>) = use_tables h"
  "use_tables (h\<lparr>hir_definitions := ds\<rparr>) = use_tables h"
  "use_tables (h\<lparr>hir_enum_variants := ev\<rparr>) = use_tables h"
  "use_tables (h\<lparr>hir_enum_variant_targets := et\<rparr>) = use_tables h"
  "use_tables (h\<lparr>hir_extern_function_targets := eft\<rparr>) = use_tables h"
  "use_tables (h\<lparr>hir_trait_items := ti\<rparr>) = use_tables h"
  "use_tables (h\<lparr>hir_trait_default_methods := dm\<rparr>) = use_tables h"
  "use_tables (h\<lparr>hir_trait_method_targets := tmt\<rparr>) = use_tables h"
  "use_tables (h\<lparr>hir_associated_items := ai\<rparr>) = use_tables h"
  "use_tables (h\<lparr>hir_impl_method_targets := imt\<rparr>) = use_tables h"
  "use_tables (h\<lparr>hir_impl_targets := it\<rparr>) = use_tables h"
  "use_tables (h\<lparr>hir_method_origins := mo\<rparr>) = use_tables h"
  "use_tables (h\<lparr>hir_method_traits := mt\<rparr>) = use_tables h"
  "use_tables (h\<lparr>hir_language_items := li\<rparr>) = use_tables h"
  by (simp_all add: use_tables_def push_diagnostic_def set_scope_def set_item_target_def
      set_definition_file_def add_type_trait_def link_trait_method_def Let_def
      split: option.split TraitTarget.split)

lemma alloc_def_silent: "alloc_def m name kind public h = (d, h') \<Longrightarrow> use_tables h' = use_tables h"
  by (auto simp: alloc_def_def Let_def use_tables_def)

lemma report_duplicate_silent:
  "report_duplicate m name h = Return h' \<Longrightarrow> use_tables h' = use_tables h"
  "report_duplicate_variant owner name h = Return h' \<Longrightarrow> use_tables h' = use_tables h"
  "report_unresolved None name h = Return h' \<Longrightarrow> use_tables h' = use_tables h"
  by (auto simp: report_duplicate_def report_duplicate_variant_def report_unresolved_def Let_def)

lemma hir_insert_silent: "hir_insert m ns name d h = Return h' \<Longrightarrow> use_tables h' = use_tables h"
  by (cases ns)
    (auto simp: hir_insert_def check_previous_def Let_def dest!: report_duplicate_silent(1)
      split: option.splits if_splits)

lemmas silent_dests = alloc_def_silent report_duplicate_silent hir_insert_silent

lemma collect_variant_silent: "silent use_tables (collect_variant m owner public entry)"
  unfolding silent_def
  by (cases entry; cases "variant_kind (snd entry)")
    (auto simp: collect_variant_def Let_def dest!: silent_dests split: if_splits prod.splits)

lemma collect_extern_fn_silent: "silent use_tables (collect_extern_fn m i entry)"
  unfolding silent_def
  by (cases entry) (auto simp: collect_extern_fn_def Let_def dest!: silent_dests split: prod.splits)

lemma silentD: "silent view f \<Longrightarrow> f s = Return s' \<Longrightarrow> view s' = view s"
  by (simp add: silent_def)

lemma collect_leaf_silent: "silent use_tables (collect_leaf m i item)"
proof (cases item)
  case (ItExtern b)
  have "silent use_tables (fold_outcome (collect_extern_fn m i) (List.enumerate 0 (extern_fns b)))"
    by (intro silent_fold collect_extern_fn_silent)
  with ItExtern show ?thesis by (simp add: silent_def collect_leaf_def)
next
  case (ItEnum e)
  have "silent use_tables (fold_outcome (collect_variant m owner public) (List.enumerate 0 (enum_variants e)))"
    for owner public
    by (intro silent_fold collect_variant_silent)
  with ItEnum show ?thesis
    by (auto simp: silent_def collect_leaf_def collect_enum_def dest!: silent_dests split: prod.splits)
qed (auto simp: silent_def collect_leaf_def collect_annotation_def collect_function_def
    collect_struct_def collect_trait_def Let_def dest!: silent_dests split: prod.splits)

lemma collect_module_silent:
  "collect_module m i decl h = Return (child, h') \<Longrightarrow> use_tables h' = use_tables h"
  by (cases "ModulePath_child (mod_path (hir_modules h ! ModuleId_index m)) (md_name decl)")
    (auto simp: collect_module_def hir_module_def link_module_def Let_def dest!: silent_dests
      split: if_splits)

lemma collect_items_silent: "collect_items m i items h = Return h' \<Longrightarrow> use_tables h' = use_tables h"
proof (induction m i items h arbitrary: h' rule: collect_items.induct)
  case (2 m i n a d its ch ord p f e items h)
  then show ?case by (fastforce dest: collect_module_silent)
qed (auto dest!: silentD [OF collect_leaf_silent])

lemma collect_trait_methods_silent: "silent use_tables (collect_trait_methods m i t)"
proof -
  have "silent use_tables (collect_trait_method m owner public entry)" for owner public entry
  proof (cases entry)
    case (Pair index decl)
    show ?thesis
      unfolding silent_def Pair collect_trait_method_def Let_def alloc_def_def prod.case
      by (auto simp only: map_outcome_Return_iff use_tables_updates outcome.inject split: if_split_asm
          dest!: report_duplicate_silent(1))
  qed
  then have "silent use_tables (fold_outcome (collect_trait_method m owner public) xs)"
    for owner public xs
    by (intro silent_fold)
  then show ?thesis
    by (auto simp: silent_def collect_trait_methods_def split: option.splits ResolvedTarget.splits)
qed

lemma collect_trait_items_silent:
  "collect_trait_items m i items h = Return h' \<Longrightarrow> use_tables h' = use_tables h"
  by (induction m i items h arbitrary: h' rule: collect_trait_items.induct)
    (fastforce dest!: silentD [OF collect_trait_methods_silent] split: option.splits)+

lemma collect_impl_silent: "silent use_tables (collect_impl m i im)"
proof -
  have "silent use_tables (collect_impl_method m i owner target entry)" for owner target entry
    unfolding silent_def
    by (cases entry) (auto simp: collect_impl_method_def Let_def dest!: silent_dests
        split: prod.splits if_splits)
  then have methods: "silent use_tables (fold_outcome (collect_impl_method m i owner target) xs)"
    for owner target xs
    by (intro silent_fold)
  have named: "use_tables h1 = use_tables h"
    if "resolve_impl_trait m owner named h = Return (target, h1)" for owner named h target h1
    using that by (auto simp: resolve_impl_trait_def dest!: silent_dests split: option.splits)
  show ?thesis
    unfolding silent_def
  proof (intro allI impI)
    fix h h' assume run: "collect_impl m i im h = Return h'"
    then obtain r where r: "resolve_path h m NsType (split_path (impl_type_name im)) = Return r"
      by (auto simp: collect_impl_def)
    show "use_tables h' = use_tables h"
    proof (cases "\<exists>owner. r = Some (ResolvedItem owner)")
      case True
      then obtain owner where owner: "r = Some (ResolvedItem owner)" ..
      obtain target h1 where h1: "resolve_impl_trait m owner (impl_trait_name im) h = Return (target, h1)"
        using run r owner by (auto simp: collect_impl_def)
      let ?h2 = "h1\<lparr>hir_impl_targets := (hir_impl_targets h1)
        ((m, i) \<mapsto> \<lparr>impl_owner = owner, impl_trait_target = target\<rparr>)\<rparr>"
      have "fold_outcome (collect_impl_method m i owner target) (List.enumerate 0 (impl_methods im)) ?h2
          = Return h'"
        using run r owner h1 by (simp add: collect_impl_def)
      then have "use_tables h' = use_tables ?h2" by (rule silentD [OF methods])
      with named [OF h1] show ?thesis by simp
    next
      case False
      then have "report_unresolved None (impl_type_name im) h = Return h'"
        using run r by (auto simp: collect_impl_def split: option.splits ResolvedTarget.splits)
      then show ?thesis by (rule report_duplicate_silent)
    qed
  qed
qed

lemma collect_impl_items_silent:
  "collect_impl_items m i items h = Return h' \<Longrightarrow> use_tables h' = use_tables h"
  by (induction m i items h arbitrary: h' rule: collect_impl_items.induct)
    (fastforce dest!: silentD [OF collect_impl_silent] split: option.splits)+

lemma collect_inherited_methods_silent:
  "collect_inherited_methods h = Return h' \<Longrightarrow> use_tables h' = use_tables h"
proof -
  have "silent use_tables (inherit_method owner trait_id entry)" for owner trait_id entry
    unfolding silent_def
    by (cases entry) (auto simp: inherit_method_def alloc_def_def Let_def split: if_splits)
  then have "silent use_tables (fold_outcome (inherit_method owner trait_id) xs)" for owner trait_id xs
    by (intro silent_fold)
  then have "silent use_tables
      (\<lambda>h1. fold_outcome (inherit_method owner trait_id) (trait_defaults h1 trait_id) h1)"
    for owner trait_id
    by (simp add: silent_def)
  then have "silent use_tables (fold_outcome
      (\<lambda>(owner, trait_id) h1. fold_outcome (inherit_method owner trait_id) (trait_defaults h1 trait_id) h1) xs)"
    for xs
    by (intro silent_fold) auto
  then show "collect_inherited_methods h = Return h' \<Longrightarrow> use_tables h' = use_tables h"
    by (simp add: silent_def collect_inherited_methods_def)
qed

lemma install_language_items_silent:
  "install_language_items h = Return h' \<Longrightarrow> use_tables h' = use_tables h"
proof -
  have "silent use_tables (install_language_item prelude entry)" for prelude entry
    by (cases entry) (auto simp: silent_def install_language_item_def split: option.splits)
  then have "silent use_tables (fold_outcome (install_language_item prelude) xs)" for prelude xs
    by (intro silent_fold)
  then show "install_language_items h = Return h' \<Longrightarrow> use_tables h' = use_tables h"
    by (auto simp: silent_def install_language_items_def split: option.splits)
qed

lemma collect_declarations_use_tables:
  assumes "collect_declarations program = Return h"
  shows "use_tables h = ([], Map.empty, Map.empty, Map.empty)"
proof -
  have "use_tables h = use_tables (initial_hir program)"
    using assms
    by (auto simp: collect_declarations_def Let_def
        dest!: collect_items_silent collect_trait_items_silent collect_impl_items_silent
          collect_inherited_methods_silent install_language_items_silent)
  then show ?thesis by (simp add: use_tables_def initial_hir_def)
qed

section \<open>A whole program\<close>

text \<open>
  The sites of a program are fit when its binding ranges and its name identities are distinct,
  its ranges lie in a 32-bit text and its locals can be numbered in 32 bits.
\<close>

definition sites_fit :: "Site list \<Rightarrow> bool" where
  "sites_fit sites \<longleftrightarrow>
     distinct (site_keys sites) \<and> distinct (map fst (site_names sites))
     \<and> (\<forall>r \<in> set (site_spans sites). span_fits r) \<and> site_binds sites \<le> 2 ^ 32"

lemma resolve_program_walk:
  assumes "module_names_ok (prog_items program)"
    and "collect_declarations program = Return h"
    and "sites = module_sites h (hir_root h) (prog_items program) (prog_chunk program)"
    and "sites_fit sites"
  shows "\<exists>h'. resolve_program program = Some (Return h') \<and> wf_hir h'
           \<and> dom (hir_binding_targets h') = set (site_keys sites)
           \<and> dom (hir_pattern_targets h') = set (site_patterns sites)
           \<and> dom (hir_expression_targets h') = fst ` set (site_names sites)
           \<and> (\<forall>(i, path) \<in> set (site_names sites). \<exists>t m.
                hir_expression_targets h' i = Some t \<and> module_ok h' m \<and> name_ok h' m path t)"
proof -
  have wf: "wf_hir h" using collect_declarations_step [OF assms(1)] assms(2) by auto
  have fresh: "hir_locals h = []" "hir_binding_targets h = Map.empty"
      "hir_expression_targets h = Map.empty" "hir_pattern_targets h = Map.empty"
    using collect_declarations_use_tables [OF assms(2)] by (simp_all add: use_tables_def)
  have "hir_walk h sites (resolve_module_bodies (hir_root h) (prog_items program) (prog_chunk program))"
    unfolding assms(3) by (rule program_bodies_walk [OF wf wf_root [OF wf]])
  moreover have "ready sites h" using assms(4) by (simp add: ready_def sites_fit_def fresh)
  moreover have "locals_resolved h" by (simp add: locals_resolved_def fresh)
  ultimately obtain h' where run: "resolve_module_bodies (hir_root h) (prog_items program) (prog_chunk program) h
      = Some (Return h')" and added: "adds (modules_of h) sites h h'"
    unfolding hir_walk_def by (meson quiet_update_refl)
  have q: "quiet_update h h'" using added by (rule adds_quiet)
  have "resolve_program program = Some (Return h')"
    using run assms(2) by (simp add: resolve_program_def lift_run_def)
  moreover have "\<exists>t m. hir_expression_targets h' i = Some t \<and> module_ok h' m \<and> name_ok h' m path t"
    if "(i, path) \<in> set (site_names sites)" for i path
    using added that quiet_update_ok(1) [OF q] by (fastforce simp: adds_def modules_of_def)
  moreover have "wf_hir h'" by (rule wf_hir_quiet [OF q wf])
  moreover have "dom (hir_binding_targets h') = set (site_keys sites)"
      "dom (hir_pattern_targets h') = set (site_patterns sites)"
      "dom (hir_expression_targets h') = fst ` set (site_names sites)"
    using added by (simp_all add: adds_def fresh)
  ultimately show ?thesis by blast
qed

text \<open>
  C4. Name resolution of a whole program is total: when the sites of its bodies are fit, it
  returns without a panic and without looping. Exactly the binding ranges, name expressions
  and path patterns of its bodies are given targets, and each name resolves to a target of
  the declaration tables or to a local variable of that very name in a module of the program.
\<close>

theorem resolve_program_total:
  assumes "module_names_ok (prog_items program)"
    and "collect_declarations program = Return h"
    and "sites = module_sites h (hir_root h) (prog_items program) (prog_chunk program)"
    and "sites_fit sites"
  shows "\<exists>h'. resolve_program program = Some (Return h') \<and> wf_hir h'
           \<and> dom (hir_binding_targets h') = set (site_keys sites)
           \<and> dom (hir_pattern_targets h') = set (site_patterns sites)
           \<and> dom (hir_expression_targets h') = fst ` set (site_names sites)
           \<and> (\<forall>(i, path) \<in> set (site_names sites). \<exists>t m.
                hir_expression_targets h' i = Some t \<and> module_ok h' m \<and> name_ok h' m path t)"
  by (rule resolve_program_walk [OF assms])

text \<open>A program of one function, \<open>fn main(x) { for y in x { y } }\<close>, and the statement \<open>main\<close>.\<close>

definition sample_range :: "nat \<Rightarrow> SourceRange" where
  "sample_range i = \<lparr>sr_start = i, sr_len = 1, sr_line = 1, sr_file = 0\<rparr>"

definition sample_path :: "nat \<Rightarrow> bytes \<Rightarrow> AstExpr" where
  "sample_path i name = AstExpr \<lparr>exid_file = 0, exid_local = of_nat i\<rparr> (XPath [name]) (sample_range i)"

definition body_program :: Program where
  "body_program =
     \<lparr>prog_items =
        [ItFn ((sample_fn ''main'' True)
           \<lparr>fn_params := [\<lparr>param_name = ''x'', param_span = sample_range 8, param_type = TyUnit\<rparr>],
             fn_body := AstBlock [StFor ''y'' (sample_range 12) (sample_path 1 ''x'')
               (AstBlock [] [] (Some (sample_path 2 ''y'')) False)] [] None False\<rparr>)],
      prog_chunk = AstBlock [] [] (Some (sample_path 3 ''main'')) False, prog_source_order = [],
      prog_is_decl = False, prog_standard_library = None\<rparr>"

theorem resolve_program_total_witness:
  "\<exists>h'. resolve_program body_program = Some (Return h')
     \<and> dom (hir_expression_targets h') = {\<lparr>exid_file = 0, exid_local = 1\<rparr>,
          \<lparr>exid_file = 0, exid_local = 2\<rparr>, \<lparr>exid_file = 0, exid_local = 3\<rparr>}
     \<and> dom (hir_binding_targets h') = {(0, 8, 1), (0, 12, 1)}"
proof -
  have names: "module_names_ok (prog_items body_program)" by (simp add: body_program_def)
  then obtain h where h: "collect_declarations body_program = Return h"
    using collect_declarations_step by blast
  let ?sites = "module_sites h (hir_root h) (prog_items body_program) (prog_chunk body_program)"
  have sites: "?sites = [BindSite (Some (sample_range 8)),
      NameSite \<lparr>exid_file = 0, exid_local = 1\<rparr> [''x''] (sample_range 1), BindSite (Some (sample_range 12)),
      NameSite \<lparr>exid_file = 0, exid_local = 2\<rparr> [''y''] (sample_range 2),
      NameSite \<lparr>exid_file = 0, exid_local = 3\<rparr> [''main''] (sample_range 3)]"
    by (simp add: module_sites_def body_program_def fn_sites_def param_sites_def sample_fn_def sample_path_def)
  have fit: "sites_fit ?sites"
    unfolding sites by (simp add: sites_fit_def site_defs range_key_def sample_range_def span_fits_def)
  obtain h' where h': "resolve_program body_program = Some (Return h')"
      "dom (hir_binding_targets h') = set (site_keys ?sites)"
      "dom (hir_expression_targets h') = fst ` set (site_names ?sites)"
    using resolve_program_total [OF names h refl fit] by (elim exE conjE) (rule that; assumption)
  have "set (site_keys ?sites) = {(0, 8, 1), (0, 12, 1)}"
    unfolding sites by (simp add: site_defs range_key_def sample_range_def)
  moreover have "fst ` set (site_names ?sites) = {\<lparr>exid_file = 0, exid_local = 1\<rparr>,
      \<lparr>exid_file = 0, exid_local = 2\<rparr>, \<lparr>exid_file = 0, exid_local = 3\<rparr>}"
    unfolding sites by (simp add: site_defs)
  ultimately show ?thesis using h' by (intro exI [of _ h']) (simp only: simp_thms)
qed

section \<open>Types of a signature\<close>

text \<open>
  C7. Resolving a type gives every type it mentions a target, argument by argument, on any
  well-formed tables: no lookup panics, unknown names become the error type with a
  diagnostic, and nothing but type targets and diagnostics changes.
\<close>

theorem resolve_type_total:
  assumes "wf_hir h" and "module_ok h (ts_module c)"
    and "\<forall>t \<in> ran (ts_aliases c). table_target h t"
  shows "\<exists>h'. resolve_type c ty h = Return h' \<and> wf_hir h' \<and> keeps h h'
           \<and> set (type_ids ty) \<subseteq> dom (hir_type_targets h')"
proof -
  have names: "names_ok (ts_module c) (ts_aliases c) h" using assms by (simp add: names_ok_def)
  have "types_ok (ts_module c) (ts_aliases c) (set (type_ids ty)) (resolve_type c ty)"
    by (rule resolve_type_ids) (simp add: scope_of_def)
  then obtain h' where h': "resolve_type c ty h = Return h'" "keeps h h'"
      "dom (hir_type_targets h) \<union> set (type_ids ty) \<subseteq> dom (hir_type_targets h')"
    using names by (rule types_okE)
  have "wf_hir h'" using names_ok_keeps [OF names h'(2)] by (simp add: names_ok_def)
  with h' show ?thesis by blast
qed

theorem resolve_type_total_witness:
  "\<exists>h'. resolve_type \<lparr>ts_module = ModuleId 1, ts_aliases = Map.empty, ts_generics = Map.empty\<rparr>
       (TyPath \<lparr>tyid_file = 0, tyid_local = 0\<rparr> ''Vec''
          [TyRef False (TyPath \<lparr>tyid_file = 0, tyid_local = 1\<rparr> ''i32'' [])]) sample_hir = Return h'
     \<and> {\<lparr>tyid_file = 0, tyid_local = 0\<rparr>, \<lparr>tyid_file = 0, tyid_local = 1\<rparr>} \<subseteq> dom (hir_type_targets h')"
proof -
  let ?c = "\<lparr>ts_module = ModuleId 1, ts_aliases = Map.empty, ts_generics = Map.empty\<rparr> :: TypeScope"
  let ?ty = "TyPath \<lparr>tyid_file = 0, tyid_local = 0\<rparr> ''Vec''
    [TyRef False (TyPath \<lparr>tyid_file = 0, tyid_local = 1\<rparr> ''i32'' [])]"
  have "\<exists>h'. resolve_type ?c ?ty sample_hir = Return h' \<and> wf_hir h' \<and> keeps sample_hir h'
      \<and> set (type_ids ?ty) \<subseteq> dom (hir_type_targets h')"
    by (rule resolve_type_total [OF sample_hir_wf]) (use sample_hir_modules(2) in simp_all)
  then show ?thesis by auto
qed

end
