(* ===== verification/Parser_Calls.thy ===== *)
theory Parser_Calls
  imports Parser_Props Hir_Program_Props
begin

text \<open>
  The methods of the grammar, each from the contracts of the methods it calls. A contract says
  how many tokens a method reads at least, how many of them are spare for the caller, and the
  sites its result has. The locale states the contracts of the re-entered methods; it is
  interpreted at every fuel in \<open>Parser_Total\<close>.
\<close>

definition expr_ok :: "AstExpr \<Rightarrow> bool" where
  "expr_ok e \<longleftrightarrow> span_fits (expr_span e)"

lemma expr_ok_mk [simp]: "expr_ok (AstExpr i kind sp) = span_fits sp"
  by (simp add: expr_ok_def)

lemma literal_token_here [simp]: "literal_token k \<Longrightarrow> k \<noteq> Eof"
  by (auto simp: literal_token_def)

lemma literal_gains:
  assumes "literal_token k" and "span_fits start"
  shows "gains x n 1 0 True expr_ok expression_sites (parse_literal k start)"
  unfolding parse_literal_def parse_scalar_def
  by (rule gainsI) (intro vcg; simp add: assms(2))

lemmas literal_vcg [vcg] =
  literal_gains [THEN gains_last] literal_gains [THEN gains_here_bind]

locale grammar_calls =
  fixes x :: source and n :: nat and r :: Grammar
  assumes type_call: "plain x n 1 0 (r_type r)"
    and block_call: "gains x n 1 1 False anything block_sites (r_block r)"
    and expr_call: "gains x n 1 0 False expr_ok expression_sites (r_expr r)"
    and bin_call: "gains x n 1 0 False expr_ok expression_sites (r_bin r bp)"
    and unary_call: "gains x n 1 0 False expr_ok expression_sites (r_unary r)"
    and pattern_call: "gains x n 1 0 False anything pattern_sites (r_pattern r)"
    and pattern_literal_call: "gains x n 1 0 False expr_ok expression_sites (r_pattern_literal r)"
    and if_call: "gains x n 1 0 False expr_ok expression_sites (r_if r)"
    and meta_item_call: "plain x n 1 0 (r_meta_item r)"
    and meta_value_call: "plain x n 1 0 (r_meta_value r)"
begin

lemmas call_vcg [vcg] =
  type_call [THEN gains_bind] type_call [THEN comma_plain, THEN gains_bind]
  type_call [THEN optional_plain, THEN gains_bind]
  block_call [THEN gains_bind] expr_call [THEN gains_bind] bin_call [THEN gains_bind]
  unary_call [THEN gains_bind] pattern_call [THEN gains_bind]
  pattern_call [THEN comma_gains, THEN gains_bind]
  pattern_literal_call [THEN gains_bind] if_call [THEN gains_bind]
  meta_item_call [THEN gains_bind] meta_item_call [THEN comma_plain, THEN gains_bind]
  meta_value_call [THEN gains_bind] meta_value_call [THEN comma_plain, THEN gains_bind]

subsection \<open>Attributes\<close>

lemma meta_named_step: "plain x (Suc n) 1 0 (parse_meta_named r)"
  unfolding parse_meta_named_def
  by (rule gainsI, rule runs_drop [OF meta_path_gains], simp) (intro vcg; simp)

lemma meta_item_step: "plain x (Suc n) 1 0 (parse_meta_item r)"
  unfolding parse_meta_item_def
  by (rule gainsI)
    (intro vcg gains_here_bind [OF meta_literal_gains] meta_named_step [THEN gains_last]
      meta_named_step [THEN gains_bind]; auto)

lemma meta_values_step: "gains x (Suc n) 1 0 True anything no_sites (parse_meta_values r)"
  unfolding parse_meta_values_def
  by (rule gainsI, rule runs_drop [OF bump_gains], simp) (intro vcg; simp)

lemma meta_value_step: "plain x (Suc n) 1 0 (parse_meta_value r)"
  unfolding parse_meta_value_def
  by (rule gainsI)
    (intro vcg meta_literal_gains [THEN gains_last] gains_here_bind [OF meta_literal_gains]
      meta_values_step [THEN gains_last] gains_here_bind [OF meta_values_step]; auto)

lemma outer_attribute_gains: "plain x n 0 0 (outer_attribute item)"
  by (cases item; simp only: outer_attribute.simps; rule gainsI; intro vcg; simp)

lemmas outer_attribute_vcg [vcg] = outer_attribute_gains [THEN gains_bind]

lemma attributes_gains: "plain x n 0 0 (parse_outer_attributes r)"
  unfolding parse_outer_attributes_def
  by (rule gainsI) (intro vcg plain_loop; simp)

lemmas attributes_vcg [vcg] = attributes_gains [THEN gains_bind]

subsection \<open>Types\<close>

lemma fn_type_gains: "plain x n 1 0 (parse_fn_type r)"
  unfolding parse_fn_type_def
  by (rule gainsI) (intro vcg; simp)

lemma ref_type_gains: "plain x n 1 0 (parse_ref_type r)"
  unfolding parse_ref_type_def
  by (rule gainsI) (intro vcg; simp)

lemma paren_type_gains: "plain x n 1 0 (parse_paren_type r)"
  unfolding parse_paren_type_def
  by (rule gainsI) (intro vcg; simp)

lemma path_type_gains: "plain x n 1 0 (parse_path_type r)"
  unfolding parse_path_type_def
  by (rule gainsI) (intro vcg; simp)

lemmas type_parts =
  fn_type_gains [THEN gains_last] fn_type_gains [THEN gains_bind]
  ref_type_gains [THEN gains_last] ref_type_gains [THEN gains_bind]
  paren_type_gains [THEN gains_last] paren_type_gains [THEN gains_bind]
  path_type_gains [THEN gains_last] path_type_gains [THEN gains_bind]

lemma type_step: "plain x (Suc n) 1 0 (parse_type r)"
  unfolding parse_type_def
proof (rule gains_nesting)
  show "plain x n 1 0 (parse_type_inner r)"
    unfolding parse_type_inner_def
    by (rule gainsI) (intro vcg type_parts; simp)
qed

subsection \<open>Patterns\<close>

lemma pattern_literal_step: "gains x (Suc n) 1 0 False expr_ok expression_sites (parse_pattern_literal r)"
  unfolding parse_pattern_literal_def
proof (rule gains_nesting)
  show "gains x n 1 0 False expr_ok expression_sites (parse_pattern_literal_inner r)"
    unfolding parse_pattern_literal_inner_def
    by (rule gainsI) (intro vcg; simp)
qed

lemma literal_pattern_gains: "gains x n 1 0 False anything pattern_sites (parse_literal_pattern r)"
  unfolding parse_literal_pattern_def
  by (rule gainsI) (intro vcg; simp)

lemma field_pattern_gains:
  "gains x n 1 0 False anything (\<lambda>(name, p). pattern_sites p) (parse_field_pattern r)"
  unfolding parse_field_pattern_def
  by (rule gainsI) (intro vcg; simp)

lemma field_patterns_gains:
  "gains x n 0 0 False anything (\<lambda>p. concat (map (\<lambda>(name, p). pattern_sites p) (fst p)))
    (parse_field_patterns r)"
  unfolding parse_field_patterns_def
  by (rule gains_repeat [where cr = "\<lambda>_. 0"], rule stepsI)
    ((intro vcg field_pattern_gains [THEN gains_bind]; simp) | simp)+

lemmas pattern_parts =
  literal_pattern_gains [THEN gains_last] literal_pattern_gains [THEN gains_bind]
  field_patterns_gains [THEN gains_bind]

lemma name_pattern_gains: "gains x n 1 0 False anything pattern_sites (parse_name_pattern r)"
  unfolding parse_name_pattern_def
  by (rule gainsI) (intro vcg pattern_parts; simp)

lemma pattern_step: "gains x (Suc n) 1 0 False anything pattern_sites (parse_pattern r)"
  unfolding parse_pattern_def
proof (rule gains_nesting)
  show "gains x n 1 0 False anything pattern_sites (parse_pattern_inner r)"
    unfolding parse_pattern_inner_def
    by (rule gainsI)
      (intro vcg pattern_parts name_pattern_gains [THEN gains_last] name_pattern_gains [THEN gains_bind]; simp)
qed

subsection \<open>Expressions\<close>

lemma cond_gains: "gains x n 1 0 False expr_ok expression_sites (parse_cond r)"
  unfolding parse_cond_def by (rule gains_no_struct [OF expr_call])

lemma allow_struct_gains: "gains x n 1 0 False expr_ok expression_sites (parse_expr_allow_struct r)"
  unfolding parse_expr_allow_struct_def by (rule gains_no_struct [OF expr_call])

lemmas sub_expression_vcg [vcg] =
  cond_gains [THEN gains_bind] cond_gains [THEN optional_gains, THEN gains_bind]
  allow_struct_gains [THEN gains_bind] allow_struct_gains [THEN gains_last]
  allow_struct_gains [THEN comma_gains, THEN gains_bind]

lemma expr_step: "gains x (Suc n) 1 0 False expr_ok expression_sites (parse_expr r)"
  unfolding parse_expr_def
proof (rule gains_nesting)
  show "gains x n 1 0 False expr_ok expression_sites (parse_expr_inner r)"
    unfolding parse_expr_inner_def
    by (rule gainsI) (intro vcg; auto simp: expr_ok_def dest: operator_kind)
qed

lemma operator_steps:
  assumes "span_fits start"
  shows "steps x n (\<lambda>_. 0) expr_ok expression_sites (parse_operator r bp start)"
  unfolding parse_operator_def
  by (rule stepsI) (intro vcg; auto simp: assms dest: operator_kind)

lemma bin_step: "gains x (Suc n) 1 0 False expr_ok expression_sites (parse_bin r bp)"
  unfolding parse_bin_def
proof (rule gains_nesting)
  show "gains x n 1 0 False expr_ok expression_sites (parse_bin_inner r bp)"
    unfolding parse_bin_inner_def
    by (rule gainsI) (intro vcg runs_repeat [OF operator_steps]; simp)
qed

lemma call_args_gains:
  "gains x n 1 1 False anything (\<lambda>es. concat (map expression_sites es)) (parse_call_args r)"
  unfolding parse_call_args_def
  by (rule gainsI) (intro vcg; simp)

lemma turbofish_gains: "plain x n 0 0 (parse_turbofish r)"
  unfolding parse_turbofish_def
  by (rule gainsI) (intro vcg; simp)

lemmas call_parts = call_args_gains [THEN gains_bind] turbofish_gains [THEN gains_bind]

lemma suffix_steps:
  assumes "span_fits start"
  shows "steps x n (\<lambda>_. 0) expr_ok expression_sites (parse_suffix r start)"
  unfolding parse_suffix_def parse_member_def
  by (rule stepsI) (intro vcg call_parts; auto simp: assms)

lemma closure_param_gains:
  "gains x n 1 0 False anything (\<lambda>p. [BindSite (Some (cparam_span p))]) (parse_closure_param r)"
  unfolding parse_closure_param_def
  by (rule gainsI) (intro vcg; simp)

lemma closure_params_gains:
  "gains x n 1 1 False anything (\<lambda>ps. map (\<lambda>p. BindSite (Some (cparam_span p))) ps) (parse_closure_params r)"
  unfolding parse_closure_params_def
  by (rule gainsI)
    (intro vcg closure_param_gains [THEN comma_gains, THEN gains_bind]; simp add: concat_map_singleton)

lemma closure_body_gains: "gains x n 1 0 False anything closure_sites (parse_closure_body r)"
  unfolding parse_closure_body_def
  by (rule gainsI) (intro vcg; simp)

lemmas closure_parts = closure_params_gains [THEN gains_bind] closure_body_gains [THEN gains_bind]

lemma closure_gains: "gains x n 1 0 False expr_ok expression_sites (parse_closure r)"
  unfolding parse_closure_def
  by (rule gainsI) (intro vcg closure_parts; simp)

lemma map_entry_gains:
  "gains x n 1 0 False anything (\<lambda>(key, val). expression_sites key @ expression_sites val) (parse_map_entry r)"
  unfolding parse_map_entry_def
  by (rule gainsI) (intro vcg; simp)

lemma map_literal_gains:
  assumes "span_fits start"
  shows "gains x n 1 0 False expr_ok expression_sites (parse_map_literal r start)"
  unfolding parse_map_literal_def
  by (rule gainsI) (intro vcg map_entry_gains [THEN comma_gains, THEN gains_bind]; simp add: assms)

lemma struct_field_gains:
  "gains x n 1 0 False anything (\<lambda>(name, val). expression_sites val) (parse_struct_lit_field r)"
  unfolding parse_struct_lit_field_def
  by (rule gainsI) (intro vcg; simp)

lemma struct_fields_gains:
  "gains x n 1 0 False anything (\<lambda>fs. concat (map (\<lambda>(name, val). expression_sites val) fs))
    (parse_struct_lit_fields r)"
  unfolding parse_struct_lit_fields_def
  by (rule gainsI) (intro vcg struct_field_gains [THEN comma_gains, THEN gains_bind]; simp)

lemma path_expr_gains:
  assumes "span_fits start"
  shows "gains x n 1 0 False expr_ok expression_sites (parse_path_expr r start)"
  unfolding parse_path_expr_def
  by (rule gainsI) (intro vcg struct_fields_gains [THEN gains_bind]; simp add: assms)

lemma else_gains: "gains x n 0 0 False anything (option_sites else_sites) (parse_else r)"
  unfolding parse_else_def
  by (rule gainsI) (intro vcg; simp)

lemmas else_vcg [vcg] = else_gains [THEN gains_bind]

lemma if_rest_gains:
  assumes "span_fits start"
  shows "gains x n 1 0 False expr_ok expression_sites (parse_if_rest r start)"
  unfolding parse_if_rest_def parse_if_let_def
  by (rule gainsI) (intro vcg; simp add: assms option_sites_def)

lemmas if_rest_vcg [vcg] = if_rest_gains [THEN gains_last] if_rest_gains [THEN gains_bind]

lemma if_gains: "gains x n 1 0 False expr_ok expression_sites (parse_if r)"
  unfolding parse_if_def
  by (rule gainsI) (intro vcg; simp)

lemma if_step: "gains x (Suc n) 1 0 False expr_ok expression_sites (parse_if r)"
  unfolding parse_if_def
  by (rule gainsI, rule runs_range, rule runs_drop [OF expect_gains], simp, simp) (intro vcg; simp)

lemma more_patterns_steps:
  "steps x n (\<lambda>_. 0) anything (\<lambda>ps. concat (map pattern_sites ps)) (parse_more_patterns r)"
  unfolding parse_more_patterns_def
  by (rule stepsI) (intro vcg; simp)

lemma runs_more_patterns:
  assumes "\<And>ps. runs x (at_state x n F d t j k False None (L @ concat (map pattern_sites ps))) (f ps) Q"
  shows "runs x (at_state x n F d t j k c ro (L @ pattern_sites p))
    (pbind (repeat_parse (parse_more_patterns r) [p]) f) Q"
  using runs_repeat [OF more_patterns_steps, where acc = "[p]" and k = k and L = L and f = f and Q = Q]
    assms by simp

lemma match_arm_gains: "gains x n 1 0 False anything arm_sites (parse_match_arm r)"
  unfolding parse_match_arm_def
  by (rule gainsI) (intro vcg runs_more_patterns; simp add: option_sites_def)

lemma match_gains: "gains x n 1 0 False expr_ok expression_sites (parse_match r)"
  unfolding parse_match_def
  by (rule gainsI) (intro vcg match_arm_gains [THEN many_gains, THEN gains_bind]; simp)

lemma vec_literal_gains:
  assumes "span_fits start"
  shows "gains x n 1 0 True expr_ok expression_sites (parse_vec_literal r start)"
  unfolding parse_vec_literal_def
  by (rule gainsI) (intro vcg; simp add: assms)

lemmas primary_parts =
  closure_gains [THEN gains_last] path_expr_gains [THEN gains_last]
  map_literal_gains [THEN gains_last] if_gains [THEN gains_last] match_gains [THEN gains_last]
  vec_literal_gains [THEN gains_last] vec_literal_gains [THEN gains_here_bind]
  closure_gains [THEN gains_bind] path_expr_gains [THEN gains_bind]
  map_literal_gains [THEN gains_bind] if_gains [THEN gains_bind] match_gains [THEN gains_bind]

lemma primary_gains: "gains x n 1 0 False expr_ok expression_sites (parse_primary r)"
  unfolding parse_primary_def
  by (rule gainsI) (intro vcg primary_parts; auto)

lemma postfix_gains: "gains x n 1 0 False expr_ok expression_sites (parse_postfix r)"
  unfolding parse_postfix_def
  by (rule gainsI) (intro vcg primary_gains [THEN gains_bind] runs_repeat [OF suffix_steps]; simp)

lemma unary_step: "gains x (Suc n) 1 0 False expr_ok expression_sites (parse_unary r)"
  unfolding parse_unary_def
proof (rule gains_nesting)
  show "gains x n 1 0 False expr_ok expression_sites (parse_unary_inner r)"
    unfolding parse_unary_inner_def
    by (rule gainsI)
      (intro vcg postfix_gains [THEN gains_last] postfix_gains [THEN gains_bind]; simp)
qed

subsection \<open>Statements and blocks\<close>

lemma let_gains: "gains x n 1 0 False anything statement_sites (parse_let r)"
  unfolding parse_let_def
  by (rule gainsI) (intro vcg; simp)

lemma operand_gains:
  "gains x n 1 0 False (\<lambda>v. \<forall>e \<in> set_option v. expr_ok e) (option_sites expression_sites) (parse_operand r)"
  unfolding parse_operand_def
  by (rule gainsI) (intro vcg; simp)

lemmas operand_vcg [vcg] = operand_gains [THEN gains_bind]

lemma return_gains: "gains x n 1 0 False anything statement_sites (parse_return r)"
  unfolding parse_return_def
  by (rule gainsI) (intro vcg; simp add: option_sites_def)

lemma break_gains: "gains x n 1 0 True anything statement_sites (parse_break r)"
  unfolding parse_break_def
  by (rule gainsI) (intro vcg; simp add: option_sites_def)

lemma continue_gains: "gains x n 1 0 True anything statement_sites parse_continue"
  unfolding parse_continue_def
  by (rule gainsI) (intro vcg; simp)

lemma while_gains: "gains x n 1 0 False anything statement_sites (parse_while r)"
  unfolding parse_while_def
  by (rule gainsI) (intro vcg; simp)

lemma for_gains: "gains x n 1 0 False anything statement_sites (parse_for r)"
  unfolding parse_for_def
  by (rule gainsI) (intro vcg; simp)

lemmas statement_parts =
  let_gains [THEN gains_last] return_gains [THEN gains_last] break_gains [THEN gains_last]
  continue_gains [THEN gains_last] while_gains [THEN gains_last] for_gains [THEN gains_last]
  let_gains [THEN gains_bind] return_gains [THEN gains_bind] break_gains [THEN gains_here_bind]
  continue_gains [THEN gains_here_bind] while_gains [THEN gains_bind] for_gains [THEN gains_bind]

lemma keyword_statement_gains:
  "gains x n 1 0 True anything statement_sites (parse_keyword_statement r k)"
  unfolding parse_keyword_statement_def
  by (rule gainsI) (intro vcg statement_parts; simp)

lemmas keyword_statement_vcg [vcg] =
  keyword_statement_gains [THEN gains_last] keyword_statement_gains [THEN gains_here_bind]

text \<open>A block read so far.\<close>

definition block_state_sites :: "block_state \<Rightarrow> Site list" where
  "block_state_sites b =
     concat (map statement_sites (bs_stmts b)) @ option_sites expression_sites (bs_tail b)"

lemma block_step_steps: "steps x n (\<lambda>_. 0) anything block_state_sites (parse_block_step r)"
  unfolding parse_block_step_def parse_block_expression_def
  by (rule stepsI) (intro vcg; simp add: block_state_sites_def push_statement_def)

lemmas block_loop_vcg = gains_repeat [OF block_step_steps, THEN gains_bind]

lemma block_rest_gains:
  "gains x n 1 1 False anything block_sites
     (pbind (repeat_parse (parse_block_step r) empty_block_state) (\<lambda>b.
      pbind (expect RBrace) (\<lambda>_. pret (block_of b))))"
  by (rule gainsI)
    (intro vcg block_loop_vcg;
      simp add: block_state_sites_def empty_block_state_def block_of_def option_sites_def)

lemma block_step: "gains x (Suc n) 1 1 False anything block_sites (parse_block r)"
  unfolding parse_block_def
proof (rule gains_nesting)
  show "gains x n 1 1 False anything block_sites (parse_block_inner r)"
    unfolding parse_block_inner_def
    by (rule gainsI) (intro vcg gains_no_struct [OF block_rest_gains, THEN gains_last]
      gains_no_struct [OF block_rest_gains, THEN gains_bind]; simp)
qed

end

end
