(* ===== verification/Parser_Items.thy ===== *)
theory Parser_Items
  imports Parser_Calls Hir_Program_Props
begin

text \<open>
  Items and files: signatures, declarations, \<open>lua!\<close> blocks and the top-level loop, continuing
  \<open>Parser_Calls\<close>.
\<close>

section \<open>Lua blocks\<close>

lemma find_char_Some:
  "find_char c s = Some i \<Longrightarrow> i < length s \<and> s ! i = c"
  "rfind_char c s = Some i \<Longrightarrow> i < length s \<and> s ! i = c"
proof -
  have first: "length (takeWhile (\<lambda>y. y \<noteq> c) t) < length t \<and> t ! length (takeWhile (\<lambda>y. y \<noteq> c) t) = c"
    if "c \<in> set t" for t
    using that by (induction t) auto
  show "find_char c s = Some i \<Longrightarrow> i < length s \<and> s ! i = c"
    using first [of s] by (auto simp: find_char_def split: if_splits)
  show "rfind_char c s = Some i \<Longrightarrow> i < length s \<and> s ! i = c"
    using first [of "rev s"] by (auto simp: rfind_char_def rev_nth split: if_splits)
qed

lemma lua_code_returns:
  assumes "utf8 raw" and "find_char (CHR ''{'') raw = Some i" and "rfind_char (CHR ''}'') raw = Some e"
    and "i < e"
  shows "\<exists>code. str_slice raw (i + 1) e = Return code"
proof -
  have "i < length raw" "is_ascii (raw ! i)" "e < length raw" "is_ascii (raw ! e)"
    using find_char_Some(1) [OF assms(2)] find_char_Some(2) [OF assms(3)] by (simp_all add: is_ascii_def)
  then have "is_char_boundary raw (i + 1)" "is_char_boundary raw e"
    using boundary_ascii [OF assms(1)] by simp_all
  with assms(4) show ?thesis by (simp add: str_slice_def)
qed

lemma runs_lua_code:
  assumes "utf8 raw" and "find_char (CHR ''{'') raw = Some i" and "rfind_char (CHR ''}'') raw = Some e"
    and "i < e" and "\<And>code. runs x P (f code) Q"
  shows "runs x P (pbind (plift (\<lambda>s. str_slice raw (i + 1) e)) f) Q"
  by (rule runs_lift [where ok = anything]) (use lua_code_returns [OF assms(1-4)] assms(5) in auto)

lemma lua_block_gains: "gains x n 1 0 True anything statement_sites parse_lua_block"
  unfolding parse_lua_block_def
  by (rule gainsI) (intro vcg runs_lua_code; simp)

section \<open>Signatures\<close>

lemma runs_word [vcg]:
  assumes "\<And>b. runs x (at_state x n F d t j k (c \<or> b) ro L) (f b) Q"
  shows "runs x (at_state x n F d t j k c ro L) (pbind (at_word word) f) Q"
  unfolding at_word_def
  by (intro vcg; rule runs_pre [OF assms], erule at_state_weaken; simp)

text \<open>The receiver is a site without a range.\<close>

definition receiver_sites :: "bool \<Rightarrow> Site list" where
  "receiver_sites has_self = (if has_self then [BindSite None] else [])"

lemma runs_bump_receiver:
  assumes "c" and "\<And>u. runs x (at_state x n F d t (j + 1) (k + 1) False None (L @ [BindSite None])) (f u) Q"
  shows "runs x (at_state x n F d t j k c ro L) (pbind p_bump f) Q"
proof (rule runs_pre)
  show "runs x (at_state x n F d t j k c None L) (pbind p_bump f) Q"
    by (rule runs_bump_all [OF assms(1)]) (use assms(2) in simp)
qed (erule at_state_weaken; simp)

lemma receiver_gains:
  "gains x n 0 0 False anything (\<lambda>(has_self, is_mutable). receiver_sites has_self) parse_receiver"
  unfolding parse_receiver_def
  by (rule gainsI, intro runs_cur runs_if runs_bump_receiver; (intro vcg; simp add: receiver_sites_def)?; simp?)

lemmas receiver_vcg [vcg] = receiver_gains [THEN gains_bind]

definition sig_sites :: "FnSig \<Rightarrow> Site list" where
  "sig_sites sig =
     (case sig of (name, span, generics, has_self, is_mutable, params, ret) \<Rightarrow>
        receiver_sites has_self @ map (\<lambda>p. BindSite (Some (param_span p))) params)"

text \<open>The parser yields every item but a module.\<close>

fun plain_item :: "Item \<Rightarrow> bool" where
  "plain_item (ItMod md) = False"
| "plain_item it = True"

lemma set_attributes_sites [simp]:
  "item_sites h m (set_attributes attrs it) = item_sites h m it"
  "plain_item (set_attributes attrs it) = plain_item it"
  by (cases "(attrs, it)" rule: set_attributes.cases; simp add: fn_sites_def)+

definition chunk_sites :: "ResolvedHir \<Rightarrow> ModuleId \<Rightarrow> chunk_state \<Rightarrow> Site list" where
  "chunk_sites h m c =
     concat (map (item_sites h m) (cs_items c)) @ concat (map statement_sites (cs_stmts c))"

lemma item_start_gains: "plain x n 0 0 at_item_start"
  unfolding at_item_start_def
  by (rule gainsI) (intro vcg; simp)

lemmas item_start_vcg [vcg] = item_start_gains [THEN gains_bind]

context grammar_calls
begin

lemma param_gains: "gains x n 1 0 False anything (\<lambda>p. [BindSite (Some (param_span p))]) (parse_param r)"
  unfolding parse_param_def
  by (rule gainsI) (intro vcg; simp)

lemmas params_vcg [vcg] = param_gains [THEN comma_gains, THEN gains_bind]

lemma fn_sig_gains: "gains x n 1 0 False anything sig_sites (parse_fn_sig r)"
  unfolding parse_fn_sig_def
  by (rule gainsI) (intro vcg; simp add: sig_sites_def concat_map_singleton)

lemmas fn_sig_vcg [vcg] = fn_sig_gains [THEN gains_bind]

lemma fn_gains: "gains x n 1 0 False anything fn_sites (parse_fn r)"
  unfolding parse_fn_def
  by (rule gainsI) (intro vcg; simp add: sig_sites_def fn_sites_def param_sites_def receiver_sites_def)

lemmas fn_vcg [vcg] = fn_gains [THEN gains_bind]

section \<open>Declarations without bodies\<close>

lemma annotation_gains: "gains x n 1 0 True anything no_sites (parse_annotation r is_pub doc)"
  unfolding parse_annotation_def
  by (rule gainsI) (intro vcg; simp)

lemma extern_params_gains: "plain x n 0 0 (parse_extern_params r)"
  unfolding parse_extern_params_def
  by (rule gainsI) (intro vcg plain_loop param_gains [THEN plain_from, THEN gains_bind]; simp)

lemmas extern_params_vcg [vcg] = extern_params_gains [THEN gains_bind]

lemma extern_fn_gains: "plain x n 1 0 (parse_extern_fn r)"
  unfolding parse_extern_fn_def
  by (rule gainsI) (intro vcg; simp)

lemma abi_gains: "plain x n 0 0 parse_abi"
  unfolding parse_abi_def
  by (rule gainsI) (intro vcg; simp)

lemma extern_gains: "plain x n 1 0 (parse_extern r)"
  unfolding parse_extern_def
  by (rule gainsI)
    (intro vcg abi_gains [THEN gains_bind] extern_fn_gains [THEN many_plain, THEN gains_bind]; simp)

lemma field_gains: "plain x n 1 0 (parse_field r)"
  unfolding parse_field_def
  by (rule gainsI) (intro vcg; simp)

lemma field_list_gains: "plain x n 1 0 (parse_field_list r)"
  unfolding parse_field_list_def
  by (rule gainsI) (intro vcg field_gains [THEN comma_plain, THEN gains_bind]; simp)

lemmas field_list_vcg [vcg] = field_list_gains [THEN gains_bind]

lemma struct_gains: "plain x n 1 0 (parse_struct r)"
  unfolding parse_struct_def
  by (rule gainsI) (intro vcg; simp)

lemma variant_kind_gains: "plain x n 0 0 (parse_variant_kind r)"
  unfolding parse_variant_kind_def
  by (rule gainsI) (intro vcg; simp)

lemma variant_gains: "plain x n 1 0 (parse_variant r)"
  unfolding parse_variant_def
  by (rule gainsI) (intro vcg variant_kind_gains [THEN gains_bind]; simp)

lemma enum_gains: "plain x n 1 0 (parse_enum r)"
  unfolding parse_enum_def
  by (rule gainsI) (intro vcg variant_gains [THEN comma_plain, THEN gains_bind]; simp)

lemma alias_gains: "plain x n 0 0 parse_alias"
proof -
  have "plain x n 1 1 expect_ident"
  proof (rule gainsI)
    fix F d t j k ro and c :: bool and L
    have "runs x (at_state x n F d t j k c ro L) (pbind expect_ident pret)
        (\<lambda>v s. True \<and> at_state x n F d t (j + 1) (k + 1) False None (L @ []) s)"
      by (intro vcg; simp)
    then show "runs x (at_state x n F d t j k c ro L) expect_ident
        (\<lambda>v s. True \<and> at_state x n F d t (j + 1) (k + 1) False None (L @ []) s)"
      by (simp only: pbind_pret)
  qed
  then show ?thesis unfolding parse_alias_def by (rule optional_plain) simp
qed

lemmas alias_vcg [vcg] = alias_gains [THEN gains_bind]

lemma use_prefix_gains: "plain x n 1 0 parse_use_prefix"
  unfolding parse_use_prefix_def
  by (rule gainsI) (intro vcg plain_loop; simp)

lemma use_leaf_gains: "plain x n 1 0 (parse_use_leaf prefix)"
  unfolding parse_use_leaf_def
  by (rule gainsI) (intro vcg; simp)

lemma use_gains: "plain x n 1 0 parse_use"
  unfolding parse_use_def
  by (rule gainsI)
    (intro vcg use_prefix_gains [THEN gains_bind] use_leaf_gains [THEN comma_plain, THEN gains_bind]; simp)

section \<open>Declarations with bodies\<close>

lemma trait_method_gains: "gains x n 1 0 False anything trait_method_sites (parse_trait_method r)"
  unfolding parse_trait_method_def
  by (rule gainsI)
    (intro vcg; simp add: sig_sites_def trait_method_sites_def param_sites_def receiver_sites_def)

lemma trait_gains:
  "gains x n 1 0 False anything (\<lambda>d. concat (map trait_method_sites (trait_methods d))) (parse_trait r)"
  unfolding parse_trait_def
  by (rule gainsI) (intro vcg trait_method_gains [THEN many_gains, THEN gains_bind]; simp)

lemma impl_method_gains: "gains x n 1 0 False anything fn_sites (parse_impl_method r)"
  unfolding parse_impl_method_def
  by (rule gainsI) (intro vcg; simp add: fn_sites_def)

lemma impl_header_gains: "plain x n 1 0 parse_impl_header"
  unfolding parse_impl_header_def
  by (rule gainsI) (intro vcg; simp)

lemma impl_gains:
  "gains x n 1 0 False anything (\<lambda>d. concat (map fn_sites (impl_methods d))) (parse_impl r)"
  unfolding parse_impl_def
  by (rule gainsI)
    (intro vcg impl_header_gains [THEN gains_bind] impl_method_gains [THEN many_gains, THEN gains_bind]; simp)

section \<open>Items and files\<close>

lemmas item_parts =
  fn_gains [THEN gains_bind] struct_gains [THEN gains_bind] enum_gains [THEN gains_bind]
  impl_gains [THEN gains_bind] trait_gains [THEN gains_bind] extern_gains [THEN gains_bind]
  use_gains [THEN gains_bind] annotation_gains [THEN gains_here_bind]

lemma plain_item_gains: "gains x n 1 0 False plain_item (item_sites h m) (parse_plain_item r is_pub doc)"
  unfolding parse_plain_item_def
  by (rule gainsI) (intro vcg item_parts; simp add: fn_sites_def)

lemma item_gains: "gains x n 1 0 False plain_item (item_sites h m) (parse_item r doc)"
  unfolding parse_item_def
  by (rule gainsI)
    (intro vcg item_parts plain_item_gains [where h = h and m = m, THEN gains_last]
      plain_item_gains [where h = h and m = m, THEN gains_bind]; simp)

lemma chunk_item_gains: "gains x n 1 0 False plain_item (item_sites h m) (parse_chunk_item r)"
  unfolding parse_chunk_item_def
  by (rule gainsI) (intro vcg item_gains [where h = h and m = m, THEN gains_bind]; simp)

lemma chunk_stmt_gains: "gains x n 1 0 False anything statement_sites (parse_chunk_stmt r terminator)"
  unfolding parse_chunk_stmt_def
  by (rule gainsI) (intro vcg lua_block_gains [THEN gains_last] lua_block_gains [THEN gains_here_bind]; auto simp: statement_keyword_def)

lemma chunk_steps:
  "steps x n (\<lambda>_. 0) (\<lambda>c. list_all plain_item (cs_items c)) (chunk_sites h m) (parse_chunk_step r terminator)"
  unfolding parse_chunk_step_def
  by (rule stepsI)
    (intro vcg chunk_item_gains [where h = h and m = m, THEN gains_bind] chunk_stmt_gains [THEN gains_bind];
      simp add: chunk_sites_def)

lemma chunk_contents_gains:
  "gains x n 0 0 False (\<lambda>c. list_all plain_item (cs_items c)) (chunk_sites h m)
     (parse_chunk_contents r terminator)"
  unfolding parse_chunk_contents_def
  by (rule gains_repeat [OF chunk_steps]) (simp_all add: chunk_sites_def)

end

section \<open>The knot\<close>

text \<open>No call meets its contract vacuously: with no fuel there is no state to start from.\<close>

lemma gains_no_fuel: "gains x 0 g a here ok sites m"
  by (rule gainsI) (simp add: runs_def at_state_def)

lemma grammar_calls_parsers: "grammar_calls x n (parsers n)"
proof (induction n)
  case 0
  show ?case by (rule grammar_calls.intro) (rule gains_no_fuel)+
next
  case (Suc n)
  show ?case
    unfolding parsers.simps Let_def
    by (rule grammar_calls.intro)
      (simp_all del: One_nat_def add: grammar_calls.type_step [OF Suc] grammar_calls.block_step [OF Suc]
        grammar_calls.expr_step [OF Suc] grammar_calls.bin_step [OF Suc]
        grammar_calls.unary_step [OF Suc] grammar_calls.pattern_step [OF Suc]
        grammar_calls.pattern_literal_step [OF Suc] grammar_calls.if_step [OF Suc]
        grammar_calls.meta_item_step [OF Suc] grammar_calls.meta_value_step [OF Suc])
qed

interpretation calls: grammar_calls x n "parsers n" for x n
  by (rule grammar_calls_parsers)

end
