(* ===== verification/Parser_Total.thy ===== *)
theory Parser_Total
  imports Parser_Items
begin

text \<open>
  What the parser guarantees as a whole, and what name resolution gets from it.
\<close>

section \<open>The start state\<close>

lemma initial_cursor:
  assumes "lexes s 0 toks (length s)"
  shows "wf_cursor s (RuaTokenize_from_stream \<lparr>ts_text = s, ts_tokens = toks\<rparr>)"
proof -
  let ?tz = "RuaTokenize_from_stream \<lparr>ts_text = s, ts_tokens = toks\<rparr>"
  have off: "cursor_offset ?tz = 0"
    using assms by (cases toks) (simp_all add: cursor_offset_def RuaTokenize_from_stream_def get_at_def)
  show ?thesis
    unfolding wf_cursor_def off using assms
    by (simp add: RuaTokenize_from_stream_def splits_crlf_def)
qed

lemma initial_lexer:
  assumes "utf8 s" and "length s < 2 ^ 32" and "lexes s 0 toks (length s)"
  shows "(\<exists>e. RuaLexer_from_stream \<lparr>ts_text = s, ts_tokens = toks\<rparr> = Return (Inl e) \<and> error_located s e)
    \<or> (\<exists>lx. RuaLexer_from_stream \<lparr>ts_text = s, ts_tokens = toks\<rparr> = Return (Inr lx)
         \<and> wf_lexer s lx \<and> tokens_ahead lx \<le> length toks)"
proof -
  let ?tz = "RuaTokenize_from_stream \<lparr>ts_text = s, ts_tokens = toks\<rparr>"
  note wf = initial_cursor [OF assms(3)]
  from next_token_total [OF assms(1) wf] show ?thesis
  proof (elim disjE exE conjE)
    fix tok tz1 assume n1: "next_token ?tz = Return (Inr tok, tz1)"
    note t1 = next_token_wf_token [OF assms(1) wf n1]
    have wf1: "wf_cursor s tz1" using t1 by blast
    from next_token_total [OF assms(1) wf1] show ?thesis
    proof (elim disjE exE conjE)
      fix tok2 tz2 assume n2: "next_token tz1 = Return (Inr tok2, tz2)"
      note t2 = next_token_wf_token [OF assms(1) wf1 n2]
      let ?lx = "\<lparr>lx_text = s, lx_tokenizer = tz2, lx_current = tok, lx_next = tok2, lx_previous = None\<rparr>"
      have "RuaLexer_from_stream \<lparr>ts_text = s, ts_tokens = toks\<rparr> = Return (Inr ?lx)"
        using n1 n2 by (simp add: RuaLexer_from_stream_def)
      moreover have "wf_lexer s ?lx" using t1 t2 assms(1,2) by (simp add: wf_lexer_def)
      moreover have "tokens_ahead ?lx \<le> length toks"
        using t1 t2 next_token_progress(3) [OF n1] next_token_progress(3) [OF n2]
        by (auto simp: tokens_ahead_def RuaTokenize_from_stream_def)
      ultimately show ?thesis by blast
    qed (use n1 in \<open>auto simp: RuaLexer_from_stream_def\<close>)
  qed (auto simp: RuaLexer_from_stream_def)
qed

lemma new_parser_state:
  assumes "wf_lexer s lx" and "tokens_ahead lx \<le> F" and "F < 2 ^ 31"
  shows "at_state \<lparr>src_text = s, src_file = file, src_nesting = max_nesting b\<rparr>
    (Suc (tokens_ahead lx + max_nesting b)) F 0 (tokens_ahead lx) 0 0 False None [] (new_parser lx file b)"
  using assms
  by (simp add: at_state_def new_parser_def ids_given_def sites_ok_def site_keys_def site_names_def
      site_binds_def)

text \<open>A parse from a well-formed lexer.\<close>

lemma parse_program_result:
  assumes "wf_lexer s lx" and "tokens_ahead lx \<le> F" and "F < 2 ^ 31"
  shows "(\<exists>e. parse_program (new_parser lx file b) = Reject e
        \<and> error_ok \<lparr>src_text = s, src_file = file, src_nesting = max_nesting b\<rparr> e)
    \<or> (\<exists>c s' pos m. parse_program (new_parser lx file b) = Parsed (program_of c) s'
        \<and> list_all plain_item (cs_items c)
        \<and> (\<forall>h m'. sites_ok pos m F (chunk_sites h m' c)))"
proof -
  let ?x = "\<lparr>src_text = s, src_file = file, src_nesting = max_nesting b\<rparr>"
  let ?n = "Suc (tokens_ahead lx + max_nesting b)"
  let ?p = "new_parser lx file b"
  have st: "at_state ?x ?n F 0 (tokens_ahead lx) 0 0 False None [] ?p"
    by (rule new_parser_state [OF assms])
  have fuel: "parse_program ?p = pmap program_of (parse_chunk_contents (parsers ?n) Eof) ?p"
    by (simp add: parse_program_def new_parser_def)
  have run: "runs ?x (at_state ?x ?n F 0 (tokens_ahead lx) 0 0 False None []) (parse_chunk_contents (parsers ?n) Eof)
      (\<lambda>c s'. list_all plain_item (cs_items c)
         \<and> at_state ?x ?n F 0 (tokens_ahead lx) (0 + 0) (0 + 0) False None ([] @ chunk_sites h m' c) s')" for h m'
    by (rule gainsD [OF calls.chunk_contents_gains]) simp
  let ?run = "parse_chunk_contents (parsers ?n) Eof ?p"
  have outcome: "(\<exists>e. ?run = Reject e \<and> error_ok ?x e) \<or> (\<exists>c s'. ?run = Parsed c s')"
    by (rule runsE [OF run st]) blast+
  then show ?thesis
  proof (elim disjE exE conjE)
    fix e assume "?run = Reject e" "error_ok ?x e"
    then show ?thesis by (simp only: fuel pmap_def pbind_def reply.case) blast
  next
    fix c s' assume parsed: "?run = Parsed c s'"
    have done_state: "list_all plain_item (cs_items c)
        \<and> at_state ?x ?n F 0 (tokens_ahead lx) 0 0 False None (chunk_sites h m' c) s'" for h m'
      by (rule runsE [OF run [of h m'] st]) (use parsed in simp_all)
    have "sites_ok (sr_start (td_range (here_of s'))) (unat (p_next_expr s')) F (chunk_sites h m' c)" for h m'
    proof (rule sites_ok_mono)
      show "sites_ok (sr_start (td_range (here_of s'))) (unat (p_next_expr s')) (F - ahead s')
          (chunk_sites h m' c)"
        using done_state [of h m'] by (simp add: at_state_def)
    qed simp_all
    moreover have "parse_program ?p = Parsed (program_of c) s'"
      by (simp only: fuel pmap_def pbind_def pret_def parsed reply.case)
    ultimately show ?thesis using done_state by blast
  qed
qed

section \<open>A whole text\<close>

lemma run_result_cases:
  "run_result m toks = Inr toks \<and> length toks \<le> m
   \<or> run_result m toks = Inl (TokenLimitError (tok_range (toks ! m))) \<and> m < length toks"
  by (auto simp: run_result_def)

text \<open>What an error says: a range inside the text and the line it starts on.\<close>

definition error_points_into :: "bytes \<Rightarrow> ParseError \<Rightarrow> bool" where
  "error_points_into s e \<longleftrightarrow>
     (\<exists>r. sd_range (pe_diagnostic e) = Some r
        \<and> range_start r \<le> range_end r \<and> unat (range_end r) \<le> length s
        \<and> 1 \<le> pe_line e \<and> pe_line e \<le> 1 + length s)"

lemma line_breaks_le: "line_breaks s \<le> length s"
proof (induction "length s" arbitrary: s rule: less_induct)
  case less
  show ?case
  proof (cases s)
    case (Cons c r)
    have r: "line_breaks r \<le> length r" using less [of r] Cons by simp
    have "line_breaks (tl r) \<le> length (tl r)" using less [of "tl r"] Cons by (cases r) simp_all
    then have "line_breaks (c # r) \<le> 1 + length r"
      using r by (subst line_breaks.simps(2)) (cases r, simp_all del: line_breaks.simps(2))
    with Cons show ?thesis by simp
  qed simp
qed

lemma error_ok_points: "error_ok x e \<Longrightarrow> error_points_into (src_text x) e"
  unfolding error_ok_def error_points_into_def
proof (elim conjE exE)
  fix r assume "pe_line e = 1 + line_breaks (take (unat (range_start r)) (src_text x))"
    "sd_range (pe_diagnostic e) = Some r" "range_start r \<le> range_end r"
    "unat (range_end r) \<le> length (src_text x)"
  moreover have "line_breaks (take (unat (range_start r)) (src_text x)) \<le> length (src_text x)"
    using line_breaks_le [of "take (unat (range_start r)) (src_text x)"] by simp
  ultimately show "\<exists>r. sd_range (pe_diagnostic e) = Some r \<and> range_start r \<le> range_end r
      \<and> unat (range_end r) \<le> length (src_text x) \<and> 1 \<le> pe_line e \<and> pe_line e \<le> 1 + length (src_text x)"
    by simp
qed

lemma token_limit_error_points:
  assumes u: "utf8 s" and len: "length s < 2 ^ 32" and toks: "lexes s 0 toks (length s)"
    and m: "m < length toks"
  shows "\<exists>e. token_limit_error s file b (TokenLimitError (tok_range (toks ! m))) = Return e
           \<and> error_points_into s e"
proof -
  let ?t = "toks ! m"
  have token: "is_char_boundary s (start_of t) \<and> start_of t < end_of t \<and> end_of t \<le> length s"
    if "lexes s i ts (length s)" "t \<in> set ts" for i ts t
    using that by (induction ts arbitrary: i) (auto dest: is_char_boundary_le)
  have t: "is_char_boundary s (start_of ?t)" "start_of ?t < end_of ?t" "end_of ?t \<le> length s"
    using token [OF toks, of ?t] m by simp_all
  then have l: "unat (range_len (tok_range ?t)) = end_of ?t - start_of ?t"
    by (intro range_len_nat) (simp add: word_le_nat_alt)
  let ?r = "\<lparr>sr_start = start_of ?t, sr_len = unat (range_len (tok_range ?t)),
    sr_line = 1 + length (filter (\<lambda>c. c = LF) (slice s 0 (start_of ?t))), sr_file = file\<rparr>"
  have "sr_end ?r \<le> length s" using t l by (simp add: sr_end_def)
  then obtain e rng where e: "ParseError_at_code ?r ParseResourceLimit
        (''token budget exceeded (limit '' @ show_nat (max_tokens b) @ '')'') = Return e"
      "sd_range (pe_diagnostic e) = Some rng" "range_start rng \<le> range_end rng"
      "unat (range_end rng) \<le> length s" "pe_line e = sr_line ?r"
    using len by (rule ParseError_at_code_returns)
  have "length (filter (\<lambda>c. c = LF) (slice s 0 (start_of ?t))) \<le> length (slice s 0 (start_of ?t))"
    by (rule length_filter_le)
  then have "pe_line e \<le> 1 + length s" "1 \<le> pe_line e" using e(5) by (simp_all add: slice_def)
  moreover have "token_limit_error s file b (TokenLimitError (tok_range ?t)) = Return e"
    using e(1) t(1) by (simp add: token_limit_error_def Let_def str_slice_def del: append.simps)
  ultimately show ?thesis using e(2-4) by (auto simp: error_points_into_def)
qed

text \<open>The cases of a parse of a valid text.\<close>

lemma parse_cases:
  assumes "utf8 s" and "length s < 2 ^ 32" and "max_tokens b < 2 ^ 31"
  shows "(\<exists>e. parse_with_semantic_file_and_budget s file b = ParseErr e \<and> error_points_into s e)
    \<or> (\<exists>c pos m. parse_with_semantic_file_and_budget s file b = ParseOk (program_of c)
         \<and> list_all plain_item (cs_items c)
         \<and> (\<forall>h m'. sites_ok pos m (max_tokens b) (chunk_sites h m' c)))"
proof -
  obtain toks where toks: "lexes s 0 toks (length s)"
    and run: "\<And>m. lex_with_limit s m = Return (run_result m toks)"
    using lex_run [OF assms(1,2)] by blast
  from run_result_cases [of "max_tokens b" toks] show ?thesis
  proof (elim disjE conjE)
    assume limit: "run_result (max_tokens b) toks = Inl (TokenLimitError (tok_range (toks ! max_tokens b)))"
      and m: "max_tokens b < length toks"
    obtain e where "token_limit_error s file b (TokenLimitError (tok_range (toks ! max_tokens b))) = Return e"
        "error_points_into s e"
      using token_limit_error_points [OF assms(1,2) toks m] by blast
    then show ?thesis
      by (simp add: parse_with_semantic_file_and_budget_def StrictTokenStream_new_def run limit
          parse_error_result_def)
  next
    assume fits: "run_result (max_tokens b) toks = Inr toks" and le: "length toks \<le> max_tokens b"
    have stream: "StrictTokenStream_new s (max_tokens b) = Return (Inr \<lparr>ts_text = s, ts_tokens = toks\<rparr>)"
      by (simp add: StrictTokenStream_new_def run fits)
    from initial_lexer [OF assms(1,2) toks] show ?thesis
    proof (elim disjE exE conjE)
      fix te assume te: "RuaLexer_from_stream \<lparr>ts_text = s, ts_tokens = toks\<rparr> = Return (Inl te)"
        and located: "error_located s te"
      obtain e where e: "ParseError_from te = Return e" "error_ok \<lparr>src_text = s, src_file = 0, src_nesting = 0\<rparr> e"
        unfolding ParseError_from_def
        using error_at_located [of "\<lparr>src_text = s, src_file = 0, src_nesting = 0\<rparr>"] located assms(2)
        by (fastforce simp: error_located_def)
      have "error_points_into s (stamp_file file e)"
        using error_ok_points [OF e(2)] by (simp add: error_points_into_def stamp_file_def)
      then show ?thesis
        by (simp add: parse_with_semantic_file_and_budget_def stream parse_token_stream_with_file_def te
            parse_error_result_def e(1))
    next
      fix lx assume lx: "RuaLexer_from_stream \<lparr>ts_text = s, ts_tokens = toks\<rparr> = Return (Inr lx)"
        and wf: "wf_lexer s lx" and ahead: "tokens_ahead lx \<le> length toks"
      have parse: "parse_with_semantic_file_and_budget s file b
          = reply_result (parse_program (new_parser lx file b))"
        by (simp add: parse_with_semantic_file_and_budget_def stream parse_token_stream_with_file_def lx)
      have "tokens_ahead lx \<le> max_tokens b" using ahead le by linarith
      from parse_program_result [OF wf this assms(3), of "file" b] show ?thesis
        unfolding parse
        by (elim disjE exE conjE) (use error_ok_points in \<open>fastforce+\<close>)
    qed
  qed
qed

end
