(* ===== verification/Parser_Eval.thy ===== *)
theory Parser_Eval
  imports Parser_Total
begin

text \<open>
  Runs of the lexer and the parser on concrete texts, one step at a time: what a token of an
  ASCII text without line breaks does to the cursor and to the two tokens of lookahead.
\<close>

section \<open>Lexing\<close>

definition spot :: "TokenKind \<Rightarrow> u32 \<Rightarrow> u32 \<Rightarrow> LexToken" where
  "spot k a b = \<lparr>tok_kind = k, tok_range = \<lparr>range_start = a, range_end = b\<rparr>, tok_error = None\<rparr>"

lemma LexToken_new_at:
  assumes "i < e" and "e < 2 ^ 32"
  shows "LexToken_new k i (e - i) err = Return
    \<lparr>tok_kind = k, tok_range = \<lparr>range_start = of_nat i, range_end = of_nat e\<rparr>, tok_error = err\<rparr>"
proof -
  from LexToken_new_total [OF assms, of k err] obtain t where t: "LexToken_new k i (e - i) err = Return t"
      "tok_kind t = k" "tok_error t = err" "start_of t = i" "end_of t = e"
    by blast
  have "range_start (tok_range t) = of_nat i" "range_end (tok_range t) = of_nat e"
    using t(4,5) by (metis of_nat_unat ucast_id)+
  then have "t = \<lparr>tok_kind = k, tok_range = \<lparr>range_start = of_nat i, range_end = of_nat e\<rparr>, tok_error = err\<rparr>"
    using t(2,3) by (cases t, cases "tok_range t") simp
  with t(1) show ?thesis by simp
qed

lemma lex_loop_go:
  assumes "lex_step s i = Return (k, e, err)" and "i < e" and "e \<le> length s" and "length s < 2 ^ 32"
    and "length acc < m"
  shows "lex_loop s m i acc = lex_loop s m e
    (acc @ [\<lparr>tok_kind = k, tok_range = \<lparr>range_start = of_nat i, range_end = of_nat e\<rparr>, tok_error = err\<rparr>])"
  using assms LexToken_new_at [of i e k err] by (subst lex_loop.simps) simp

lemma lex_loop_end: "lex_loop s m (length s) acc = Return (Inr acc)"
  by (subst lex_loop.simps) simp

lemma cont_not_ascii: "is_cont c \<Longrightarrow> \<not> is_ascii c"
  by (simp add: is_cont_def is_ascii_def)

lemma ascii_boundary: "list_all is_ascii s \<Longrightarrow> i \<le> length s \<Longrightarrow> is_char_boundary s i"
  by (auto simp: is_char_boundary_def list_all_length dest: cont_not_ascii)

section \<open>The token cursor\<close>

lemma skip_trivia_stops:
  "tz_cursor tz < length (tz_tokens tz) \<Longrightarrow> \<not> is_trivia (tok_kind (tz_tokens tz ! tz_cursor tz))
   \<Longrightarrow> skip_trivia tz = Return (None, tz)"
  by (subst skip_trivia.simps) (simp add: get_at_def)

lemma skip_trivia_goes:
  "tz_cursor tz < length (tz_tokens tz) \<Longrightarrow> is_trivia (tok_kind (tz_tokens tz ! tz_cursor tz))
   \<Longrightarrow> tok_error (tz_tokens tz ! tz_cursor tz) = None
   \<Longrightarrow> take_token tz (tz_tokens tz ! tz_cursor tz) = Return tz' \<Longrightarrow> skip_trivia tz = skip_trivia tz'"
  by (subst skip_trivia.simps) (simp add: get_at_def)

lemma skip_trivia_end:
  "length (tz_tokens tz) \<le> tz_cursor tz \<Longrightarrow> skip_trivia tz = Return (None, tz)"
  by (subst skip_trivia.simps) (simp add: get_at_def)

definition one_line :: "bytes \<Rightarrow> bool" where
  "one_line s \<longleftrightarrow> list_all is_ascii s \<and> CR \<notin> set s \<and> LF \<notin> set s"

lemma one_line_slices:
  assumes "one_line s" and "a \<le> b" and "b \<le> length s"
  shows "str_slice s a b = Return (slice s a b)" and "line_breaks (slice s a b) = 0"
proof -
  have "is_char_boundary s i" if "i \<le> length s" for i
    using ascii_boundary that assms(1) by (simp add: one_line_def)
  then show "str_slice s a b = Return (slice s a b)" using assms by (simp add: str_slice_def)
  have "line_breaks t = 0" if "CR \<notin> set t" "LF \<notin> set t" for t using that by (induction t) auto
  moreover have "set (slice s a b) \<subseteq> set s"
    by (auto simp: slice_def dest: in_set_takeD in_set_dropD)
  ultimately show "line_breaks (slice s a b) = 0" using assms(1) by (auto simp: one_line_def)
qed

definition cursor_at :: "bytes \<Rightarrow> LexToken list \<Rightarrow> nat \<Rightarrow> RuaTokenize" where
  "cursor_at s toks i = \<lparr>tz_text = s, tz_tokens = toks, tz_cursor = i, tz_line = 1\<rparr>"

lemma cursor_at_sel [simp]:
  "tz_tokens (cursor_at s toks i) = toks" "tz_cursor (cursor_at s toks i) = i"
  "tz_line (cursor_at s toks i) = 1" "tz_text (cursor_at s toks i) = s"
  by (simp_all add: cursor_at_def)

lemma take_token_one_line:
  assumes "one_line s" and "start_of tok \<le> end_of tok" and "end_of tok \<le> length s"
  shows "take_token (cursor_at s toks i) tok = Return (cursor_at s toks (i + 1))"
  using one_line_slices [OF assms] by (simp add: take_token_def advance_lines_def cursor_at_def)

definition line_token :: "TokenKind \<Rightarrow> nat \<Rightarrow> nat \<Rightarrow> nat \<Rightarrow> TokenData" where
  "line_token k a n t = TokenData_new k (SourceRange_new a n 1) (SourceRange_new t (a - t) 1)"

lemma line_token_sel [simp]:
  "td_kind (line_token k a n t) = k" "td_range (line_token k a n t) = SourceRange_new a n 1"
  "td_trivia (line_token k a n t) = SourceRange_new t (a - t) 1"
  by (simp_all add: line_token_def TokenData_new_def)

lemma SourceRange_new_sel [simp]:
  "sr_start (SourceRange_new a n l) = a" "sr_len (SourceRange_new a n l) = n"
  "sr_line (SourceRange_new a n l) = l" "sr_end (SourceRange_new a n l) = a + n"
  "sr_file (SourceRange_new a n l) = 0"
  by (simp_all add: SourceRange_new_def sr_end_def)

text \<open>What evaluates \<open>next_token\<close> on a one-line text, given its tokens by index.\<close>

lemmas next_token_simps = next_token_def token_at_cursor_def skip_trivia_end skip_trivia_stops
  skip_trivia_goes get_at_def take_token_one_line spot_def is_trivia_def cursor_offset_def
  token_source_range_def range_len_def

section \<open>Two tokens of lookahead\<close>

definition lexer_at ::
    "bytes \<Rightarrow> LexToken list \<Rightarrow> nat \<Rightarrow> TokenData \<Rightarrow> TokenData \<Rightarrow> SourceRange option \<Rightarrow> RuaLexer" where
  "lexer_at s toks i t u r =
     \<lparr>lx_text = s, lx_tokenizer = cursor_at s toks i, lx_current = t, lx_next = u, lx_previous = r\<rparr>"

lemma lexer_at_sel [simp]:
  "lx_text (lexer_at s toks i t u r) = s" "lx_tokenizer (lexer_at s toks i t u r) = cursor_at s toks i"
  "lx_current (lexer_at s toks i t u r) = t" "lx_next (lexer_at s toks i t u r) = u"
  "lx_previous (lexer_at s toks i t u r) = r"
  by (simp_all add: lexer_at_def)

lemma lexer_at_start:
  assumes "next_token (cursor_at s toks 0) = Return (Inr t, cursor_at s toks j)"
    and "next_token (cursor_at s toks j) = Return (Inr u, cursor_at s toks k)"
  shows "RuaLexer_from_stream \<lparr>ts_text = s, ts_tokens = toks\<rparr> = Return (Inr (lexer_at s toks k t u None))"
proof -
  have "RuaTokenize_from_stream \<lparr>ts_text = s, ts_tokens = toks\<rparr> = cursor_at s toks 0"
    by (simp add: RuaTokenize_from_stream_def cursor_at_def)
  then show ?thesis using assms by (simp add: RuaLexer_from_stream_def lexer_at_def)
qed

lemma p_bump_at:
  "p_lexer st = lexer_at s toks i t u r \<Longrightarrow> td_kind u = Eof
   \<Longrightarrow> p_bump st = Parsed () (st\<lparr>p_lexer := lexer_at s toks i u u (Some (td_range t))\<rparr>)"
  "p_lexer st = lexer_at s toks i t u r \<Longrightarrow> td_kind u \<noteq> Eof
   \<Longrightarrow> next_token (cursor_at s toks i) = Return (Inr tok, cursor_at s toks j)
   \<Longrightarrow> p_bump st = Parsed () (st\<lparr>p_lexer := lexer_at s toks j u tok (Some (td_range t))\<rparr>)"
  "p_lexer st = lexer_at s toks i t u r \<Longrightarrow> td_kind u \<noteq> Eof
   \<Longrightarrow> next_token (cursor_at s toks i) = Return (Inl e, tz)
   \<Longrightarrow> p_bump st = (case ParseError_from e of Panic \<Rightarrow> Crash | Return x \<Rightarrow> Reject x)"
  by (simp_all add: p_bump_def bump_def praise_def lexer_at_def)

section \<open>Calls of the grammar\<close>

definition parser_at :: "RuaLexer \<Rightarrow> u32 \<Rightarrow> ParseBudget \<Rightarrow> nat \<Rightarrow> u32 \<Rightarrow> Parser" where
  "parser_at lx file b d e = (new_parser lx file b)\<lparr>p_nesting := d, p_next_expr := e\<rparr>"

lemma new_parser_at: "new_parser lx file b = parser_at lx file b 0 0"
  by (simp add: parser_at_def new_parser_def)

lemma parser_at_sel [simp]:
  "p_lexer (parser_at lx file b d e) = lx" "p_nesting (parser_at lx file b d e) = d"
  "p_next_expr (parser_at lx file b d e) = e" "p_no_struct (parser_at lx file b d e) = False"
  "p_semantic_file (parser_at lx file b d e) = file" "p_budget (parser_at lx file b d e) = b"
  "(parser_at lx file b d e)\<lparr>p_lexer := lx'\<rparr> = parser_at lx' file b d e"
  "(parser_at lx file b d e)\<lparr>p_nesting := d'\<rparr> = parser_at lx file b d' e"
  "(parser_at lx file b d e)\<lparr>p_next_expr := e'\<rparr> = parser_at lx file b d e'"
  by (simp_all add: parser_at_def new_parser_def)

lemma parsers_fields:
  "r_expr (parsers (Suc n)) = parse_expr (parsers n)" "r_bin (parsers (Suc n)) = parse_bin (parsers n)"
  "r_unary (parsers (Suc n)) = parse_unary (parsers n)"
  by (simp_all add: Let_def)

lemma empty_trivia [simp]:
  "lex [] = Return []" "leading_trivia_has_blank_line [] = Return False"
  "render_leading_documentation [] b = Return None"
  by (simp_all add: lex_def lex_with_limit_def lex_loop.simps leading_trivia_has_blank_line_def
      render_leading_documentation_def trim_def Let_def)

end
