(* ===== verification/Parser_Runs.thy ===== *)
theory Parser_Runs
  imports Parser_Eval
begin

text \<open>
  Two parses worked out by the kernel: a program of two statements, and a text whose third
  token is a lexical error.
\<close>

section \<open>The program \<open>let a=1;a;\<close>\<close>

definition small_text :: bytes where
  "small_text = ''let a=1;a;''"

definition small_tokens :: "LexToken list" where
  "small_tokens =
     [spot KwLet 0 3, spot Whitespace 3 4, spot Ident 4 5, spot EqTok 5 6, spot IntTok 6 7,
      spot Semi 7 8, spot Ident 8 9, spot Semi 9 10]"

lemma small_text_length: "length small_text = 10"
  by (simp add: small_text_def)

lemma small_one_line: "one_line small_text"
  by (simp add: one_line_def small_text_def is_ascii_def)

lemma small_text_steps:
  "lex_step small_text 0 = Return (KwLet, 3, None)"
  "lex_step small_text 3 = Return (Whitespace, 4, None)"
  "lex_step small_text 4 = Return (Ident, 5, None)"
  "lex_step small_text 5 = Return (EqTok, 6, None)"
  "lex_step small_text 6 = Return (IntTok, 7, None)"
  "lex_step small_text 7 = Return (Semi, 8, None)"
  "lex_step small_text 8 = Return (Ident, 9, None)"
  "lex_step small_text 9 = Return (Semi, 10, None)"
  unfolding small_text_def by (code_simp)+

lemma small_text_lexed: "lex_with_limit small_text 1000000 = Return (Inr small_tokens)"
  using lex_loop_end [of small_text]
  by (simp add: lex_with_limit_def lex_loop_go small_text_steps small_text_length small_tokens_def spot_def)

abbreviation small_cursor :: "nat \<Rightarrow> RuaTokenize" where
  "small_cursor \<equiv> cursor_at small_text small_tokens"

lemma small_nth:
  "length small_tokens = 8"
  "small_tokens ! 0 = spot KwLet 0 3" "small_tokens ! 1 = spot Whitespace 3 4"
  "small_tokens ! 2 = spot Ident 4 5" "small_tokens ! 3 = spot EqTok 5 6"
  "small_tokens ! 4 = spot IntTok 6 7" "small_tokens ! 5 = spot Semi 7 8"
  "small_tokens ! 6 = spot Ident 8 9" "small_tokens ! 7 = spot Semi 9 10"
  by (simp_all add: small_tokens_def)

lemma small_next:
  "next_token (small_cursor 0) = Return (Inr (line_token KwLet 0 3 0), small_cursor 1)"
  "next_token (small_cursor 1) = Return (Inr (line_token Ident 4 1 3), small_cursor 3)"
  "next_token (small_cursor 3) = Return (Inr (line_token EqTok 5 1 5), small_cursor 4)"
  "next_token (small_cursor 4) = Return (Inr (line_token IntTok 6 1 6), small_cursor 5)"
  "next_token (small_cursor 5) = Return (Inr (line_token Semi 7 1 7), small_cursor 6)"
  "next_token (small_cursor 6) = Return (Inr (line_token Ident 8 1 8), small_cursor 7)"
  "next_token (small_cursor 7) = Return (Inr (line_token Semi 9 1 9), small_cursor 8)"
  "next_token (small_cursor 8) = Return (Inr (line_token Eof 10 0 10), small_cursor 8)"
  by (simp_all add: small_nth next_token_simps small_one_line small_text_length line_token_def del: One_nat_def)

abbreviation small_at :: "nat \<Rightarrow> TokenData \<Rightarrow> TokenData \<Rightarrow> SourceRange option \<Rightarrow> nat \<Rightarrow> u32 \<Rightarrow> Parser" where
  "small_at i t u r d e \<equiv>
     parser_at (lexer_at small_text small_tokens i t u r) 0 ParseBudget_default d e"

lemma small_slices:
  "str_slice small_text 4 5 = Return ''a''" "str_slice small_text 6 7 = Return ''1''"
  "str_slice small_text 8 9 = Return ''a''"
  "str_slice small_text 0 0 = Return []" "str_slice small_text 8 8 = Return []"
  "str_slice small_text 10 10 = Return []"
  by (simp_all add: one_line_slices [OF small_one_line] small_text_length)
    (simp_all add: small_text_def slice_def)

lemmas call_simps = pbind_def pret_def cur_def pget_def plift_def accept_def expect_def current_range_def
  p_text_def current_text_def expect_ident_def small_next p_bump_at small_slices parsers_fields

lemmas expression_simps = call_simps parse_expr_def parse_expr_inner_def with_nesting_def
  parse_bin_def parse_bin_inner_def parse_unary_def parse_unary_inner_def parse_postfix_def parse_primary_def
  literal_token_def parse_literal_def parse_scalar_def repeat_parse_def mk_def next_id_def previous_range_def
  ParseBudget_default_def parse_suffix_def parse_operator_def binop_def binop_table_def assignop_def
  parse_path_expr_def parse_path_segments_def

lemmas statement_simps = call_simps parse_chunk_step_def at_item_start_def at_word_def item_keyword_def
  at_attribute_start_def peek_next_def blank_line_before_current_def current_leading_trivia_def
  statement_keyword_def parse_chunk_stmt_def parse_keyword_statement_def parse_let_def
  optional_after_def pmap_def

lemma small_one:
  "parse_expr (parsers (Suc (Suc n))) (small_at 6 (line_token IntTok 6 1 6) (line_token Semi 7 1 7) r 0 0) =
    Parsed (AstExpr \<lparr>exid_file = 0, exid_local = 0\<rparr> (XInt ''1'') (SourceRange_new 6 1 1))
     (small_at 7 (line_token Semi 7 1 7) (line_token Ident 8 1 8) (Some (SourceRange_new 6 1 1)) 0 1)"
  by (simp add: expression_simps del: parsers.simps)

lemma small_a:
  "parse_expr (parsers (Suc (Suc n))) (small_at 8 (line_token Ident 8 1 8) (line_token Semi 9 1 9) r 0 1) =
    Parsed (AstExpr \<lparr>exid_file = 0, exid_local = 1\<rparr> (XPath [''a'']) (SourceRange_new 8 1 1))
     (small_at 8 (line_token Semi 9 1 9) (line_token Eof 10 0 10) (Some (SourceRange_new 8 1 1)) 0 2)"
  by (simp add: expression_simps del: parsers.simps)

definition small_chunk :: "Stmt list" where
  "small_chunk =
     [StLet ''a'' (SourceRange_new 4 1 1) False None
        (AstExpr \<lparr>exid_file = 0, exid_local = 0\<rparr> (XInt ''1'') (SourceRange_new 6 1 1)),
      StExpr (AstExpr \<lparr>exid_file = 0, exid_local = 1\<rparr> (XPath [''a'']) (SourceRange_new 8 1 1))]"

lemma small_let:
  "parse_chunk_step (parsers (Suc (Suc (Suc n)))) Eof c (small_at 3 (line_token KwLet 0 3 0) (line_token Ident 4 1 3) r 0 0) =
    Parsed (c\<lparr>cs_stmts := cs_stmts c @ [small_chunk ! 0], cs_blanks := cs_blanks c @ [False],
        cs_order := cs_order c @ [ChunkStatement (length (cs_stmts c))]\<rparr>, True)
     (small_at 8 (line_token Ident 8 1 8) (line_token Semi 9 1 9) (Some (SourceRange_new 7 1 1)) 0 1)"
  by (simp add: statement_simps small_one small_chunk_def del: parsers.simps One_nat_def)

lemma small_expression:
  "parse_chunk_step (parsers (Suc (Suc (Suc n)))) Eof c (small_at 8 (line_token Ident 8 1 8) (line_token Semi 9 1 9) r 0 1) =
    Parsed (c\<lparr>cs_stmts := cs_stmts c @ [small_chunk ! 1], cs_blanks := cs_blanks c @ [False],
        cs_order := cs_order c @ [ChunkStatement (length (cs_stmts c))]\<rparr>, True)
     (small_at 8 (line_token Eof 10 0 10) (line_token Eof 10 0 10) (Some (SourceRange_new 9 1 1)) 0 2)"
  by (simp add: statement_simps small_a small_chunk_def del: parsers.simps One_nat_def)


definition small_program :: Program where
  "small_program =
     \<lparr>prog_items = [], prog_chunk = AstBlock small_chunk [False, False] None False,
      prog_source_order = [ChunkStatement 0, ChunkStatement 1], prog_is_decl = False,
      prog_standard_library = None\<rparr>"

lemma small_end:
  "parse_chunk_step r Eof c (small_at 8 (line_token Eof 10 0 10) (line_token Eof 10 0 10) rr 0 2) =
    Parsed (c, False) (small_at 8 (line_token Eof 10 0 10) (line_token Eof 10 0 10) rr 0 2)"
  by (simp add: parse_chunk_step_def pbind_def cur_def pget_def pret_def)

lemma small_program_run:
  "parse_program (small_at 3 (line_token KwLet 0 3 0) (line_token Ident 4 1 3) None 0 0)
     = Parsed small_program
         (small_at 8 (line_token Eof 10 0 10) (line_token Eof 10 0 10) (Some (SourceRange_new 9 1 1)) 0 2)"
proof -
  let ?p = "small_at 3 (line_token KwLet 0 3 0) (line_token Ident 4 1 3) None 0 0"
  have ahead: "tokens_ahead (p_lexer ?p) = 7" by (simp add: tokens_ahead_def small_nth)
  then have fuel: "Suc (tokens_ahead (p_lexer ?p) + (max_nesting (p_budget ?p) - p_nesting ?p)) = Suc (Suc (Suc 517))"
    by (simp add: ParseBudget_default_def)
  have loop: "Suc (tokens_ahead (p_lexer ?p)) = Suc (Suc (Suc 5))" using ahead by simp
  have "parse_chunk_contents (parsers (Suc (Suc (Suc n)))) Eof ?p
      = Parsed \<lparr>cs_items = [], cs_stmts = small_chunk, cs_blanks = [False, False],
          cs_order = [ChunkStatement 0, ChunkStatement 1]\<rparr>
         (small_at 8 (line_token Eof 10 0 10) (line_token Eof 10 0 10) (Some (SourceRange_new 9 1 1)) 0 2)" for n
    unfolding parse_chunk_contents_def repeat_parse_def loop
    by (simp only: loop_fuel.simps pbind_def small_let reply.case prod.case if_True)
      (simp add: small_expression small_end pret_def small_chunk_def pbind_def del: parsers.simps One_nat_def)
  then show ?thesis
    unfolding parse_program_def fuel
    by (simp only: pmap_def pbind_def reply.case pret_def) (simp add: program_of_def small_program_def)
qed

lemma small_program_parsed: "parse small_text = ParseOk small_program"
  using lexer_at_start [OF small_next(1,2)] small_program_run
  by (simp add: parse_def parse_with_budget_def parse_with_semantic_file_and_budget_def
      StrictTokenStream_new_def small_text_lexed parse_token_stream_with_file_def new_parser_at
      ParseBudget_default_def del: One_nat_def)


lemma small_text_valid: "utf8 small_text" "length small_text < 2 ^ 32"
  using small_one_line by (simp_all add: utf8_all_ascii one_line_def list_all_iff small_text_length)
section \<open>The text \<open>use a "\<close>\<close>

text \<open>The string that never ends is the third token: the first call of \<open>bump\<close> reads it.\<close>

definition broken_use :: bytes where
  "broken_use = ''use a \"''"

definition broken_use_tokens :: "LexToken list" where
  "broken_use_tokens =
     [spot KwUse 0 3, spot Whitespace 3 4, spot Ident 4 5, spot Whitespace 5 6,
      (spot Str 6 7)\<lparr>tok_error := Some UnterminatedString\<rparr>]"

lemma broken_use_length: "length broken_use = 7"
  by (simp add: broken_use_def)

lemma broken_one_line: "one_line broken_use"
  by (simp add: one_line_def broken_use_def is_ascii_def)

lemma broken_use_steps:
  "lex_step broken_use 0 = Return (KwUse, 3, None)"
  "lex_step broken_use 3 = Return (Whitespace, 4, None)"
  "lex_step broken_use 4 = Return (Ident, 5, None)"
  "lex_step broken_use 5 = Return (Whitespace, 6, None)"
  "lex_step broken_use 6 = Return (Str, 7, Some UnterminatedString)"
  unfolding broken_use_def by (code_simp)+

lemma broken_use_lexed: "lex_with_limit broken_use 1000000 = Return (Inr broken_use_tokens)"
  using lex_loop_end [of broken_use]
  by (simp add: lex_with_limit_def lex_loop_go broken_use_steps broken_use_length broken_use_tokens_def spot_def)

lemma broken_nth:
  "length broken_use_tokens = 5"
  "broken_use_tokens ! 0 = spot KwUse 0 3" "broken_use_tokens ! 1 = spot Whitespace 3 4"
  "broken_use_tokens ! 2 = spot Ident 4 5" "broken_use_tokens ! 3 = spot Whitespace 5 6"
  "broken_use_tokens ! 4 = (spot Str 6 7)\<lparr>tok_error := Some UnterminatedString\<rparr>"
  by (simp_all add: broken_use_tokens_def)

abbreviation broken_cursor :: "nat \<Rightarrow> RuaTokenize" where
  "broken_cursor \<equiv> cursor_at broken_use broken_use_tokens"

lemma broken_next:
  "next_token (broken_cursor 0) = Return (Inr (line_token KwUse 0 3 0), broken_cursor 1)"
  "next_token (broken_cursor 1) = Return (Inr (line_token Ident 4 1 3), broken_cursor 3)"
  "next_token (broken_cursor 3) =
     Return (Inl \<lparr>te_kind = UnterminatedString, te_range = SourceRange_new 6 1 1\<rparr>, broken_cursor 5)"
  by (simp_all add: broken_nth next_token_simps broken_one_line broken_use_length line_token_def
      del: One_nat_def)

definition broken_use_error :: "u32 \<Rightarrow> ParseError" where
  "broken_use_error file_index = \<lparr>pe_diagnostic = with_argument
        (StructuredDiagnostic_new ParseUnterminatedString (Some (FileId file_index))
           (Some \<lparr>range_start = 6, range_end = 7\<rparr>)) ''message'' (lex_error_message UnterminatedString),
      pe_line = 1, pe_message = lex_error_message UnterminatedString\<rparr>"

lemma broken_use_from:
  "ParseError_from \<lparr>te_kind = UnterminatedString, te_range = SourceRange_new 6 1 1\<rparr> = Return (broken_use_error 0)"
  by (simp add: ParseError_from_def ParseError_at_code_def TextRange_at_def TextRange_new_def
      broken_use_error_def)

lemma broken_use_run:
  "parse_program (parser_at (lexer_at broken_use broken_use_tokens 3 (line_token KwUse 0 3 0)
     (line_token Ident 4 1 3) None) file_index b 0 0) = Reject (broken_use_error 0)"
proof -
  let ?p = "parser_at (lexer_at broken_use broken_use_tokens 3 (line_token KwUse 0 3 0)
     (line_token Ident 4 1 3) None) file_index b 0 0"
  have doc: "leading_documentation ?p = Parsed None ?p"
    by (simp add: leading_documentation_def plift_def current_leading_trivia_def str_slice_def)
  have bump: "p_bump ?p = Reject (broken_use_error 0)"
    by (simp add: p_bump_at broken_next broken_use_from del: One_nat_def)
  have item_start: "at_item_start ?p = Parsed True ?p"
    by (simp add: at_item_start_def pbind_def cur_def pget_def at_word_def pret_def item_keyword_def)
  have attr: "at_attribute_start ?p = Parsed False ?p"
    by (simp add: at_attribute_start_def pbind_def cur_def peek_next_def pget_def pret_def)
  have attrs: "parse_outer_attributes r ?p = Parsed [] ?p" for r
    by (simp add: parse_outer_attributes_def repeat_parse_def pbind_def attr pret_def del: One_nat_def)
  have "parse_use ?p = Reject (broken_use_error 0)"
    by (simp add: parse_use_def pbind_def expect_def cur_def pget_def bump del: One_nat_def)
  then have "parse_chunk_step r Eof c ?p = Reject (broken_use_error 0)" for r c
    by (simp add: parse_chunk_step_def pbind_def cur_def pget_def item_start attr parse_chunk_item_def
        doc attrs parse_item_def accept_def pret_def at_word_def parse_plain_item_def pmap_def del: One_nat_def)
  then show ?thesis
    by (simp add: parse_program_def pmap_def pbind_def parse_chunk_contents_def repeat_parse_def
        del: One_nat_def)
qed

lemma broken_use_parsed: "parse_with_semantic_file broken_use file_index = ParseErr (broken_use_error 0)"
  using lexer_at_start [OF broken_next(1,2)] broken_use_run
  by (simp add: parse_with_semantic_file_def parse_with_semantic_file_and_budget_def ParseBudget_default_def
      StrictTokenStream_new_def broken_use_lexed parse_token_stream_with_file_def new_parser_at
      del: One_nat_def)

section \<open>The text \<open>"\<close>\<close>

lemma lone_quote_parsed:
  "\<exists>e. parse_with_semantic_file [quote_char] file_index = ParseErr e
     \<and> sd_file (pe_diagnostic e) = Some (FileId file_index)"
proof -
  let ?toks = "[(spot Str 0 1)\<lparr>tok_error := Some UnterminatedString\<rparr>]"
  have "lex_step [quote_char] 0 = Return (Str, 1, Some UnterminatedString)" by code_simp
  then have lexed: "lex_with_limit [quote_char] 1000000 = Return (Inr ?toks)"
    by (simp add: lex_with_limit_def lex_loop_go lex_loop.simps [of _ _ "1 :: nat"] spot_def del: One_nat_def)
  have "one_line [quote_char]" by (simp add: one_line_def is_ascii_def)
  then have "next_token (cursor_at [quote_char] ?toks 0)
      = Return (Inl \<lparr>te_kind = UnterminatedString, te_range = SourceRange_new 0 1 1\<rparr>, cursor_at [quote_char] ?toks 1)"
    by (simp add: next_token_simps del: One_nat_def)
  then have "RuaLexer_from_stream \<lparr>ts_text = [quote_char], ts_tokens = ?toks\<rparr>
      = Return (Inl \<lparr>te_kind = UnterminatedString, te_range = SourceRange_new 0 1 1\<rparr>)"
    by (simp add: RuaLexer_from_stream_def RuaTokenize_from_stream_def cursor_at_def)
  moreover obtain e where "ParseError_from \<lparr>te_kind = UnterminatedString, te_range = SourceRange_new 0 1 1\<rparr> = Return e"
    by (simp add: ParseError_from_def ParseError_at_code_def TextRange_at_def TextRange_new_def)
  ultimately show ?thesis
    by (simp add: parse_with_semantic_file_def parse_with_semantic_file_and_budget_def ParseBudget_default_def
        StrictTokenStream_new_def lexed parse_token_stream_with_file_def parse_error_result_def stamp_file_def
        del: One_nat_def)
qed

end
