(* ===== verification/Front_End.thy ===== *)
theory Front_End
  imports Parser_Runs Hir_Program_Props
begin

text \<open>
  The front end of the compiler as one: from the bytes of a file through the lexer and the
  parser to resolved names, and where its errors point.
\<close>

section \<open>From text to resolved names\<close>

lemma plain_items_names: "list_all plain_item items \<Longrightarrow> module_names_ok items"
proof (induction items)
  case (Cons it items)
  then show ?case by (cases it) simp_all
qed simp

lemma chunk_sites_module:
  "module_sites h m (prog_items (program_of c)) (prog_chunk (program_of c)) = chunk_sites h m c"
  by (simp add: module_sites_def chunk_sites_def program_of_def)

lemma sites_ok_fit:
  assumes "sites_ok pos m cap sites" and "cap < 2 ^ 31"
  shows "sites_fit sites"
proof -
  have "\<forall>r \<in> set (site_spans L). span_fits r" if "\<forall>site \<in> set L. site_fits pos m site" for L
    using that by (induction L) (auto simp: site_spans_def split: Site.splits)
  then have "\<forall>r \<in> set (site_spans sites). span_fits r" using assms(1) unfolding sites_ok_def by blast
  with assms show ?thesis by (simp add: sites_fit_def sites_ok_def)
qed

lemma parse_ok_resolves:
  assumes "utf8 s" and "length s < 2 ^ 32" and "max_tokens b < 2 ^ 31"
    and "parse_with_semantic_file_and_budget s file b = ParseOk program"
  shows "\<exists>h h'. collect_declarations program = Return h
           \<and> resolve_program program = Some (Return h') \<and> wf_hir h'
           \<and> (let sites = module_sites h (hir_root h) (prog_items program) (prog_chunk program) in
                dom (hir_binding_targets h') = set (site_keys sites)
                \<and> dom (hir_expression_targets h') = fst ` set (site_names sites)
                \<and> (\<forall>(i, path) \<in> set (site_names sites). \<exists>t m.
                     hir_expression_targets h' i = Some t \<and> module_ok h' m \<and> name_ok h' m path t))"
proof -
  obtain c pos m where c: "program = program_of c" "list_all plain_item (cs_items c)"
      "\<And>h m'. sites_ok pos m (max_tokens b) (chunk_sites h m' c)"
    using parse_cases [OF assms(1-3), of "file"] assms(4) by auto
  have names: "module_names_ok (prog_items program)"
    using plain_items_names [OF c(2)] by (simp add: c(1) program_of_def)
  obtain h where h: "collect_declarations program = Return h"
    using collect_declarations_step [OF names] by blast
  let ?sites = "module_sites h (hir_root h) (prog_items program) (prog_chunk program)"
  have "sites_fit ?sites"
    using sites_ok_fit [OF c(3) assms(3)] by (simp add: c(1) chunk_sites_module)
  from resolve_program_walk [OF names h refl this] h show ?thesis
    unfolding Let_def by (elim exE conjE) (intro exI conjI; assumption)
qed

section \<open>The claims\<close>

text \<open>
  C1. Parsing is total. For every valid UTF-8 text below 4 GiB, whatever its tokens, and every
  token budget below 2 ^ 31, the parser returns a program or an error; it neither panics (on a
  slice off a character boundary, an identity counter or a depth that overflows) nor runs out
  of the fuel that stands for its loops and recursion. The range of an error lies in the text
  and its line is a line of the text.
\<close>

theorem parse_total:
  assumes "utf8 s" and "length s < 2 ^ 32" and "max_tokens b < 2 ^ 31"
  shows "(\<exists>program. parse_with_semantic_file_and_budget s file_index b = ParseOk program)
    \<or> (\<exists>e. parse_with_semantic_file_and_budget s file_index b = ParseErr e \<and> error_points_into s e)"
  using parse_cases [OF assms] by blast

theorem parse_total_witness:
  "\<exists>e. parse_with_semantic_file_and_budget broken_use 3 ParseBudget_default = ParseErr e
     \<and> error_points_into broken_use e"
proof -
  have "utf8 broken_use" "length broken_use < 2 ^ 32"
    using broken_one_line by (simp_all add: utf8_all_ascii one_line_def list_all_iff broken_use_length)
  then have "(\<exists>program. parse_with_semantic_file_and_budget broken_use 3 ParseBudget_default = ParseOk program)
      \<or> (\<exists>e. parse_with_semantic_file_and_budget broken_use 3 ParseBudget_default = ParseErr e
          \<and> error_points_into broken_use e)"
    by (rule parse_total) (simp add: ParseBudget_default_def)
  moreover have "parse_with_semantic_file_and_budget broken_use 3 ParseBudget_default = ParseErr (broken_use_error 0)"
    using broken_use_parsed [of 3] by (simp add: parse_with_semantic_file_def)
  ultimately show ?thesis by simp
qed

text \<open>
  C2. What the parser accepts, name resolution resolves. The declarations of a parsed program
  are collected and its bodies resolved without a panic and without looping: the identities the
  parser hands out are distinct, its binding ranges too, and its ranges fit into 32 bits, which
  are the assumptions resolution makes. Exactly the bindings and names of the program get a
  target, and each name resolves to a target of the tables or to a local of that name.
\<close>

theorem parsed_program_resolves:
  assumes "utf8 s" and "length s < 2 ^ 32" and "max_tokens b < 2 ^ 31"
    and "parse_with_semantic_file_and_budget s file_index b = ParseOk program"
  shows "\<exists>h h'. collect_declarations program = Return h
           \<and> resolve_program program = Some (Return h') \<and> wf_hir h'
           \<and> (let sites = module_sites h (hir_root h) (prog_items program) (prog_chunk program) in
                dom (hir_binding_targets h') = set (site_keys sites)
                \<and> dom (hir_expression_targets h') = fst ` set (site_names sites)
                \<and> (\<forall>(i, path) \<in> set (site_names sites). \<exists>t m.
                     hir_expression_targets h' i = Some t \<and> module_ok h' m \<and> name_ok h' m path t))"
  by (rule parse_ok_resolves [OF assms])

text \<open>The program \<open>let a=1;a;\<close>: the name \<open>a\<close> is expression 1 and gets a target.\<close>

theorem parsed_program_resolves_witness:
  "parse small_text = ParseOk small_program
   \<and> (\<exists>h'. resolve_program small_program = Some (Return h')
        \<and> dom (hir_binding_targets h') = {(0, 4, 1)}
        \<and> dom (hir_expression_targets h') = {\<lparr>exid_file = 0, exid_local = 1\<rparr>})"
proof -
  have parsed: "parse_with_semantic_file_and_budget small_text 0 ParseBudget_default = ParseOk small_program"
    using small_program_parsed by (simp add: parse_def parse_with_budget_def)
  have b: "max_tokens ParseBudget_default < 2 ^ 31" by (simp add: ParseBudget_default_def)
  have sites: "module_sites h m (prog_items small_program) (prog_chunk small_program)
      = [BindSite (Some (SourceRange_new 4 1 1)),
         NameSite \<lparr>exid_file = 0, exid_local = 1\<rparr> [''a''] (SourceRange_new 8 1 1)]" for h m
    by (simp add: module_sites_def small_program_def small_chunk_def)
  from parsed_program_resolves [OF small_text_valid b parsed] obtain h' where
      "resolve_program small_program = Some (Return h')"
      "dom (hir_binding_targets h') = {(0, 4, 1)}"
      "dom (hir_expression_targets h') = {\<lparr>exid_file = 0, exid_local = 1\<rparr>}"
    unfolding sites Let_def by (auto simp: site_defs range_key_def)
  with small_program_parsed show ?thesis by blast
qed


end
