(* ===== verification/Cst_State.thy ===== *)
theory Cst_State
  imports Lex Diagnostics
begin

text \<open>
  The state of the lossless parser of the IDE (\<open>crates/rua-ide/src/syntax/parser.rs\<close>), its token
  cursor and its calls of the tree builder.

  \<open>SyntaxKind\<close> of \<open>kind.rs\<close> merges the token kinds, which mirror those of the shared lexer, with
  the kinds of nodes; the model keeps the two families apart, with \<open>Unknown\<close> for
  \<open>SyntaxKind::Error\<close>. The builder itself is rowan's and not part of the repository: the model
  records the calls the parser makes. A checkpoint is opaque to the parser; the record names it
  by the moment it was taken, the number of calls made so far.
\<close>

section \<open>Kinds and tokens\<close>

datatype (plugins only: code) NodeKind =
  NSourceFile | NAnnotationDecl | NFnDecl | NStructDecl | NEnumDecl | NTraitDecl | NImplDecl
  | NUseDecl | NExternBlock | NAttribute | NMetaItem | NMetaValue | NParamList | NParam | NGenericParams
  | NGenericParam | NWhereClause | NFieldDecl | NFieldList | NEnumVariant | NVariantList
  | NTraitMethod | NExternFn | NPathType | NRefType | NTupleType | NCallableType | NNeverType
  | NTypeArgs | NBlock | NLetStmt | NExprStmt | NLuaBlockStmt | NBinExpr | NUnaryExpr
  | NRangeExpr | NAssignExpr | NTryExpr | NCallExpr | NMethodCallExpr | NFieldExpr | NIndexExpr
  | NPathExpr | NLiteralExpr | NParenExpr | NIfExpr | NMatchExpr | NMatchArm | NLoopExpr
  | NWhileExpr | NForExpr | NReturnExpr | NBreakExpr | NContinueExpr | NStructLitExpr | NMapExpr
  | NMapEntry | NFieldInit | NArrayExpr | NClosureExpr | NArgList | NPattern | NErrorNode

datatype SyntaxKind = Tok TokenKind | Node NodeKind

record CstToken =
  ct_kind :: TokenKind
  ct_start :: nat
  ct_len :: nat
  ct_error :: "LexErrorKind option"

definition cst_token :: "LexToken \<Rightarrow> CstToken" where
  "cst_token tok =
     \<lparr>ct_kind = tok_kind tok, ct_start = unat (range_start (tok_range tok)),
      ct_len = unat (range_len (tok_range tok)), ct_error = tok_error tok\<rparr>"

definition cst_lex :: "bytes \<Rightarrow> CstToken list outcome" where
  "cst_lex s = map_outcome (map cst_token) (lex s)"

section \<open>Calls of the builder\<close>

datatype TreeCall =
  StartNode SyntaxKind
  | StartNodeAt nat SyntaxKind
  | TokenCall SyntaxKind bytes
  | FinishNode

section \<open>State\<close>

record CstError =
  ce_code :: DiagnosticCode
  ce_message :: bytes
  ce_offset :: nat

record CstParser =
  c_src :: bytes
  c_tokens :: "CstToken list"
  c_pos :: nat
  c_calls :: "TreeCall list"
  c_errors :: "CstError list"
  c_no_struct :: bool

text \<open>
  A method on \<open>&mut self\<close> never fails: it records its errors. \<open>CstNoFuel\<close> means that the fuel of a
  loop or of the recursion was not enough, \<open>CstCrash\<close> is a panic.
\<close>

datatype 'a cst_reply = CstNoFuel | CstCrash | CstDone 'a CstParser

type_synonym 'a cst = "CstParser \<Rightarrow> 'a cst_reply"

definition cret :: "'a \<Rightarrow> 'a cst" where
  "cret x = (\<lambda>s. CstDone x s)"

definition cbind :: "'a cst \<Rightarrow> ('a \<Rightarrow> 'b cst) \<Rightarrow> 'b cst" where
  "cbind m f = (\<lambda>s.
     case m s of CstNoFuel \<Rightarrow> CstNoFuel | CstCrash \<Rightarrow> CstCrash | CstDone x s' \<Rightarrow> f x s')"

definition cget :: "(CstParser \<Rightarrow> 'a) \<Rightarrow> 'a cst" where
  "cget f = (\<lambda>s. CstDone (f s) s)"

definition clift :: "(CstParser \<Rightarrow> 'a outcome) \<Rightarrow> 'a cst" where
  "clift f = (\<lambda>s. case f s of Panic \<Rightarrow> CstCrash | Return x \<Rightarrow> CstDone x s)"

text \<open>Statements one after the other.\<close>

primrec in_order :: "unit cst list \<Rightarrow> unit cst" where
  "in_order [] = cret ()"
| "in_order (m # ms) = cbind m (\<lambda>_. in_order ms)"

text \<open>A loop: the body says whether to go on. Every round of a loop consumes a token.\<close>

abbreviation cst_ahead :: "CstParser \<Rightarrow> nat" where
  "cst_ahead s \<equiv> length (c_tokens s) - c_pos s"

fun cst_loop :: "nat \<Rightarrow> ('a \<Rightarrow> ('a \<times> bool) cst) \<Rightarrow> 'a \<Rightarrow> unit cst" where
  "cst_loop 0 body acc = (\<lambda>s. CstNoFuel)"
| "cst_loop (Suc n) body acc =
     cbind (body acc) (\<lambda>(acc', again). if again then cst_loop n body acc' else cret ())"

definition repeat_with :: "('a \<Rightarrow> ('a \<times> bool) cst) \<Rightarrow> 'a \<Rightarrow> unit cst" where
  "repeat_with body acc = (\<lambda>s. cst_loop (Suc (cst_ahead s)) body acc s)"

definition repeat_cst :: "bool cst \<Rightarrow> unit cst" where
  "repeat_cst body = repeat_with (\<lambda>u. cbind body (\<lambda>again. cret (u, again))) ()"

section \<open>The token cursor\<close>

fun nth_upcoming :: "CstToken list \<Rightarrow> nat \<Rightarrow> nat option" where
  "nth_upcoming [] n = None"
| "nth_upcoming (t # ts) n =
     (if is_trivia (ct_kind t) then map_option Suc (nth_upcoming ts n)
      else if n = 0 then Some 0
      else map_option Suc (nth_upcoming ts (n - 1)))"

definition nth_token :: "CstParser \<Rightarrow> nat \<Rightarrow> nat option" where
  "nth_token s n = map_option (\<lambda>i. c_pos s + i) (nth_upcoming (drop (c_pos s) (c_tokens s)) n)"

definition nth_kind :: "CstParser \<Rightarrow> nat \<Rightarrow> TokenKind" where
  "nth_kind s n = (case nth_token s n of None \<Rightarrow> Eof | Some i \<Rightarrow> ct_kind (c_tokens s ! i))"

definition kind_at :: "nat \<Rightarrow> TokenKind cst" where
  "kind_at n = cget (\<lambda>s. nth_kind s n)"

definition current_kind :: "TokenKind cst" where
  "current_kind = kind_at 0"

definition cst_slice :: "CstParser \<Rightarrow> CstToken \<Rightarrow> bytes outcome" where
  "cst_slice s t = str_slice (c_src s) (ct_start t) (ct_start t + ct_len t)"

definition cst_text :: "bytes cst" where
  "cst_text = clift (\<lambda>s. case nth_token s 0 of
     None \<Rightarrow> Return [] | Some i \<Rightarrow> cst_slice s (c_tokens s ! i))"

definition current_offset :: "CstParser \<Rightarrow> nat" where
  "current_offset s = (case nth_token s 0 of
     None \<Rightarrow> length (c_src s) | Some i \<Rightarrow> ct_start (c_tokens s ! i))"

text \<open>\<open>self.at_contextual(word)\<close>: a contextual keyword is lexed as an identifier.\<close>

definition at_contextual :: "bytes \<Rightarrow> bool cst" where
  "at_contextual word = cbind current_kind (\<lambda>k.
     if k = Ident then cbind cst_text (\<lambda>name. cret (name = word)) else cret False)"

definition record_call :: "TreeCall \<Rightarrow> unit cst" where
  "record_call call = (\<lambda>s. CstDone () (s\<lparr>c_calls := c_calls s @ [call]\<rparr>))"

definition checkpoint :: "nat cst" where
  "checkpoint = cget (\<lambda>s. length (c_calls s))"

text \<open>Emit the token under the cursor and advance (\<open>push_tok\<close>).\<close>

definition push_tok :: "unit cst" where
  "push_tok = (\<lambda>s.
     let t = c_tokens s ! c_pos s in
     case cst_slice s t of
       Panic \<Rightarrow> CstCrash
     | Return txt \<Rightarrow>
         CstDone () (s\<lparr>c_calls := c_calls s @ [TokenCall (Tok (ct_kind t)) txt], c_pos := c_pos s + 1\<rparr>))"

definition eat_trivia :: "unit cst" where
  "eat_trivia = repeat_cst
     (cbind (cget (\<lambda>s. c_pos s < length (c_tokens s) \<and> is_trivia (ct_kind (c_tokens s ! c_pos s))))
       (\<lambda>b. if b then cbind push_tok (\<lambda>_. cret True) else cret False))"

definition cst_bump :: "unit cst" where
  "cst_bump =
     cbind eat_trivia (\<lambda>_.
     cbind (cget (\<lambda>s. c_pos s < length (c_tokens s))) (\<lambda>b. if b then push_tok else cret ()))"

definition cst_accept :: "TokenKind \<Rightarrow> bool cst" where
  "cst_accept kind = cbind current_kind (\<lambda>k.
     if k = kind then cbind cst_bump (\<lambda>_. cret True) else cret False)"

definition error_with_code :: "DiagnosticCode \<Rightarrow> bytes \<Rightarrow> unit cst" where
  "error_with_code code msg = (\<lambda>s.
     CstDone () (s\<lparr>c_errors := c_errors s
       @ [\<lparr>ce_code = code, ce_message = msg, ce_offset = current_offset s\<rparr>]\<rparr>))"

definition cst_error :: "bytes \<Rightarrow> unit cst" where
  "cst_error msg = error_with_code ParseUnexpectedToken msg"

text \<open>\<open>user_str\<close>: the spelling of a token for a diagnostic.\<close>

definition user_str_table :: "(TokenKind \<times> bytes) list" where
  "user_str_table =
    [(KwFn, ''fn''), (KwLet, ''let''), (KwSelf, ''self''), (Ident, ''identifier''), (LParen, ''(''),
     (RParen, '')''), (LBrace, ''{''), (RBrace, ''}''), (LBracket, ''[''), (RBracket, '']''),
     (LtTok, ''<''), (GtTok, ''>''), (Colon, '':''), (Semi, '';''), (Comma, '',''), (EqTok, ''=''),
     (PlusEq, ''+=''), (MinusEq, ''-=''), (StarEq, ''*=''), (SlashEq, ''/=''), (PercentEq, ''%=''),
     (QuestionQuestion, ''??''), (QuestionDot, ''?.''), (Arrow, ''->''), (FatArrow, ''=>''),
     (NotTok, ''!'')]"

definition user_str :: "TokenKind \<Rightarrow> bytes" where
  "user_str k = (case map_of user_str_table k of None \<Rightarrow> ''token'' | Some s \<Rightarrow> s)"

definition expect_code :: "TokenKind \<Rightarrow> DiagnosticCode" where
  "expect_code kind =
     (if kind = RParen \<or> kind = RBrace \<or> kind = RBracket \<or> kind = GtTok then ParseMissingDelimiter
      else ParseUnexpectedToken)"

definition cst_expect :: "TokenKind \<Rightarrow> unit cst" where
  "cst_expect kind = cbind current_kind (\<lambda>k.
     if k = kind then cst_bump
     else error_with_code (expect_code kind) (''expected `'' @ user_str kind @ ''`''))"

definition cst_expect_ident :: "unit cst" where
  "cst_expect_ident = cbind current_kind (\<lambda>k.
     if k = Ident \<or> k = KwSelf then cst_bump else cst_error ''expected identifier'')"

text \<open>\<open>start_node(kind)\<close>, a body, \<open>finish_node()\<close>.\<close>

definition in_node :: "NodeKind \<Rightarrow> unit cst \<Rightarrow> unit cst" where
  "in_node kind body = in_order [record_call (StartNode (Node kind)), body, record_call FinishNode]"

text \<open>Recovery: the current token goes into an error node. Nothing happens at the end.\<close>

definition error_bump :: "unit cst" where
  "error_bump = cbind current_kind (\<lambda>k.
     if k = Eof then cret () else in_node NErrorNode cst_bump)"

definition wrap :: "nat \<Rightarrow> NodeKind \<Rightarrow> unit cst" where
  "wrap cp kind = in_order [record_call (StartNodeAt cp (Node kind)), record_call FinishNode]"

text \<open>\<open>let saved = self.no_struct; self.no_struct = flag; body; self.no_struct = saved\<close>.\<close>

definition with_struct_flag :: "bool \<Rightarrow> unit cst \<Rightarrow> unit cst" where
  "with_struct_flag flag body =
     cbind (cget c_no_struct) (\<lambda>saved.
     in_order
       [(\<lambda>s. CstDone () (s\<lparr>c_no_struct := flag\<rparr>)), body, (\<lambda>s. CstDone () (s\<lparr>c_no_struct := saved\<rparr>))])"

section \<open>Repeated shapes\<close>

text \<open>\<open>let before = self.pos; item; if self.pos == before { self.error_bump(); }\<close>.\<close>

definition recovering :: "unit cst \<Rightarrow> unit cst" where
  "recovering item =
     cbind (cget c_pos) (\<lambda>pos_before. cbind item (\<lambda>_. cbind (cget c_pos) (\<lambda>now.
       if now = pos_before then error_bump else cret ())))"

text \<open>\<open>while !self.at(closer) && !self.at(Eof) { recovering item }\<close>.\<close>

definition items_until :: "TokenKind \<Rightarrow> unit cst \<Rightarrow> unit cst" where
  "items_until closer item = repeat_cst (cbind current_kind (\<lambda>k.
     if k = closer \<or> k = Eof then cret False
     else cbind (recovering item) (\<lambda>_. cret True)))"

text \<open>
  The comma loops: \<open>let before = self.pos; item; if !self.accept(Comma) { break; }
  if self.pos == before { self.error_bump(); }\<close> under the same condition.
\<close>

definition comma_round :: "unit cst \<Rightarrow> bool cst" where
  "comma_round item =
     cbind (cget c_pos) (\<lambda>pos_before.
     cbind item (\<lambda>_.
     cbind (cst_accept Comma) (\<lambda>b.
       if \<not> b then cret False
       else cbind (cget c_pos) (\<lambda>now.
         if now = pos_before then cbind error_bump (\<lambda>_. cret True) else cret True))))"

definition commas_until :: "TokenKind \<Rightarrow> unit cst \<Rightarrow> unit cst" where
  "commas_until closer item = repeat_cst (cbind current_kind (\<lambda>k.
     if k = closer \<or> k = Eof then cret False else comma_round item))"

text \<open>\<open>if self.accept(kind) { body }\<close> and \<open>while self.accept(kind) { body }\<close>.\<close>

definition if_accept :: "TokenKind \<Rightarrow> unit cst \<Rightarrow> unit cst" where
  "if_accept kind body = cbind (cst_accept kind) (\<lambda>b. if b then body else cret ())"

definition while_accept :: "TokenKind \<Rightarrow> unit cst \<Rightarrow> unit cst" where
  "while_accept kind body = repeat_cst (cbind (cst_accept kind) (\<lambda>b.
     if b then cbind body (\<lambda>_. cret True) else cret False))"

text \<open>\<open>let _ = self.accept(kind)\<close>.\<close>

definition may_accept :: "TokenKind \<Rightarrow> unit cst" where
  "may_accept kind = cbind (cst_accept kind) (\<lambda>_. cret ())"

end
