(* ===== verification/Cst_Parser.thy ===== *)
theory Cst_Parser
  imports Cst_State
begin

text \<open>
  The grammar of \<open>crates/rua-ide/src/syntax/parser.rs\<close>, one definition per method. A method
  that the grammar re-enters takes the methods it calls as a \<open>CstGrammar\<close> of callbacks, and
  \<open>cst_parsers\<close> ties the knot on fuel: every cycle of the grammar consumes a token within six
  calls, so six times the tokens and a few are enough (\<open>parse_source_file\<close>).
\<close>

record CstGrammar =
  g_ty :: "unit cst"
  g_block :: "unit cst"
  g_expr :: "unit cst"
  g_bin :: "nat \<Rightarrow> unit cst"
  g_unary :: "unit cst"
  g_pattern :: "unit cst"
  g_pattern_literal :: "unit cst"
  g_if :: "unit cst"
  g_meta_item :: "unit cst"
  g_meta_value :: "unit cst"

section \<open>Attributes\<close>

definition literal_kind :: "TokenKind \<Rightarrow> bool" where
  "literal_kind k \<longleftrightarrow> k = Str \<or> k = IntTok \<or> k = FloatTok \<or> k = KwTrue \<or> k = KwFalse"

definition cst_meta_name :: "unit cst" where
  "cst_meta_name = cbind cst_text (\<lambda>name. cbind current_kind (\<lambda>k.
     if name \<noteq> [] \<and> (hd name = CHR ''_'' \<or> is_ascii_alphabetic (hd name))
        \<and> list_all (\<lambda>c. c = CHR ''_'' \<or> is_ascii_alphanumeric c) name
        \<and> k \<noteq> KwTrue \<and> k \<noteq> KwFalse
     then cst_bump
     else cst_error ''expected attribute identifier''))"

definition cst_meta_rest :: "CstGrammar \<Rightarrow> unit cst" where
  "cst_meta_rest g =
     cbind (cst_accept EqTok) (\<lambda>is_value.
       if is_value then g_meta_value g
       else cbind (cst_accept LParen) (\<lambda>is_list.
         if is_list then in_order [commas_until RParen (g_meta_item g), cst_expect RParen]
         else cret ()))"

definition cst_meta_item :: "CstGrammar \<Rightarrow> unit cst" where
  "cst_meta_item g =
     in_node NMetaItem (cbind current_kind (\<lambda>k.
       if literal_kind k then cst_bump
       else in_order [cst_meta_name, while_accept ColonColon cst_meta_name, cst_meta_rest g]))"

definition cst_meta_value :: "CstGrammar \<Rightarrow> unit cst" where
  "cst_meta_value g =
     in_node NMetaValue (cbind current_kind (\<lambda>k.
       if literal_kind k then cst_bump
       else if k = Ident then in_order [cst_bump, while_accept ColonColon cst_meta_name]
       else if k = LBracket then
         in_order [cst_bump, commas_until RBracket (g_meta_value g), cst_expect RBracket]
       else
         in_order [cst_error ''attribute value must be a literal, path, or homogeneous list'',
           error_bump]))"

text \<open>\<open>self.at(K::Hash) && self.nth(1) == K::LBracket\<close>.\<close>

definition cst_at_attribute :: "bool cst" where
  "cst_at_attribute = cbind current_kind (\<lambda>k. cbind (kind_at 1) (\<lambda>k'.
     cret (k = Hash \<and> k' = LBracket)))"

definition cst_attribute :: "CstGrammar \<Rightarrow> unit cst" where
  "cst_attribute g =
     in_node NAttribute
       (in_order [cst_expect Hash, cst_expect LBracket, g_meta_item g, cst_expect RBracket])"

definition cst_outer_attributes :: "CstGrammar \<Rightarrow> unit cst" where
  "cst_outer_attributes g = repeat_cst (cbind cst_at_attribute (\<lambda>b.
     if b then cbind (cst_attribute g) (\<lambda>_. cret True) else cret False))"

section \<open>Types\<close>

text \<open>An identifier and the segments after it, in the two forms of the source.\<close>

definition cst_segments :: "unit cst" where
  "cst_segments = repeat_cst (cbind current_kind (\<lambda>k.
     if k = ColonColon then cbind (in_order [cst_bump, cst_expect_ident]) (\<lambda>_. cret True)
     else cret False))"

definition cst_type_args :: "CstGrammar \<Rightarrow> unit cst" where
  "cst_type_args g =
     in_node NTypeArgs (in_order [cst_bump, commas_until GtTok (g_ty g), cst_expect GtTok])"

definition cst_fn_type :: "CstGrammar \<Rightarrow> unit cst" where
  "cst_fn_type g =
     in_order
       [cst_bump, cst_expect LParen, commas_until RParen (g_ty g), cst_expect RParen,
        if_accept Arrow (g_ty g)]"

definition cst_path_type :: "CstGrammar \<Rightarrow> unit cst" where
  "cst_path_type g =
     in_order
       [cst_expect_ident, cst_segments,
        cbind current_kind (\<lambda>k. if k = LtTok then cst_type_args g else cret ())]"

definition cst_ty_at :: "CstGrammar \<Rightarrow> TokenKind \<Rightarrow> nat \<Rightarrow> unit cst" where
  "cst_ty_at g k cp =
     (if k = NotTok then in_order [cst_bump, wrap cp NNeverType]
      else if k = Amp then
        in_order [cst_bump, may_accept KwMut, may_accept KwDyn, g_ty g, wrap cp NRefType]
      else if k = KwFn then in_order [cst_fn_type g, wrap cp NCallableType]
      else if k = LParen then
        in_order [cst_bump, commas_until RParen (g_ty g), cst_expect RParen, wrap cp NTupleType]
      else in_order [cst_path_type g, wrap cp NPathType])"

definition cst_ty :: "CstGrammar \<Rightarrow> unit cst" where
  "cst_ty g =
     cbind eat_trivia (\<lambda>_. cbind current_kind (\<lambda>k. cbind checkpoint (cst_ty_at g k)))"

section \<open>Generics\<close>

text \<open>The depth is an \<open>i32\<close>.\<close>

definition skip_angles_step :: "nat \<Rightarrow> (nat \<times> bool) cst" where
  "skip_angles_step depth = cbind current_kind (\<lambda>k.
     if k = LtTok then
       (if depth = 2 ^ 31 - 1 then (\<lambda>s. CstCrash) else cbind cst_bump (\<lambda>_. cret (depth + 1, True)))
     else if k = GtTok then
       (if depth = 1 then cbind cst_bump (\<lambda>_. cret (0, False))
        else cbind cst_bump (\<lambda>_. cret (depth - 1, True)))
     else if k = Eof then
       cbind (error_with_code ParseMissingDelimiter ''unterminated `<...>`'') (\<lambda>_. cret (depth, False))
     else cbind cst_bump (\<lambda>_. cret (depth, True)))"

definition skip_angles :: "unit cst" where
  "skip_angles = cbind current_kind (\<lambda>k.
     if k \<noteq> LtTok then cret () else repeat_with skip_angles_step 0)"

definition cst_path :: "unit cst" where
  "cst_path = in_order [cst_expect_ident, while_accept ColonColon cst_expect_ident]"

definition cst_bound_list :: "unit cst" where
  "cst_bound_list = repeat_cst
     (cbind (in_order [cst_path, skip_angles]) (\<lambda>_. cst_accept Plus))"

definition cst_generic_param :: "unit cst" where
  "cst_generic_param =
     in_node NGenericParam (in_order [cst_expect_ident, if_accept Colon cst_bound_list])"

definition cst_opt_generics :: "unit cst" where
  "cst_opt_generics = cbind current_kind (\<lambda>k.
     if k \<noteq> LtTok then cret ()
     else in_node NGenericParams
       (in_order [cst_bump, commas_until GtTok cst_generic_param, cst_expect GtTok]))"

definition cst_where_predicate :: "unit cst" where
  "cst_where_predicate = in_order [cst_path, skip_angles, if_accept Colon cst_bound_list]"

definition cst_opt_where :: "unit cst" where
  "cst_opt_where = cbind (at_contextual ''where'') (\<lambda>b.
     if \<not> b then cret ()
     else in_node NWhereClause
       (in_order
         [cst_bump,
          repeat_cst (cbind current_kind (\<lambda>k.
            if k = LBrace \<or> k = Semi \<or> k = Eof then cret False
            else comma_round cst_where_predicate))]))"

section \<open>Patterns\<close>

definition cst_pattern_literal :: "CstGrammar \<Rightarrow> unit cst" where
  "cst_pattern_literal g = cbind (cst_accept Minus) (\<lambda>b.
     if b then g_pattern_literal g
     else cbind current_kind (\<lambda>k.
       if literal_kind k then cst_bump
       else in_order [cst_error ''expected literal in pattern'', error_bump]))"

definition cst_field_pattern :: "CstGrammar \<Rightarrow> unit cst" where
  "cst_field_pattern g = in_order [cst_expect_ident, if_accept Colon (g_pattern g)]"

text \<open>The fields of a struct pattern; \<open>..\<close> ends them.\<close>

definition cst_field_patterns :: "CstGrammar \<Rightarrow> unit cst" where
  "cst_field_patterns g = repeat_cst (cbind current_kind (\<lambda>k.
     if k = RBrace \<or> k = Eof then cret False
     else cbind (cst_accept DotDot) (\<lambda>rest.
       if rest then cret False else comma_round (cst_field_pattern g))))"

definition cst_pattern_suffix :: "CstGrammar \<Rightarrow> unit cst" where
  "cst_pattern_suffix g = cbind current_kind (\<lambda>k.
     if k = LParen then
       in_order [cst_bump, commas_until RParen (g_pattern g), cst_expect RParen]
     else if k = LBrace then
       in_order [cst_bump, cst_field_patterns g, cst_expect RBrace]
     else cret ())"

text \<open>\<open>if self.accept(DotDotEq) || self.accept(DotDot)\<close>.\<close>

definition cst_literal_pattern :: "CstGrammar \<Rightarrow> unit cst" where
  "cst_literal_pattern g =
     cbind (g_pattern_literal g) (\<lambda>_.
     cbind (cst_accept DotDotEq) (\<lambda>b.
       if b then g_pattern_literal g else if_accept DotDot (g_pattern_literal g)))"

definition cst_pattern_inner :: "CstGrammar \<Rightarrow> unit cst" where
  "cst_pattern_inner g = cbind current_kind (\<lambda>k.
     if literal_kind k \<or> k = Minus then cst_literal_pattern g
     else if k = Ident \<or> k = KwSelf then
       cbind cst_text (\<lambda>name.
         if name = ''_'' then cst_bump
         else in_order [cst_expect_ident, cst_segments, cst_pattern_suffix g])
     else in_order [cst_error ''expected pattern'', error_bump])"

definition cst_pattern :: "CstGrammar \<Rightarrow> unit cst" where
  "cst_pattern g = in_order [eat_trivia, in_node NPattern (cst_pattern_inner g)]"

section \<open>Expressions\<close>

definition cond_expr :: "CstGrammar \<Rightarrow> unit cst" where
  "cond_expr g = with_struct_flag True (g_expr g)"

definition allow_struct_expr :: "CstGrammar \<Rightarrow> unit cst" where
  "allow_struct_expr g = with_struct_flag False (g_expr g)"

definition assign_kind :: "TokenKind \<Rightarrow> bool" where
  "assign_kind k \<longleftrightarrow>
     k = EqTok \<or> k = PlusEq \<or> k = MinusEq \<or> k = StarEq \<or> k = SlashEq \<or> k = PercentEq"

definition cst_expr :: "CstGrammar \<Rightarrow> unit cst" where
  "cst_expr g =
     cbind eat_trivia (\<lambda>_.
     cbind checkpoint (\<lambda>cp.
     in_order
       [g_bin g 0,
        cbind current_kind (\<lambda>k.
          if assign_kind k then in_order [cst_bump, g_expr g, wrap cp NAssignExpr]
          else cret ())]))"

text \<open>\<open>infix_bp\<close> and the constant \<open>RANGE_BP\<close>.\<close>

definition infix_table :: "(TokenKind \<times> nat) list" where
  "infix_table =
    [(QuestionQuestion, 0), (OrOr, 1), (AndAnd, 2), (EqEq, 3), (NeTok, 3), (LtTok, 3), (LeTok, 3),
     (GtTok, 3), (GeTok, 3), (KwIn, 3), (Plus, 5), (Minus, 5), (Star, 6), (Slash, 6), (Percent, 6)]"

definition infix_bp :: "TokenKind \<Rightarrow> nat option" where
  "infix_bp k = map_of infix_table k"

definition CST_RANGE_BP :: nat where
  "CST_RANGE_BP = 4"

definition cst_operator :: "CstGrammar \<Rightarrow> nat \<Rightarrow> nat \<Rightarrow> bool cst" where
  "cst_operator g min_bp cp = cbind current_kind (\<lambda>k.
     if k = DotDot \<or> k = DotDotEq then
       (if CST_RANGE_BP < min_bp then cret False
        else cbind (in_order [cst_bump, g_bin g (CST_RANGE_BP + 1), wrap cp NRangeExpr])
          (\<lambda>_. cret True))
     else
       (case infix_bp k of
          None \<Rightarrow> cret False
        | Some lbp \<Rightarrow>
            if lbp < min_bp then cret False
            else cbind (in_order [cst_bump, g_bin g (lbp + 1), wrap cp NBinExpr]) (\<lambda>_. cret True)))"

definition cst_bin :: "CstGrammar \<Rightarrow> nat \<Rightarrow> unit cst" where
  "cst_bin g min_bp =
     cbind eat_trivia (\<lambda>_.
     cbind checkpoint (\<lambda>cp.
     in_order [g_unary g, repeat_cst (cst_operator g min_bp cp)]))"

definition cst_arg_list :: "CstGrammar \<Rightarrow> unit cst" where
  "cst_arg_list g =
     in_node NArgList
       (in_order [cst_expect LParen, commas_until RParen (allow_struct_expr g), cst_expect RParen])"

definition cst_turbofish :: "CstGrammar \<Rightarrow> unit cst" where
  "cst_turbofish g = if_accept ColonColon (cbind current_kind (\<lambda>k.
     if k = LtTok then cst_type_args g else cst_error ''expected `<` after method `::`''))"

definition cst_member :: "CstGrammar \<Rightarrow> nat \<Rightarrow> unit cst" where
  "cst_member g cp =
     in_order
       [cst_bump, cst_expect_ident, cst_turbofish g,
        cbind current_kind (\<lambda>k.
          if k = LParen then in_order [cst_arg_list g, wrap cp NMethodCallExpr]
          else wrap cp NFieldExpr)]"

definition cst_suffix :: "CstGrammar \<Rightarrow> nat \<Rightarrow> bool cst" where
  "cst_suffix g cp = cbind current_kind (\<lambda>k.
     if k = LParen then
       cbind (in_order [cst_arg_list g, wrap cp NCallExpr]) (\<lambda>_. cret True)
     else if k = Dot \<or> k = QuestionDot then cbind (cst_member g cp) (\<lambda>_. cret True)
     else if k = Question then
       cbind (in_order [cst_bump, wrap cp NTryExpr]) (\<lambda>_. cret True)
     else if k = LBracket then
       cbind (in_order [cst_bump, allow_struct_expr g, cst_expect RBracket, wrap cp NIndexExpr])
         (\<lambda>_. cret True)
     else cret False)"

definition cst_closure_param :: "CstGrammar \<Rightarrow> unit cst" where
  "cst_closure_param g = in_node NParam (in_order [cst_expect_ident, if_accept Colon (g_ty g)])"

definition cst_closure_params :: "CstGrammar \<Rightarrow> unit cst" where
  "cst_closure_params g = cbind current_kind (\<lambda>k.
     if k = OrOr then cst_bump
     else in_order [cst_expect Pipe, commas_until Pipe (cst_closure_param g), cst_expect Pipe])"

definition closure_expr :: "CstGrammar \<Rightarrow> unit cst" where
  "closure_expr g = cbind checkpoint (\<lambda>cp.
     in_order
       [cst_closure_params g, if_accept Arrow (g_ty g),
        cbind current_kind (\<lambda>k. if k = LBrace then g_block g else allow_struct_expr g),
        wrap cp NClosureExpr])"

definition cst_map_entry :: "CstGrammar \<Rightarrow> unit cst" where
  "cst_map_entry g =
     in_node NMapEntry (in_order [allow_struct_expr g, cst_expect Colon, allow_struct_expr g])"

definition map_expr :: "CstGrammar \<Rightarrow> unit cst" where
  "map_expr g =
     in_node NMapExpr
       (in_order
         [cst_expect Hash, cst_expect LBrace, commas_until RBrace (cst_map_entry g),
          cst_expect RBrace])"

definition cst_field_init :: "CstGrammar \<Rightarrow> unit cst" where
  "cst_field_init g =
     in_node NFieldInit (in_order [cst_expect_ident, if_accept Colon (allow_struct_expr g)])"

definition struct_lit_fields :: "CstGrammar \<Rightarrow> unit cst" where
  "struct_lit_fields g =
     in_order [cst_expect LBrace, commas_until RBrace (cst_field_init g), cst_expect RBrace]"

text \<open>The head of \<open>if\<close> and \<open>while\<close>: a condition, or \<open>let\<close> with a pattern.\<close>

definition cst_condition :: "CstGrammar \<Rightarrow> unit cst" where
  "cst_condition g = cbind current_kind (\<lambda>k.
     if k = KwLet then in_order [cst_bump, g_pattern g, cst_expect EqTok, cond_expr g]
     else cond_expr g)"

definition else_branch :: "CstGrammar \<Rightarrow> unit cst" where
  "else_branch g = if_accept KwElse (cbind current_kind (\<lambda>k.
     if k = KwIf then g_if g else g_block g))"

definition if_expr :: "CstGrammar \<Rightarrow> unit cst" where
  "if_expr g = cbind checkpoint (\<lambda>cp.
     in_order [cst_expect KwIf, cst_condition g, g_block g, else_branch g, wrap cp NIfExpr])"

definition cst_match_arm :: "CstGrammar \<Rightarrow> unit cst" where
  "cst_match_arm g =
     in_node NMatchArm
       (in_order
         [g_pattern g, while_accept Pipe (g_pattern g), if_accept KwIf (cond_expr g),
          cst_expect FatArrow, allow_struct_expr g, may_accept Comma])"

definition match_expr :: "CstGrammar \<Rightarrow> unit cst" where
  "match_expr g = cbind checkpoint (\<lambda>cp.
     in_order
       [cst_expect KwMatch, cond_expr g, cst_expect LBrace, items_until RBrace (cst_match_arm g),
        cst_expect RBrace, wrap cp NMatchExpr])"

definition loop_stmt :: "CstGrammar \<Rightarrow> unit cst" where
  "loop_stmt g = in_node NLoopExpr (in_order [cst_expect KwLoop, g_block g])"

definition cst_path_expr :: "CstGrammar \<Rightarrow> unit cst" where
  "cst_path_expr g = cbind checkpoint (\<lambda>cp.
     in_order
       [cst_expect_ident, cst_segments,
        cbind (cget c_no_struct) (\<lambda>no_struct. cbind current_kind (\<lambda>k.
          if \<not> no_struct \<and> k = LBrace then
            in_order [struct_lit_fields g, wrap cp NStructLitExpr]
          else wrap cp NPathExpr))])"

definition primary_expr :: "CstGrammar \<Rightarrow> TokenKind \<Rightarrow> unit cst" where
  "primary_expr g k =
     (if k = Pipe \<or> k = OrOr then closure_expr g
      else if literal_kind k then
        cbind checkpoint (\<lambda>cp. in_order [cst_bump, wrap cp NLiteralExpr])
      else if k = Ident \<or> k = KwSelf then cst_path_expr g
      else if k = LParen then
        cbind checkpoint (\<lambda>cp.
          in_order [cst_bump, allow_struct_expr g, cst_expect RParen, wrap cp NParenExpr])
      else if k = LBracket then
        cbind checkpoint (\<lambda>cp.
          in_order
            [cst_bump, commas_until RBracket (allow_struct_expr g), cst_expect RBracket,
             wrap cp NArrayExpr])
      else if k = LBrace then g_block g
      else if k = Hash then map_expr g
      else if k = KwLoop then loop_stmt g
      else if k = KwIf then g_if g
      else if k = KwMatch then match_expr g
      else in_order [cst_error ''expected expression'', error_bump])"

definition cst_primary :: "CstGrammar \<Rightarrow> unit cst" where
  "cst_primary g = cbind eat_trivia (\<lambda>_. cbind current_kind (primary_expr g))"

definition cst_postfix :: "CstGrammar \<Rightarrow> unit cst" where
  "cst_postfix g =
     cbind eat_trivia (\<lambda>_.
     cbind checkpoint (\<lambda>cp. in_order [cst_primary g, repeat_cst (cst_suffix g cp)]))"

definition cst_unary :: "CstGrammar \<Rightarrow> unit cst" where
  "cst_unary g =
     cbind eat_trivia (\<lambda>_. cbind current_kind (\<lambda>k.
       if k = Minus \<or> k = NotTok \<or> k = Amp then
         cbind checkpoint (\<lambda>cp. in_order [cst_bump, g_unary g, wrap cp NUnaryExpr])
       else cst_postfix g))"

section \<open>Statements and blocks\<close>

text \<open>The operand of \<open>return\<close> and \<open>break\<close>.\<close>

definition cst_operand :: "CstGrammar \<Rightarrow> unit cst" where
  "cst_operand g = cbind (cst_accept Semi) (\<lambda>b.
     if b then cret () else in_order [g_expr g, cst_expect Semi])"

definition let_stmt :: "CstGrammar \<Rightarrow> unit cst" where
  "let_stmt g =
     in_node NLetStmt
       (in_order
         [cst_expect KwLet, may_accept KwMut, cst_expect_ident, if_accept Colon (g_ty g),
          cst_expect EqTok, g_expr g, cst_expect Semi])"

definition return_stmt :: "CstGrammar \<Rightarrow> unit cst" where
  "return_stmt g = in_node NReturnExpr (in_order [cst_expect KwReturn, cst_operand g])"

definition break_stmt :: "CstGrammar \<Rightarrow> unit cst" where
  "break_stmt g = in_node NBreakExpr (in_order [cst_bump, cst_operand g])"

definition continue_stmt :: "unit cst" where
  "continue_stmt = in_node NContinueExpr (in_order [cst_bump, cst_expect Semi])"

definition while_stmt :: "CstGrammar \<Rightarrow> unit cst" where
  "while_stmt g =
     in_node NWhileExpr (in_order [cst_expect KwWhile, cst_condition g, g_block g])"

definition for_stmt :: "CstGrammar \<Rightarrow> unit cst" where
  "for_stmt g =
     in_node NForExpr
       (in_order [cst_expect KwFor, cst_expect_ident, cst_expect KwIn, cond_expr g, g_block g])"

definition expr_stmt :: "CstGrammar \<Rightarrow> unit cst" where
  "expr_stmt g = cbind checkpoint (\<lambda>cp.
     in_order [g_expr g, may_accept Semi, wrap cp NExprStmt])"

definition lua_stmt :: "unit cst" where
  "lua_stmt = cbind checkpoint (\<lambda>cp. in_order [cst_bump, wrap cp NLuaBlockStmt])"

definition cst_statement :: "CstGrammar \<Rightarrow> unit cst" where
  "cst_statement g = cbind current_kind (\<lambda>k.
     if k = LuaBlock then lua_stmt
     else if k = KwLet then let_stmt g
     else if k = KwReturn then return_stmt g
     else if k = KwWhile then while_stmt g
     else if k = KwFor then for_stmt g
     else if k = KwBreak then break_stmt g
     else if k = KwContinue then continue_stmt
     else expr_stmt g)"

text \<open>The statements up to the closing brace, with struct literals allowed again.\<close>

definition block_body :: "CstGrammar \<Rightarrow> unit cst" where
  "block_body g =
     with_struct_flag False
       (in_order
         [repeat_cst (cbind current_kind (\<lambda>k.
            if k = RBrace \<or> k = Eof then cret False
            else cbind (in_order [eat_trivia, recovering (cst_statement g)]) (\<lambda>_. cret True))),
          cst_expect RBrace])"

definition cst_block :: "CstGrammar \<Rightarrow> unit cst" where
  "cst_block g = in_node NBlock (in_order [cst_expect LBrace, block_body g])"

section \<open>Items\<close>

definition cst_param :: "CstGrammar \<Rightarrow> unit cst" where
  "cst_param g = in_node NParam (in_order [cst_expect_ident, cst_expect Colon, g_ty g])"

definition annotation_decl :: "CstGrammar \<Rightarrow> nat \<Rightarrow> unit cst" where
  "annotation_decl g cp =
     in_order
       [cst_bump, cst_expect_ident, cst_expect LParen, commas_until RParen (cst_param g),
        cst_expect RParen, cst_expect Semi, wrap cp NAnnotationDecl]"

definition cst_receiver :: "unit cst" where
  "cst_receiver = cbind current_kind (\<lambda>k.
     if k = Amp then in_order [cst_bump, may_accept KwMut, cst_expect KwSelf, may_accept Comma]
     else if k = KwSelf then in_order [cst_bump, may_accept Comma]
     else cret ())"

definition cst_fn_sig :: "CstGrammar \<Rightarrow> unit cst" where
  "cst_fn_sig g =
     in_order
       [cst_expect KwFn, cst_expect_ident, cst_opt_generics, cst_expect LParen, cst_receiver,
        commas_until RParen (cst_param g), cst_expect RParen, if_accept Arrow (g_ty g),
        cst_opt_where]"

definition field_decl :: "CstGrammar \<Rightarrow> unit cst" where
  "field_decl g =
     in_node NFieldDecl
       (in_order
         [cst_outer_attributes g, may_accept KwPub, cst_expect_ident, cst_expect Colon, g_ty g])"

definition field_list :: "CstGrammar \<Rightarrow> unit cst" where
  "field_list g =
     in_node NFieldList
       (in_order [cst_expect LBrace, commas_until RBrace (field_decl g), cst_expect RBrace])"

definition struct_decl :: "CstGrammar \<Rightarrow> nat \<Rightarrow> unit cst" where
  "struct_decl g cp =
     in_order
       [cst_expect KwStruct, cst_expect_ident, cst_opt_generics, cst_opt_where,
        cbind (cst_accept Semi) (\<lambda>b. if b then cret () else field_list g),
        wrap cp NStructDecl]"

definition enum_variant :: "CstGrammar \<Rightarrow> unit cst" where
  "enum_variant g =
     in_node NEnumVariant
       (in_order
         [cst_outer_attributes g, cst_expect_ident,
          cbind current_kind (\<lambda>k.
            if k = LParen then in_order [cst_bump, commas_until RParen (g_ty g), cst_expect RParen]
            else if k = LBrace then field_list g
            else cret ())])"

definition variant_list :: "CstGrammar \<Rightarrow> unit cst" where
  "variant_list g =
     in_node NVariantList
       (in_order [cst_expect LBrace, commas_until RBrace (enum_variant g), cst_expect RBrace])"

definition enum_decl :: "CstGrammar \<Rightarrow> nat \<Rightarrow> unit cst" where
  "enum_decl g cp =
     in_order
       [cst_expect KwEnum, cst_expect_ident, cst_opt_generics, cst_opt_where, variant_list g,
        wrap cp NEnumDecl]"

definition trait_method :: "CstGrammar \<Rightarrow> unit cst" where
  "trait_method g =
     in_node NTraitMethod
       (in_order
         [cst_outer_attributes g, cst_fn_sig g,
          cbind current_kind (\<lambda>k. if k = LBrace then g_block g else cst_expect Semi)])"

definition trait_decl :: "CstGrammar \<Rightarrow> nat \<Rightarrow> unit cst" where
  "trait_decl g cp =
     in_order
       [cst_expect KwTrait, cst_expect_ident, cst_opt_generics, cst_opt_where, cst_expect LBrace,
        items_until RBrace (trait_method g), cst_expect RBrace, wrap cp NTraitDecl]"

definition impl_method :: "CstGrammar \<Rightarrow> unit cst" where
  "impl_method g = cbind checkpoint (\<lambda>mcp.
     in_order
       [cst_outer_attributes g, may_accept KwPub, cst_fn_sig g, g_block g, wrap mcp NFnDecl])"

definition impl_decl :: "CstGrammar \<Rightarrow> nat \<Rightarrow> unit cst" where
  "impl_decl g cp =
     in_order
       [cst_expect KwImpl, cst_opt_generics, cst_expect_ident, skip_angles,
        if_accept KwFor (in_order [cst_expect_ident, skip_angles]), cst_opt_where,
        cst_expect LBrace, items_until RBrace (impl_method g), cst_expect RBrace,
        wrap cp NImplDecl]"

text \<open>The parameters of an extern function; \<open>...\<close> ends them.\<close>

definition extern_params :: "CstGrammar \<Rightarrow> unit cst" where
  "extern_params g = repeat_cst (cbind current_kind (\<lambda>k.
     if k = RParen \<or> k = Eof then cret False
     else if k = DotDot then cbind (in_order [cst_bump, may_accept Dot]) (\<lambda>_. cret False)
     else comma_round (cst_param g)))"

definition extern_fn :: "CstGrammar \<Rightarrow> unit cst" where
  "extern_fn g =
     in_node NExternFn
       (in_order
         [cst_outer_attributes g, may_accept KwPub, cst_expect KwFn, cst_expect_ident, skip_angles,
          cst_expect LParen, extern_params g, cst_expect RParen, if_accept Arrow (g_ty g),
          cst_expect Semi])"

definition extern_block :: "CstGrammar \<Rightarrow> nat \<Rightarrow> unit cst" where
  "extern_block g cp =
     in_order
       [cst_expect KwExtern, may_accept Str, cst_expect LBrace, items_until RBrace (extern_fn g),
        cst_expect RBrace, wrap cp NExternBlock]"

definition use_leaf :: "unit cst" where
  "use_leaf = in_order [cst_expect_ident, if_accept KwAs cst_expect_ident]"

definition use_path :: "unit cst" where
  "use_path = repeat_cst (cbind (cst_accept ColonColon) (\<lambda>b.
     if \<not> b then cret False
     else cbind current_kind (\<lambda>k.
       if k = LBrace then
         cbind (in_order [cst_bump, commas_until RBrace use_leaf, cst_expect RBrace])
           (\<lambda>_. cret False)
       else cbind cst_expect_ident (\<lambda>_. cret True))))"

definition use_decl :: "nat \<Rightarrow> unit cst" where
  "use_decl cp =
     in_order
       [cst_expect KwUse, cst_expect_ident, use_path, if_accept KwAs cst_expect_ident,
        cst_expect Semi, wrap cp NUseDecl]"

definition item_at :: "CstGrammar \<Rightarrow> nat \<Rightarrow> TokenKind \<Rightarrow> unit cst" where
  "item_at g cp k =
     (if k = KwFn then in_order [cst_fn_sig g, g_block g, wrap cp NFnDecl]
      else if k = KwStruct then struct_decl g cp
      else if k = KwEnum then enum_decl g cp
      else if k = KwTrait then trait_decl g cp
      else if k = KwImpl then impl_decl g cp
      else if k = KwExtern then extern_block g cp
      else if k = KwUse then use_decl cp
      else
        in_order
          [error_with_code ParseExpectedItem
             ''expected item (annotation/fn/struct/enum/impl/trait/extern/use)'',
           error_bump])"

definition cst_item :: "CstGrammar \<Rightarrow> unit cst" where
  "cst_item g = cbind checkpoint (\<lambda>cp.
     in_order
       [cst_outer_attributes g, may_accept KwPub,
        cbind (at_contextual ''annotation'') (\<lambda>b.
          if b then annotation_decl g cp else cbind current_kind (item_at g cp))])"

definition item_start_kind :: "TokenKind \<Rightarrow> bool" where
  "item_start_kind k \<longleftrightarrow>
     k = KwPub \<or> k = KwFn \<or> k = KwStruct \<or> k = KwEnum \<or> k = KwTrait \<or> k = KwImpl
     \<or> k = KwExtern \<or> k = KwUse"

definition scope_entry :: "CstGrammar \<Rightarrow> unit cst" where
  "scope_entry g =
     cbind cst_at_attribute (\<lambda>is_attribute.
     cbind (at_contextual ''annotation'') (\<lambda>is_annotation.
     cbind current_kind (\<lambda>k.
       if is_attribute \<or> is_annotation \<or> item_start_kind k then cst_item g else cst_statement g)))"

definition source_file :: "CstGrammar \<Rightarrow> unit cst" where
  "source_file g =
     in_node NSourceFile
       (in_order
         [repeat_cst (cbind current_kind (\<lambda>k.
            if k = Eof then cret False
            else cbind (in_order [eat_trivia, recovering (scope_entry g)]) (\<lambda>_. cret True))),
          eat_trivia])"

section \<open>The knot\<close>

fun cst_parsers :: "nat \<Rightarrow> CstGrammar" where
  "cst_parsers 0 =
     \<lparr>g_ty = (\<lambda>s. CstNoFuel), g_block = (\<lambda>s. CstNoFuel), g_expr = (\<lambda>s. CstNoFuel),
      g_bin = (\<lambda>bp s. CstNoFuel), g_unary = (\<lambda>s. CstNoFuel), g_pattern = (\<lambda>s. CstNoFuel),
      g_pattern_literal = (\<lambda>s. CstNoFuel), g_if = (\<lambda>s. CstNoFuel),
      g_meta_item = (\<lambda>s. CstNoFuel), g_meta_value = (\<lambda>s. CstNoFuel)\<rparr>"
| "cst_parsers (Suc n) =
     (let g = cst_parsers n in
      \<lparr>g_ty = cst_ty g, g_block = cst_block g, g_expr = cst_expr g, g_bin = cst_bin g,
       g_unary = cst_unary g, g_pattern = cst_pattern g,
       g_pattern_literal = cst_pattern_literal g, g_if = if_expr g,
       g_meta_item = cst_meta_item g, g_meta_value = cst_meta_value g\<rparr>)"

section \<open>A whole file\<close>

fun lexical_code :: "LexErrorKind \<Rightarrow> DiagnosticCode" where
  "lexical_code UnterminatedString = ParseUnterminatedString"
| "lexical_code UnterminatedBlockComment = ParseUnterminatedComment"
| "lexical_code UnterminatedLuaBlock = ParseUnexpectedToken"
| "lexical_code UnknownCharacter = ParseUnexpectedToken"

definition lexical_errors :: "CstToken list \<Rightarrow> CstError list" where
  "lexical_errors toks = concat (map (\<lambda>t. case ct_error t of
       None \<Rightarrow> []
     | Some e \<Rightarrow> [\<lparr>ce_code = lexical_code e, ce_message = lex_error_message e, ce_offset = ct_start t\<rparr>])
     toks)"

definition new_cst_parser :: "bytes \<Rightarrow> CstToken list \<Rightarrow> CstParser" where
  "new_cst_parser src toks =
     \<lparr>c_src = src, c_tokens = toks, c_pos = 0, c_calls = [], c_errors = lexical_errors toks,
      c_no_struct = False\<rparr>"

definition parse_source_file :: "bytes \<Rightarrow> unit cst_reply" where
  "parse_source_file src =
     (case cst_lex src of
        Panic \<Rightarrow> CstCrash
      | Return toks \<Rightarrow> source_file (cst_parsers (6 * length toks + 6)) (new_cst_parser src toks))"

end
