(* ===== verification/Cst_Logic.thy ===== *)
theory Cst_Logic
  imports Cst_Parser Lex_Props
begin

text \<open>
  The contracts of the lossless parser. The calls of the builder are checked against the rules
  rowan documents for it, by a machine that replays them; \<open>eats\<close> is the Hoare triple of a method,
  and the collection \<open>cst_rules\<close> has one rule per construct of the grammar.
\<close>

section \<open>The rules of the builder\<close>

text \<open>
  The machine keeps where each open node starts, innermost first, and the moments whose
  checkpoints may still be used: a finished node forgets those inside it. There is one root,
  every token goes into an open node, and \<open>start_node_at\<close> takes a checkpoint of the innermost
  open node.
\<close>

fun tree_step :: "nat \<Rightarrow> TreeCall \<Rightarrow> nat list \<times> nat list \<Rightarrow> (nat list \<times> nat list) option" where
  "tree_step i (StartNode k) (opened, live) =
     (if opened = [] \<and> 0 < i then None else Some (i # opened, Suc i # live))"
| "tree_step i (StartNodeAt p k) (opened, live) =
     (if opened \<noteq> [] \<and> hd opened \<le> p \<and> p \<in> set live then Some (p # opened, Suc i # live) else None)"
| "tree_step i (TokenCall k t) (opened, live) =
     (if opened = [] then None else Some (opened, Suc i # live))"
| "tree_step i FinishNode (opened, live) =
     (case opened of [] \<Rightarrow> None | b # rest \<Rightarrow> Some (rest, Suc i # filter (\<lambda>p. p \<le> b) live))"

definition replay :: "TreeCall list \<Rightarrow> (nat list \<times> nat list) option" where
  "replay calls =
     foldl (\<lambda>st (i, call). Option.bind st (tree_step i call)) (Some ([], [0])) (enumerate 0 calls)"

lemma replay_empty [simp]: "replay [] = Some ([], [0])"
  by (simp add: replay_def)

lemma replay_snoc: "replay (calls @ [call]) = Option.bind (replay calls) (tree_step (length calls) call)"
  by (simp add: replay_def enumerate_append_eq)

text \<open>
  A complete tree: the root was opened first and closed last, and it is the node that
  \<open>SourceFile::cast_root\<close> expects.
\<close>

definition rooted :: "TreeCall list \<Rightarrow> bool" where
  "rooted calls \<longleftrightarrow> (\<exists>rest. calls = StartNode (Node NSourceFile) # rest)"

definition well_built :: "TreeCall list \<Rightarrow> bool" where
  "well_built calls \<longleftrightarrow> rooted calls \<and> (\<exists>live. replay calls = Some ([], live))"

lemma rooted_append [simp]: "rooted calls \<Longrightarrow> rooted (calls @ calls')"
  by (auto simp: rooted_def)

text \<open>The leaves of the tree, and the text they spell.\<close>

primrec call_leaf :: "TreeCall \<Rightarrow> (SyntaxKind \<times> bytes) list" where
  "call_leaf (StartNode k) = []"
| "call_leaf (StartNodeAt p k) = []"
| "call_leaf (TokenCall k t) = [(k, t)]"
| "call_leaf FinishNode = []"

definition tree_leaves :: "TreeCall list \<Rightarrow> (SyntaxKind \<times> bytes) list" where
  "tree_leaves calls = concat (map call_leaf calls)"

definition tree_text :: "TreeCall list \<Rightarrow> bytes" where
  "tree_text calls = concat (map snd (tree_leaves calls))"

lemma tree_leaves_simps [simp]:
  "tree_leaves [] = []" "tree_leaves (calls @ [call]) = tree_leaves calls @ call_leaf call"
  by (simp_all add: tree_leaves_def)

section \<open>Texts and their tokens\<close>

record cst_source =
  gs_text :: bytes
  gs_tokens :: "CstToken list"

definition offset_of :: "cst_source \<Rightarrow> nat \<Rightarrow> nat" where
  "offset_of x i = sum_list (map ct_len (take i (gs_tokens x)))"

definition wf_source :: "cst_source \<Rightarrow> bool" where
  "wf_source x \<longleftrightarrow>
     offset_of x (length (gs_tokens x)) = length (gs_text x)
     \<and> length (gs_tokens x) < 2 ^ 31 - 1
     \<and> (\<forall>i < length (gs_tokens x).
          ct_kind (gs_tokens x ! i) \<noteq> Eof \<and> ct_start (gs_tokens x ! i) = offset_of x i
          \<and> is_char_boundary (gs_text x) (offset_of x i)
          \<and> is_char_boundary (gs_text x) (offset_of x (Suc i)))"

lemma offset_of_mono: "i \<le> j \<Longrightarrow> offset_of x i \<le> offset_of x j"
  by (auto simp: offset_of_def le_iff_add take_add)

lemma offset_of_Suc:
  "i < length (gs_tokens x) \<Longrightarrow> offset_of x (Suc i) = offset_of x i + ct_len (gs_tokens x ! i)"
  by (simp add: offset_of_def take_Suc_conv_app_nth)

text \<open>The leaf of a token.\<close>

definition leaf :: "bytes \<Rightarrow> CstToken \<Rightarrow> SyntaxKind \<times> bytes" where
  "leaf s t = (Tok (ct_kind t), slice s (ct_start t) (ct_start t + ct_len t))"

section \<open>States\<close>

datatype mark = Cp nat | Base nat

primrec point :: "mark \<Rightarrow> nat" where
  "point (Cp p) = p"
| "point (Base p) = p"

fun bases :: "mark list \<Rightarrow> nat list" where
  "bases [] = []"
| "bases (Base p # K) = p # bases K"
| "bases (Cp p # K) = bases K"

lemma bases_points: "set (bases K) \<subseteq> point ` set K"
  by (induction K rule: bases.induct) auto

text \<open>
  \<open>K\<close> lists the open nodes and the checkpoints in use, the latest first; all of them are live.
\<close>

definition marks_ok :: "mark list \<Rightarrow> TreeCall list \<Rightarrow> bool" where
  "marks_ok K calls \<longleftrightarrow>
     sorted_wrt (\<ge>) (map point K)
     \<and> (\<exists>live. replay calls = Some (bases K, live) \<and> insert (length calls) (point ` set K) \<subseteq> set live)
     \<and> (\<forall>m \<in> set K. point m \<le> length calls)"

text \<open>
  The errors so far: those of the lexer, then those of the grammar, which come in the order of
  the text because the cursor never goes back.
\<close>

definition errors_ok :: "cst_source \<Rightarrow> CstParser \<Rightarrow> bool" where
  "errors_ok x s \<longleftrightarrow>
     (\<exists>more. c_errors s = lexical_errors (gs_tokens x) @ more \<and> sorted (map ce_offset more)
        \<and> (\<forall>e \<in> set more. ce_offset e \<le> current_offset s \<and> is_char_boundary (gs_text x) (ce_offset e)))"

lemma errors_ok_mono:
  assumes "errors_ok x s" and "c_errors s' = c_errors s" and "current_offset s \<le> current_offset s'"
  shows "errors_ok x s'"
  using assms unfolding errors_ok_def by (metis le_trans)

definition cst_at :: "cst_source \<Rightarrow> nat \<Rightarrow> mark list \<Rightarrow> TokenKind option \<Rightarrow> CstParser \<Rightarrow> bool" where
  "cst_at x a K h s \<longleftrightarrow>
     c_src s = gs_text x \<and> c_tokens s = gs_tokens x \<and> c_pos s \<le> length (gs_tokens x)
     \<and> length (gs_tokens x) - c_pos s \<le> a
     \<and> tree_leaves (c_calls s) = map (leaf (gs_text x)) (take (c_pos s) (gs_tokens x))
     \<and> errors_ok x s
     \<and> bases K \<noteq> [] \<and> marks_ok K (c_calls s) \<and> rooted (c_calls s)
     \<and> (\<forall>k. h = Some k \<longrightarrow> nth_kind s 0 = k)"

definition eats :: "cst_source \<Rightarrow> nat \<Rightarrow> mark list \<Rightarrow> TokenKind option \<Rightarrow> ('v \<Rightarrow> nat \<Rightarrow> bool) \<Rightarrow> 'v cst \<Rightarrow> bool" where
  "eats x a K h E f \<longleftrightarrow>
     (\<forall>s. wf_source x \<longrightarrow> cst_at x a K h s \<longrightarrow>
        (\<exists>v s' a'. f s = CstDone v s' \<and> E v a' \<and> cst_at x a' K None s'))"

abbreviation calm :: "cst_source \<Rightarrow> nat \<Rightarrow> mark list \<Rightarrow> TokenKind option \<Rightarrow> 'v cst \<Rightarrow> bool" where
  "calm x a K h f \<equiv> eats x a K h (\<lambda>_ a'. a' \<le> a) f"

lemma eatsI:
  assumes "\<And>s. wf_source x \<Longrightarrow> cst_at x a K h s \<Longrightarrow> \<exists>v s' a'. f s = CstDone v s' \<and> E v a' \<and> cst_at x a' K None s'"
  shows "eats x a K h E f"
  using assms by (simp add: eats_def)

lemma eatsE:
  assumes "eats x a K h E f" and "wf_source x" and "cst_at x a K h s"
  obtains v s' a' where "f s = CstDone v s'" and "E v a'" and "cst_at x a' K None s'"
  using assms by (auto simp: eats_def)

named_theorems cst_rules

lemma eats_ret [cst_rules]: "E v a \<Longrightarrow> eats x a K h E (cret v)"
  by (rule eatsI) (auto simp: cret_def cst_at_def)

lemma eats_bind:
  assumes "eats x a K h E1 m" and "\<And>v a'. E1 v a' \<Longrightarrow> eats x a' K None E (f v)"
  shows "eats x a K h E (cbind m f)"
proof (rule eatsI)
  fix s assume s: "wf_source x" "cst_at x a K h s"
  obtain v s' a' where m: "m s = CstDone v s'" "E1 v a'" "cst_at x a' K None s'"
    using assms(1) s by (rule eatsE)
  from assms(2) [OF m(2)] s(1) m(3) obtain w s2 a2 where "f v s' = CstDone w s2" "E w a2" "cst_at x a2 K None s2"
    by (rule eatsE)
  with m(1) show "\<exists>w s' a'. cbind m f s = CstDone w s' \<and> E w a' \<and> cst_at x a' K None s'"
    by (auto simp: cbind_def)
qed

lemma eats_cont:
  assumes "m s = CstDone v s'" and "wf_source x" and "cst_at x a K h s'" and "eats x a K h E (f v)"
  shows "\<exists>w s2 a2. cbind m f s = CstDone w s2 \<and> E w a2 \<and> cst_at x a2 K None s2"
  using assms by (auto simp: cbind_def eats_def)

lemma eats_weaken:
  assumes "eats x a K h E f" and "h = None \<or> h = h'" and "\<And>v a'. E v a' \<Longrightarrow> E' v a'"
  shows "eats x a K h' E' f"
proof (rule eatsI)
  fix s assume s: "wf_source x" "cst_at x a K h' s"
  then have "cst_at x a K h s" using assms(2) by (auto simp: cst_at_def)
  with assms(1) s(1) show "\<exists>v s' a'. f s = CstDone v s' \<and> E' v a' \<and> cst_at x a' K None s'"
    by (rule eatsE) (use assms(3) in blast)
qed

text \<open>A step that leaves the state alone, or changes nothing the contract speaks of.\<close>

lemma eats_keep:
  assumes "\<And>s. wf_source x \<Longrightarrow> cst_at x a K h s \<Longrightarrow> \<exists>v s'. m s = CstDone v s' \<and> P v \<and> cst_at x a K h s'"
    and "\<And>v. P v \<Longrightarrow> eats x a K h E (f v)"
  shows "eats x a K h E (cbind m f)"
proof (rule eatsI)
  fix s assume s: "wf_source x" "cst_at x a K h s"
  obtain v s' where m: "m s = CstDone v s'" "P v" "cst_at x a K h s'" using assms(1) [OF s] by blast
  from assms(2) [OF m(2)] s(1) m(3) obtain w s2 a2 where "f v s' = CstDone w s2" "E w a2" "cst_at x a2 K None s2"
    by (rule eatsE)
  with m(1) show "\<exists>w s' a'. cbind m f s = CstDone w s' \<and> E w a' \<and> cst_at x a' K None s'"
    by (auto simp: cbind_def)
qed

lemma eats_get [cst_rules]:
  "(\<And>v. eats x a K h E (f v)) \<Longrightarrow> eats x a K h E (cbind (cget g) f)"
  by (rule eats_keep [where P = "\<lambda>_. True"]) (auto simp: cget_def)

lemma eats_if [cst_rules]:
  "(b \<Longrightarrow> eats x a K h E m) \<Longrightarrow> (\<not> b \<Longrightarrow> eats x a K h E m') \<Longrightarrow> eats x a K h E (if b then m else m')"
  by simp

lemma eats_bind_if [cst_rules]:
  "(b \<Longrightarrow> eats x a K h E (cbind m f)) \<Longrightarrow> (\<not> b \<Longrightarrow> eats x a K h E (cbind m' f))
   \<Longrightarrow> eats x a K h E (cbind (if b then m else m') f)"
  by simp

lemma cbind_assoc: "cbind (cbind m f) g = cbind m (\<lambda>v. cbind (f v) g)"
  by (rule ext) (simp add: cbind_def split: cst_reply.split)

lemma cbind_ret: "cbind (cret v) f = f v"
  by (rule ext) (simp add: cbind_def cret_def)

lemma eats_order [cst_rules]:
  "eats x a K h E (cret ()) \<Longrightarrow> eats x a K h E (in_order [])"
  "eats x a K h E (cbind m (\<lambda>_. in_order ms)) \<Longrightarrow> eats x a K h E (in_order (m # ms))"
  by simp_all

lemma eats_bind_order [cst_rules]:
  "eats x a K h E (f ()) \<Longrightarrow> eats x a K h E (cbind (in_order []) f)"
  "eats x a K h E (cbind m (\<lambda>_. cbind (in_order ms) f)) \<Longrightarrow> eats x a K h E (cbind (in_order (m # ms)) f)"
  by (simp_all add: cbind_assoc cbind_ret)

lemma eats_bind_bind [cst_rules]:
  "eats x a K h E (cbind m (\<lambda>v. cbind (f v) g)) \<Longrightarrow> eats x a K h E (cbind (cbind m f) g)"
  by (simp add: cbind_assoc)

lemma eats_bind_ret [cst_rules]: "eats x a K h E (f v) \<Longrightarrow> eats x a K h E (cbind (cret v) f)"
  by (simp add: cbind_ret)

section \<open>The current token\<close>

lemma nth_upcoming_Some:
  "nth_upcoming ts n = Some i \<Longrightarrow> i < length ts \<and> \<not> is_trivia (ct_kind (ts ! i))"
  by (induction ts n arbitrary: i rule: nth_upcoming.induct) (auto split: if_splits)

lemma nth_upcoming_0:
  "nth_upcoming ts 0 = Some i \<Longrightarrow> \<forall>j < i. is_trivia (ct_kind (ts ! j))"
  "nth_upcoming ts 0 = None \<Longrightarrow> \<forall>t \<in> set ts. is_trivia (ct_kind t)"
proof (induction ts arbitrary: i)
  case (Cons t ts)
  { case 1 with Cons show ?case by (auto simp: nth_Cons split: if_splits nat.split) }
  { case 2 with Cons show ?case by (auto split: if_splits) }
qed simp_all

lemma nth_token_Some:
  "nth_token s n = Some i \<Longrightarrow> c_pos s \<le> i \<and> i < length (c_tokens s)"
  by (auto simp: nth_token_def dest!: nth_upcoming_Some)

lemma eats_current [cst_rules]:
  "(\<And>k. eats x a K (Some k) E (f k)) \<Longrightarrow> eats x a K None E (cbind current_kind f)"
  "eats x a K (Some k) E (f k) \<Longrightarrow> eats x a K (Some k) E (cbind current_kind f)"
proof -
  assume f: "\<And>k. eats x a K (Some k) E (f k)"
  show "eats x a K None E (cbind current_kind f)"
  proof (rule eatsI)
    fix s assume s: "wf_source x" "cst_at x a K None s"
    then have "cst_at x a K (Some (nth_kind s 0)) s" by (simp add: cst_at_def)
    with f s(1) show "\<exists>v s' a'. cbind current_kind f s = CstDone v s' \<and> E v a' \<and> cst_at x a' K None s'"
      by (rule eatsE) (auto simp: cbind_def current_kind_def kind_at_def cget_def)
  qed
next
  assume "eats x a K (Some k) E (f k)"
  then show "eats x a K (Some k) E (cbind current_kind f)"
    by (intro eats_keep [where P = "\<lambda>v. v = k"])
      (auto simp: current_kind_def kind_at_def cget_def cst_at_def)
qed

lemma token_slice:
  assumes "wf_source x" and "c_src s = gs_text x" and "i < length (gs_tokens x)"
  shows "cst_slice s (gs_tokens x ! i) = Return (snd (leaf (gs_text x) (gs_tokens x ! i)))"
  using assms by (simp add: wf_source_def cst_slice_def str_slice_def offset_of_Suc leaf_def)

lemma eats_text [cst_rules]:
  assumes "\<And>v. eats x a K h E (f v)"
  shows "eats x a K h E (cbind cst_text f)"
proof (rule eats_keep [where P = "\<lambda>_. True"])
  fix s assume s: "wf_source x" "cst_at x a K h s"
  show "\<exists>v s'. cst_text s = CstDone v s' \<and> True \<and> cst_at x a K h s'"
  proof (cases "nth_token s 0")
    case (Some i)
    then show ?thesis
      using s nth_token_Some [OF Some] token_slice [OF s(1), of s i]
      by (simp add: cst_text_def clift_def cst_at_def)
  qed (use s in \<open>simp add: cst_text_def clift_def\<close>)
qed (rule assms)

lemma eats_contextual [cst_rules]:
  assumes "\<And>b. eats x a K h E (f b)"
  shows "eats x a K h E (cbind (at_contextual word) f)"
  unfolding at_contextual_def
  by (cases h; simp only:)
    (intro cst_rules; rule eats_weaken [OF assms]; simp)+

section \<open>Calls of the builder\<close>

lemma marks_ok_points:
  "marks_ok K calls \<Longrightarrow> m \<in> set K \<Longrightarrow> point m \<le> length calls"
  by (auto simp: marks_ok_def)

lemma marks_ok_token:
  assumes "marks_ok K calls" and "bases K \<noteq> []"
  shows "marks_ok K (calls @ [TokenCall k t])"
  using assms by (fastforce simp: marks_ok_def replay_snoc)

lemma marks_ok_start:
  assumes "marks_ok K calls" and "bases K \<noteq> []"
  shows "marks_ok (Base (length calls) # K) (calls @ [StartNode k])"
  using assms by (fastforce simp: marks_ok_def replay_snoc)

lemma marks_ok_finish:
  assumes "marks_ok (Base p # K) calls"
  shows "marks_ok K (calls @ [FinishNode])"
  using assms by (fastforce simp: marks_ok_def replay_snoc)

lemma marks_ok_checkpoint:
  "marks_ok K calls \<Longrightarrow> marks_ok (Cp (length calls) # K) calls"
  "marks_ok (Cp p # K) calls \<Longrightarrow> marks_ok K calls"
  by (fastforce simp: marks_ok_def)+

lemma marks_ok_wrap:
  assumes "marks_ok (Cp p # K) calls" and "bases K \<noteq> []"
  shows "marks_ok (Cp p # K) (calls @ [StartNodeAt p k, FinishNode])"
proof -
  obtain live where live: "replay calls = Some (bases K, live)" "insert (length calls) (insert p (point ` set K)) \<subseteq> set live"
    using assms(1) by (auto simp: marks_ok_def)
  have sorted: "sorted_wrt (\<ge>) (map point (Cp p # K))" and le: "p \<le> length calls" "\<forall>m \<in> set K. point m \<le> p"
    using assms(1) by (auto simp: marks_ok_def)
  have "hd (bases K) \<le> p"
    using le(2) bases_points [of K] assms(2) hd_in_set [of "bases K"] by fastforce
  then have start: "replay (calls @ [StartNodeAt p k]) = Some (p # bases K, Suc (length calls) # live)"
    using live assms(2) by (auto simp: replay_snoc)
  have "replay ((calls @ [StartNodeAt p k]) @ [FinishNode])
      = Some (bases K, Suc (Suc (length calls)) # filter (\<lambda>q. q \<le> p) (Suc (length calls) # live))"
    unfolding replay_snoc [of _ FinishNode] start by simp
  then show ?thesis using live(2) le sorted by (fastforce simp: marks_ok_def)
qed

lemma nth_kind_calls [simp]: "nth_kind (s\<lparr>c_calls := calls\<rparr>) n = nth_kind s n"
  by (simp add: nth_kind_def nth_token_def split: option.split)

lemma current_offset_calls [simp]: "current_offset (s\<lparr>c_calls := calls\<rparr>) = current_offset s"
  by (simp add: current_offset_def nth_token_def split: option.split)

lemma cst_at_calls:
  assumes "cst_at x a K h s" and "tree_leaves calls = tree_leaves (c_calls s)" and "bases K' \<noteq> []"
    and "marks_ok K' calls" and "rooted (c_calls s) \<Longrightarrow> rooted calls"
  shows "cst_at x a K' h (s\<lparr>c_calls := calls\<rparr>)"
  using assms errors_ok_mono [of x s "s\<lparr>c_calls := calls\<rparr>"] by (simp add: cst_at_def)

lemma eats_checkpoint [cst_rules]:
  assumes "\<And>cp. eats x a (Cp cp # K) h E (f cp)"
  shows "eats x a K h E (cbind checkpoint f)"
proof (rule eatsI)
  fix s assume s: "wf_source x" "cst_at x a K h s"
  let ?cp = "length (c_calls s)"
  have "cst_at x a (Cp ?cp # K) h s"
    using s(2) marks_ok_checkpoint(1) by (simp add: cst_at_def)
  with assms s(1) obtain v s' a' where "f ?cp s = CstDone v s'" "E v a'" "cst_at x a' (Cp ?cp # K) None s'"
    by (rule eatsE)
  then have "cst_at x a' K None s'" using marks_ok_checkpoint(2) by (auto simp: cst_at_def)
  with \<open>f ?cp s = CstDone v s'\<close> \<open>E v a'\<close>
  show "\<exists>v s' a'. cbind checkpoint f s = CstDone v s' \<and> E v a' \<and> cst_at x a' K None s'"
    by (auto simp: cbind_def checkpoint_def cget_def)
qed

lemma in_node_run:
  assumes "cst_at x a K h s" and "body (s\<lparr>c_calls := c_calls s @ [StartNode (Node kind)]\<rparr>) = CstDone () s'"
    and "cst_at x a' (Base p # K) None s'"
  shows "in_node kind body s = CstDone () (s'\<lparr>c_calls := c_calls s' @ [FinishNode]\<rparr>)
    \<and> cst_at x a' K None (s'\<lparr>c_calls := c_calls s' @ [FinishNode]\<rparr>)"
proof -
  have "bases K \<noteq> []" using assms(1) by (simp add: cst_at_def)
  moreover have "marks_ok K (c_calls s' @ [FinishNode])"
    using assms(3) by (intro marks_ok_finish [of p]) (simp add: cst_at_def)
  ultimately have "cst_at x a' K None (s'\<lparr>c_calls := c_calls s' @ [FinishNode]\<rparr>)"
    using assms(3) by (intro cst_at_calls [where K = "Base p # K"]) simp_all
  with assms(2) show ?thesis by (simp add: in_node_def cbind_def record_call_def cret_def)
qed

lemma eats_node [cst_rules]:
  assumes "\<And>p. eats x a (Base p # K) h E body"
  shows "eats x a K h E (in_node kind body)"
proof (rule eatsI)
  fix s assume s: "wf_source x" "cst_at x a K h s"
  let ?p = "length (c_calls s)"
  have "cst_at x a (Base ?p # K) h (s\<lparr>c_calls := c_calls s @ [StartNode (Node kind)]\<rparr>)"
    using s(2) by (intro cst_at_calls [OF s(2)] marks_ok_start) (simp_all add: cst_at_def)
  with assms s(1) obtain v s' a' where
      "body (s\<lparr>c_calls := c_calls s @ [StartNode (Node kind)]\<rparr>) = CstDone v s'" "E v a'"
      "cst_at x a' (Base ?p # K) None s'"
    by (rule eatsE)
  then show "\<exists>v s' a'. in_node kind body s = CstDone v s' \<and> E v a' \<and> cst_at x a' K None s'"
    using in_node_run [OF s(2)] by (cases v) blast
qed

text \<open>A node that is not the last call: its body ends where the rest may go on.\<close>

lemma eats_node_bind [cst_rules]:
  assumes "\<And>p. eats x a (Base p # K) h (\<lambda>v a'. eats x a' K None E (f v)) body"
  shows "eats x a K h E (cbind (in_node kind body) f)"
  by (rule eats_bind) (rule eats_node [OF assms])

lemma eats_wrap [cst_rules]:
  assumes "eats x a (Cp cp # K) h E (f ())"
  shows "eats x a (Cp cp # K) h E (cbind (wrap cp kind) f)"
proof (rule eats_keep [where P = "\<lambda>_. True"])
  fix s assume s: "wf_source x" "cst_at x a (Cp cp # K) h s"
  have "cst_at x a (Cp cp # K) h (s\<lparr>c_calls := c_calls s @ [StartNodeAt cp (Node kind), FinishNode]\<rparr>)"
    using s(2) by (intro cst_at_calls [OF s(2)] marks_ok_wrap)
      (simp_all add: cst_at_def tree_leaves_def)
  then show "\<exists>v s'. wrap cp kind s = CstDone v s' \<and> True \<and> cst_at x a (Cp cp # K) h s'"
    by (simp add: wrap_def cbind_def record_call_def cret_def)
qed (use assms in simp)

section \<open>Consuming tokens\<close>

text \<open>Skipping trivia does not change the current token.\<close>

lemma nth_kind_step:
  assumes "c_tokens s' = c_tokens s" and "c_pos s' = Suc (c_pos s)" and "c_pos s < length (c_tokens s)"
    and "is_trivia (ct_kind (c_tokens s ! c_pos s))"
  shows "nth_token s' n = nth_token s n" and "nth_kind s' n = nth_kind s n"
proof -
  have "drop (c_pos s) (c_tokens s) = c_tokens s ! c_pos s # drop (Suc (c_pos s)) (c_tokens s)"
    using assms(3) by (simp add: Cons_nth_drop_Suc)
  then show "nth_token s' n = nth_token s n"
    using assms by (simp add: nth_token_def option.map_comp comp_def)
  then show "nth_kind s' n = nth_kind s n" using assms(1) by (simp add: nth_kind_def split: option.split)
qed

text \<open>The offset of the current token never goes back.\<close>

lemma current_offset_push:
  assumes "wf_source x" and st: "c_src s = gs_text x" "c_tokens s = gs_tokens x" "c_pos s < length (gs_tokens x)"
    and st': "c_src s' = gs_text x" "c_tokens s' = gs_tokens x" "c_pos s' = Suc (c_pos s)"
  shows "current_offset s \<le> current_offset s'"
proof (cases "is_trivia (ct_kind (c_tokens s ! c_pos s))")
  case True
  then have "nth_token s' 0 = nth_token s 0" using nth_kind_step(1) [of s' s] st st' by simp
  then show ?thesis using st st' by (simp add: current_offset_def split: option.split)
next
  case False
  then have "nth_token s 0 = Some (c_pos s)"
    using st(2,3) Cons_nth_drop_Suc [of "c_pos s" "gs_tokens x"] by (simp add: nth_token_def flip: Cons_nth_drop_Suc)
  then have here: "current_offset s = offset_of x (c_pos s)"
    using assms(1) st by (simp add: current_offset_def wf_source_def)
  show ?thesis
  proof (cases "nth_token s' 0")
    case None
    then have "current_offset s' = offset_of x (length (gs_tokens x))"
      using assms(1) st' by (simp add: current_offset_def wf_source_def)
    then show ?thesis using here st(3) by (simp add: offset_of_mono)
  next
    case (Some i)
    then have "c_pos s \<le> i" "i < length (gs_tokens x)" "current_offset s' = offset_of x i"
      using nth_token_Some [OF Some] assms(1) st' by (simp_all add: current_offset_def wf_source_def)
    then show ?thesis using here by (simp add: offset_of_mono)
  qed
qed

lemma push_tok_run:
  assumes "wf_source x" and "cst_at x a K h s" and "c_pos s < length (gs_tokens x)"
  shows "\<exists>s'. push_tok s = CstDone () s' \<and> c_pos s' = Suc (c_pos s) \<and> c_tokens s' = c_tokens s
    \<and> (\<forall>b h'. length (gs_tokens x) - Suc (c_pos s) \<le> b
         \<longrightarrow> (\<forall>k. h' = Some k \<longrightarrow> nth_kind s' 0 = k) \<longrightarrow> cst_at x b K h' s')"
proof -
  let ?i = "c_pos s"
  let ?t = "gs_tokens x ! ?i"
  let ?s = "s\<lparr>c_calls := c_calls s @ [TokenCall (Tok (ct_kind ?t)) (snd (leaf (gs_text x) ?t))], c_pos := Suc ?i\<rparr>"
  have st: "c_src s = gs_text x" "c_tokens s = gs_tokens x"
      "tree_leaves (c_calls s) = map (leaf (gs_text x)) (take ?i (gs_tokens x))" "bases K \<noteq> []"
      "marks_ok K (c_calls s)"
    using assms(2) by (simp_all add: cst_at_def)
  have "push_tok s = CstDone () ?s"
    using token_slice [OF assms(1) st(1) assms(3)] st(2) by (simp add: push_tok_def Let_def)
  moreover have "cst_at x b K h' ?s"
    if "length (gs_tokens x) - Suc ?i \<le> b" "\<forall>k. h' = Some k \<longrightarrow> nth_kind ?s 0 = k" for b h'
    using that assms(2,3) marks_ok_token [OF st(5,4)] st(3) errors_ok_mono [of x s ?s]
      current_offset_push [OF assms(1) st(1,2) assms(3), of ?s]
    by (auto simp: cst_at_def take_Suc_conv_app_nth leaf_def)
  ultimately show ?thesis using st(2) by auto
qed

lemma eat_trivia_loop:
  assumes "wf_source x" and "cst_at x a K h s" and "cst_ahead s < n"
  shows "\<exists>s'. cst_loop n (\<lambda>u. cbind (cbind (cget (\<lambda>s. c_pos s < length (c_tokens s) \<and> is_trivia (ct_kind (c_tokens s ! c_pos s))))
       (\<lambda>b. if b then cbind push_tok (\<lambda>_. cret True) else cret False)) (\<lambda>again. cret (u, again))) () s = CstDone () s'
     \<and> cst_at x a K h s' \<and> c_pos s \<le> c_pos s' \<and> nth_kind s' 0 = nth_kind s 0
     \<and> \<not> (c_pos s' < length (c_tokens s') \<and> is_trivia (ct_kind (c_tokens s' ! c_pos s')))"
  using assms(2,3)
proof (induction n arbitrary: s)
  case (Suc n)
  show ?case
  proof (cases "c_pos s < length (c_tokens s) \<and> is_trivia (ct_kind (c_tokens s ! c_pos s))")
    case True
    have toks: "c_tokens s = gs_tokens x" using Suc.prems(1) by (simp add: cst_at_def)
    obtain s1 where s1: "push_tok s = CstDone () s1" "c_pos s1 = Suc (c_pos s)" "c_tokens s1 = c_tokens s"
        "\<forall>b h'. length (gs_tokens x) - Suc (c_pos s) \<le> b
         \<longrightarrow> (\<forall>k. h' = Some k \<longrightarrow> nth_kind s1 0 = k) \<longrightarrow> cst_at x b K h' s1"
      using push_tok_run [OF assms(1) Suc.prems(1)] True toks by auto
    have kind: "nth_kind s1 0 = nth_kind s 0" using nth_kind_step(2) s1 True by blast
    have "cst_at x a K h s1"
      using s1(4) Suc.prems(1) kind by (auto simp: cst_at_def)
    moreover have "cst_ahead s1 < n" using s1(2,3) Suc.prems(2) True by auto
    ultimately obtain s2 where "cst_loop n (\<lambda>u. cbind (cbind (cget (\<lambda>s. c_pos s < length (c_tokens s) \<and> is_trivia (ct_kind (c_tokens s ! c_pos s))))
       (\<lambda>b. if b then cbind push_tok (\<lambda>_. cret True) else cret False)) (\<lambda>again. cret (u, again))) () s1 = CstDone () s2"
        "cst_at x a K h s2" "c_pos s1 \<le> c_pos s2" "nth_kind s2 0 = nth_kind s1 0"
        "\<not> (c_pos s2 < length (c_tokens s2) \<and> is_trivia (ct_kind (c_tokens s2 ! c_pos s2)))"
      using Suc.IH [of s1] by metis
    with s1(1,2) True kind show ?thesis
      by (simp add: cbind_def cget_def cret_def)
  next
    case False
    with Suc.prems show ?thesis by (auto simp: cbind_def cget_def cret_def)
  qed
qed simp

lemma eat_trivia_run:
  assumes "wf_source x" and "cst_at x a K h s"
  obtains s' where "eat_trivia s = CstDone () s'" and "cst_at x a K h s'" and "c_pos s \<le> c_pos s'"
    and "nth_kind s' 0 = nth_kind s 0"
    and "\<not> (c_pos s' < length (c_tokens s') \<and> is_trivia (ct_kind (c_tokens s' ! c_pos s')))"
  using eat_trivia_loop [OF assms, of "Suc (cst_ahead s)"]
  by (auto simp: eat_trivia_def repeat_cst_def repeat_with_def)

lemma eats_trivia [cst_rules]:
  assumes "eats x a K h E (f ())"
  shows "eats x a K h E (cbind eat_trivia f)"
  by (rule eats_keep [where P = "\<lambda>_. True"]) (use assms in \<open>auto elim: eat_trivia_run\<close>)

text \<open>What stands at the cursor when no trivia does.\<close>

lemma nth_kind_here:
  assumes "\<not> (c_pos s < length (c_tokens s) \<and> is_trivia (ct_kind (c_tokens s ! c_pos s)))"
  shows "nth_kind s 0 = (if c_pos s < length (c_tokens s) then ct_kind (c_tokens s ! c_pos s) else Eof)"
proof (cases "c_pos s < length (c_tokens s)")
  case True
  then have "drop (c_pos s) (c_tokens s) = c_tokens s ! c_pos s # drop (Suc (c_pos s)) (c_tokens s)"
    by (simp add: Cons_nth_drop_Suc)
  with True assms show ?thesis by (simp add: nth_kind_def nth_token_def)
qed (simp add: nth_kind_def nth_token_def)

lemma bump_run:
  assumes "wf_source x" and "cst_at x a K h s"
  obtains s' a' where "cst_bump s = CstDone () s'" and "a' \<le> a" and "nth_kind s 0 \<noteq> Eof \<longrightarrow> a' < a"
    and "cst_at x a' K None s'"
proof -
  obtain s1 where s1: "eat_trivia s = CstDone () s1" "cst_at x a K h s1" "nth_kind s1 0 = nth_kind s 0"
      "\<not> (c_pos s1 < length (c_tokens s1) \<and> is_trivia (ct_kind (c_tokens s1 ! c_pos s1)))"
    using assms by (rule eat_trivia_run)
  have toks: "c_tokens s1 = gs_tokens x" using s1(2) by (simp add: cst_at_def)
  show thesis
  proof (cases "c_pos s1 < length (gs_tokens x)")
    case True
    obtain s2 where s2: "push_tok s1 = CstDone () s2"
        "\<And>b h'. length (gs_tokens x) - Suc (c_pos s1) \<le> b
         \<longrightarrow> (\<forall>k. h' = Some k \<longrightarrow> nth_kind s2 0 = k) \<longrightarrow> cst_at x b K h' s2"
      using push_tok_run [OF assms(1) s1(2) True] by blast
    have a: "length (gs_tokens x) - c_pos s1 \<le> a" using s1(2) by (simp add: cst_at_def)
    show thesis
    proof (rule that)
      show "cst_bump s = CstDone () s2"
        using s1(1) s2(1) True toks by (simp add: cst_bump_def cbind_def cget_def)
      show "length (gs_tokens x) - Suc (c_pos s1) \<le> a"
          "nth_kind s 0 \<noteq> Eof \<longrightarrow> length (gs_tokens x) - Suc (c_pos s1) < a"
        using a True by linarith+
      show "cst_at x (length (gs_tokens x) - Suc (c_pos s1)) K None s2" using s2(2) by simp
    qed
  next
    case False
    then have "nth_kind s 0 = Eof" using nth_kind_here [OF s1(4)] s1(3) toks by simp
    moreover have "cst_bump s = CstDone () s1"
      using s1(1) False toks by (simp add: cst_bump_def cbind_def cget_def cret_def)
    moreover have "cst_at x a K None s1" using s1(2) by (simp add: cst_at_def)
    ultimately show thesis using that by blast
  qed
qed

lemma eats_bump [cst_rules]:
  "(\<And>a'. a' \<le> a \<Longrightarrow> eats x a' K None E (f ())) \<Longrightarrow> eats x a K None E (cbind cst_bump f)"
  "(\<And>a'. a' \<le> a \<Longrightarrow> (k \<noteq> Eof \<longrightarrow> a' < a) \<Longrightarrow> eats x a' K None E (f ()))
   \<Longrightarrow> eats x a K (Some k) E (cbind cst_bump f)"
proof -
  assume f: "\<And>a'. a' \<le> a \<Longrightarrow> eats x a' K None E (f ())"
  show "eats x a K None E (cbind cst_bump f)"
  proof (rule eatsI)
    fix s assume s: "wf_source x" "cst_at x a K None s"
    then obtain s' a' where run: "cst_bump s = CstDone () s'" "a' \<le> a" "cst_at x a' K None s'" by (rule bump_run)
    show "\<exists>v s' a'. cbind cst_bump f s = CstDone v s' \<and> E v a' \<and> cst_at x a' K None s'"
      using run(1) s(1) run(3) f [OF run(2)] by (rule eats_cont)
  qed
next
  assume f: "\<And>a'. a' \<le> a \<Longrightarrow> (k \<noteq> Eof \<longrightarrow> a' < a) \<Longrightarrow> eats x a' K None E (f ())"
  show "eats x a K (Some k) E (cbind cst_bump f)"
  proof (rule eatsI)
    fix s assume s: "wf_source x" "cst_at x a K (Some k) s"
    then obtain s' a' where run: "cst_bump s = CstDone () s'" "a' \<le> a" "nth_kind s 0 \<noteq> Eof \<longrightarrow> a' < a"
        "cst_at x a' K None s'"
      by (rule bump_run)
    have "nth_kind s 0 = k" using s(2) by (simp add: cst_at_def)
    with run(3) have "k \<noteq> Eof \<longrightarrow> a' < a" by simp
    from run(1) s(1) run(4) f [OF run(2) this]
    show "\<exists>v s' a'. cbind cst_bump f s = CstDone v s' \<and> E v a' \<and> cst_at x a' K None s'"
      by (rule eats_cont)
  qed
qed

text \<open>A last call, without a continuation.\<close>

lemma eats_last:
  "eats x a K h E (cbind m cret) \<Longrightarrow> eats x a K h E m"
proof -
  have "cbind m cret = m"
    by (rule ext) (simp add: cbind_def cret_def split: cst_reply.split)
  then show "eats x a K h E (cbind m cret) \<Longrightarrow> eats x a K h E m" by simp
qed

lemmas eats_bump_last [cst_rules] = eats_bump [THEN eats_last]
lemmas eats_trivia_last [cst_rules] = eats_trivia [THEN eats_last]
lemmas eats_wrap_last [cst_rules] = eats_wrap [THEN eats_last]

section \<open>Errors\<close>

lemma boundary_offset:
  assumes "wf_source x" and "cst_at x a K h s"
  shows "is_char_boundary (gs_text x) (current_offset s)"
proof (cases "nth_token s 0")
  case (Some i)
  then show ?thesis
    using assms nth_token_Some [OF Some] by (auto simp: current_offset_def cst_at_def wf_source_def)
qed (use assms in \<open>simp add: current_offset_def cst_at_def\<close>)

lemma nth_kind_errors [simp]: "nth_kind (s\<lparr>c_errors := es\<rparr>) n = nth_kind s n"
  by (simp add: nth_kind_def nth_token_def split: option.split)

lemma current_offset_errors [simp]: "current_offset (s\<lparr>c_errors := es\<rparr>) = current_offset s"
  by (simp add: current_offset_def nth_token_def split: option.split)

lemma eats_error [cst_rules]:
  assumes "eats x a K h E (f ())"
  shows "eats x a K h E (cbind (error_with_code code msg) f)"
proof (rule eats_keep [where P = "\<lambda>_. True"])
  fix s assume s: "wf_source x" "cst_at x a K h s"
  then show "\<exists>v s'. error_with_code code msg s = CstDone v s' \<and> True \<and> cst_at x a K h s'"
    using boundary_offset [OF s]
    by (fastforce simp: error_with_code_def cst_at_def errors_ok_def sorted_append)
qed (use assms in simp)

lemmas eats_error_last [cst_rules] = eats_error [THEN eats_last]

lemma eats_cst_error [cst_rules]:
  "eats x a K h E (f ()) \<Longrightarrow> eats x a K h E (cbind (cst_error msg) f)"
  unfolding cst_error_def by (intro cst_rules)

lemmas eats_cst_error_last [cst_rules] = eats_cst_error [THEN eats_last]

section \<open>Expecting and accepting\<close>

lemma eats_forget: "eats x a K None E f \<Longrightarrow> eats x a K h E f"
  by (rule eats_weaken [where h = None and h' = h and E = E and E' = E]) simp_all

lemmas eats_some = eats_forget [where h = "Some k" for k]

lemma eats_expect [cst_rules]:
  "(\<And>a'. a' \<le> a \<Longrightarrow> eats x a' K None E (f ())) \<Longrightarrow> eats x a K None E (cbind (cst_expect kind) f)"
  "(\<And>a'. a' \<le> a \<Longrightarrow> (k = kind \<and> k \<noteq> Eof \<longrightarrow> a' < a) \<Longrightarrow> eats x a' K None E (f ()))
   \<Longrightarrow> eats x a K (Some k) E (cbind (cst_expect kind) f)"
  unfolding cst_expect_def by (intro cst_rules; auto intro: eats_some)+

lemma eats_expect_ident [cst_rules]:
  "(\<And>a'. a' \<le> a \<Longrightarrow> eats x a' K None E (f ())) \<Longrightarrow> eats x a K None E (cbind cst_expect_ident f)"
  "(\<And>a'. a' \<le> a \<Longrightarrow> (k = Ident \<or> k = KwSelf \<longrightarrow> a' < a) \<Longrightarrow> eats x a' K None E (f ()))
   \<Longrightarrow> eats x a K (Some k) E (cbind cst_expect_ident f)"
  unfolding cst_expect_ident_def by (intro cst_rules; auto intro: eats_some)+

lemma eats_accept [cst_rules]:
  assumes "\<And>a'. a' \<le> a \<Longrightarrow> (kind \<noteq> Eof \<longrightarrow> a' < a) \<Longrightarrow> eats x a' K None E (f True)"
    and "eats x a K None E (f False)"
  shows "eats x a K h E (cbind (cst_accept kind) f)"
proof -
  have "eats x a K None E (cbind (cst_accept kind) f)"
    unfolding cst_accept_def by (intro cst_rules) (auto intro: eats_some assms)
  then show ?thesis by (rule eats_forget)
qed

end
