(* ===== verification/Cst_Rules.thy ===== *)
theory Cst_Rules
  imports Cst_Logic
begin

text \<open>
  The rules of \<open>Cst_Logic\<close> for the loops and the repeated shapes of the grammar. A round that goes
  on has consumed a token, so the tokens ahead bound every loop.
\<close>

section \<open>Loops\<close>

lemma cst_at_exact:
  "cst_at x a K h s \<Longrightarrow> cst_ahead s \<le> a \<and> cst_at x (cst_ahead s) K None s"
  by (simp add: cst_at_def)

text \<open>
  What the body of a loop says about the next round; \<open>ok\<close> is what the accumulator keeps.
\<close>

definition round_post :: "('a \<Rightarrow> nat \<Rightarrow> bool) \<Rightarrow> nat \<Rightarrow> 'a \<times> bool \<Rightarrow> nat \<Rightarrow> bool" where
  "round_post ok a r a' \<longleftrightarrow> a' \<le> a \<and> (snd r \<longrightarrow> a' < a \<and> ok (fst r) a')"

lemma cst_loop_runs:
  assumes body: "\<And>acc a'. a' \<le> a \<Longrightarrow> ok acc a' \<Longrightarrow>
      eats x a' K None (round_post ok a') (body acc)"
    and down: "\<And>acc a1 a2. a1 \<le> a2 \<Longrightarrow> ok acc a2 \<Longrightarrow> ok acc a1"
    and wf: "wf_source x"
  shows "\<lbrakk>cst_at x a' K None s; a' \<le> a; ok acc a'; cst_ahead s < n\<rbrakk>
    \<Longrightarrow> \<exists>s' a''. cst_loop n body acc s = CstDone () s' \<and> a'' \<le> a' \<and> cst_at x a'' K None s'"
proof (induction n arbitrary: acc s a')
  case (Suc n)
  let ?a = "cst_ahead s"
  have exact: "?a \<le> a'" "cst_at x ?a K None s" using cst_at_exact [OF Suc.prems(1)] by simp_all
  have "eats x ?a K None (round_post ok ?a) (body acc)"
    using body [of ?a acc] down [OF exact(1) Suc.prems(3)] exact(1) Suc.prems(2) by simp
  then obtain v s1 a1 where run: "body acc s = CstDone v s1"
      "round_post ok ?a v a1" "cst_at x a1 K None s1"
    using wf exact(2) by (rule eatsE)
  obtain acc1 again where v: "v = (acc1, again)" by (cases v)
  show ?case
  proof (cases again)
    case True
    with run(2) v have a1: "a1 < ?a" "ok acc1 a1" by (simp_all add: round_post_def)
    have "cst_ahead s1 < n" using cst_at_exact [OF run(3)] a1(1) Suc.prems(4) by simp
    with Suc.IH [OF run(3) _ a1(2)] a1(1) exact(1) Suc.prems(2)
    obtain s2 a2 where "cst_loop n body acc1 s1 = CstDone () s2" "a2 \<le> a1" "cst_at x a2 K None s2"
      by (meson le_trans less_imp_le)
    moreover have "a2 \<le> a'" using \<open>a2 \<le> a1\<close> a1(1) exact(1) by simp
    ultimately show ?thesis using run(1) v True by (auto simp: cbind_def)
  next
    case False
    have "a1 \<le> a'" using run(2) v exact(1) by (simp add: round_post_def)
    with run(1,3) v False show ?thesis by (auto simp: cbind_def cret_def)
  qed
qed simp

lemma eats_repeat_with:
  assumes "\<And>acc a'. a' \<le> a \<Longrightarrow> ok acc a' \<Longrightarrow>
      eats x a' K None (round_post ok a') (body acc)"
    and "\<And>acc a1 a2. a1 \<le> a2 \<Longrightarrow> ok acc a2 \<Longrightarrow> ok acc a1"
    and "ok acc a"
    and f: "\<And>a'. a' \<le> a \<Longrightarrow> eats x a' K None E (f ())"
  shows "eats x a K h E (cbind (repeat_with body acc) f)"
proof (rule eatsI)
  fix s assume s: "wf_source x" "cst_at x a K h s"
  from s(2) have "cst_at x a K None s" by (simp add: cst_at_def)
  then have "\<exists>s' a''. cst_loop (Suc (cst_ahead s)) body acc s = CstDone () s' \<and> a'' \<le> a \<and> cst_at x a'' K None s'"
    by (intro cst_loop_runs [where ok = ok and a = a]) (use assms(1-3) s(1) in auto)
  then obtain s' a' where run: "repeat_with body acc s = CstDone () s'" "a' \<le> a" "cst_at x a' K None s'"
    by (auto simp: repeat_with_def)
  show "\<exists>v s' a'. cbind (repeat_with body acc) f s = CstDone v s' \<and> E v a' \<and> cst_at x a' K None s'"
    using run(1) s(1) run(3) f [OF run(2)] by (rule eats_cont)
qed

definition goes_on :: "nat \<Rightarrow> bool \<Rightarrow> nat \<Rightarrow> bool" where
  "goes_on a again a' \<longleftrightarrow> a' \<le> a \<and> (again \<longrightarrow> a' < a)"

lemma goes_on_simps [simp]:
  "goes_on a True a' \<longleftrightarrow> a' < a" "goes_on a False a' \<longleftrightarrow> a' \<le> a"
  by (auto simp: goes_on_def)

lemma eats_repeat [cst_rules]:
  assumes "\<And>a'. a' \<le> a \<Longrightarrow> eats x a' K None (goes_on a') body"
    and "\<And>a'. a' \<le> a \<Longrightarrow> eats x a' K None E (f ())"
  shows "eats x a K h E (cbind (repeat_cst body) f)"
  unfolding repeat_cst_def
  by (rule eats_repeat_with [where ok = "\<lambda>_ _. True"])
    (auto intro!: eats_bind [OF assms(1)] eats_ret assms(2) simp: goes_on_def round_post_def)

section \<open>Repeated shapes\<close>

lemma eats_calm:
  "calm x a K h m \<Longrightarrow> (\<And>v a'. a' \<le> a \<Longrightarrow> eats x a' K None E (f v)) \<Longrightarrow> eats x a K h E (cbind m f)"
  by (erule eats_bind) blast

lemma eats_if_accept [cst_rules]:
  assumes "\<And>a'. a' \<le> a \<Longrightarrow> (kind \<noteq> Eof \<longrightarrow> a' < a) \<Longrightarrow> calm x a' K None body"
    and "\<And>a'. a' \<le> a \<Longrightarrow> eats x a' K None E (f ())"
  shows "eats x a K h E (cbind (if_accept kind body) f)"
  unfolding if_accept_def
  by (intro cst_rules) (auto intro!: eats_calm [OF assms(1)] assms(2))

lemma eats_may_accept [cst_rules]:
  assumes "\<And>a'. a' \<le> a \<Longrightarrow> eats x a' K None E (f ())"
  shows "eats x a K h E (cbind (may_accept kind) f)"
  unfolding may_accept_def by (intro cst_rules assms) auto

lemma eats_while_accept [cst_rules]:
  assumes "kind \<noteq> Eof" and "\<And>a'. a' < a \<Longrightarrow> calm x a' K None body"
    and "\<And>a'. a' \<le> a \<Longrightarrow> eats x a' K None E (f ())"
  shows "eats x a K h E (cbind (while_accept kind body) f)"
  unfolding while_accept_def
  using assms(1) by (intro cst_rules assms(3)) (auto intro!: eats_calm [OF assms(2)] eats_ret)

lemma eats_struct_flag [cst_rules]:
  assumes "calm x a K h body" and "\<And>a'. a' \<le> a \<Longrightarrow> eats x a' K None E (f ())"
  shows "eats x a K h E (cbind (with_struct_flag flag body) f)"
proof -
  have set: "eats x b K h' E' (g ()) \<Longrightarrow> eats x b K h' E' (cbind (\<lambda>s. CstDone () (s\<lparr>c_no_struct := v\<rparr>)) g)" for b h' E' g v
    by (rule eats_keep [where P = "\<lambda>_. True"])
      (auto simp: cst_at_def errors_ok_def current_offset_def nth_kind_def nth_token_def split: option.split)
  show ?thesis
    unfolding with_struct_flag_def
    by (intro eats_bind_bind eats_get eats_bind_order set eats_calm [OF assms(1)] assms(2))
qed

lemma kind_unread: "cbind current_kind (\<lambda>_. m) = m"
  by (rule ext) (simp add: current_kind_def kind_at_def cget_def cbind_def)

lemma eats_error_bump [cst_rules]:
  "(\<And>a'. a' \<le> a \<Longrightarrow> eats x a' K None E (f ())) \<Longrightarrow> eats x a K None E (cbind error_bump f)"
  "(\<And>a'. a' \<le> a \<Longrightarrow> (k \<noteq> Eof \<longrightarrow> a' < a) \<Longrightarrow> eats x a' K None E (f ()))
   \<Longrightarrow> eats x a K (Some k) E (cbind error_bump f)"
proof -
  have node: "(\<And>a'. a' \<le> a \<Longrightarrow> (k \<noteq> Eof \<longrightarrow> a' < a) \<Longrightarrow> eats x a' K None E (f ()))
   \<Longrightarrow> eats x a K (Some k) E (cbind error_bump f)" for k
    unfolding error_bump_def
    by (intro cst_rules eats_bind [where ?E1.0 = "\<lambda>_ a'. a' \<le> a \<and> (k \<noteq> Eof \<longrightarrow> a' < a)" and m = "in_node NErrorNode cst_bump"])
      (auto intro: eats_some)
  then show "(\<And>a'. a' \<le> a \<Longrightarrow> (k \<noteq> Eof \<longrightarrow> a' < a) \<Longrightarrow> eats x a' K None E (f ()))
   \<Longrightarrow> eats x a K (Some k) E (cbind error_bump f)" .
  assume f: "\<And>a'. a' \<le> a \<Longrightarrow> eats x a' K None E (f ())"
  have "eats x a K None E (cbind current_kind (\<lambda>_. cbind error_bump f))"
    by (intro eats_current node f)
  then show "eats x a K None E (cbind error_bump f)" by (simp add: kind_unread)
qed

lemma eats_comma_round [cst_rules]:
  assumes "calm x a K h item" and "\<And>a'. a' < a \<Longrightarrow> eats x a' K None E (f True)"
    and "\<And>a'. a' \<le> a \<Longrightarrow> eats x a' K None E (f False)"
  shows "eats x a K h E (cbind (comma_round item) f)"
  unfolding comma_round_def
  by (intro cst_rules eats_calm [OF assms(1)] assms(2,3)) auto

text \<open>
  An item that leaves the cursor where it was is skipped by one token, so \<open>recovering\<close> consumes
  unless the text is at its end.
\<close>

lemma nth_kind_cong:
  "c_tokens s1 = c_tokens s \<Longrightarrow> c_pos s1 = c_pos s \<Longrightarrow> nth_kind s1 n = nth_kind s n"
  by (simp only: nth_kind_def nth_token_def)

lemma eats_recovering [cst_rules]:
  assumes item: "\<And>a'. a' \<le> a \<Longrightarrow> calm x a' K (Some k) item" and "k \<noteq> Eof"
    and f: "\<And>a'. a' < a \<Longrightarrow> eats x a' K None E (f ())"
  shows "eats x a K (Some k) E (cbind (recovering item) f)"
proof (rule eatsI)
  fix s assume s: "wf_source x" "cst_at x a K (Some k) s"
  let ?a = "cst_ahead s"
  have here: "?a \<le> a" "cst_at x ?a K (Some k) s" using s(2) by (simp_all add: cst_at_def)
  obtain v s1 a1 where run: "item s = CstDone v s1" "a1 \<le> ?a" "cst_at x a1 K None s1"
    using item [OF here(1)] s(1) here(2) by (rule eatsE)
  have toks: "c_tokens s = gs_tokens x" "c_tokens s1 = gs_tokens x" "c_pos s \<le> length (gs_tokens x)"
      "c_pos s1 \<le> length (gs_tokens x)" "length (gs_tokens x) - c_pos s1 \<le> a1" "nth_kind s 0 = k"
    using s(2) run(3) by (simp_all add: cst_at_def)
  show "\<exists>v s' a'. cbind (recovering item) f s = CstDone v s' \<and> E v a' \<and> cst_at x a' K None s'"
  proof (cases "c_pos s1 = c_pos s")
    case True
    then have "nth_kind s1 0 = k" using toks nth_kind_cong [of s1 s] by simp
    then have "cst_at x ?a K (Some k) s1" using run(2,3) by (simp add: cst_at_def)
    have "eats x ?a K (Some k) E (cbind error_bump f)"
      using here(1) \<open>k \<noteq> Eof\<close> by (intro eats_error_bump(2) f) simp
    then obtain w s2 a2 where "cbind error_bump f s1 = CstDone w s2" "E w a2" "cst_at x a2 K None s2"
      using s(1) \<open>cst_at x ?a K (Some k) s1\<close> by (rule eatsE)
    then show ?thesis using run(1) True by (auto simp: recovering_def cbind_assoc cbind_def cget_def)
  next
    case False
    then have "length (gs_tokens x) - c_pos s1 < a" using toks run(2) here(1) by simp
    then have cont: "eats x (length (gs_tokens x) - c_pos s1) K None E (f ())" by (rule f)
    have "cst_at x (length (gs_tokens x) - c_pos s1) K None s1" using run(3) by (simp add: cst_at_def)
    from cont s(1) this obtain w s2 a2 where "f () s1 = CstDone w s2" "E w a2" "cst_at x a2 K None s2"
      by (rule eatsE)
    then show ?thesis using run(1) False by (auto simp: recovering_def cbind_assoc cbind_def cget_def cret_def)
  qed
qed

lemma eats_items_until [cst_rules]:
  assumes "\<And>a' k. a' \<le> a \<Longrightarrow> k \<noteq> closer \<Longrightarrow> k \<noteq> Eof \<Longrightarrow> calm x a' K (Some k) item"
    and "\<And>a'. a' \<le> a \<Longrightarrow> eats x a' K None E (f ())"
  shows "eats x a K h E (cbind (items_until closer item) f)"
  unfolding items_until_def
  by (intro cst_rules assms(2)) (auto intro!: eats_recovering eats_ret assms(1))

lemma eats_commas_until [cst_rules]:
  assumes "\<And>a' k. a' \<le> a \<Longrightarrow> k \<noteq> closer \<Longrightarrow> k \<noteq> Eof \<Longrightarrow> calm x a' K (Some k) item"
    and "\<And>a'. a' \<le> a \<Longrightarrow> eats x a' K None E (f ())"
  shows "eats x a K h E (cbind (commas_until closer item) f)"
  unfolding commas_until_def
  by (intro cst_rules assms(2)) (auto intro!: eats_ret eats_comma_round [THEN eats_last] assms(1))

text \<open>The same rules for a last call.\<close>

lemmas eats_last_rules [cst_rules] =
  eats_expect [THEN eats_last] eats_expect_ident [THEN eats_last] eats_if_accept [THEN eats_last]
  eats_may_accept [THEN eats_last] eats_while_accept [THEN eats_last]
  eats_repeat [THEN eats_last] eats_struct_flag [THEN eats_last] eats_error_bump [THEN eats_last]
  eats_recovering [THEN eats_last] eats_items_until [THEN eats_last]
  eats_commas_until [THEN eats_last] eats_comma_round [THEN eats_last]
  eats_accept [THEN eats_last]

section \<open>Angle brackets\<close>

text \<open>The depth counts consumed tokens, so the \<open>i32\<close> of the source never overflows.\<close>

lemma skip_angles_step_eats:
  assumes "depth + a < 2 ^ 31 - 1"
  shows "eats x a K None (round_post (\<lambda>d a'. d + a' < 2 ^ 31 - 1) a) (skip_angles_step depth)"
  unfolding skip_angles_step_def
  using assms by (intro cst_rules) (auto simp: round_post_def)

lemma eats_skip_angles [cst_rules]:
  assumes "\<And>a'. a' \<le> a \<Longrightarrow> eats x a' K None E (f ())"
  shows "eats x a K h E (cbind skip_angles f)"
proof (rule eatsI)
  fix s assume s: "wf_source x" "cst_at x a K h s"
  let ?a = "cst_ahead s"
  have here: "?a \<le> a" "cst_at x ?a K None s"
    using s by (simp_all add: cst_at_def)
  have "length (c_tokens s) < 2 ^ 31 - 1" using s by (simp add: cst_at_def wf_source_def)
  then have small: "?a < 2 ^ 31 - 1" by linarith
  have "eats x ?a K None E (cbind skip_angles f)"
    unfolding skip_angles_def
    by (intro eats_bind_bind eats_current eats_bind_if eats_bind_ret; rule eats_some)
      (intro assms eats_repeat_with [where ok = "\<lambda>d a'. d + a' < 2 ^ 31 - 1"]
         skip_angles_step_eats; use here small in simp)+
  then show "\<exists>v s' a'. cbind skip_angles f s = CstDone v s' \<and> E v a' \<and> cst_at x a' K None s'"
    using s(1) here(2) by (rule eatsE) blast
qed

lemmas eats_skip_angles_last [cst_rules] = eats_skip_angles [THEN eats_last]

end
