(* ===== verification/Cst_Calls.thy ===== *)
theory Cst_Calls
  imports Cst_Rules
begin

text \<open>
  Every method of the lossless grammar: it returns, calls the builder by its rules, and never
  gives tokens back. The methods the grammar re-enters are the assumptions of a locale, each
  with the fuel it needs: six per token ahead, and its rank in the calls that consume nothing.
\<close>

lemma calm_any: "calm x a K None m \<Longrightarrow> calm x a K h m"
  by (rule eats_forget)

section \<open>Methods without callbacks\<close>

lemma cst_names_calm:
  "calm x a K h cst_meta_name" "calm x a K h cst_segments" "calm x a K h cst_path"
  unfolding cst_meta_name_def cst_segments_def cst_path_def
  by (rule calm_any; intro cst_rules; simp)+

lemmas cst_names_rules [cst_rules] = cst_names_calm [THEN eats_calm] cst_names_calm [THEN eats_calm, THEN eats_last]

lemma cst_bound_list_calm: "calm x a K h cst_bound_list"
  unfolding cst_bound_list_def by (rule calm_any) (intro cst_rules; simp)

lemmas cst_bound_list_rules [cst_rules] =
  cst_bound_list_calm [THEN eats_calm] cst_bound_list_calm [THEN eats_calm, THEN eats_last]

lemma cst_generic_param_calm: "calm x a K h cst_generic_param"
  unfolding cst_generic_param_def by (rule calm_any) (intro cst_rules; simp)

lemma cst_where_predicate_calm: "calm x a K h cst_where_predicate"
  unfolding cst_where_predicate_def by (rule calm_any) (intro cst_rules; simp)

lemma use_leaf_calm: "calm x a K h use_leaf"
  unfolding use_leaf_def by (rule calm_any) (intro cst_rules; simp)

lemma cst_opt_generics_calm: "calm x a K h cst_opt_generics"
  unfolding cst_opt_generics_def
  by (rule calm_any) (intro cst_rules cst_generic_param_calm; simp)

lemma cst_opt_where_calm: "calm x a K h cst_opt_where"
  unfolding cst_opt_where_def
  by (rule calm_any) (intro cst_rules cst_where_predicate_calm; simp)

lemma cst_receiver_calm: "calm x a K h cst_receiver"
  unfolding cst_receiver_def by (rule calm_any) (intro cst_rules; simp)

lemma use_path_calm: "calm x a K h use_path"
  unfolding use_path_def by (rule calm_any) (intro cst_rules use_leaf_calm; simp)

lemmas cst_leaf_calm = cst_opt_generics_calm cst_opt_where_calm cst_receiver_calm use_path_calm use_leaf_calm

lemmas cst_leaf_rules [cst_rules] = cst_leaf_calm [THEN eats_calm] cst_leaf_calm [THEN eats_calm, THEN eats_last]

lemma use_decl_calm: "calm x a (Cp cp # K) h (use_decl cp)"
  unfolding use_decl_def by (rule calm_any) (intro cst_rules; simp)

lemma lua_stmt_calm: "calm x a K h lua_stmt"
  unfolding lua_stmt_def by (rule calm_any) (intro cst_rules; simp)

lemma continue_stmt_calm: "calm x a K h continue_stmt"
  unfolding continue_stmt_def by (rule calm_any) (intro cst_rules; simp)

lemma eats_at_attribute [cst_rules]:
  assumes "\<And>k b. (b \<longrightarrow> k = Hash) \<Longrightarrow> eats x a K (Some k) E (f b)"
  shows "eats x a K None E (cbind cst_at_attribute f)"
  unfolding cst_at_attribute_def kind_at_def by (intro cst_rules assms) simp

section \<open>The methods the grammar re-enters\<close>

locale cst_calls =
  fixes x :: cst_source and n :: nat and g :: CstGrammar
  assumes ty: "6 * a < n \<Longrightarrow> calm x a K h (g_ty g)"
    and block: "6 * a + 4 < n \<Longrightarrow> calm x a K h (g_block g)"
    and block_here: "6 * a < n \<Longrightarrow> k = LBrace \<Longrightarrow> calm x a K (Some k) (g_block g)"
    and expr: "6 * a + 3 < n \<Longrightarrow> calm x a K h (g_expr g)"
    and bin: "6 * a + 2 < n \<Longrightarrow> calm x a K h (g_bin g bp)"
    and unary: "6 * a + 1 < n \<Longrightarrow> calm x a K h (g_unary g)"
    and pattern: "6 * a + 1 < n \<Longrightarrow> calm x a K h (g_pattern g)"
    and pattern_literal: "6 * a < n \<Longrightarrow> calm x a K h (g_pattern_literal g)"
    and if_here: "6 * a < n \<Longrightarrow> k = KwIf \<Longrightarrow> calm x a K (Some k) (g_if g)"
    and meta_item: "6 * a < n \<Longrightarrow> calm x a K h (g_meta_item g)"
    and meta_value: "6 * a < n \<Longrightarrow> calm x a K h (g_meta_value g)"
begin

lemmas calls [cst_rules] =
  ty ty [THEN eats_calm] ty [THEN eats_calm, THEN eats_last]
  expr expr [THEN eats_calm] expr [THEN eats_calm, THEN eats_last]
  bin [THEN eats_calm] bin [THEN eats_calm, THEN eats_last]
  unary [THEN eats_calm] unary [THEN eats_calm, THEN eats_last]
  pattern pattern [THEN eats_calm] pattern [THEN eats_calm, THEN eats_last]
  pattern_literal [THEN eats_calm] pattern_literal [THEN eats_calm, THEN eats_last]
  meta_item meta_item [THEN eats_calm] meta_item [THEN eats_calm, THEN eats_last]
  meta_value meta_value [THEN eats_calm] meta_value [THEN eats_calm, THEN eats_last]
  block [THEN eats_calm] block [THEN eats_calm, THEN eats_last]
  if_here [THEN eats_calm, THEN eats_last]

text \<open>Attributes.\<close>

lemma meta_item_calm: "6 * a \<le> n \<Longrightarrow> calm x a K h (cst_meta_item g)"
  unfolding cst_meta_item_def cst_meta_rest_def by (rule calm_any) (intro cst_rules; simp)

lemma meta_value_calm: "6 * a \<le> n \<Longrightarrow> calm x a K h (cst_meta_value g)"
  unfolding cst_meta_value_def by (rule calm_any) (intro cst_rules; simp)

lemma eats_attributes [cst_rules]:
  assumes "6 * a \<le> n" and "\<And>a'. a' \<le> a \<Longrightarrow> eats x a' K None E (f ())"
  shows "eats x a K h E (cbind (cst_outer_attributes g) f)"
  unfolding cst_outer_attributes_def cst_attribute_def
  using assms(1) by (intro cst_rules assms(2)) auto

text \<open>Types.\<close>

lemma ty_calm: "6 * a \<le> n \<Longrightarrow> calm x a K h (cst_ty g)"
  unfolding cst_ty_def cst_ty_at_def cst_fn_type_def cst_path_type_def cst_type_args_def
  by (rule calm_any) (intro cst_rules; simp)

text \<open>Patterns.\<close>

lemma pattern_literal_calm: "6 * a \<le> n \<Longrightarrow> calm x a K h (cst_pattern_literal g)"
  unfolding cst_pattern_literal_def by (rule calm_any) (intro cst_rules; simp)

lemma pattern_calm: "6 * a + 1 \<le> n \<Longrightarrow> calm x a K h (cst_pattern g)"
  unfolding cst_pattern_def cst_pattern_inner_def cst_literal_pattern_def cst_pattern_suffix_def
    cst_field_patterns_def cst_field_pattern_def literal_kind_def
  by (rule calm_any) (intro cst_rules; simp)

text \<open>Expressions.\<close>

lemma expr_calm: "6 * a + 3 \<le> n \<Longrightarrow> calm x a K h (cst_expr g)"
  unfolding cst_expr_def assign_kind_def by (rule calm_any) (intro cst_rules; auto)

lemma infix_not_Eof [simp]: "infix_bp Eof = None"
  by (simp add: infix_bp_def infix_table_def)

lemma eats_case_option [cst_rules]:
  assumes "r = None \<Longrightarrow> eats x a K h E m" and "\<And>y. r = Some y \<Longrightarrow> eats x a K h E (f y)"
  shows "eats x a K h E (case r of None \<Rightarrow> m | Some y \<Rightarrow> f y)"
  using assms by (simp split: option.split)

lemma bin_calm: "6 * a + 2 \<le> n \<Longrightarrow> calm x a K h (cst_bin g bp)"
  unfolding cst_bin_def cst_operator_def by (rule calm_any) (intro cst_rules; auto)

text \<open>What stands between brackets, and the parts of calls and literals.\<close>

lemma allow_struct_expr_calm: "6 * a + 3 < n \<Longrightarrow> calm x a K h (allow_struct_expr g)"
  unfolding allow_struct_expr_def by (intro cst_rules; simp)

lemma cond_expr_calm: "6 * a + 3 < n \<Longrightarrow> calm x a K h (cond_expr g)"
  unfolding cond_expr_def by (intro cst_rules; simp)

lemmas struct_flag_rules [cst_rules] =
  allow_struct_expr_calm allow_struct_expr_calm [THEN eats_calm] allow_struct_expr_calm [THEN eats_calm, THEN eats_last]
  cond_expr_calm cond_expr_calm [THEN eats_calm] cond_expr_calm [THEN eats_calm, THEN eats_last]

lemma eats_arg_list [cst_rules]:
  assumes "6 * a \<le> n" and "k = LParen" and "\<And>a'. a' < a \<Longrightarrow> eats x a' K None E (f ())"
  shows "eats x a K (Some k) E (cbind (cst_arg_list g) f)"
  unfolding cst_arg_list_def using assms(1,2) by (intro cst_rules assms(3); simp)

lemma eats_closure_params [cst_rules]:
  assumes "6 * a \<le> n" and "k = Pipe \<or> k = OrOr" and "\<And>a'. a' < a \<Longrightarrow> eats x a' K None E (f ())"
  shows "eats x a K (Some k) E (cbind (cst_closure_params g) f)"
  unfolding cst_closure_params_def cst_closure_param_def
  using assms(1,2) by (intro cst_rules assms(3); auto)

lemma type_args_calm: "6 * a \<le> n \<Longrightarrow> k = LtTok \<Longrightarrow> calm x a K (Some k) (cst_type_args g)"
  unfolding cst_type_args_def by (intro cst_rules; simp)

lemmas type_args_rules [cst_rules] = type_args_calm type_args_calm [THEN eats_calm]

lemma turbofish_calm: "6 * a \<le> n \<Longrightarrow> calm x a K None (cst_turbofish g)"
  unfolding cst_turbofish_def by (intro cst_rules; simp)

lemmas turbofish_rules [cst_rules] = turbofish_calm [THEN eats_calm]

lemma eats_member [cst_rules]:
  assumes "6 * a \<le> n" and "k \<noteq> Eof" and "\<And>a'. a' < a \<Longrightarrow> eats x a' (Cp cp # K) None E (f ())"
  shows "eats x a (Cp cp # K) (Some k) E (cbind (cst_member g cp) f)"
  unfolding cst_member_def using assms(1,2) by (intro cst_rules assms(3) eats_some [OF assms(3)]; simp)

lemma suffix_calm: "6 * a \<le> n \<Longrightarrow> eats x a (Cp cp # K) None (goes_on a) (cst_suffix g cp)"
  unfolding cst_suffix_def by (intro cst_rules; auto)

lemma closure_expr_calm: "6 * a \<le> n \<Longrightarrow> k = Pipe \<or> k = OrOr \<Longrightarrow> calm x a K (Some k) (closure_expr g)"
  unfolding closure_expr_def by (intro cst_rules; simp)

lemma path_expr_calm: "6 * a \<le> n \<Longrightarrow> k = Ident \<or> k = KwSelf \<Longrightarrow> calm x a K (Some k) (cst_path_expr g)"
  unfolding cst_path_expr_def struct_lit_fields_def cst_field_init_def
  by (intro cst_rules; auto)

lemma map_expr_calm: "6 * a \<le> n \<Longrightarrow> k = Hash \<Longrightarrow> calm x a K (Some k) (map_expr g)"
  unfolding map_expr_def cst_map_entry_def by (intro cst_rules; simp)

lemma loop_stmt_calm: "6 * a \<le> n \<Longrightarrow> k = KwLoop \<Longrightarrow> calm x a K (Some k) (loop_stmt g)"
  unfolding loop_stmt_def by (intro cst_rules; simp)

lemma match_expr_calm: "6 * a \<le> n \<Longrightarrow> k = KwMatch \<Longrightarrow> calm x a K (Some k) (match_expr g)"
  unfolding match_expr_def cst_match_arm_def by (intro cst_rules; simp)

lemma condition_calm: "6 * a + 3 < n \<Longrightarrow> calm x a K None (cst_condition g)"
  unfolding cst_condition_def by (intro cst_rules; simp)

lemmas condition_rules [cst_rules] = condition_calm [THEN eats_calm]

lemma if_expr_calm: "6 * a \<le> n \<Longrightarrow> k = KwIf \<Longrightarrow> calm x a K (Some k) (if_expr g)"
  unfolding if_expr_def else_branch_def by (intro cst_rules; simp)

lemma primary_calm: "6 * a < n \<Longrightarrow> calm x a K h (cst_primary g)"
  unfolding cst_primary_def primary_expr_def literal_kind_def
  by (rule calm_any) (intro cst_rules closure_expr_calm path_expr_calm
      block_here map_expr_calm loop_stmt_calm match_expr_calm; auto)

lemma unary_calm: "6 * a + 1 \<le> n \<Longrightarrow> calm x a K h (cst_unary g)"
  unfolding cst_unary_def cst_postfix_def
  by (rule calm_any) (intro cst_rules primary_calm [THEN eats_calm] suffix_calm; auto)

text \<open>Statements and blocks.\<close>

lemma operand_calm: "6 * a + 3 < n \<Longrightarrow> calm x a K None (cst_operand g)"
  unfolding cst_operand_def by (intro cst_rules; simp)

lemmas operand_rules [cst_rules] = operand_calm [THEN eats_calm]

lemma statement_calm: "6 * a + 3 < n \<Longrightarrow> calm x a K h (cst_statement g)"
  unfolding cst_statement_def let_stmt_def return_stmt_def while_stmt_def for_stmt_def
    break_stmt_def expr_stmt_def
  by (rule calm_any) (intro cst_rules lua_stmt_calm continue_stmt_calm; simp)

lemma eats_block_body [cst_rules]:
  assumes "6 * a + 3 < n" and "\<And>a'. a' \<le> a \<Longrightarrow> eats x a' K None E (f ())"
  shows "eats x a K None E (cbind (block_body g) f)"
  unfolding block_body_def using assms(1) by (intro cst_rules statement_calm assms(2); simp)

lemma block_calm: "6 * a + 4 \<le> n \<Longrightarrow> calm x a K h (cst_block g)"
  unfolding cst_block_def by (rule calm_any) (intro cst_rules eats_block_body [THEN eats_last]; simp)

lemma block_here_calm: "6 * a \<le> n \<Longrightarrow> k = LBrace \<Longrightarrow> calm x a K (Some k) (cst_block g)"
  unfolding cst_block_def by (intro cst_rules eats_block_body [THEN eats_last]; simp)

text \<open>Items.\<close>

lemma param_calm: "6 * a < n \<Longrightarrow> calm x a K h (cst_param g)"
  unfolding cst_param_def by (rule calm_any) (intro cst_rules; simp)

lemma annotation_decl_calm: "6 * a < n \<Longrightarrow> calm x a (Cp cp # K) h (annotation_decl g cp)"
  unfolding annotation_decl_def by (rule calm_any) (intro cst_rules param_calm; simp)

lemma fn_sig_calm: "6 * a < n \<Longrightarrow> calm x a K h (cst_fn_sig g)"
  unfolding cst_fn_sig_def by (rule calm_any) (intro cst_rules param_calm; simp)

lemmas fn_sig_rules [cst_rules] = fn_sig_calm [THEN eats_calm]

lemma field_list_calm: "6 * a < n \<Longrightarrow> calm x a K h (field_list g)"
  unfolding field_list_def field_decl_def by (rule calm_any) (intro cst_rules; simp)

lemmas field_list_rules [cst_rules] = field_list_calm [THEN eats_calm] field_list_calm [THEN eats_calm, THEN eats_last]

lemma struct_decl_calm: "6 * a < n \<Longrightarrow> calm x a (Cp cp # K) h (struct_decl g cp)"
  unfolding struct_decl_def by (rule calm_any) (intro cst_rules; simp)

lemma enum_decl_calm: "6 * a < n \<Longrightarrow> calm x a (Cp cp # K) h (enum_decl g cp)"
  unfolding enum_decl_def variant_list_def enum_variant_def
  by (rule calm_any) (intro cst_rules; simp)

lemma trait_decl_calm: "6 * a + 4 < n \<Longrightarrow> calm x a (Cp cp # K) h (trait_decl g cp)"
  unfolding trait_decl_def trait_method_def by (rule calm_any) (intro cst_rules; simp)

lemma impl_decl_calm: "6 * a + 4 < n \<Longrightarrow> calm x a (Cp cp # K) h (impl_decl g cp)"
  unfolding impl_decl_def impl_method_def by (rule calm_any) (intro cst_rules; simp)

lemma extern_block_calm: "6 * a < n \<Longrightarrow> calm x a (Cp cp # K) h (extern_block g cp)"
  unfolding extern_block_def extern_fn_def extern_params_def
  by (rule calm_any) (intro cst_rules param_calm; simp)

lemmas decl_calm = struct_decl_calm enum_decl_calm trait_decl_calm impl_decl_calm extern_block_calm use_decl_calm

lemma item_calm: "6 * a + 4 < n \<Longrightarrow> calm x a K h (cst_item g)"
  unfolding cst_item_def item_at_def
  by (rule calm_any) (intro cst_rules annotation_decl_calm [THEN eats_calm] decl_calm [THEN eats_calm]; simp)

lemma scope_entry_calm: "6 * a + 4 < n \<Longrightarrow> calm x a K h (scope_entry g)"
  unfolding scope_entry_def by (rule calm_any) (intro cst_rules item_calm statement_calm; simp)

end

end
