(* ===== verification/Cst_Total.thy ===== *)
theory Cst_Total
  imports Cst_Calls Tokenize_Props
begin

text \<open>
  What the lossless parser guarantees for a whole file. The contracts of \<open>Cst_Calls\<close> hold for the
  grammar at every fuel, and six units of fuel per token are enough.
\<close>

section \<open>The knot\<close>

lemma cst_knot:
  assumes "cst_calls x n g"
  shows "cst_calls x (Suc n)
    \<lparr>g_ty = cst_ty g, g_block = cst_block g, g_expr = cst_expr g, g_bin = cst_bin g,
     g_unary = cst_unary g, g_pattern = cst_pattern g, g_pattern_literal = cst_pattern_literal g,
     g_if = if_expr g, g_meta_item = cst_meta_item g, g_meta_value = cst_meta_value g\<rparr>"
proof -
  note calm = cst_calls.ty_calm cst_calls.block_calm cst_calls.block_here_calm cst_calls.expr_calm
    cst_calls.bin_calm cst_calls.unary_calm cst_calls.pattern_calm cst_calls.pattern_literal_calm
    cst_calls.if_expr_calm cst_calls.meta_item_calm cst_calls.meta_value_calm
  show ?thesis
    by unfold_locales (simp_all add: calm [OF assms])
qed

lemma cst_calls_parsers: "cst_calls x n (cst_parsers n)"
proof (induction n)
  case 0
  show ?case by unfold_locales simp_all
next
  case (Suc n)
  from cst_knot [OF this] show ?case by (simp add: Let_def)
qed

interpretation cst: cst_calls x n "cst_parsers n" for x n
  by (rule cst_calls_parsers)

section \<open>The tokens of the lexer\<close>

lemma cst_token_end:
  "unat (range_start (tok_range t)) < unat (range_end (tok_range t))
   \<Longrightarrow> ct_start (cst_token t) + ct_len (cst_token t) = unat (range_end (tok_range t))"
  by (simp add: cst_token_def range_len_nat word_le_nat_alt)

definition cst_tokens_from :: "bytes \<Rightarrow> nat \<Rightarrow> CstToken list \<Rightarrow> bool" where
  "cst_tokens_from s i toks \<longleftrightarrow>
     (\<forall>m < length toks.
        ct_kind (toks ! m) \<noteq> Eof \<and> ct_start (toks ! m) = i + sum_list (map ct_len (take m toks))
        \<and> is_char_boundary s (i + sum_list (map ct_len (take m toks)))
        \<and> is_char_boundary s (i + sum_list (map ct_len (take (Suc m) toks))))"

lemma cst_tokens_from_Cons:
  assumes "ct_kind t \<noteq> Eof" and "ct_start t = i" and "is_char_boundary s i"
    and "is_char_boundary s (i + ct_len t)" and "cst_tokens_from s (i + ct_len t) toks"
  shows "cst_tokens_from s i (t # toks)"
  unfolding cst_tokens_from_def
proof (intro allI impI)
  fix m assume "m < length (t # toks)"
  then show "ct_kind ((t # toks) ! m) \<noteq> Eof
      \<and> ct_start ((t # toks) ! m) = i + sum_list (map ct_len (take m (t # toks)))
      \<and> is_char_boundary s (i + sum_list (map ct_len (take m (t # toks))))
      \<and> is_char_boundary s (i + sum_list (map ct_len (take (Suc m) (t # toks))))"
    using assms by (cases m) (simp_all add: cst_tokens_from_def add.assoc)
qed

lemma lexes_tokens:
  "lexes s i ts j \<Longrightarrow>
     i + sum_list (map ct_len (map cst_token ts)) = j \<and> cst_tokens_from s i (map cst_token ts)"
proof (induction ts arbitrary: i)
  case (Cons t ts)
  let ?e = "unat (range_end (tok_range t))"
  have step: "unat (range_start (tok_range t)) = i" "i < ?e" "is_char_boundary s i" "is_char_boundary s ?e"
      "tok_kind t \<noteq> Eof" "lexes s ?e ts j"
    using Cons.prems by (auto dest: lex_step_not_Eof)
  have t: "ct_kind (cst_token t) \<noteq> Eof" "ct_start (cst_token t) = i" "i + ct_len (cst_token t) = ?e"
    using step cst_token_end [of t] by (simp_all add: cst_token_def)
  with step Cons.IH [OF step(6)] have "cst_tokens_from s i (cst_token t # map cst_token ts)"
    by (intro cst_tokens_from_Cons) simp_all
  with t(3) Cons.IH [OF step(6)] show ?case by simp
qed (simp add: cst_tokens_from_def)

lemma lexer_source:
  assumes "utf8 s" and "length s < 2 ^ 31 - 1"
  obtains ts where "lex s = Return ts" and "tiles s 0 ts (length s)"
    and "wf_source \<lparr>gs_text = s, gs_tokens = map cst_token ts\<rparr>"
proof -
  have "length s < 2 ^ 32" using assms(2) by simp
  with assms(1) obtain ts where ts: "lex s = Return ts" "lexes s 0 ts (length s)"
    by (rule lex_run_steps)
  note tiled = lexes_tiles [OF ts(2)]
  have "length ts < 2 ^ 31 - 1" using tiles_length [OF tiled] assms(2) by simp
  with lexes_tokens [OF ts(2)] have "wf_source \<lparr>gs_text = s, gs_tokens = map cst_token ts\<rparr>"
    by (simp add: wf_source_def offset_of_def cst_tokens_from_def)
  with ts(1) tiled that show thesis by blast
qed

lemma tiles_ordered:
  "tiles s i ts j \<Longrightarrow> t \<in> set ts \<Longrightarrow> unat (range_start (tok_range t)) < unat (range_end (tok_range t))"
  by (induction ts arbitrary: i) auto

section \<open>A whole file\<close>

lemma until_eof_stops:
  assumes "cst_loop n (\<lambda>u. cbind (cbind current_kind (\<lambda>k. if k = Eof then cret False
      else cbind m (\<lambda>_. cret True))) (\<lambda>again. cret (u, again))) () s = CstDone () s'"
  shows "nth_kind s' 0 = Eof"
  using assms
proof (induction n arbitrary: s)
  case (Suc n)
  show ?case
  proof (cases "nth_kind s 0 = Eof")
    case False
    with Suc.prems Suc.IH show ?thesis
      by (auto simp: cbind_def cret_def current_kind_def kind_at_def cget_def split: cst_reply.splits)
  qed (use Suc.prems in \<open>simp add: cbind_def cret_def current_kind_def kind_at_def cget_def\<close>)
qed simp

text \<open>The loop over the entries of the file, under the root node.\<close>

definition file_loop :: "CstGrammar \<Rightarrow> unit cst" where
  "file_loop g = repeat_cst (cbind current_kind (\<lambda>k.
     if k = Eof then cret False
     else cbind (in_order [eat_trivia, recovering (scope_entry g)]) (\<lambda>_. cret True)))"

lemma file_loop_calm:
  assumes "6 * a + 4 < n"
  shows "calm x a K None (file_loop (cst_parsers n))"
  unfolding file_loop_def using assms by (intro cst_rules cst.scope_entry_calm; simp)

lemma file_loop_run:
  assumes "wf_source x" and "cst_at x a K None s" and "6 * a + 4 < n"
  obtains s' where "file_loop (cst_parsers n) s = CstDone () s'" and "cst_at x a K None s'"
    and "nth_kind s' 0 = Eof"
proof -
  obtain v s' a' where run: "file_loop (cst_parsers n) s = CstDone v s'" "a' \<le> a" "cst_at x a' K None s'"
    using file_loop_calm [OF assms(3)] assms(1,2) by (rule eatsE)
  then have "nth_kind s' 0 = Eof"
    by (cases v) (simp only: file_loop_def repeat_cst_def repeat_with_def until_eof_stops)
  moreover have "cst_at x a K None s'" using run(2,3) by (auto simp: cst_at_def)
  ultimately show thesis using that run(1) by (cases v) auto
qed

lemma source_file_run:
  assumes "wf_source x" and "6 * length (gs_tokens x) + 4 < n"
    and init: "c_src s = gs_text x" "c_tokens s = gs_tokens x" "c_pos s = 0" "c_calls s = []"
      "c_errors s = lexical_errors (gs_tokens x)"
  obtains s' where "source_file (cst_parsers n) s = CstDone () s'" and "well_built (c_calls s')"
    and "tree_leaves (c_calls s') = map (leaf (gs_text x)) (gs_tokens x)"
    and "errors_ok x s'"
proof -
  let ?a = "length (gs_tokens x)" and ?K = "[Base 0]"
  let ?s0 = "s\<lparr>c_calls := [StartNode (Node NSourceFile)]\<rparr>"
  have "replay [StartNode (Node NSourceFile)] = Some ([0], [1, 0])"
    by (simp add: replay_def)
  then have "marks_ok ?K [StartNode (Node NSourceFile)]" by (simp add: marks_ok_def)
  then have "cst_at x ?a ?K None ?s0" using init by (simp add: cst_at_def tree_leaves_def errors_ok_def rooted_def)
  with assms(1) obtain s1 where s1: "file_loop (cst_parsers n) ?s0 = CstDone () s1"
      "cst_at x ?a ?K None s1" "nth_kind s1 0 = Eof"
    using assms(2) by (rule file_loop_run)
  obtain s2 where s2: "eat_trivia s1 = CstDone () s2" "cst_at x ?a ?K None s2" "nth_kind s2 0 = nth_kind s1 0"
      "\<not> (c_pos s2 < length (c_tokens s2) \<and> is_trivia (ct_kind (c_tokens s2 ! c_pos s2)))"
    using assms(1) s1(2) by (rule eat_trivia_run)
  have at2: "c_tokens s2 = gs_tokens x" "c_pos s2 \<le> ?a" "marks_ok ?K (c_calls s2)" "rooted (c_calls s2)"
      "tree_leaves (c_calls s2) = map (leaf (gs_text x)) (take (c_pos s2) (gs_tokens x))"
      "errors_ok x s2"
    using s2(2) by (simp_all add: cst_at_def)
  have "c_pos s2 = ?a"
    using nth_kind_here [OF s2(4)] s1(3) s2(3) at2(1,2) assms(1)
    by (auto simp: wf_source_def split: if_splits)
  let ?s = "s2\<lparr>c_calls := c_calls s2 @ [FinishNode]\<rparr>"
  obtain live where "replay (c_calls s2) = Some ([0], live)" using at2(3) by (auto simp: marks_ok_def)
  then have "well_built (c_calls ?s)" using at2(4) by (simp add: well_built_def replay_snoc)
  moreover have "source_file (cst_parsers n) s = CstDone () ?s"
    using s1(1) s2(1) init(4)
    by (simp add: source_file_def in_node_def file_loop_def record_call_def cbind_def cret_def)
  moreover have "tree_leaves (c_calls ?s) = map (leaf (gs_text x)) (gs_tokens x)"
    using at2(5) \<open>c_pos s2 = ?a\<close> by simp
  ultimately show thesis using that [of ?s] errors_ok_mono [OF at2(6), of ?s] by simp
qed

lemma lexical_errors_sorted:
  assumes "wf_source x"
  shows "sorted (map ce_offset (lexical_errors (gs_tokens x)))"
proof -
  have "map ce_offset (lexical_errors toks) = map ct_start (filter (\<lambda>t. ct_error t \<noteq> None) toks)" for toks
    by (induction toks) (auto simp: lexical_errors_def split: option.splits)
  moreover have "sorted (map ct_start (gs_tokens x))"
    using assms by (simp add: sorted_iff_nth_mono wf_source_def offset_of_mono)
  ultimately show ?thesis by (simp add: sorted_filter)
qed

text \<open>The errors of a whole parse: those of the lexer, then those of the grammar.\<close>

lemma parse_source_file_run:
  assumes "utf8 s" and "length s < 2 ^ 31 - 1"
  obtains p ts more where "parse_source_file s = CstDone () p" and "lex s = Return ts"
    and "well_built (c_calls p)"
    and "tree_leaves (c_calls p) = map (\<lambda>t. (Tok (tok_kind t), token_text s t)) ts"
    and "tree_text (c_calls p) = s"
    and "c_errors p = lexical_errors (map cst_token ts) @ more"
    and "sorted (map ce_offset (lexical_errors (map cst_token ts)))" and "sorted (map ce_offset more)"
    and "\<forall>e \<in> set (c_errors p). is_char_boundary s (ce_offset e)"
proof -
  obtain ts where ts: "lex s = Return ts" "tiles s 0 ts (length s)"
    and wf: "wf_source \<lparr>gs_text = s, gs_tokens = map cst_token ts\<rparr>"
    using assms by (rule lexer_source)
  let ?x = "\<lparr>gs_text = s, gs_tokens = map cst_token ts\<rparr>"
  let ?p = "new_cst_parser s (map cst_token ts)"
  obtain p where p: "source_file (cst_parsers (6 * length ts + 6)) ?p = CstDone () p" "well_built (c_calls p)"
      "tree_leaves (c_calls p) = map (leaf s) (map cst_token ts)" "errors_ok ?x p"
    using source_file_run [OF wf, of "6 * length ts + 6" ?p] by (auto simp: new_cst_parser_def)
  have "leaf s (cst_token t) = (Tok (tok_kind t), token_text s t)" if "t \<in> set ts" for t
    using cst_token_end [OF tiles_ordered [OF ts(2) that]]
    by (simp add: leaf_def token_text_def) (simp add: cst_token_def)
  then have leaves: "tree_leaves (c_calls p) = map (\<lambda>t. (Tok (tok_kind t), token_text s t)) ts"
    using p(3) by simp
  then have spelled: "tree_text (c_calls p) = s"
    using tiles_text [OF ts(2)] by (simp add: tree_text_def comp_def)
  have run: "parse_source_file s = CstDone () p"
    using p(1) ts(1) by (simp add: parse_source_file_def cst_lex_def)
  have "\<forall>e \<in> set (lexical_errors (map cst_token ts)). is_char_boundary s (ce_offset e)"
    using wf by (auto simp: lexical_errors_def wf_source_def in_set_conv_nth split: option.splits)
  with p(4) obtain more where "c_errors p = lexical_errors (map cst_token ts) @ more"
      "sorted (map ce_offset more)" "\<forall>e \<in> set (c_errors p). is_char_boundary s (ce_offset e)"
    by (auto simp: errors_ok_def)
  with that run ts(1) p(2) leaves spelled lexical_errors_sorted [OF wf] show thesis by simp
qed

text \<open>
  C0. The lossless parser of the IDE is total and lossless. On every valid UTF-8 text below 2 GiB
  it returns without a panic or a loop; its calls of the tree builder keep the builder's rules
  (balanced nodes, tokens inside a node, live checkpoints of the innermost node) and build one
  root, the \<open>SourceFile\<close> the caller casts to; the leaves of the tree are exactly the tokens of
  the lexer with their texts, comments and malformed tokens included, so the tree spells the text.
\<close>

theorem parse_source_file_lossless:
  assumes "utf8 s" and "length s < 2 ^ 31 - 1"
  shows "\<exists>p ts. parse_source_file s = CstDone () p \<and> lex s = Return ts
    \<and> well_built (c_calls p)
    \<and> tree_leaves (c_calls p) = map (\<lambda>t. (Tok (tok_kind t), token_text s t)) ts
    \<and> tree_text (c_calls p) = s"
  using parse_source_file_run [OF assms] by metis

lemma parse_source_file_lossless_witness:
  "\<exists>p ts. parse_source_file ''fn ( 1'' = CstDone () p \<and> lex ''fn ( 1'' = Return ts
    \<and> well_built (c_calls p)
    \<and> tree_leaves (c_calls p) = map (\<lambda>t. (Tok (tok_kind t), token_text ''fn ( 1'' t)) ts
    \<and> tree_text (c_calls p) = ''fn ( 1''"
  by (rule parse_source_file_lossless) (simp_all add: is_ascii_def)

end
