(* ===== verification/Cst_Runs.thy ===== *)
theory Cst_Runs
  imports Cst_Total Parser_Eval
begin

text \<open>
  The order of the errors of the lossless parser, with a text worked out by the kernel whose errors
  are out of order, and the tables it shares with the compiler's parser.
\<close>

section \<open>A text whose errors are out of order\<close>

definition odd_text :: bytes where "odd_text = ''pub)pub@''"

definition odd_tokens :: "LexToken list" where
  "odd_tokens = [spot KwPub 0 3, spot RParen 3 4, spot KwPub 4 7, (spot Unknown 7 8)\<lparr>tok_error := Some UnknownCharacter\<rparr>]"

lemma odd_steps:
  "lex_step odd_text 0 = Return (KwPub, 3, None)"
  "lex_step odd_text 3 = Return (RParen, 4, None)"
  "lex_step odd_text 4 = Return (KwPub, 7, None)"
  "lex_step odd_text 7 = Return (Unknown, 8, Some UnknownCharacter)"
  unfolding odd_text_def by (code_simp)+

lemma odd_length: "length odd_text = 8"
  by (simp add: odd_text_def)

lemma odd_lexed: "lex odd_text = Return odd_tokens"
  using lex_loop_end [of odd_text]
  by (simp add: lex_def usize_max_def lex_with_limit_def lex_loop_go odd_steps odd_length odd_tokens_def spot_def)

definition odd_cst :: "CstToken list" where
  "odd_cst = [\<lparr>ct_kind = KwPub, ct_start = 0, ct_len = 3, ct_error = None\<rparr>,
     \<lparr>ct_kind = RParen, ct_start = 3, ct_len = 1, ct_error = None\<rparr>,
     \<lparr>ct_kind = KwPub, ct_start = 4, ct_len = 3, ct_error = None\<rparr>,
     \<lparr>ct_kind = Unknown, ct_start = 7, ct_len = 1, ct_error = Some UnknownCharacter\<rparr>]"

lemma odd_cst_lexed: "cst_lex odd_text = Return odd_cst"
  by (simp add: cst_lex_def odd_lexed odd_tokens_def spot_def cst_token_def odd_cst_def range_len_def)

definition odd_at :: "nat \<Rightarrow> TreeCall list \<Rightarrow> CstError list \<Rightarrow> CstParser" where
  "odd_at i calls errs = \<lparr>c_src = odd_text, c_tokens = odd_cst, c_pos = i, c_calls = calls, c_errors = errs, c_no_struct = False\<rparr>"

lemma odd_at_simps [simp]:
  "c_src (odd_at i calls errs) = odd_text" "c_tokens (odd_at i calls errs) = odd_cst"
  "c_pos (odd_at i calls errs) = i" "c_calls (odd_at i calls errs) = calls"
  "c_errors (odd_at i calls errs) = errs"
  "(odd_at i calls errs)\<lparr>c_pos := j\<rparr> = odd_at j calls errs"
  "(odd_at i calls errs)\<lparr>c_calls := calls'\<rparr> = odd_at i calls' errs"
  "(odd_at i calls errs)\<lparr>c_errors := errs'\<rparr> = odd_at i calls errs'"
  by (simp_all add: odd_at_def)

lemma odd_cst_nth:
  "length odd_cst = 4"
  "odd_cst ! 0 = \<lparr>ct_kind = KwPub, ct_start = 0, ct_len = 3, ct_error = None\<rparr>"
  "odd_cst ! 1 = \<lparr>ct_kind = RParen, ct_start = 3, ct_len = 1, ct_error = None\<rparr>"
  "odd_cst ! 2 = \<lparr>ct_kind = KwPub, ct_start = 4, ct_len = 3, ct_error = None\<rparr>"
  "odd_cst ! 3 = \<lparr>ct_kind = Unknown, ct_start = 7, ct_len = 1, ct_error = Some UnknownCharacter\<rparr>"
  by (simp_all add: odd_cst_def)

text \<open>Where no trivia stands at the cursor.\<close>

lemma eat_trivia_still:
  assumes "\<not> (c_pos s < length (c_tokens s) \<and> is_trivia (ct_kind (c_tokens s ! c_pos s)))"
  shows "eat_trivia s = CstDone () s"
  using assms by (auto simp: eat_trivia_def repeat_cst_def repeat_with_def cbind_def cget_def cret_def)

lemma odd_plain: "\<not> (i < length odd_cst \<and> is_trivia (ct_kind (odd_cst ! i)))"
proof -
  have "list_all (\<lambda>t. \<not> is_trivia (ct_kind t)) odd_cst" by (simp add: odd_cst_def is_trivia_def)
  then show ?thesis by (simp add: list_all_length)
qed

lemma odd_kind: "nth_kind (odd_at i c e) 0 = (if i < 4 then ct_kind (odd_cst ! i) else Eof)"
  using nth_kind_here [of "odd_at i c e"] odd_plain [of i] by (simp add: odd_cst_nth)

lemma odd_trivia: "eat_trivia (odd_at i c e) = CstDone () (odd_at i c e)"
  using eat_trivia_still [of "odd_at i c e"] odd_plain [of i] by simp

lemma odd_offset: "i < 4 \<Longrightarrow> current_offset (odd_at i c e) = ct_start (odd_cst ! i)"
proof -
  assume "i < 4"
  then have "drop i odd_cst = odd_cst ! i # drop (Suc i) odd_cst"
    by (simp add: Cons_nth_drop_Suc odd_cst_nth)
  then have "nth_token (odd_at i c e) 0 = Some i"
    using \<open>i < 4\<close> odd_plain [of i] by (simp add: nth_token_def odd_cst_nth)
  then show ?thesis by (simp add: current_offset_def)
qed

lemma odd_slice: "i < 4 \<Longrightarrow> \<exists>t. cst_slice (odd_at j c e) (odd_cst ! i) = Return t"
proof -
  assume "i < 4"
  have "list_all is_ascii odd_text" by (simp add: odd_text_def is_ascii_def)
  moreover have "list_all (\<lambda>t. ct_start t + ct_len t \<le> length odd_text) odd_cst"
    by (simp add: odd_cst_def odd_length)
  ultimately show ?thesis
    using \<open>i < 4\<close> ascii_boundary [of odd_text] by (auto simp: cst_slice_def str_slice_def list_all_length odd_cst_nth(1))
qed

lemma odd_bump: "i < 4 \<Longrightarrow> \<exists>c'. cst_bump (odd_at i c e) = CstDone () (odd_at (i + 1) c' e)"
  using odd_slice [of i i c e]
  by (auto simp: cst_bump_def odd_trivia cbind_def cget_def push_tok_def odd_cst_nth Let_def)

lemma odd_current: "current_kind (odd_at i c e) = CstDone (if i < 4 then ct_kind (odd_cst ! i) else Eof) (odd_at i c e)"
  by (simp add: current_kind_def kind_at_def cget_def odd_kind)

lemma odd_not_attribute:
  "i < 4 \<Longrightarrow> cst_at_attribute (odd_at i c e) = CstDone False (odd_at i c e)"
  "i < 4 \<Longrightarrow> cst_outer_attributes g (odd_at i c e) = CstDone () (odd_at i c e)"
  "i < 4 \<Longrightarrow> at_contextual w (odd_at i c e) = CstDone False (odd_at i c e)"
proof -
  assume i: "i < 4"
  have "list_all (\<lambda>t. ct_kind t \<noteq> Hash \<and> ct_kind t \<noteq> Ident) odd_cst" by (simp add: odd_cst_def)
  with i have k: "ct_kind (odd_cst ! i) \<noteq> Hash" "ct_kind (odd_cst ! i) \<noteq> Ident"
    by (simp_all add: list_all_length odd_cst_nth)
  then show a: "cst_at_attribute (odd_at i c e) = CstDone False (odd_at i c e)"
    using i by (simp add: cst_at_attribute_def cbind_def odd_current kind_at_def cget_def cret_def)
  then show "cst_outer_attributes g (odd_at i c e) = CstDone () (odd_at i c e)"
    by (simp add: cst_outer_attributes_def repeat_cst_def repeat_with_def cbind_def cret_def)
  show "at_contextual w (odd_at i c e) = CstDone False (odd_at i c e)"
    using k i by (simp add: at_contextual_def cbind_def odd_current cret_def)
qed

text \<open>An entry that starts with \<open>pub\<close> and then is no item: one error, two tokens skipped.\<close>

definition no_item_error :: "nat \<Rightarrow> CstError" where
  "no_item_error offset = \<lparr>ce_code = ParseExpectedItem,
     ce_message = ''expected item (annotation/fn/struct/enum/impl/trait/extern/use)'', ce_offset = offset\<rparr>"

lemma odd_item:
  assumes "i = 0 \<and> j = 1 \<and> l = 2 \<or> i = 2 \<and> j = 3 \<and> l = 4"
  shows "\<exists>c'. cst_item g (odd_at i c e) = CstDone () (odd_at l c' (e @ [no_item_error (ct_start (odd_cst ! j))]))"
proof -
  let ?e = "e @ [no_item_error (ct_start (odd_cst ! j))]"
  have i: "i < 4" "j < 4" "j = i + 1" "l = j + 1" using assms by auto
  obtain c1 where b1: "cst_bump (odd_at i c e) = CstDone () (odd_at j c1 e)"
    using odd_bump [OF i(1)] i(3) by metis
  obtain c2 where b2: "cst_bump (odd_at j (c1 @ [StartNode (Node NErrorNode)]) ?e) = CstDone () (odd_at l c2 ?e)"
    using odd_bump [OF i(2)] i(4) by metis
  have k: "ct_kind (odd_cst ! i) = KwPub" "ct_kind (odd_cst ! j) = RParen \<or> ct_kind (odd_cst ! j) = Unknown"
    using assms by (auto simp: odd_cst_nth simp del: One_nat_def)
  have pub: "may_accept KwPub (odd_at i c e) = CstDone () (odd_at j c1 e)"
    using i(1) b1 k(1) by (simp add: may_accept_def cst_accept_def cbind_def odd_current cret_def)
  have bump: "error_bump (odd_at j c1 ?e) = CstDone () (odd_at l (c2 @ [FinishNode]) ?e)"
    using i(2) b2 k(2) by (auto simp: error_bump_def in_node_def cbind_def odd_current cret_def record_call_def)
  have err: "error_with_code ParseExpectedItem ''expected item (annotation/fn/struct/enum/impl/trait/extern/use)''
      (odd_at j c1 e) = CstDone () (odd_at j c1 ?e)"
    using i(2) by (simp add: error_with_code_def odd_offset no_item_error_def)
  have "item_at g cp k (odd_at j c1 e) = CstDone () (odd_at l (c2 @ [FinishNode]) ?e)"
    if "k = RParen \<or> k = Unknown" for cp k
    using that by (elim disjE) (simp_all add: item_at_def cbind_def err bump cret_def)
  then have "cst_item g (odd_at i c e) = CstDone () (odd_at l (c2 @ [FinishNode]) ?e)"
    using i(2) k(2) i(1) by (simp add: cst_item_def cbind_def checkpoint_def cget_def odd_not_attribute pub odd_current cret_def)
  then show ?thesis by blast
qed

lemma odd_entry:
  assumes "i = 0 \<and> j = 1 \<and> l = 2 \<or> i = 2 \<and> j = 3 \<and> l = 4"
  shows "\<exists>c'. cbind (in_order [eat_trivia, recovering (scope_entry g)]) (\<lambda>_. cret True) (odd_at i c e)
    = CstDone True (odd_at l c' (e @ [no_item_error (ct_start (odd_cst ! j))]))"
proof -
  have i: "i < 4" "ct_kind (odd_cst ! i) = KwPub" using assms by (auto simp: odd_cst_nth simp del: One_nat_def)
  then have "scope_entry g (odd_at i c e) = cst_item g (odd_at i c e)"
    by (simp add: scope_entry_def cbind_def odd_not_attribute odd_current item_start_kind_def)
  moreover obtain c' where "cst_item g (odd_at i c e)
      = CstDone () (odd_at l c' (e @ [no_item_error (ct_start (odd_cst ! j))]))"
    using odd_item [OF assms] by blast
  moreover have "l \<noteq> i" using assms by auto
  ultimately have "cbind (in_order [eat_trivia, recovering (scope_entry g)]) (\<lambda>_. cret True) (odd_at i c e)
    = CstDone True (odd_at l c' (e @ [no_item_error (ct_start (odd_cst ! j))]))"
    by (simp add: recovering_def cbind_def odd_trivia cget_def cret_def)
  then show ?thesis by blast
qed

lemma round_goes:
  "m s = CstDone True s' \<Longrightarrow> nth_kind s 0 \<noteq> Eof \<Longrightarrow>
   cbind (cbind current_kind (\<lambda>k. if k = Eof then cret False else m)) (\<lambda>again. cret (u, again)) s
     = CstDone (u, True) s'"
  by (simp add: cbind_def current_kind_def kind_at_def cget_def cret_def)

lemma loop_goes: "body acc s = CstDone (acc', True) s' \<Longrightarrow> cst_loop (Suc n) body acc s = cst_loop n body acc' s'"
  by (simp add: cbind_def)

lemma loop_stops: "body acc s = CstDone (acc', False) s' \<Longrightarrow> cst_loop (Suc n) body acc s = CstDone () s'"
  by (simp add: cbind_def cret_def)

lemma odd_ahead: "Suc (4 - 0) = Suc (Suc (Suc 2))"
  by simp

lemma odd_source_file:
  "\<exists>c'. source_file g (odd_at 0 [] e) = CstDone () (odd_at 4 c' (e @ [no_item_error 3, no_item_error 7]))"
proof -
  let ?c = "[StartNode (Node NSourceFile)]" and ?e = "e @ [no_item_error 3]"
  obtain c1 where s1: "cbind (in_order [eat_trivia, recovering (scope_entry g)]) (\<lambda>_. cret True) (odd_at 0 ?c e)
      = CstDone True (odd_at 2 c1 ?e)"
    using odd_entry [of 0 1 2 g ?c e] by (auto simp: odd_cst_nth simp del: One_nat_def in_order.simps)
  obtain c2 where s2: "cbind (in_order [eat_trivia, recovering (scope_entry g)]) (\<lambda>_. cret True) (odd_at 2 c1 ?e)
      = CstDone True (odd_at 4 c2 (?e @ [no_item_error 7]))"
    using odd_entry [of 2 3 4 g c1 ?e] by (auto simp: odd_cst_nth simp del: One_nat_def in_order.simps)
  let ?body = "\<lambda>u::unit. cbind (cbind current_kind (\<lambda>k. if k = Eof then cret False
      else cbind (in_order [eat_trivia, recovering (scope_entry g)]) (\<lambda>_. cret True))) (\<lambda>again. cret (u, again))"
  have b1: "?body () (odd_at 0 ?c e) = CstDone ((), True) (odd_at 2 c1 ?e)"
    by (rule round_goes, rule s1) (simp add: odd_kind odd_cst_nth)
  have b2: "?body () (odd_at 2 c1 ?e) = CstDone ((), True) (odd_at 4 c2 (?e @ [no_item_error 7]))"
    by (rule round_goes, rule s2) (simp add: odd_kind odd_cst_nth)
  have b3: "?body () (odd_at 4 c2 e') = CstDone ((), False) (odd_at 4 c2 e')" for e'
    by (simp add: cbind_def odd_current cret_def)
  have "file_loop g (odd_at 0 ?c e) = CstDone () (odd_at 4 c2 (?e @ [no_item_error 7]))"
    using b1 b2 b3 unfolding file_loop_def repeat_cst_def repeat_with_def
    by (simp only: odd_at_simps odd_cst_nth odd_ahead loop_goes loop_stops)
  moreover have "source_file g = in_node NSourceFile (in_order [file_loop g, eat_trivia])"
    by (simp only: source_file_def file_loop_def)
  ultimately have "source_file g (odd_at 0 [] e)
      = CstDone () (odd_at 4 (c2 @ [FinishNode]) (e @ [no_item_error 3, no_item_error 7]))"
    by (simp add: in_node_def record_call_def cbind_def odd_trivia cret_def)
  then show ?thesis by blast
qed

text \<open>The lexer's error comes first, although it is at the end of the text.\<close>

lemma odd_text_errors:
  "\<exists>p. parse_source_file odd_text = CstDone () p \<and> map ce_offset (c_errors p) = [7, 3, 7]"
proof -
  have start: "new_cst_parser odd_text odd_cst
      = odd_at 0 [] [\<lparr>ce_code = ParseUnexpectedToken, ce_message = ''unknown character'', ce_offset = 7\<rparr>]"
    by (simp add: new_cst_parser_def odd_at_def lexical_errors_def odd_cst_def)
  obtain c' where "source_file (cst_parsers (6 * length odd_cst + 6)) (new_cst_parser odd_text odd_cst)
      = CstDone () (odd_at 4 c' ([\<lparr>ce_code = ParseUnexpectedToken, ce_message = ''unknown character'', ce_offset = 7\<rparr>]
          @ [no_item_error 3, no_item_error 7]))"
    unfolding start using odd_source_file by blast
  then show ?thesis
    by (simp add: parse_source_file_def odd_cst_lexed no_item_error_def)
qed

section \<open>Properties\<close>

text \<open>
  C39. Where the errors of the lossless parser point, and in which order. The reported errors are
  those of the lexer, one per malformed token in the order of the text, followed by those of the
  grammar, in the order of the text again; every one is on a character boundary. The list as a
  whole need not be in the order of the text: in the witness the lexer's error comes first although
  it is the last one of the text.
\<close>

theorem parse_source_file_errors:
  assumes "utf8 s" and "length s < 2 ^ 31 - 1" and "parse_source_file s = CstDone () p"
  shows "\<exists>ts more. lex s = Return ts \<and> c_errors p = lexical_errors (map cst_token ts) @ more
    \<and> sorted (map ce_offset (lexical_errors (map cst_token ts))) \<and> sorted (map ce_offset more)
    \<and> list_all (\<lambda>e. is_char_boundary s (ce_offset e)) (c_errors p)"
  by (rule parse_source_file_run [OF assms(1,2)]) (use assms(3) in \<open>auto simp: list_all_iff\<close>)

lemma parse_source_file_errors_witness:
  "\<exists>p ts more. parse_source_file odd_text = CstDone () p
    \<and> lex odd_text = Return ts \<and> c_errors p = lexical_errors (map cst_token ts) @ more
    \<and> sorted (map ce_offset (lexical_errors (map cst_token ts))) \<and> sorted (map ce_offset more)
    \<and> list_all (\<lambda>e. is_char_boundary odd_text (ce_offset e)) (c_errors p)
    \<and> \<not> sorted (map ce_offset (c_errors p))"
proof -
  have valid: "utf8 odd_text" "length odd_text < 2 ^ 31 - 1"
    by (simp_all add: odd_text_def is_ascii_def)
  obtain p where p: "parse_source_file odd_text = CstDone () p" "map ce_offset (c_errors p) = [7, 3, 7]"
    using odd_text_errors by (elim exE conjE)
  then have "\<not> sorted (map ce_offset (c_errors p))" by simp
  with parse_source_file_errors [OF valid p(1)] p(1) show ?thesis by blast
qed

text \<open>
  C40. The IDE's grammar keeps its own copies of the tables of the compiler's parser, and they agree:
  the binding power of every binary operator and of ranges, the tokens that assign, and the
  diagnostic code of every lexical error; a token other than an identifier that the IDE spells in
  a message is spelled as the shared lexer spells it.
\<close>

theorem grammar_tables_agree:
  "infix_bp k = map_option snd (binop k) \<and> CST_RANGE_BP = RANGE_BP
   \<and> (assign_kind k \<longleftrightarrow> assignop k \<noteq> None) \<and> lexical_code e = lex_error_code e
   \<and> (user_str k = user_string k \<or> k = Ident \<or> user_str k = ''token'')"
proof (intro conjI)
  show "infix_bp k = map_option snd (binop k)"
    by (simp add: infix_bp_def infix_table_def binop_def binop_table_def)
  show "CST_RANGE_BP = RANGE_BP" by (simp add: CST_RANGE_BP_def RANGE_BP_def)
  show "assign_kind k \<longleftrightarrow> assignop k \<noteq> None" by (simp add: assign_kind_def assignop_def)
  show "lexical_code e = lex_error_code e" by (cases e) simp_all
  have "list_all (\<lambda>(t, w). w = user_string t \<or> t = Ident) user_str_table" by (simp add: user_str_table_def)
  then show "user_str k = user_string k \<or> k = Ident \<or> user_str k = ''token''"
    by (auto simp: user_str_def list_all_iff split: option.split dest!: map_of_SomeD)
qed

end
