(* ===== verification/Project.thy ===== *)
theory Project
  imports Cfg Strings "HOL-Library.Sublist"
begin

text \<open>
  The IO-free project model, \<open>crates/rua-common/src/project.rs\<close>: the configuration file's
  records and their resolution against a workspace root, logical source paths, the mapping of
  source files to module paths, source roots and module candidates. A \<open>Path\<close> is its UTF-8
  text, with the components \<open>std::path\<close> gives it on Unix; the TOML parser is outside the
  source, so resolution starts from the parsed records.
\<close>

section \<open>Paths of the standard library\<close>

datatype Component = RootDir | CurDir | ParentDir | Normal bytes

definition component_of :: "bytes \<Rightarrow> Component list" where
  "component_of part =
     (if part = [] \<or> part = ''.'' then [] else if part = ''..'' then [ParentDir] else [Normal part])"

text \<open>
  \<open>Path::components\<close>: repeated separators and inner \<open>.\<close> parts vanish, a leading
  \<open>.\<close> stays.
\<close>

definition components :: "bytes \<Rightarrow> Component list" where
  "components path =
     (let parts = split_char CHR ''/'' path in
      (if starts_with ''/'' path then [RootDir] else if hd parts = ''.'' then [CurDir] else [])
      @ concat (map component_of parts))"

definition is_absolute :: "bytes \<Rightarrow> bool" where
  "is_absolute path \<longleftrightarrow> starts_with ''/'' path"

definition path_eq :: "bytes \<Rightarrow> bytes \<Rightarrow> bool" where
  "path_eq p q \<longleftrightarrow> components p = components q"

definition path_join :: "bytes \<Rightarrow> bytes \<Rightarrow> bytes" where
  "path_join base path =
     (if is_absolute path then path
      else if base = [] \<or> ends_with ''/'' base then base @ path
      else base @ ''/'' @ path)"

definition file_name :: "bytes \<Rightarrow> bytes option" where
  "file_name path = (case rev (components path) of Normal name # _ \<Rightarrow> Some name | _ \<Rightarrow> None)"

text \<open>The name before and after its last dot; a leading dot does not count.\<close>

definition split_file_name :: "bytes \<Rightarrow> bytes \<times> bytes option" where
  "split_file_name name = (case rsplit_once CHR ''.'' name of
     Some (before, after) \<Rightarrow> if before = [] then (name, None) else (before, Some after)
   | None \<Rightarrow> (name, None))"

definition extension :: "bytes \<Rightarrow> bytes option" where
  "extension path = Option.bind (file_name path) (snd \<circ> split_file_name)"

definition file_stem :: "bytes \<Rightarrow> bytes option" where
  "file_stem path = map_option (fst \<circ> split_file_name) (file_name path)"

text \<open>The components of \<open>path.parent()\<close>: none when the path is empty or ends in the root.\<close>

definition parent_components :: "bytes \<Rightarrow> Component list option" where
  "parent_components path = (case rev (components path) of
     [] \<Rightarrow> None | RootDir # _ \<Rightarrow> None | _ # rest \<Rightarrow> Some (rev rest))"

section \<open>Configuration records\<close>

datatype CfgConfigValue = ConfigBool bool | ConfigString bytes | ConfigStrings "bytes list"

text \<open>A \<open>BTreeMap\<close> that is only iterated is its list of entries, in key order.\<close>

record BuildConfig =
  features :: "bytes list"
  build_cfg :: "(bytes \<times> CfgConfigValue) list"

record LuaLibraryConfig =
  lib_root :: "bytes option"
  lib_declaration_root :: "bytes option"
  lib_runtime_root :: "bytes option"

record WorkspaceConfig =
  library :: "bytes list"
  library_mounts :: "(bytes \<times> bytes) list"
  lua_library :: "LuaLibraryConfig list"

record RuntimeConfig =
  std_path :: "bytes option"
  lua_path :: "bytes list"

record ProjectConfig =
  workspace :: WorkspaceConfig
  runtime :: RuntimeConfig
  build :: BuildConfig

record ResolvedLuaLibrary =
  declaration_root :: bytes
  runtime_root :: bytes

record ResolvedProjectConfig =
  resolved_library :: "bytes list"
  resolved_mounts :: "bytes \<Rightarrow> bytes option"
  resolved_lua_library :: "ResolvedLuaLibrary list"
  resolved_std_path :: "bytes option"
  resolved_lua_path :: "bytes list"
  resolved_cfg :: CfgOptions

datatype ProjectConfigError = ProjectConfigError bytes

section \<open>Resolution\<close>

definition resolve_config_path :: "bytes \<Rightarrow> bytes \<Rightarrow> bytes" where
  "resolve_config_path workspace_root configured =
     (let expanded = replace_all ''{workspaceFolder}'' workspace_root
            (replace_all ''${workspaceFolder}'' workspace_root configured)
      in if is_absolute expanded then expanded else path_join workspace_root expanded)"

definition push_unique :: "bytes list \<Rightarrow> bytes \<Rightarrow> bytes list" where
  "push_unique paths path = (if list_ex (path_eq path) paths then paths else paths @ [path])"

definition validate_module_name :: "bytes \<Rightarrow> ProjectConfigError + unit" where
  "validate_module_name name =
     (case name of
        [] \<Rightarrow> Inl (ProjectConfigError (''invalid library mount module name `'' @ name @ ''`''))
      | c # rest \<Rightarrow>
          if (c = CHR ''_'' \<or> is_ascii_alphabetic c)
             \<and> list_all (\<lambda>c. c = CHR ''_'' \<or> is_ascii_alphanumeric c) rest
          then Inr ()
          else Inl (ProjectConfigError (''invalid library mount module name `'' @ name @ ''`'')))"

definition LuaLibraryConfig_resolve ::
    "bytes \<Rightarrow> LuaLibraryConfig \<Rightarrow> ProjectConfigError + ResolvedLuaLibrary" where
  "LuaLibraryConfig_resolve workspace_root lib =
     bind_result
       (case (lib_root lib, lib_declaration_root lib, lib_runtime_root lib) of
          (Some r, None, None) \<Rightarrow> Inr (r, r)
        | (None, Some d, Some r) \<Rightarrow> Inr (d, r)
        | (Some _, _, _) \<Rightarrow> Inl (ProjectConfigError
            ''workspace.lua_library.root cannot be combined with declaration_root or runtime_root'')
        | (None, None, None) \<Rightarrow> Inl (ProjectConfigError
            ''workspace.lua_library requires root or declaration_root/runtime_root'')
        | _ \<Rightarrow> Inl (ProjectConfigError
            ''workspace.lua_library requires both declaration_root and runtime_root''))
       (\<lambda>(d, r). Inr \<lparr>declaration_root = resolve_config_path workspace_root d,
                       runtime_root = resolve_config_path workspace_root r\<rparr>)"

fun resolve_mounts ::
    "bytes \<Rightarrow> (bytes \<times> bytes) list \<Rightarrow> (bytes \<Rightarrow> bytes option) \<Rightarrow>
     ProjectConfigError + (bytes \<Rightarrow> bytes option)" where
  "resolve_mounts root [] mounts = Inr mounts"
| "resolve_mounts root ((name, configured) # rest) mounts =
     bind_result (validate_module_name name)
       (\<lambda>_. resolve_mounts root rest (mounts(name \<mapsto> resolve_config_path root configured)))"

fun insert_config :: "CfgOptions \<Rightarrow> bytes \<times> CfgConfigValue \<Rightarrow> CfgOptions" where
  "insert_config cfg (key, ConfigBool True) = insert_flag key cfg"
| "insert_config cfg (key, ConfigBool False) = cfg"
| "insert_config cfg (key, ConfigString val) = insert_value key val cfg"
| "insert_config cfg (key, ConfigStrings vals) = foldl (\<lambda>cfg val. insert_value key val cfg) cfg vals"

definition build_options :: "BuildConfig \<Rightarrow> CfgOptions" where
  "build_options b =
     foldl insert_config (foldl (\<lambda>cfg f. insert_feature f cfg) CfgOptions_default (features b))
       (build_cfg b)"

definition ProjectConfig_resolve ::
    "ProjectConfig \<Rightarrow> bytes \<Rightarrow> ProjectConfigError + ResolvedProjectConfig" where
  "ProjectConfig_resolve config root =
     bind_result (resolve_mounts root (library_mounts (workspace config)) Map.empty) (\<lambda>mounts.
     bind_result (map_result (LuaLibraryConfig_resolve root) (lua_library (workspace config))) (\<lambda>libs.
     Inr \<lparr>resolved_library =
            foldl push_unique (map (resolve_config_path root) (library (workspace config)))
              (map declaration_root libs),
          resolved_mounts = mounts,
          resolved_lua_library = libs,
          resolved_std_path = map_option (resolve_config_path root) (std_path (runtime config)),
          resolved_lua_path =
            foldl push_unique (map (resolve_config_path root) (lua_path (runtime config)))
              (map runtime_root libs),
          resolved_cfg = build_options (build config)\<rparr>))"

section \<open>Logical paths\<close>

datatype LogicalSourcePath = LogicalSourcePath (path_str: bytes)

datatype InvalidLogicalPath = InvalidLogicalPath

text \<open>One part of the split path against the stack \<open>parts\<close>, kept in order.\<close>

definition walk_part :: "bytes list \<Rightarrow> bytes \<Rightarrow> InvalidLogicalPath + bytes list" where
  "walk_part parts part =
     (if part = [] \<or> part = ''.'' then Inr parts
      else if part = ''..'' then
        (if parts = [] then Inl InvalidLogicalPath else Inr (butlast parts))
      else Inr (parts @ [part]))"

fun walk :: "bytes list \<Rightarrow> bytes list \<Rightarrow> InvalidLogicalPath + bytes list" where
  "walk parts [] = Inr parts"
| "walk parts (part # rest) = bind_result (walk_part parts part) (\<lambda>parts'. walk parts' rest)"

definition LogicalSourcePath_new :: "bytes \<Rightarrow> InvalidLogicalPath + LogicalSourcePath" where
  "LogicalSourcePath_new path =
     bind_result (walk [] (split_char CHR ''/'' (replace_char backslash_char CHR ''/'' path)))
       (\<lambda>parts. Inr (LogicalSourcePath (join ''/'' parts)))"

definition LogicalSourcePath_parent :: "LogicalSourcePath \<Rightarrow> LogicalSourcePath option" where
  "LogicalSourcePath_parent p =
     map_option (\<lambda>(dir, _). LogicalSourcePath dir) (rsplit_once CHR ''/'' (path_str p))"

definition LogicalSourcePath_join ::
    "LogicalSourcePath \<Rightarrow> bytes \<Rightarrow> InvalidLogicalPath + LogicalSourcePath" where
  "LogicalSourcePath_join p child = LogicalSourcePath_new (path_str p @ ''/'' @ child)"

definition LogicalSourcePath_default :: LogicalSourcePath where
  "LogicalSourcePath_default = LogicalSourcePath []"

section \<open>Module files\<close>

datatype InvalidModuleFilePath = InvalidModuleFilePath bytes

text \<open>The loop over \<open>parent.components()\<close>.\<close>

fun parent_segments ::
    "bytes \<Rightarrow> Component list \<Rightarrow> InvalidModuleFilePath + bytes list" where
  "parent_segments relative [] = Inr []"
| "parent_segments relative (Normal segment # rest) =
     (case validate_module_name segment of
        Inl _ \<Rightarrow> Inl (InvalidModuleFilePath
                 (''invalid module path segment `'' @ segment @ ''` in '' @ relative))
      | Inr _ \<Rightarrow> bind_result (parent_segments relative rest) (\<lambda>segs. Inr (segment # segs)))"
| "parent_segments relative (_ # rest) =
     Inl (InvalidModuleFilePath (''module source path is not normalized: '' @ relative))"

definition stem_segments :: "bytes \<Rightarrow> bytes \<Rightarrow> InvalidModuleFilePath + bytes list" where
  "stem_segments relative stem =
     (if stem = ''mod'' then Inr []
      else case validate_module_name stem of
        Inl _ \<Rightarrow> Inl (InvalidModuleFilePath
                 (''invalid module filename `'' @ stem @ ''` in '' @ relative))
      | Inr _ \<Rightarrow> Inr [stem])"

definition module_path_from_relative_file ::
    "bytes \<Rightarrow> InvalidModuleFilePath + bytes list option" where
  "module_path_from_relative_file relative =
     (if extension relative \<noteq> Some ''rua'' \<and> extension relative \<noteq> Some ''ruai'' then Inr None
      else if is_absolute relative then
        Inl (InvalidModuleFilePath (''module source path must be relative: '' @ relative))
      else case file_stem relative of
        None \<Rightarrow> Inl (InvalidModuleFilePath
                 (''module source filename is not valid UTF-8: '' @ relative))
      | Some stem \<Rightarrow>
          bind_result (parent_segments relative
              (case parent_components relative of None \<Rightarrow> [] | Some cs \<Rightarrow> cs)) (\<lambda>segs.
          bind_result (stem_segments relative stem) (\<lambda>last_segs.
          Inr (Some (segs @ last_segs)))))"

section \<open>Source roots\<close>

datatype SourceRootKind = Workspace | Library | Std | Virtual

definition is_read_only :: "SourceRootKind \<Rightarrow> bool" where
  "is_read_only kind \<longleftrightarrow> kind = Library \<or> kind = Std"

record SourceRootSpec =
  root_id :: SourceRootId
  root_kind :: SourceRootKind
  root_base :: LogicalSourcePath

record LibraryMount =
  mount_name :: bytes
  mount_root :: SourceRootId
  mount_base :: LogicalSourcePath

record ProjectSpec =
  spec_id :: ProjectId
  spec_root_file :: FileId
  spec_roots :: "SourceRootSpec list"
  spec_libraries :: "LibraryMount list"
  spec_files :: "LogicalSourcePath \<Rightarrow> FileId option"
  spec_cfg :: CfgOptions

definition file_for_path :: "ProjectSpec \<Rightarrow> LogicalSourcePath \<Rightarrow> FileId option" where
  "file_for_path spec path = spec_files spec path"

definition module_candidates ::
    "LogicalSourcePath \<Rightarrow> bytes \<Rightarrow> InvalidLogicalPath + LogicalSourcePath list" where
  "module_candidates from name =
     (let base = (case LogicalSourcePath_parent from of None \<Rightarrow> LogicalSourcePath_default | Some p \<Rightarrow> p)
      in map_result (LogicalSourcePath_join base)
           [name @ ''.rua'', name @ ''/mod.rua'', name @ ''.ruai'', name @ ''/mod.ruai''])"

section \<open>Logical paths are normalised\<close>

definition plain_part :: "bytes \<Rightarrow> bool" where
  "plain_part p \<longleftrightarrow> p \<noteq> [] \<and> p \<noteq> ''.'' \<and> p \<noteq> ''..'' \<and> CHR ''/'' \<notin> set p \<and> backslash_char \<notin> set p"

definition logical_parts :: "LogicalSourcePath \<Rightarrow> bytes list" where
  "logical_parts p = (if path_str p = [] then [] else split_char CHR ''/'' (path_str p))"

definition wf_logical :: "LogicalSourcePath \<Rightarrow> bool" where
  "wf_logical p \<longleftrightarrow> list_all plain_part (logical_parts p)"

definition logical_path :: "bytes list \<Rightarrow> LogicalSourcePath" where
  "logical_path parts = LogicalSourcePath (join ''/'' parts)"

text \<open>The parts of a path as the code splits it.\<close>

definition path_parts :: "bytes \<Rightarrow> bytes list" where
  "path_parts s = split_char CHR ''/'' (replace_char backslash_char CHR ''/'' s)"

lemma path_parts_no_separator:
  "p \<in> set (path_parts s) \<Longrightarrow> CHR ''/'' \<notin> set p \<and> backslash_char \<notin> set p"
  using split_char_parts [of p "CHR ''/''" "replace_char backslash_char CHR ''/'' s"]
    replace_char_removes [of backslash_char "CHR ''/''" s]
  by (auto simp: path_parts_def)

lemma walk_append: "walk parts (xs @ ys) = bind_result (walk parts xs) (\<lambda>q. walk q ys)"
proof (induction xs arbitrary: parts)
  case (Cons x xs)
  then show ?case by (cases "walk_part parts x") simp_all
qed simp

lemma walk_plain: "list_all plain_part rest \<Longrightarrow> walk parts rest = Inr (parts @ rest)"
  by (induction rest arbitrary: parts) (simp_all add: walk_part_def plain_part_def)

lemma list_all_butlast: "list_all P xs \<Longrightarrow> list_all P (butlast xs)"
  by (auto simp: list_all_iff dest: in_set_butlastD)

lemma walk_keeps_plain:
  "walk parts rest = Inr r \<Longrightarrow> list_all plain_part parts \<Longrightarrow>
   \<forall>p \<in> set rest. CHR ''/'' \<notin> set p \<and> backslash_char \<notin> set p \<Longrightarrow> list_all plain_part r"
proof (induction rest arbitrary: parts)
  case (Cons x rest)
  then obtain parts' where st: "walk_part parts x = Inr parts'" and "walk parts' rest = Inr r" by auto
  moreover have "plain_part x" if "x \<noteq> []" "x \<noteq> ''.''" "x \<noteq> ''..''"
    using that Cons.prems(3) by (simp add: plain_part_def)
  then have "list_all plain_part parts'"
    using st Cons.prems(2) list_all_butlast [of plain_part parts]
    by (auto simp: walk_part_def split: if_splits)
  ultimately show ?case using Cons by simp
qed simp

lemma join_plain_nonempty: "list_all plain_part ps \<Longrightarrow> ps \<noteq> [] \<Longrightarrow> join ''/'' ps \<noteq> []"
  by (cases ps; cases "tl ps") (auto simp: plain_part_def join_Cons)

lemma logical_parts_path [simp]:
  assumes "list_all plain_part ps"
  shows "logical_parts (logical_path ps) = ps"
proof (cases "ps = []")
  case False
  have "\<forall>p \<in> set ps. CHR ''/'' \<notin> set p" using assms by (auto simp: list_all_iff plain_part_def)
  then have "split_char CHR ''/'' (join ''/'' ps) = ps" by (rule split_char_join [OF False])
  with join_plain_nonempty [OF assms False] show ?thesis
    by (simp add: logical_parts_def logical_path_def)
qed (simp add: logical_parts_def logical_path_def)

lemma logical_path_parts: "logical_path (logical_parts p) = p"
  by (cases p) (auto simp: logical_path_def logical_parts_def join_split_char)

lemma wf_logical_path [simp]: "list_all plain_part ps \<Longrightarrow> wf_logical (logical_path ps)"
  by (simp add: wf_logical_def)

lemma LogicalSourcePath_new_walk:
  "LogicalSourcePath_new s = bind_result (walk [] (path_parts s)) (\<lambda>ps. Inr (logical_path ps))"
  by (simp add: LogicalSourcePath_new_def path_parts_def logical_path_def)

lemma LogicalSourcePath_new_parts:
  assumes "LogicalSourcePath_new s = Inr p"
  obtains ps where "walk [] (path_parts s) = Inr ps" and "p = logical_path ps" and "list_all plain_part ps"
  using assms walk_keeps_plain [of "[]" "path_parts s"] path_parts_no_separator
  by (auto simp: LogicalSourcePath_new_walk)

lemma wf_logical_no_backslash:
  assumes "wf_logical p"
  shows "backslash_char \<notin> set (path_str p)"
proof -
  have "path_str p = join ''/'' (logical_parts p)"
    using arg_cong [OF logical_path_parts [of p], of path_str] by (simp add: logical_path_def)
  moreover have "backslash_char \<notin> set x" if "x \<in> set (logical_parts p)" for x
    using assms that by (simp add: wf_logical_def list_all_iff plain_part_def)
  ultimately show ?thesis using set_join [of "''/''" "logical_parts p"] by fastforce
qed

lemma walk_own_parts:
  assumes "wf_logical p"
  shows "walk [] (split_char CHR ''/'' (path_str p)) = Inr (logical_parts p)"
  using assms walk_plain [of "logical_parts p" "[]"]
  by (cases "path_str p = []") (auto simp: wf_logical_def logical_parts_def walk_part_def)

lemma LogicalSourcePath_new_join:
  assumes "wf_logical p"
  shows "LogicalSourcePath_join p child =
    bind_result (walk (logical_parts p) (path_parts child)) (\<lambda>ps. Inr (logical_path ps))"
proof -
  have "path_parts (path_str p @ ''/'' @ child) = split_char CHR ''/'' (path_str p) @ path_parts child"
    using wf_logical_no_backslash [OF assms]
    by (simp add: path_parts_def replace_char_id split_char_append)
  then show ?thesis
    by (simp add: LogicalSourcePath_join_def LogicalSourcePath_new_walk walk_append walk_own_parts [OF assms])
qed

text \<open>
  C14. A logical path is normalised and stays below its root: its parts are nonempty, none is
  \<open>.\<close> or \<open>..\<close>, none holds a separator of either kind, and normalising it again changes
  nothing.
\<close>

theorem LogicalSourcePath_new_normalised:
  assumes "LogicalSourcePath_new s = Inr p"
  shows "list_all plain_part (logical_parts p) \<and> LogicalSourcePath_new (path_str p) = Inr p"
proof -
  obtain ps where p: "p = logical_path ps" and ps: "list_all plain_part ps"
    using LogicalSourcePath_new_parts [OF assms] by blast
  then have wf: "wf_logical p" by simp
  then have "path_parts (path_str p) = split_char CHR ''/'' (path_str p)"
    using wf_logical_no_backslash by (simp add: path_parts_def replace_char_id)
  then have "LogicalSourcePath_new (path_str p) = Inr p"
    using walk_own_parts [OF wf] by (simp add: LogicalSourcePath_new_walk logical_path_parts)
  with wf show ?thesis by (simp add: wf_logical_def)
qed

lemma LogicalSourcePath_new_normalised_witness:
  "list_all plain_part (logical_parts (LogicalSourcePath ''src/main.rua''))
   \<and> LogicalSourcePath_new (path_str (LogicalSourcePath ''src/main.rua''))
       = Inr (LogicalSourcePath ''src/main.rua'')"
proof -
  have "LogicalSourcePath_new ''src/./api/../main.rua'' = Inr (LogicalSourcePath ''src/main.rua'')"
    by code_simp
  then show ?thesis by (rule LogicalSourcePath_new_normalised)
qed

text \<open>
  C15. Joining a child walks its parts from the parts of the base: \<open>..\<close> drops the last part
  and fails at the root, whatever separators the child uses; a child without \<open>..\<close> stays
  below the base.
\<close>

theorem LogicalSourcePath_join_walks:
  assumes "LogicalSourcePath_new s = Inr p"
  shows "LogicalSourcePath_join p child =
      bind_result (walk (logical_parts p) (path_parts child)) (\<lambda>ps. Inr (logical_path ps))
    \<and> (''..'' \<notin> set (path_parts child) \<longrightarrow>
        (\<exists>ps. LogicalSourcePath_join p child = Inr (logical_path (logical_parts p @ ps))))"
proof -
  have wf: "wf_logical p"
    using LogicalSourcePath_new_parts [OF assms] by (metis wf_logical_path)
  have "\<exists>ps. walk parts xs = Inr (parts @ ps)" if "''..'' \<notin> set xs" for parts xs
    using that
  proof (induction xs arbitrary: parts)
    case (Cons x xs)
    then show ?case by (auto simp: walk_part_def) (metis append.assoc)
  qed simp
  with LogicalSourcePath_new_join [OF wf, of child] show ?thesis
    by (metis bind_result.simps(2))
qed

lemma LogicalSourcePath_join_walks_witness:
  "\<exists>ps. LogicalSourcePath_join (LogicalSourcePath ''src/api'') ''v1/main.rua''
     = Inr (logical_path (logical_parts (LogicalSourcePath ''src/api'') @ ps))"
proof -
  have "LogicalSourcePath_new ''/src//api/.'' = Inr (LogicalSourcePath ''src/api'')" by code_simp
  note join = conjunct2 [OF LogicalSourcePath_join_walks [OF this, of "''v1/main.rua''"]]
  have "''..'' \<notin> set (path_parts ''v1/main.rua'')" by code_simp
  then show ?thesis by (rule join [THEN mp])
qed

section \<open>Module candidates and module files\<close>

lemma not_ident_continue [simp]:
  "\<not> ident_continue CHR ''.''" "\<not> ident_continue CHR ''/''" "\<not> ident_continue backslash_char"
  by (simp_all add: ident_continue_def ascii_class_defs)

lemma identifier_excludes: "valid_identifier name \<Longrightarrow> \<not> ident_continue c \<Longrightarrow> c \<notin> set name"
  using valid_identifier_continue [of name] by (auto simp: list_all_iff)

lemma identifier_plain:
  assumes "valid_identifier name" and "set ending \<subseteq> set ''.ruai''"
  shows "plain_part (name @ ending)"
proof -
  have ex: "CHR ''.'' \<notin> set name" "CHR ''/'' \<notin> set name" "backslash_char \<notin> set name"
    using identifier_excludes [OF assms(1)] by simp_all
  obtain c r where name: "name = c # r" using assms(1) by (cases name) auto
  with ex(1) have "name @ ending \<noteq> ''.''" "name @ ending \<noteq> ''..''" by auto
  moreover have "CHR ''/'' \<notin> set ending" "backslash_char \<notin> set ending" using assms(2) by auto
  ultimately show ?thesis using ex name by (simp add: plain_part_def)
qed

lemma join_snoc: "ps \<noteq> [] \<Longrightarrow> join sep (ps @ [x]) = join sep ps @ sep @ x"
  by (induction sep ps rule: join.induct) auto

lemma parent_logical_path:
  assumes "list_all plain_part (ps @ [x])"
  shows "LogicalSourcePath_parent (logical_path (ps @ [x])) =
    (if ps = [] then None else Some (logical_path ps))"
proof (cases "ps = []")
  case True
  with assms have "rsplit_once CHR ''/'' x = None"
    by (simp add: plain_part_def rsplit_once_None_iff)
  with True show ?thesis by (simp add: LogicalSourcePath_parent_def logical_path_def)
next
  case False
  with assms have "rsplit_once CHR ''/'' (join ''/'' (ps @ [x])) = Some (join ''/'' ps, x)"
    by (simp add: join_snoc plain_part_def rsplit_once_append)
  with False show ?thesis by (simp add: LogicalSourcePath_parent_def logical_path_def)
qed

lemma path_parts_join:
  assumes "list_all plain_part ps" and "ps \<noteq> []"
  shows "path_parts (join ''/'' ps) = ps"
proof -
  have "backslash_char \<notin> set (path_str (logical_path ps))"
    by (intro wf_logical_no_backslash wf_logical_path assms)
  with assms show ?thesis
    by (auto simp: path_parts_def logical_path_def replace_char_id list_all_iff plain_part_def
        intro!: split_char_join)
qed

lemma join_logical_path:
  assumes "list_all plain_part base" and "list_all plain_part ps" and "ps \<noteq> []"
  shows "LogicalSourcePath_join (logical_path base) (join ''/'' ps) = Inr (logical_path (base @ ps))"
  using LogicalSourcePath_new_join [OF wf_logical_path [OF assms(1)], of "join ''/'' ps"] assms
  by (simp add: path_parts_join walk_plain)

text \<open>The four layouts of the module \<open>name\<close>, relative to the directory of \<open>from\<close>.\<close>

definition module_layouts :: "bytes \<Rightarrow> bytes list list" where
  "module_layouts name =
     [[name @ ''.rua''], [name, ''mod.rua''], [name @ ''.ruai''], [name, ''mod.ruai'']]"

lemma module_layouts_plain:
  "valid_identifier name \<Longrightarrow> ps \<in> set (module_layouts name) \<Longrightarrow> ps \<noteq> [] \<and> list_all plain_part ps"
  using identifier_plain [of name "''.rua''"] identifier_plain [of name "''''"] identifier_plain [of name "''.ruai''"]
  by (auto simp: module_layouts_def) (simp_all add: plain_part_def)

lemma module_candidates_layouts:
  assumes "wf_logical from" and "valid_identifier name"
  shows "module_candidates from name =
    Inr (map (\<lambda>ps. logical_path (butlast (logical_parts from) @ ps)) (module_layouts name))"
proof -
  let ?base = "case LogicalSourcePath_parent from of None \<Rightarrow> LogicalSourcePath_default | Some p \<Rightarrow> p"
  let ?dir = "butlast (logical_parts from)"
  have wf: "list_all plain_part (logical_parts from)" using assms(1) by (simp add: wf_logical_def)
  have dir: "list_all plain_part ?dir" by (rule list_all_butlast [OF wf])
  have base: "?base = logical_path ?dir"
  proof (cases "logical_parts from" rule: rev_cases)
    case Nil
    then have "path_str from = []" by (simp add: logical_parts_def split: if_splits)
    with Nil show ?thesis
      by (simp add: LogicalSourcePath_parent_def LogicalSourcePath_default_def logical_path_def rsplit_once_def)
  next
    case (snoc ps x)
    with wf parent_logical_path [of ps x] logical_path_parts [of "from"] show ?thesis
      by (simp add: LogicalSourcePath_default_def logical_path_def)
  qed
  have j: "LogicalSourcePath_join ?base (join ''/'' ps) = Inr (logical_path (?dir @ ps))"
    if "ps \<in> set (module_layouts name)" for ps
    using join_logical_path [OF dir] module_layouts_plain [OF assms(2) that] base by simp
  from j [of "[name @ ''.rua'']"] j [of "[name, ''mod.rua'']"]
    j [of "[name @ ''.ruai'']"] j [of "[name, ''mod.ruai'']"]
  show ?thesis by (simp add: module_candidates_def module_layouts_def)
qed

lemma components_join:
  assumes "list_all plain_part ps" and "ps \<noteq> []"
  shows "components (join ''/'' ps) = map Normal ps" and "\<not> is_absolute (join ''/'' ps)"
proof -
  have "split_char CHR ''/'' (join ''/'' ps) = ps"
    using assms by (auto simp: list_all_iff plain_part_def intro!: split_char_join)
  moreover obtain p rest where ps: "ps = p # rest" using assms(2) by (cases ps) auto
  moreover obtain c r where p: "p = c # r" "c \<noteq> CHR ''/''"
    using assms ps by (cases p) (auto simp: plain_part_def)
  moreover have abs: "\<not> starts_with ''/'' (join ''/'' ps)"
    using ps p by (cases rest) (simp_all add: starts_with_def)
  moreover have "concat (map component_of qs) = map Normal qs" if "list_all plain_part qs" for qs
    using that by (induction qs) (auto simp: component_of_def plain_part_def)
  moreover have "p \<noteq> ''.''" using assms ps by (simp add: plain_part_def)
  ultimately show "components (join ''/'' ps) = map Normal ps"
    using assms(1) by (simp add: components_def Let_def del: list.map)
  from abs show "\<not> is_absolute (join ''/'' ps)" by (simp add: is_absolute_def)
qed

lemma validate_module_name_iff:
  "validate_module_name name = Inr u \<longleftrightarrow> valid_identifier name"
proof (cases name)
  case (Cons c r)
  have "(\<lambda>c. c = CHR ''_'' \<or> is_ascii_alphanumeric c) = ident_continue"
    by (simp add: fun_eq_iff ident_continue_def)
  with Cons show ?thesis by (simp add: validate_module_name_def ident_start_def)
qed (simp add: validate_module_name_def)

lemma parent_segments_valid:
  "list_all valid_identifier segs \<Longrightarrow> parent_segments rel (map Normal segs) = Inr segs"
proof (induction segs)
  case (Cons a segs)
  then have "validate_module_name a = Inr ()" by (simp add: validate_module_name_iff)
  with Cons show ?case by simp
qed simp

lemma parent_segments_Inr:
  "parent_segments rel cs = Inr segs \<Longrightarrow> list_all valid_identifier segs"
  using validate_module_name_iff
  by (induction rel cs arbitrary: segs rule: parent_segments.induct) (auto split: sum.splits)

lemma stem_segments_Inr: "stem_segments rel stem = Inr segs \<Longrightarrow> list_all valid_identifier segs"
  using validate_module_name_iff by (auto simp: stem_segments_def split: if_splits sum.splits)

text \<open>A file below identifier directories, by its stem and extension.\<close>

lemma module_path_of_file:
  assumes dirs: "list_all valid_identifier dirs" and stem: "valid_identifier stem"
    and ext: "ext = ''rua'' \<or> ext = ''ruai''"
  shows "module_path_from_relative_file (join ''/'' (dirs @ [stem @ ''.'' @ ext])) =
    Inr (Some (if stem = ''mod'' then dirs else dirs @ [stem]))"
proof -
  let ?f = "stem @ ''.'' @ ext" and ?path = "join ''/'' (dirs @ [stem @ ''.'' @ ext])"
  have "list_all plain_part dirs"
    using dirs identifier_plain [of _ "''''"] by (auto simp: list_all_iff)
  moreover have "plain_part ?f"
    using identifier_plain [OF stem, of "''.'' @ ext"] ext by auto
  ultimately have comps: "components ?path = map Normal (dirs @ [?f])" and rel: "\<not> is_absolute ?path"
    using components_join [of "dirs @ [?f]"] by simp_all
  have "CHR ''.'' \<notin> set ext" using ext by auto
  then have "split_file_name ?f = (stem, Some ext)"
    using rsplit_once_append [of "CHR ''.''" ext stem] valid_identifier_nonempty [OF stem]
    by (simp add: split_file_name_def)
  with comps have e: "extension ?path = Some ext" and s: "file_stem ?path = Some stem"
    and p: "parent_components ?path = Some (map Normal dirs)"
    by (simp_all add: extension_def file_stem_def file_name_def parent_components_def rev_map)
  have "stem_segments ?path stem = Inr (if stem = ''mod'' then [] else [stem])"
    using validate_module_name_iff [of stem] stem by (auto simp: stem_segments_def)
  with e s p rel ext parent_segments_valid [OF dirs] show ?thesis
    by (auto simp: module_path_from_relative_file_def)
qed

text \<open>
  C16. The two directions of the module layout agree: the candidates for a module \<open>name\<close>
  referenced from a file are four paths in that file's directory, and each of them, read back
  as a source file, is the module \<open>name\<close> of that directory.
\<close>

theorem module_candidates_map_back:
  assumes "LogicalSourcePath_new s = Inr from" and "valid_identifier name" and "name \<noteq> ''mod''"
    and "list_all valid_identifier (butlast (logical_parts from))"
  shows "\<exists>cs. module_candidates from name = Inr cs \<and> length cs = 4 \<and> distinct cs
    \<and> (\<forall>c \<in> set cs. module_path_from_relative_file (path_str c)
          = Inr (Some (butlast (logical_parts from) @ [name])))"
proof -
  let ?dir = "butlast (logical_parts from)"
  let ?cs = "map (\<lambda>ps. logical_path (?dir @ ps)) (module_layouts name)"
  have wf: "wf_logical from" using LogicalSourcePath_new_parts [OF assms(1)] by (metis wf_logical_path)
  then have dirp: "list_all plain_part ?dir" by (simp add: wf_logical_def list_all_butlast)
  have mods: "valid_identifier ''mod''" by (simp add: ident_start_def ident_continue_def ascii_class_defs)
  have file_back: "module_path_from_relative_file (path_str (logical_path (?dir @ ps))) = Inr (Some (?dir @ [name]))"
    if "ps \<in> set (module_layouts name)" for ps
    using that assms(2-4) mods module_path_of_file [of ?dir name "''rua''"]
      module_path_of_file [of ?dir name "''ruai''"] module_path_of_file [of "?dir @ [name]" "''mod''" "''rua''"]
      module_path_of_file [of "?dir @ [name]" "''mod''" "''ruai''"]
    by (auto simp: module_layouts_def logical_path_def)
  have "inj_on (\<lambda>ps. logical_path (?dir @ ps)) (set (module_layouts name))"
  proof (rule inj_onI)
    fix ps qs
    assume "ps \<in> set (module_layouts name)" "qs \<in> set (module_layouts name)"
      and eq: "logical_path (?dir @ ps) = logical_path (?dir @ qs)"
    then have "list_all plain_part (?dir @ ps)" "list_all plain_part (?dir @ qs)"
      using module_layouts_plain [OF assms(2)] dirp by auto
    then have "?dir @ ps = ?dir @ qs"
      using logical_parts_path [of "?dir @ ps"] logical_parts_path [of "?dir @ qs"] eq by metis
    then show "ps = qs" by simp
  qed
  then have "distinct ?cs" by (simp add: distinct_map) (simp add: module_layouts_def)
  moreover have "length ?cs = 4" by (simp add: module_layouts_def)
  ultimately show ?thesis using module_candidates_layouts [OF wf assms(2)] file_back by auto
qed

lemma module_candidates_map_back_witness:
  "\<exists>cs. module_candidates (LogicalSourcePath ''src/main.rua'') ''math'' = Inr cs \<and> length cs = 4
    \<and> distinct cs \<and> (\<forall>c \<in> set cs. module_path_from_relative_file (path_str c)
          = Inr (Some (butlast (logical_parts (LogicalSourcePath ''src/main.rua'')) @ [''math''])))"
proof (rule module_candidates_map_back)
  show "LogicalSourcePath_new ''src/main.rua'' = Inr (LogicalSourcePath ''src/main.rua'')"
    by code_simp
  show "list_all valid_identifier (butlast (logical_parts (LogicalSourcePath ''src/main.rua'')))"
    by code_simp
  show "valid_identifier ''math''" by code_simp
qed simp

text \<open>
  C17. A source file's module path is made of valid identifiers, so it always is a
  \<open>ModulePath\<close>; only \<open>.rua\<close> and \<open>.ruai\<close> files have one, and an absolute path never does.
\<close>

theorem module_path_valid:
  assumes "module_path_from_relative_file relative = Inr (Some segs)"
  shows "(\<exists>p. ModulePath_new segs = Inr p \<and> segments p = segs)
    \<and> extension relative \<in> {Some ''rua'', Some ''ruai''} \<and> \<not> is_absolute relative"
proof -
  obtain dirs lst where "list_all valid_identifier dirs" "list_all valid_identifier lst" "segs = dirs @ lst"
    using assms parent_segments_Inr stem_segments_Inr
    by (fastforce simp: module_path_from_relative_file_def split: if_splits option.splits)
  then have "list_all valid_identifier segs" by simp
  moreover have "extension relative \<in> {Some ''rua'', Some ''ruai''} \<and> \<not> is_absolute relative"
    using assms by (auto simp: module_path_from_relative_file_def split: if_splits)
  ultimately show ?thesis by (auto simp: ModulePath_new_def)
qed

lemma module_path_valid_witness:
  "(\<exists>p. ModulePath_new [''domain'', ''product''] = Inr p \<and> segments p = [''domain'', ''product''])
   \<and> extension ''domain/product/mod.rua'' \<in> {Some ''rua'', Some ''ruai''}
   \<and> \<not> is_absolute ''domain/product/mod.rua''"
proof -
  have "module_path_from_relative_file ''domain/product/mod.rua'' = Inr (Some [''domain'', ''product''])"
    by code_simp
  then show ?thesis by (rule module_path_valid)
qed

section \<open>Configuration\<close>

lemma has_insert [simp]:
  "has_flag (insert_flag n o1) k \<longleftrightarrow> k = n \<or> has_flag o1 k"
  "has_flag (insert_value n v o1) k \<longleftrightarrow> has_flag o1 k"
  "has_value (insert_flag n o1) k w \<longleftrightarrow> has_value o1 k w"
  "has_value (insert_value n v o1) k w \<longleftrightarrow> (k = n \<and> w = v) \<or> has_value o1 k w"
  by (auto simp: has_flag_def has_value_def insert_flag_def insert_value_def split: option.splits)

lemma has_insert_values [simp]:
  "has_flag (foldl (\<lambda>cfg v. insert_value n v cfg) o1 vs) k \<longleftrightarrow> has_flag o1 k"
  "has_value (foldl (\<lambda>cfg v. insert_value n v cfg) o1 vs) k w \<longleftrightarrow> (k = n \<and> w \<in> set vs) \<or> has_value o1 k w"
  by (induction vs arbitrary: o1) auto

text \<open>The values an entry of the \<open>cfg\<close> table adds to its key.\<close>

fun config_values :: "CfgConfigValue \<Rightarrow> bytes set" where
  "config_values (ConfigBool _) = {}"
| "config_values (ConfigString v) = {v}"
| "config_values (ConfigStrings vs) = set vs"

lemma has_insert_config [simp]:
  "has_flag (insert_config o1 (n, v)) k \<longleftrightarrow> (k = n \<and> v = ConfigBool True) \<or> has_flag o1 k"
  "has_value (insert_config o1 (n, v)) k w \<longleftrightarrow> (k = n \<and> w \<in> config_values v) \<or> has_value o1 k w"
  by (cases "(o1, n, v)" rule: insert_config.cases; auto)+

lemma has_insert_configs:
  "has_flag (foldl insert_config o1 entries) k \<longleftrightarrow> (k, ConfigBool True) \<in> set entries \<or> has_flag o1 k"
  "has_value (foldl insert_config o1 entries) k w \<longleftrightarrow>
     (\<exists>v. (k, v) \<in> set entries \<and> w \<in> config_values v) \<or> has_value o1 k w"
  by (induction entries arbitrary: o1) auto

lemma has_features:
  "has_flag (foldl (\<lambda>cfg f. insert_feature f cfg) o1 fs) k \<longleftrightarrow> has_flag o1 k"
  "has_value (foldl (\<lambda>cfg f. insert_feature f cfg) o1 fs) k w \<longleftrightarrow>
     (k = ''feature'' \<and> w \<in> set fs) \<or> has_value o1 k w"
  by (induction fs arbitrary: o1) (auto simp: insert_feature_def)

lemma has_default [simp]: "\<not> has_flag CfgOptions_default k" "\<not> has_value CfgOptions_default k v"
  by (simp_all add: has_flag_def has_value_def CfgOptions_default_def)

text \<open>Which combinations of roots an entry of \<open>lua_library\<close> may set.\<close>

definition lua_library_ok :: "LuaLibraryConfig \<Rightarrow> bool" where
  "lua_library_ok lib \<longleftrightarrow>
     (if lib_root lib = None then lib_declaration_root lib \<noteq> None \<and> lib_runtime_root lib \<noteq> None
      else lib_declaration_root lib = None \<and> lib_runtime_root lib = None)"

lemma LuaLibraryConfig_resolve_iff:
  "(\<exists>r. LuaLibraryConfig_resolve root lib = Inr r) \<longleftrightarrow> lua_library_ok lib"
  by (cases "lib_root lib"; cases "lib_declaration_root lib"; cases "lib_runtime_root lib")
     (simp_all add: LuaLibraryConfig_resolve_def lua_library_ok_def)

lemma map_result_Inr_ex: "(\<exists>ys. map_result f xs = Inr ys) \<longleftrightarrow> (\<forall>x \<in> set xs. \<exists>y. f x = Inr y)"
proof (induction xs)
  case (Cons x xs)
  then show ?case by (cases "f x"; cases "map_result f xs") auto
qed simp

lemma resolve_mounts_spec:
  "resolve_mounts root entries m = Inr m' \<longleftrightarrow>
     (\<forall>e \<in> set entries. valid_identifier (fst e)) \<and>
     m' = foldl (\<lambda>m (n, p). m(n \<mapsto> resolve_config_path root p)) m entries"
proof (induction entries arbitrary: m)
  case (Cons e entries)
  obtain n p where e: "e = (n, p)" by (cases e)
  show ?case
  proof (cases "validate_module_name n")
    case (Inl err)
    then have "\<not> valid_identifier n" using validate_module_name_iff [of n "()"] by auto
    with Inl e show ?thesis by simp
  next
    case (Inr u)
    then have "valid_identifier n" by (simp add: validate_module_name_iff)
    with Inr e Cons.IH show ?thesis by simp
  qed
qed auto

lemma mounts_fold_dom: "dom (foldl (\<lambda>m (n, p). m(n \<mapsto> f p)) m entries) = dom m \<union> fst ` set entries"
  by (induction entries arbitrary: m) auto

lemma path_eq_refl [simp]: "path_eq p p"
  by (simp add: path_eq_def)

lemma push_unique_keeps: "set ps \<subseteq> set (push_unique ps p)"
  by (auto simp: push_unique_def)

lemma push_unique_has: "list_ex (path_eq p) (push_unique ps p)"
  by (simp add: push_unique_def)

lemma push_all_keeps: "set ps \<subseteq> set (foldl push_unique ps qs)"
  using push_unique_keeps by (induction qs arbitrary: ps) fastforce+

lemma push_all_has: "q \<in> set qs \<Longrightarrow> list_ex (path_eq q) (foldl push_unique ps qs)"
proof (induction qs arbitrary: ps)
  case (Cons a qs)
  show ?case
  proof (cases "q = a")
    case True
    with push_unique_has [of a ps] push_all_keeps [of "push_unique ps a" qs] show ?thesis
      by (auto simp: list_ex_iff)
  next
    case False
    with Cons show ?thesis by simp
  qed
qed simp

lemma push_all_new: "p \<in> set (foldl push_unique ps qs) \<Longrightarrow> p \<in> set ps \<or> p \<in> set qs"
  by (induction qs arbitrary: ps) (fastforce simp: push_unique_def split: if_splits)+

lemma resolve_config_path_absolute:
  assumes "is_absolute root"
  shows "is_absolute (resolve_config_path root p)"
  using assms by (auto simp: resolve_config_path_def Let_def path_join_def is_absolute_def starts_with_iff)

text \<open>
  C18. The \<open>cfg\<close> options of a build are exactly what its configuration says: a flag is set
  when its entry is \<open>true\<close>, and a key has a value when an entry lists it or, for the key
  \<open>feature\<close>, when it is an enabled feature.
\<close>

theorem build_options_spec:
  "has_flag (build_options b) k = ((k, ConfigBool True) \<in> set (build_cfg b))
   \<and> has_value (build_options b) k v =
     ((\<exists>c. (k, c) \<in> set (build_cfg b) \<and> v \<in> config_values c)
      \<or> (k = ''feature'' \<and> v \<in> set (features b)))"
  by (auto simp: build_options_def has_insert_configs has_features)

text \<open>
  How the resolved search paths are put together: the configured entries come first, in their
  order; of the added roots those follow, again in order, that equal no path before them; and
  every added root equals some path of the result.
\<close>

definition joins_paths :: "bytes list \<Rightarrow> bytes list \<Rightarrow> bytes list \<Rightarrow> bool" where
  "joins_paths base adds result \<longleftrightarrow>
     (\<exists>extra. result = base @ extra \<and> subseq extra adds
        \<and> (\<forall>i < length extra. \<not> list_ex (path_eq (extra ! i)) (base @ take i extra)))
     \<and> (\<forall>p \<in> set adds. list_ex (path_eq p) result)"

lemma push_all_joins: "joins_paths base adds (foldl push_unique base adds)"
proof (induction adds rule: rev_induct)
  case Nil
  show ?case by (simp add: joins_paths_def)
next
  case (snoc a adds)
  let ?r = "foldl push_unique base adds"
  from snoc obtain extra where extra: "?r = base @ extra" "subseq extra adds"
      "\<forall>i < length extra. \<not> list_ex (path_eq (extra ! i)) (base @ take i extra)"
      "\<forall>p \<in> set adds. list_ex (path_eq p) ?r"
    by (auto simp: joins_paths_def)
  show ?case
  proof (cases "list_ex (path_eq a) ?r")
    case True
    then have "foldl push_unique base (adds @ [a]) = ?r" by (simp add: push_unique_def)
    with True extra show ?thesis
      unfolding joins_paths_def by (auto intro!: exI [of _ extra] subseq_rev_drop_many)
  next
    case False
    then have new: "foldl push_unique base (adds @ [a]) = base @ (extra @ [a])"
      using extra(1) by (simp add: push_unique_def)
    have "\<forall>i < length (extra @ [a]). \<not> list_ex (path_eq ((extra @ [a]) ! i)) (base @ take i (extra @ [a]))"
      using False extra(1,3) by (auto simp: nth_append less_Suc_eq)
    moreover have "subseq (extra @ [a]) (adds @ [a])" using extra(2) by simp
    moreover have "\<forall>p \<in> set (adds @ [a]). list_ex (path_eq p) (base @ (extra @ [a]))"
      using extra(1,4) by auto
    ultimately show ?thesis unfolding joins_paths_def new by blast
  qed
qed

lemma mounts_fold_lookup:
  "foldl (\<lambda>m (n, p). m(n \<mapsto> f p)) m entries name
     = (case map_of (rev entries) name of None \<Rightarrow> m name | Some p \<Rightarrow> Some (f p))"
  by (induction entries arbitrary: m) (auto simp: map_add_def split: option.split)

text \<open>The two roots an entry of \<open>lua_library\<close> stands for.\<close>

definition declared_roots :: "LuaLibraryConfig \<Rightarrow> bytes \<times> bytes" where
  "declared_roots lib = (case lib_root lib of
     Some r \<Rightarrow> (r, r) | None \<Rightarrow> (the (lib_declaration_root lib), the (lib_runtime_root lib)))"

lemma LuaLibraryConfig_resolve_roots:
  "LuaLibraryConfig_resolve root lib = Inr r \<Longrightarrow>
     r = \<lparr>declaration_root = resolve_config_path root (fst (declared_roots lib)),
          runtime_root = resolve_config_path root (snd (declared_roots lib))\<rparr>"
  by (auto simp: LuaLibraryConfig_resolve_def declared_roots_def split: option.splits)

lemma map_result_map: "map_result f xs = Inr ys \<Longrightarrow> (\<And>x y. f x = Inr y \<Longrightarrow> y = g x) \<Longrightarrow> ys = map g xs"
  by (auto simp: map_result_Inr_iff list_all2_conv_all_nth intro!: nth_equalityI)

text \<open>
  C19. Resolving a project configuration succeeds exactly when every mount name is an identifier
  and every Lua library sets either \<open>root\<close> alone or both other roots. The result is then fixed:
  every mount leads to its resolved target; the Lua libraries are the configured ones in their
  order, with both roots resolved; the library search path is the resolved \<open>workspace.library\<close>
  followed by the new declaration roots, the Lua search path the resolved \<open>runtime.lua_path\<close>
  followed by the new runtime roots; the standard library path is resolved, the cfg options are
  those of the build; and every path is absolute when the workspace root is.
\<close>

theorem ProjectConfig_resolve_spec:
  "(\<exists>r. ProjectConfig_resolve config root = Inr r) =
     ((\<forall>e \<in> set (library_mounts (workspace config)). valid_identifier (fst e))
      \<and> (\<forall>lib \<in> set (lua_library (workspace config)). lua_library_ok lib))
   \<and> (\<forall>r. ProjectConfig_resolve config root = Inr r \<longrightarrow>
        (\<forall>name. resolved_mounts r name =
           map_option (resolve_config_path root) (map_of (rev (library_mounts (workspace config))) name))
        \<and> resolved_lua_library r =
            map (\<lambda>lib. \<lparr>declaration_root = resolve_config_path root (fst (declared_roots lib)),
                        runtime_root = resolve_config_path root (snd (declared_roots lib))\<rparr>)
              (lua_library (workspace config))
        \<and> joins_paths (map (resolve_config_path root) (library (workspace config)))
            (map declaration_root (resolved_lua_library r)) (resolved_library r)
        \<and> joins_paths (map (resolve_config_path root) (lua_path (runtime config)))
            (map runtime_root (resolved_lua_library r)) (resolved_lua_path r)
        \<and> resolved_std_path r = map_option (resolve_config_path root) (std_path (runtime config))
        \<and> resolved_cfg r = build_options (build config)
        \<and> (is_absolute root \<longrightarrow>
             list_all is_absolute (resolved_library r @ resolved_lua_path r)
             \<and> (\<forall>target \<in> ran (resolved_mounts r). is_absolute target)))"
proof -
  let ?libs = "map_result (LuaLibraryConfig_resolve root) (lua_library (workspace config))"
  let ?mounts = "resolve_mounts root (library_mounts (workspace config)) Map.empty"
  let ?roots = "\<lambda>lib. \<lparr>declaration_root = resolve_config_path root (fst (declared_roots lib)),
    runtime_root = resolve_config_path root (snd (declared_roots lib))\<rparr>"
  have "(\<exists>r. ProjectConfig_resolve config root = Inr r) \<longleftrightarrow> (\<exists>m. ?mounts = Inr m) \<and> (\<exists>l. ?libs = Inr l)"
    by (auto simp: ProjectConfig_resolve_def)
  then have ok: "(\<exists>r. ProjectConfig_resolve config root = Inr r) \<longleftrightarrow>
      (\<forall>e \<in> set (library_mounts (workspace config)). valid_identifier (fst e))
      \<and> (\<forall>lib \<in> set (lua_library (workspace config)). lua_library_ok lib)"
    by (simp add: resolve_mounts_spec map_result_Inr_ex LuaLibraryConfig_resolve_iff)
  have "(\<forall>name. resolved_mounts r name =
           map_option (resolve_config_path root) (map_of (rev (library_mounts (workspace config))) name))
        \<and> resolved_lua_library r = map ?roots (lua_library (workspace config))
        \<and> joins_paths (map (resolve_config_path root) (library (workspace config)))
            (map declaration_root (resolved_lua_library r)) (resolved_library r)
        \<and> joins_paths (map (resolve_config_path root) (lua_path (runtime config)))
            (map runtime_root (resolved_lua_library r)) (resolved_lua_path r)
        \<and> resolved_std_path r = map_option (resolve_config_path root) (std_path (runtime config))
        \<and> resolved_cfg r = build_options (build config)
        \<and> (is_absolute root \<longrightarrow>
             list_all is_absolute (resolved_library r @ resolved_lua_path r)
             \<and> (\<forall>target \<in> ran (resolved_mounts r). is_absolute target))"
    if r: "ProjectConfig_resolve config root = Inr r" for r
  proof -
    obtain m libs where m: "?mounts = Inr m" and libs: "?libs = Inr libs"
      and fields: "resolved_mounts r = m" "resolved_lua_library r = libs"
        "resolved_library r = foldl push_unique (map (resolve_config_path root) (library (workspace config)))
          (map declaration_root libs)"
        "resolved_lua_path r = foldl push_unique (map (resolve_config_path root) (lua_path (runtime config)))
          (map runtime_root libs)"
        "resolved_std_path r = map_option (resolve_config_path root) (std_path (runtime config))"
        "resolved_cfg r = build_options (build config)"
      using r by (auto simp: ProjectConfig_resolve_def)
    have lookup: "m name = map_option (resolve_config_path root) (map_of (rev (library_mounts (workspace config))) name)" for name
      using m mounts_fold_lookup [of "resolve_config_path root" Map.empty _ name]
      by (simp add: resolve_mounts_spec split: option.split)
    have roots: "libs = map ?roots (lua_library (workspace config))"
      using libs by (rule map_result_map) (rule LuaLibraryConfig_resolve_roots)
    have "\<forall>target \<in> ran m. is_absolute target" if "is_absolute root"
      using resolve_config_path_absolute [OF that] by (auto simp: ran_def lookup)
    moreover have "list_all is_absolute (resolved_library r @ resolved_lua_path r)" if "is_absolute root"
      using resolve_config_path_absolute [OF that] unfolding fields(3,4)
      by (auto simp: list_all_iff roots dest!: push_all_new)
    ultimately show ?thesis
      using lookup roots push_all_joins by (simp add: fields)
  qed
  with ok show ?thesis by blast
qed

lemma ProjectConfig_resolve_spec_witness:
  "let config = \<lparr>workspace = \<lparr>library = [''lib''], library_mounts = [(''moon'', ''${workspaceFolder}/moon'')],
        lua_library = [\<lparr>lib_root = Some ''lua'', lib_declaration_root = None, lib_runtime_root = None\<rparr>]\<rparr>,
      runtime = \<lparr>std_path = None, lua_path = [''lua'']\<rparr>, build = \<lparr>features = [], build_cfg = []\<rparr>\<rparr>
   in \<exists>r. ProjectConfig_resolve config ''/w'' = Inr r"
  using ProjectConfig_resolve_spec [of
     "\<lparr>workspace = \<lparr>library = [''lib''], library_mounts = [(''moon'', ''${workspaceFolder}/moon'')],
        lua_library = [\<lparr>lib_root = Some ''lua'', lib_declaration_root = None, lib_runtime_root = None\<rparr>]\<rparr>,
      runtime = \<lparr>std_path = None, lua_path = [''lua'']\<rparr>, build = \<lparr>features = [], build_cfg = []\<rparr>\<rparr>" "''/w''"]
  by (simp add: lua_library_ok_def ident_start_def ident_continue_def ascii_class_defs)

end
