(* ===== verification/Lua_Expr_Props.thy ===== *)
theory Lua_Expr_Props
  imports Lua_Ir
begin

text \<open>
  The expression printer against Lua. \<open>lua_exp\<close> is the expression grammar of the Lua
  manual with its operator levels, as a relation between a level, a text and the expression
  it denotes (parentheses removed). Every printed expression is derivable and denotes the
  expression it was printed from, unless a negation is applied to an operand that starts
  with a minus sign: then the text holds \<open>--\<close>, which starts a Lua comment.
\<close>

section \<open>String literals\<close>

definition esc :: "char \<Rightarrow> bytes" where
  "esc c = (if c = backslash_char then [backslash_char, backslash_char]
            else if c = quote_char then [backslash_char, quote_char]
            else if c = LF then [backslash_char, CHR ''n'']
            else if c = CR then [backslash_char, CHR ''r'']
            else [c])"

lemma replace_all_char: "replace_all [a] rep s = concat (map (\<lambda>c. if c = a then rep else [c]) s)"
  by (induction s) auto

lemma concat_map_fuse: "concat (map f (concat (map g s))) = concat (map (\<lambda>c. concat (map f (g c))) s)"
  by (induction s) auto

lemma lua_string_esc: "lua_string v = [quote_char] @ concat (map esc v) @ [quote_char]"
proof -
  have "replace_all [CR] [backslash_char, CHR ''r'']
         (replace_all [LF] [backslash_char, CHR ''n'']
           (replace_all [quote_char] [backslash_char, quote_char]
             (replace_all [backslash_char] [backslash_char, backslash_char] v))) = concat (map esc v)"
    unfolding replace_all_char concat_map_fuse
    by (rule arg_cong [of _ _ concat], rule map_cong) (simp_all add: esc_def)
  then show ?thesis by (simp add: lua_string_def)
qed

text \<open>How Lua reads the escapes the printer writes.\<close>

fun lua_unescape :: "bytes \<Rightarrow> bytes option" where
  "lua_unescape [] = Some []"
| "lua_unescape [c] = (if c = backslash_char then None else Some [c])"
| "lua_unescape (c # d # s) =
     (if c = backslash_char then
        (if d = backslash_char \<or> d = quote_char then map_option ((#) d) (lua_unescape s)
         else if d = CHR ''n'' then map_option ((#) LF) (lua_unescape s)
         else if d = CHR ''r'' then map_option ((#) CR) (lua_unescape s)
         else None)
      else map_option ((#) c) (lua_unescape (d # s)))"

lemma lua_unescape_Cons: "c \<noteq> backslash_char \<Longrightarrow> lua_unescape (c # s) = map_option ((#) c) (lua_unescape s)"
  by (cases s) auto

lemma lua_unescape_esc: "lua_unescape (concat (map esc v)) = Some v"
  by (induction v) (auto simp: esc_def lua_unescape_Cons)

lemma esc_no_break: "LF \<notin> set (concat (map esc v)) \<and> CR \<notin> set (concat (map esc v))"
  by (auto simp: esc_def)

text \<open>A quoted literal in the surface syntax Rua and Lua share.\<close>

definition string_literal :: "bytes \<Rightarrow> bool" where
  "string_literal s \<longleftrightarrow> s \<noteq> [] \<and> hd s = quote_char \<and> string_loop s 1 = Return (length s, True)"

lemma string_loop_continue:
  assumes "e < length s" and "string_step s e = Return (Inr e')"
  shows "string_loop s e = string_loop s e'"
  using assms by (subst string_loop.simps) simp

lemma boundary_after: "utf8 pre \<Longrightarrow> utf8 r \<Longrightarrow> is_char_boundary (pre @ r) (length pre)"
  by (simp add: boundary_iff_drop utf8_append)

lemma string_step_escape:
  assumes "utf8 pre" and "utf8 r" and "is_ascii d"
  shows "string_step (pre @ backslash_char # d # r) (length pre) = Return (Inr (length pre + 2))"
proof -
  have "is_char_boundary (pre @ backslash_char # d # r) (Suc (length pre))"
    using boundary_after [of "pre @ [backslash_char]" "d # r"] assms by (simp add: utf8_append is_ascii_def)
  moreover have "lead_width d = 1" using assms(3) by (simp add: lead_width_def is_ascii_def)
  ultimately show ?thesis
    by (simp add: string_step_def char_width_def get_at_def nth_append)
qed

lemma string_step_char:
  assumes "utf8 pre" and "utf8 (c # r)" and "c \<notin> {quote_char, backslash_char, LF, CR}"
  shows "string_step (pre @ c # r) (length pre) = Return (Inr (length pre + lead_width c))"
  using assms(3) boundary_after [OF assms(1,2)]
  by (simp add: string_step_def char_width_def get_at_def)

lemma esc_scalar: "byte c \<ge> 128 \<Longrightarrow> esc c = [c]"
  by (auto simp: esc_def)

lemma utf8_esc: "utf8 v \<Longrightarrow> utf8 (concat (map esc v))"
proof (induction v rule: utf8_induct)
  case (one a s)
  then show ?case by (auto simp: esc_def is_ascii_def)
next
  case (two a b s)
  then show ?case by (simp add: esc_scalar scalar2_def is_cont_def utf8_scalar)
next
  case (three a b c s)
  then show ?case by (simp add: esc_scalar scalar3_def is_cont_def utf8_scalar)
next
  case (four a b c d s)
  then show ?case by (simp add: esc_scalar scalar4_def is_cont_def utf8_scalar)
qed simp

lemma esc_cases:
  obtains (plain) "esc c = [c]" "c \<notin> {quote_char, backslash_char, LF, CR}"
  | (escaped) d where "esc c = [backslash_char, d]" "is_ascii d"
  by (cases "c \<in> {quote_char, backslash_char, LF, CR}") (auto simp: esc_def is_ascii_def)

lemma non_ascii_plain: "\<not> is_ascii c \<Longrightarrow> c \<notin> {quote_char, backslash_char, LF, CR}"
  by (auto simp: is_ascii_def)

lemma string_loop_chunk:
  assumes "utf8 pre" and "utf8 (p @ r)" and "p \<noteq> []" and "\<not> is_ascii (hd p)"
    and "length p = lead_width (hd p)"
  shows "string_loop (pre @ p @ r) (length pre) = string_loop (pre @ p @ r) (length (pre @ p))"
proof -
  obtain c q where p: "p = c # q" using assms(3) by (cases p) auto
  with assms non_ascii_plain [of c] string_step_char [OF assms(1), of c "q @ r"]
  have "string_step (pre @ p @ r) (length pre) = Return (Inr (length (pre @ p)))" by simp
  then show ?thesis using assms(3) by (intro string_loop_continue) simp_all
qed

lemma string_loop_esc:
  "utf8 v \<Longrightarrow> utf8 pre \<Longrightarrow>
   string_loop (pre @ concat (map esc v) @ [quote_char]) (length pre) =
     Return (length (pre @ concat (map esc v) @ [quote_char]), True)"
proof (induction v arbitrary: pre rule: utf8_induct)
  case Nil
  then show ?case by (subst string_loop.simps) (simp add: string_step_def nth_append)
next
  case (one a s)
  let ?r = "concat (map esc s) @ [quote_char]"
  have r: "utf8 ?r" using utf8_esc [OF one(2)] by (simp add: utf8_append is_ascii_def)
  show ?case
  proof (cases a rule: esc_cases)
    case plain
    have "string_step (pre @ a # ?r) (length pre) = Return (Inr (length (pre @ [a])))"
      using string_step_char [OF one.prems _ plain(2), of ?r] r one(1)
      by (simp add: lead_width_def is_ascii_def)
    then have "string_loop (pre @ a # ?r) (length pre) = string_loop (pre @ a # ?r) (length (pre @ [a]))"
      by (intro string_loop_continue) simp_all
    with one.IH [of "pre @ [a]"] one(1) one.prems plain(1) show ?thesis by (simp add: utf8_append)
  next
    case (escaped d)
    have "string_step (pre @ backslash_char # d # ?r) (length pre) = Return (Inr (length (pre @ [backslash_char, d])))"
      using string_step_escape [OF one.prems r escaped(2)] by simp
    then have "string_loop (pre @ backslash_char # d # ?r) (length pre) =
        string_loop (pre @ backslash_char # d # ?r) (length (pre @ [backslash_char, d]))"
      by (intro string_loop_continue) simp_all
    moreover have "utf8 (pre @ [backslash_char, d])"
      using one.prems escaped(2) by (simp add: utf8_append is_ascii_def)
    ultimately show ?thesis using one.IH [of "pre @ [backslash_char, d]"] escaped(1) by simp
  qed
next
  case (two a b s)
  then have na: "128 \<le> byte a" "128 \<le> byte b" by (auto simp: scalar2_def is_cont_def)
  have "utf8 (concat (map esc s) @ [quote_char])" using utf8_esc [OF two(2)] by (simp add: utf8_append is_ascii_def)
  with two na string_loop_chunk [of pre "[a, b]" "concat (map esc s) @ [quote_char]"] two.IH [of "pre @ [a, b]"]
  show ?case by (simp add: esc_scalar utf8_scalar utf8_append is_ascii_def lead_width_def scalar2_def)
next
  case (three a b c s)
  then have na: "128 \<le> byte a" "128 \<le> byte b" "128 \<le> byte c" by (auto simp: scalar3_def is_cont_def)
  have "utf8 (concat (map esc s) @ [quote_char])" using utf8_esc [OF three(2)] by (simp add: utf8_append is_ascii_def)
  with three na string_loop_chunk [of pre "[a, b, c]" "concat (map esc s) @ [quote_char]"] three.IH [of "pre @ [a, b, c]"]
  show ?case by (simp add: esc_scalar utf8_scalar utf8_append is_ascii_def lead_width_def scalar3_def)
next
  case (four a b c d s)
  then have na: "128 \<le> byte a" "128 \<le> byte b" "128 \<le> byte c" "128 \<le> byte d"
    by (auto simp: scalar4_def is_cont_def)
  have "utf8 (concat (map esc s) @ [quote_char])" using utf8_esc [OF four(2)] by (simp add: utf8_append is_ascii_def)
  with four na string_loop_chunk [of pre "[a, b, c, d]" "concat (map esc s) @ [quote_char]"] four.IH [of "pre @ [a, b, c, d]"]
  show ?case by (simp add: esc_scalar utf8_scalar utf8_append is_ascii_def lead_width_def scalar4_def)
qed

lemma lua_string_literal:
  assumes "utf8 v"
  shows "string_literal (lua_string v)"
  using string_loop_esc [OF assms, of "[quote_char]"]
  by (simp add: string_literal_def lua_string_esc is_ascii_def)

text \<open>
  C22. A string printed for Lua reads back as itself: between its quotes, Lua's escapes restore
  the value, no line break remains, and the whole text is one string token of the surface
  syntax Rua and Lua share.
\<close>

theorem lua_string_roundtrip:
  assumes "utf8 v"
  shows "(\<exists>body. lua_string v = [quote_char] @ body @ [quote_char] \<and> lua_unescape body = Some v
            \<and> LF \<notin> set body \<and> CR \<notin> set body)
    \<and> lex_step (lua_string v) 0 = Return (Str, length (lua_string v), None)"
proof -
  have "string_loop (lua_string v) 1 = Return (length (lua_string v), True)"
    using lua_string_literal [OF assms] by (simp add: string_literal_def)
  moreover have "lua_string v ! 0 = quote_char" by (simp add: lua_string_esc)
  ultimately have "lex_step (lua_string v) 0 = Return (Str, length (lua_string v), None)"
    by (simp add: lex_step_def lex_string_def is_lex_space_def starts_at_def lua_string_esc)
  then show ?thesis using lua_string_esc [of v] lua_unescape_esc [of v] esc_no_break [of v] by blast
qed

lemma lua_string_roundtrip_witness:
  "lex_step (lua_string [CHR ''a'', quote_char, LF]) 0 = Return (Str, length (lua_string [CHR ''a'', quote_char, LF]), None)"
  using lua_string_roundtrip [of "[CHR ''a'', quote_char, LF]"] by (simp add: is_ascii_def)

section \<open>Lua's expression grammar\<close>

text \<open>
  Levels of the manual, from loosest to tightest: 1 \<open>or\<close>, 2 \<open>and\<close>, 3 comparison,
  4 \<open>..\<close> (right-associative), 5 additive, 6 multiplicative, 7 unary operators and
  everything tighter. \<open>lua_exp p s e\<close>: the text \<open>s\<close> is an expression of level at least
  \<open>p\<close> that denotes \<open>e\<close>. A minus sign directly before another one would start a comment,
  so negation needs an operand that does not start with one.
\<close>

definition numeral_text :: "bytes \<Rightarrow> bool" where
  "numeral_text s \<longleftrightarrow> s \<noteq> [] \<and> hd s \<noteq> CHR ''-''
     \<and> list_all (\<lambda>c. is_ascii_alphanumeric c \<or> c = CHR ''.'' \<or> c = CHR ''+'' \<or> c = CHR ''-'') s"

inductive lua_exp :: "nat \<Rightarrow> bytes \<Rightarrow> Expr \<Rightarrow> bool"
and lua_prefix :: "bytes \<Rightarrow> Expr \<Rightarrow> bool"
and lua_field :: "bytes \<Rightarrow> TableField \<Rightarrow> bool" where
  g_nil: "lua_exp p ''nil'' ENil"
| g_true: "lua_exp p ''true'' (EBool True)"
| g_false: "lua_exp p ''false'' (EBool False)"
| g_integer: "numeral_text s \<Longrightarrow> lua_exp p s (EInteger s)"
| g_number: "numeral_text s \<Longrightarrow> lua_exp p s (ENumber s)"
| g_negative_integer: "numeral_text s \<Longrightarrow> p \<le> 7 \<Longrightarrow> lua_exp p (CHR ''-'' # s) (EInteger (CHR ''-'' # s))"
| g_negative_number: "numeral_text s \<Longrightarrow> p \<le> 7 \<Longrightarrow> lua_exp p (CHR ''-'' # s) (ENumber (CHR ''-'' # s))"
| g_string: "string_literal s \<Longrightarrow> lua_exp p s (EStringLiteral s)"
| g_prefix: "lua_prefix s e \<Longrightarrow> lua_exp p s e"
| g_neg: "lua_exp 7 s e \<Longrightarrow> s \<noteq> [] \<Longrightarrow> hd s \<noteq> CHR ''-'' \<Longrightarrow> p \<le> 7 \<Longrightarrow> lua_exp p (''-'' @ s) (EUnary OpNeg e)"
| g_not: "lua_exp 7 s e \<Longrightarrow> p \<le> 7 \<Longrightarrow> lua_exp p (''not '' @ s) (EUnary OpNot e)"
| g_len: "lua_exp 7 s e \<Longrightarrow> p \<le> 7 \<Longrightarrow> lua_exp p (''#'' @ s) (EUnary OpLen e)"
| g_left: "op \<noteq> OpConcat \<Longrightarrow> lua_exp (precedence op) l a \<Longrightarrow> lua_exp (precedence op + 1) r b \<Longrightarrow>
     p \<le> precedence op \<Longrightarrow> lua_exp p (l @ '' '' @ op_source op @ '' '' @ r) (EBinary a op b)"
| g_concat: "lua_exp 5 l a \<Longrightarrow> lua_exp 4 r b \<Longrightarrow> p \<le> 4 \<Longrightarrow>
     lua_exp p (l @ '' '' @ op_source OpConcat @ '' '' @ r) (EBinary a OpConcat b)"
| g_empty_table: "lua_exp p ''{}'' (ETable [])"
| g_table: "ss \<noteq> [] \<Longrightarrow> list_all2 lua_field ss fs \<Longrightarrow> lua_exp p (''{ '' @ join '', '' ss @ '' }'') (ETable fs)"
| g_name: "is_lua_identifier n \<Longrightarrow> lua_prefix n (EName n)"
| g_field: "lua_prefix s e \<Longrightarrow> is_lua_identifier n \<Longrightarrow> lua_prefix (s @ ''.'' @ n) (EField e n)"
| g_index: "lua_prefix s e \<Longrightarrow> lua_exp 0 t i \<Longrightarrow> lua_prefix (s @ ''['' @ t @ '']'') (EIndex e i)"
| g_call: "lua_prefix s e \<Longrightarrow> list_all2 (lua_exp 0) ts args \<Longrightarrow>
     lua_prefix (s @ parens (join '', '' ts)) (ECall e args)"
| g_method: "lua_prefix s e \<Longrightarrow> is_lua_identifier m \<Longrightarrow> list_all2 (lua_exp 0) ts args \<Longrightarrow>
     lua_prefix (s @ '':'' @ m @ parens (join '', '' ts)) (EMethodCall e m args)"
| g_parens: "lua_exp 0 s e \<Longrightarrow> lua_prefix (parens s) e"
| g_named: "is_lua_identifier n \<Longrightarrow> lua_exp 0 s e \<Longrightarrow> lua_field (n @ '' = '' @ s) (TNamed n e)"
| g_named_string: "\<not> is_lua_identifier n \<Longrightarrow> string_literal (lua_string n) \<Longrightarrow> lua_exp 0 s e \<Longrightarrow>
     lua_field ((''['' @ lua_string n @ '']'') @ '' = '' @ s) (TNamed n e)"
| g_indexed: "lua_exp 0 t i \<Longrightarrow> lua_exp 0 s e \<Longrightarrow>
     lua_field (''['' @ t @ ''] = '' @ s) (TIndexed i e)"
| g_value: "lua_exp 0 s e \<Longrightarrow> lua_field s (TValue e)"

inductive_simps lua_field_TValue: "lua_field s (TValue e)"

text \<open>The expression without the parentheses that only group.\<close>

fun strip :: "Expr \<Rightarrow> Expr" and strip_field :: "TableField \<Rightarrow> TableField" where
  "strip (EParenthesized e) = strip e"
| "strip (EField e n) = EField (strip e) n"
| "strip (EIndex e i) = EIndex (strip e) (strip i)"
| "strip (ECall e args) = ECall (strip e) (map strip args)"
| "strip (EMethodCall e m args) = EMethodCall (strip e) m (map strip args)"
| "strip (EUnary op e) = EUnary op (strip e)"
| "strip (EBinary a op b) = EBinary (strip a) op (strip b)"
| "strip (ETable fs) = ETable (map strip_field fs)"
| "strip e = e"
| "strip_field (TNamed n e) = TNamed n (strip e)"
| "strip_field (TIndexed i e) = TIndexed (strip i) (strip e)"
| "strip_field (TValue e) = TValue (strip e)"

text \<open>Operands whose text starts with a minus sign.\<close>

fun starts_minus :: "Expr \<Rightarrow> bool" where
  "starts_minus (EInteger s) = (s \<noteq> [] \<and> hd s = CHR ''-'')"
| "starts_minus (ENumber s) = (s \<noteq> [] \<and> hd s = CHR ''-'')"
| "starts_minus (EUnary OpNeg e) = True"
| "starts_minus _ = False"

definition number_ok :: "bytes \<Rightarrow> bool" where
  "number_ok s \<longleftrightarrow> numeral_text s \<or> (\<exists>t. s = CHR ''-'' # t \<and> numeral_text t)"

text \<open>
  The expressions code generation builds: leaves are Lua tokens, names and fields are Lua
  identifiers as the constructors assert, and no negation applies to an operand that starts
  with a minus sign.
\<close>

fun lua_ok :: "Expr \<Rightarrow> bool" and field_ok :: "TableField \<Rightarrow> bool" where
  "lua_ok ENil = True"
| "lua_ok (EBool b) = True"
| "lua_ok (EInteger s) = number_ok s"
| "lua_ok (ENumber s) = number_ok s"
| "lua_ok (EStringLiteral s) = string_literal s"
| "lua_ok (EName n) = is_lua_identifier n"
| "lua_ok (EField e n) = (lua_ok e \<and> is_lua_identifier n)"
| "lua_ok (EIndex e i) = (lua_ok e \<and> lua_ok i)"
| "lua_ok (ECall e args) = (lua_ok e \<and> list_all lua_ok args)"
| "lua_ok (EMethodCall e m args) = (lua_ok e \<and> is_lua_identifier m \<and> list_all lua_ok args)"
| "lua_ok (EUnary op e) = (lua_ok e \<and> (op = OpNeg \<longrightarrow> \<not> starts_minus e))"
| "lua_ok (EBinary a op b) = (lua_ok a \<and> lua_ok b)"
| "lua_ok (ETable fs) = list_all field_ok fs"
| "lua_ok (EParenthesized e) = lua_ok e"
| "field_ok (TNamed n e) = (utf8 n \<and> lua_ok e)"
| "field_ok (TIndexed i e) = (lua_ok i \<and> lua_ok e)"
| "field_ok (TValue e) = lua_ok e"

text \<open>The grammar level the printer promises for a child printed in a context.\<close>

definition level :: "nat \<Rightarrow> bool \<Rightarrow> nat" where
  "level parent right =
     (if parent = 4 then (if right then 4 else 5) else if right then parent + 1 else parent)"

lemma needs_parens_level: "\<not> needs_parens op parent right \<Longrightarrow> level parent right \<le> precedence op"
  by (cases op) (auto simp: needs_parens_def level_def split: if_splits)

lemma level_operands:
  "level 0 False = 0" "level 7 False = 7"
  "op \<noteq> OpConcat \<Longrightarrow> level (precedence op) False = precedence op"
  "op \<noteq> OpConcat \<Longrightarrow> level (precedence op) True = precedence op + 1"
  "level 4 False = 5" "level 4 True = 4"
  by (cases op; simp add: level_def)+

lemma precedence_bound: "precedence op \<le> 6"
  by (cases op) auto

lemma level_bound: "parent \<le> 7 \<Longrightarrow> (right \<Longrightarrow> parent \<le> 6) \<Longrightarrow> level parent right \<le> 7"
  by (auto simp: level_def)

lemma lua_identifier_head: "is_lua_identifier n \<Longrightarrow> n \<noteq> [] \<and> hd n \<noteq> CHR ''-''"
  by (cases n) (auto simp: is_lua_identifier_def ascii_class_defs)

text \<open>No text starts with a minus sign unless the expression does.\<close>

lemma prefix_head:
  "lua_exp p s e \<Longrightarrow> True"
  "lua_prefix s' e' \<Longrightarrow> s' \<noteq> [] \<and> hd s' \<noteq> CHR ''-''"
  "lua_field s'' f \<Longrightarrow> True"
  by (induction rule: lua_exp_lua_prefix_lua_field.inducts) (auto simp: parens_def lua_identifier_head)

lemma prefix_done:
  "lua_prefix s e \<Longrightarrow> lua_exp p s e \<and> (P \<longrightarrow> lua_prefix s e) \<and> s \<noteq> [] \<and> (Q \<longrightarrow> hd s \<noteq> CHR ''-'')"
  using prefix_head(2) g_prefix by blast

lemma prefix_text_grammar:
  assumes "lua_exp 0 s e" and "is_prefix_form b \<longrightarrow> lua_prefix s e"
  shows "lua_prefix (prefix_text b s) e"
  using assms by (auto simp: prefix_text_def intro: g_parens)

lemma list_grammar:
  "\<forall>x \<in> set xs. lua_exp 0 (f x) (g x) \<Longrightarrow> list_all2 (lua_exp 0) (map f xs) (map g xs)"
  by (induction xs) auto

lemma number_ok_head: "number_ok s \<Longrightarrow> s \<noteq> []"
  by (auto simp: number_ok_def numeral_text_def)

lemma expression_grammar:
  "lua_ok e \<Longrightarrow> parent \<le> 7 \<Longrightarrow> (right \<Longrightarrow> parent \<le> 6) \<Longrightarrow>
     lua_exp (level parent right) (expression_at e parent right) (strip e)
     \<and> (is_prefix_form e \<longrightarrow> lua_prefix (expression_at e parent right) (strip e))
     \<and> expression_at e parent right \<noteq> []
     \<and> (7 \<le> parent \<and> \<not> starts_minus e \<longrightarrow> hd (expression_at e parent right) \<noteq> CHR ''-'')"
  "field_ok f \<Longrightarrow> lua_field (table_field f) (strip_field f)"
proof (induction e parent right and f rule: expression_at_table_field.induct)
  case (3 s parent right)
  then show ?case
    by (auto simp: number_ok_def numeral_text_def level_bound intro: lua_exp_lua_prefix_lua_field.intros)
next
  case (4 s parent right)
  then show ?case
    by (auto simp: number_ok_def numeral_text_def level_bound intro: lua_exp_lua_prefix_lua_field.intros)
next
  case (5 s parent right)
  then show ?case
    by (auto simp: string_literal_def intro: lua_exp_lua_prefix_lua_field.intros)
next
  case (6 n parent right)
  then show ?case
    using lua_identifier_head [of n] by (auto intro: lua_exp_lua_prefix_lua_field.intros)
next
  case (7 base name parent right)
  then have "lua_prefix (prefix_text base (expression_at base 0 False)) (strip base)"
    by (intro prefix_text_grammar) (simp_all add: level_operands)
  from g_field [OF this, of name] 7 show ?case
    unfolding expression_at.simps strip.simps by (intro prefix_done) simp
next
  case (8 base index parent right)
  then have "lua_prefix (prefix_text base (expression_at base 0 False)) (strip base)"
    by (intro prefix_text_grammar) (simp_all add: level_operands)
  from g_index [OF this, of "expression_at index 0 False" "strip index"] 8 show ?case
    unfolding expression_at.simps strip.simps by (intro prefix_done) (simp add: level_operands)
next
  case (9 callee args parent right)
  then have "lua_prefix (prefix_text callee (expression_at callee 0 False)) (strip callee)"
    by (intro prefix_text_grammar) (simp_all add: level_operands)
  moreover have "list_all2 (lua_exp 0) (map (\<lambda>e. expression_at e 0 False) args) (map strip args)"
    using 9 by (intro list_grammar) (simp add: level_operands list_all_iff)
  ultimately show ?case
    unfolding expression_at.simps strip.simps by (intro prefix_done g_call)
next
  case (10 receiver m args parent right)
  then have "lua_prefix (prefix_text receiver (expression_at receiver 0 False)) (strip receiver)"
    by (intro prefix_text_grammar) (simp_all add: level_operands)
  moreover have "list_all2 (lua_exp 0) (map (\<lambda>e. expression_at e 0 False) args) (map strip args)"
    using 10 by (intro list_grammar) (simp add: level_operands list_all_iff)
  ultimately show ?case
    using 10(3) unfolding expression_at.simps strip.simps by (intro prefix_done g_method) simp_all
next
  case (11 op e parent right)
  let ?s = "expression_at e 7 False"
  have IH: "lua_exp 7 ?s (strip e)" "?s \<noteq> []" "\<not> starts_minus e \<longrightarrow> hd ?s \<noteq> CHR ''-''"
    using "11.IH" "11.prems" by (simp_all add: level_operands)
  have eq: "expression_at (EUnary op e) parent right = unary_text op ?s"
    using "11.prems"(2) by simp
  have lv: "level parent right \<le> 7" using level_bound "11.prems"(2,3) by blast
  have "lua_exp (level parent right) (unary_text op ?s) (EUnary op (strip e))"
    using IH lv "11.prems"(1) g_neg [OF IH(1,2) _ lv] g_not [OF IH(1) lv] g_len [OF IH(1) lv]
    by (cases op) (simp_all add: unary_text_def)
  moreover have "unary_text op ?s \<noteq> []" "op \<noteq> OpNeg \<Longrightarrow> hd (unary_text op ?s) \<noteq> CHR ''-''"
    by (cases op; simp add: unary_text_def)+
  ultimately show ?case
    unfolding eq by (cases op) simp_all
next
  case (12 left op rt parent right)
  let ?l = "expression_at left (precedence op) False" and ?r = "expression_at rt (precedence op) True"
  let ?t = "?l @ '' '' @ op_source op @ '' '' @ ?r"
  have IH: "lua_exp (level (precedence op) False) ?l (strip left)"
    "lua_exp (level (precedence op) True) ?r (strip rt)" "?l \<noteq> []"
    using "12.IH" "12.prems" precedence_bound [of op] by (simp_all add: le_SucI)
  have derive: "lua_exp p ?t (EBinary (strip left) op (strip rt))" if "p \<le> precedence op" for p
  proof (cases "op = OpConcat")
    case True
    with IH that show ?thesis using g_concat [of ?l "strip left" ?r "strip rt" p] by (simp add: level_operands)
  next
    case False
    with IH that show ?thesis
      using g_left [OF False, of ?l "strip left" ?r "strip rt" p] by (simp add: level_operands)
  qed
  show ?case
  proof (cases "needs_parens op parent right")
    case True
    then have "expression_at (EBinary left op rt) parent right = parens ?t" by (simp add: Let_def)
    moreover have "lua_prefix (parens ?t) (EBinary (strip left) op (strip rt))" by (rule g_parens [OF derive]) simp
    ultimately show ?thesis using prefix_done by simp
  next
    case False
    then have "expression_at (EBinary left op rt) parent right = ?t" by (simp add: Let_def)
    moreover have "\<not> 7 \<le> parent"
      using False precedence_bound [of op] by (auto simp: needs_parens_def)
    ultimately show ?thesis using derive [OF needs_parens_level [OF False]] by simp
  qed
next
  case (13 entries parent right)
  show ?case
  proof (cases "entries = []")
    case False
    have "list_all2 lua_field (map table_field entries) (map strip_field entries)"
    proof -
      have "lua_field (table_field x) (strip_field x)" if "x \<in> set entries" for x
        using "13.IH" [OF False that] "13.prems"(1) that by (simp add: list_all_iff)
      then show ?thesis by (auto simp: list_all2_conv_all_nth)
    qed
    with False g_table [of "map table_field entries" "map strip_field entries"] show ?thesis by simp
  qed (simp add: g_empty_table)
next
  case (14 e parent right)
  then have "lua_prefix (parens (expression_at e 0 False)) (strip e)"
    by (intro g_parens) (simp add: level_operands)
  then show ?case unfolding expression_at.simps strip.simps by (intro prefix_done)
next
  case (15 name v)
  then show ?case
    using g_named [of name] g_named_string [of name] lua_string_literal [of name]
    by (simp add: level_operands table_key_def)
next
  case (16 index v)
  then show ?case using g_indexed by (simp add: level_operands)
next
  case (17 v)
  then show ?case by (simp add: level_operands g_value)
qed (auto intro: lua_exp_lua_prefix_lua_field.intros)

text \<open>
  C23. Every expression of the IR whose negations do not meet a minus sign prints as a Lua
  expression that denotes it: the parentheses the printer leaves out are the ones Lua's
  operator levels and associativity make redundant, wherever the expression stands.
\<close>

theorem expression_prints_lua:
  assumes "lua_ok e"
  shows "lua_exp 0 (expression e) (strip e) \<and> lua_prefix (prefix_expression e) (strip e)"
  using expression_grammar(1) [OF assms, of 0 False] prefix_text_grammar [of "expression_at e 0 False" "strip e" e]
  by (simp add: expression_def prefix_expression_def level_operands)

lemma expression_prints_lua_witness:
  "lua_exp 0 ''(a .. b) .. -c * 2''
     (EBinary (EBinary (EName ''a'') OpConcat (EName ''b'')) OpConcat
       (EBinary (EUnary OpNeg (EName ''c'')) OpMul (EInteger ''2'')))"
  using expression_prints_lua [of "EBinary (EBinary (EName ''a'') OpConcat (EName ''b'')) OpConcat
       (EBinary (EUnary OpNeg (EName ''c'')) OpMul (EInteger ''2''))"]
  by (simp add: expression_def needs_parens_def parens_def unary_text_def is_lua_identifier_def
      lua_keywords_def number_ok_def numeral_text_def ascii_class_defs)

text \<open>
  C28. The case left out: the negation of a negation, or of a negative literal, prints with two
  minus signs in a row, which Lua reads as the start of a comment.
\<close>

theorem double_negation_prints_comment:
  "starts_with ''--'' (expression (EUnary OpNeg (EUnary OpNeg e)))
   \<and> (starts_with ''-'' v \<longrightarrow> starts_with ''--'' (expression (EUnary OpNeg (EInteger v))))"
  by (auto simp: expression_def unary_text_def starts_with_iff)

lemma double_negation_prints_comment_witness:
  "starts_with ''--'' (expression (EUnary OpNeg (EUnary OpNeg (EName ''x''))))
   \<and> starts_with ''--'' (expression (EUnary OpNeg (EInteger ''-1'')))"
  using double_negation_prints_comment [of "EName ''x''" "''-1''"] by (simp add: starts_with_def)

end
