(* ===== verification/Lua_Block_Props.thy ===== *)
theory Lua_Block_Props
  imports Lua_Block "HOL-Library.Multiset"
begin

text \<open>
  The builder and the statement printer. The builder keeps its frames well formed whatever
  code generation calls, so its only panics are the misuses it asserts; replaying a block
  through it yields the block. The printer only appends whole lines, and its source map spans
  the printed statements, sorted and properly nested.
\<close>

section \<open>Builder states\<close>

fun wf_frame :: "Frame \<Rightarrow> bool" where
  "wf_frame (FRoot _) = False"
| "wf_frame (FIf branches else_body (ActiveBranch i)) = (i < length branches \<and> else_body = None)"
| "wf_frame (FIf branches else_body ActiveElse) = (branches \<noteq> [] \<and> else_body \<noteq> None)"
| "wf_frame _ = True"

definition wf_builder :: "Builder \<Rightarrow> bool" where
  "wf_builder b \<longleftrightarrow> (\<exists>inner root. frames b = inner @ [FRoot root] \<and> list_all wf_frame inner)"

text \<open>What code generation can do to a builder: every method that returns.\<close>

inductive builder_step :: "Builder \<Rightarrow> Builder \<Rightarrow> bool" where
  "builder_step b (push_anchor r b)"
| "pop_anchor b = Return b' \<Longrightarrow> builder_step b b'"
| "add_statement s b = Return b' \<Longrightarrow> builder_step b b'"
| "add_expression e b = Return b' \<Longrightarrow> builder_step b b'"
| "add_local names vals b = Return b' \<Longrightarrow> builder_step b b'"
| "compact_if c stmts b = Return b' \<Longrightarrow> builder_step b b'"
| "add_blank b = Return b' \<Longrightarrow> builder_step b b'"
| "builder_step b (begin_do b)"
| "builder_step b (begin_while c b)"
| "builder_step b (begin_numeric_for v start stop step b)"
| "builder_step b (begin_function target params b)"
| "builder_step b (begin_if c b)"
| "begin_else_if c b = Return b' \<Longrightarrow> builder_step b b'"
| "begin_else b = Return b' \<Longrightarrow> builder_step b b'"
| "end_block b = Return b' \<Longrightarrow> builder_step b b'"

inductive builder_reaches :: "Builder \<Rightarrow> bool" where
  new: "builder_reaches Builder_new"
| step: "builder_reaches b \<Longrightarrow> builder_step b b' \<Longrightarrow> builder_reaches b'"

lemma update_block_wf:
  "wf_frame fr \<Longrightarrow> \<exists>fr'. update_block f fr = Return fr' \<and> wf_frame fr'"
  by (cases "(f, fr)" rule: update_block.cases) auto

lemma update_block_root: "update_block f (FRoot block) = Return (FRoot (f block))"
  by simp

lemma with_current_block_wf:
  assumes "wf_builder b"
  obtains b' where "with_current_block f b = Return b'" and "wf_builder b'"
    and "length (frames b') = length (frames b)" and "anchors b' = anchors b"
proof -
  obtain inner root where fr: "frames b = inner @ [FRoot root]" and wf: "list_all wf_frame inner"
    using assms by (auto simp: wf_builder_def)
  show thesis
  proof (cases inner)
    case Nil
    with fr that [of "b\<lparr>frames := [FRoot (f root)]\<rparr>"] show thesis
      by (auto simp: with_current_block_def wf_builder_def)
  next
    case (Cons x rest)
    with wf update_block_wf [of x f] obtain x' where "update_block f x = Return x'" "wf_frame x'" by auto
    with Cons fr wf that [of "b\<lparr>frames := x' # rest @ [FRoot root]\<rparr>"] show thesis
      by (auto simp: with_current_block_def wf_builder_def intro!: exI [of _ "x' # rest"])
  qed
qed

lemma add_statement_wf:
  assumes "wf_builder b"
  obtains b' where "add_statement s b = Return b'" and "wf_builder b'"
    and "length (frames b') = length (frames b)" and "anchors b' = anchors b"
  using with_current_block_wf [OF assms] unfolding add_statement_def by metis

lemma push_frame_wf: "wf_builder b \<Longrightarrow> wf_frame fr \<Longrightarrow> wf_builder (push_frame fr b)"
proof -
  assume "wf_builder b" and fr: "wf_frame fr"
  then obtain inner root where "frames b = inner @ [FRoot root]" "list_all wf_frame inner"
    by (auto simp: wf_builder_def)
  with fr show ?thesis
    by (auto simp: wf_builder_def push_frame_def intro!: exI [of _ "fr # inner"])
qed

lemma wf_builder_if:
  assumes "wf_builder b" and "frames b = FIf branches else_body act # rest" and "wf_frame fr"
  shows "wf_builder (b\<lparr>frames := fr # rest\<rparr>)"
proof -
  obtain inner root where fr: "frames b = inner @ [FRoot root]" and wf: "list_all wf_frame inner"
    using assms(1) by (auto simp: wf_builder_def)
  with assms(2) obtain tail where "inner = FIf branches else_body act # tail" "rest = tail @ [FRoot root]"
    by (cases inner) auto
  with wf assms(3) show ?thesis by (auto simp: wf_builder_def intro!: exI [of _ "fr # tail"])
qed

lemma end_block_wf:
  assumes "wf_builder b" and "length (frames b) > 1"
  obtains b' where "end_block b = Return b'" and "wf_builder b'"
    and "length (frames b') = length (frames b) - 1"
proof -
  obtain inner root where fr: "frames b = inner @ [FRoot root]" and wf: "list_all wf_frame inner"
    using assms(1) by (auto simp: wf_builder_def)
  with assms(2) obtain x rest where inner: "inner = x # rest" by (cases inner) auto
  with wf have "wf_frame x" by simp
  then obtain s where s: "frame_statement x = Return s" by (cases x) auto
  have "wf_builder (b\<lparr>frames := rest @ [FRoot root]\<rparr>)" using wf inner by (auto simp: wf_builder_def)
  from add_statement_wf [OF this, of s] obtain b' where
    "add_statement s (b\<lparr>frames := rest @ [FRoot root]\<rparr>) = Return b'" "wf_builder b'"
    "length (frames b') = length (rest @ [FRoot root])" by auto
  with fr inner s assms(2) that show thesis by (simp add: end_block_def)
qed

lemma builder_step_wf: "builder_step b b' \<Longrightarrow> wf_builder b \<Longrightarrow> wf_builder b'"
proof (induction rule: builder_step.induct)
  case (13 c b b')
  then obtain branches else_body act rest where fr: "frames b = FIf branches else_body act # rest"
    and b': "b' = b\<lparr>frames := FIf (branches @ [IfBranch c (Block [])]) None (ActiveBranch (length branches)) # rest\<rparr>"
    by (auto simp: begin_else_if_def split: list.splits Frame.splits)
  from wf_builder_if [OF 13(2) fr] b' show ?case by simp
next
  case (14 b b')
  then obtain branches else_body act rest where fr: "frames b = FIf branches else_body act # rest"
    and b': "b' = b\<lparr>frames := FIf branches (Some (Block [])) ActiveElse # rest\<rparr>" and e: "else_body = None"
    by (auto simp: begin_else_def split: list.splits Frame.splits)
  have "wf_frame (FIf branches else_body act)"
    using 14(2) fr by (auto simp: wf_builder_def Cons_eq_append_conv)
  with e have "branches \<noteq> []" by (cases act) auto
  with wf_builder_if [OF 14(2) fr] b' show ?case by simp
next
  case (15 b b')
  then have "length (frames b) > 1" by (simp add: end_block_def)
  from end_block_wf [OF 15(2) this] 15(1) show ?case by auto
next
  case (3 s b b')
  with add_statement_wf [of b s] show ?case by auto
next
  case (4 e b b')
  with add_statement_wf [of b "SExpression e"] show ?case by (auto simp: add_expression_def)
next
  case (5 names vals b b')
  with add_statement_wf [of b "SLocal names vals"] show ?case by (auto simp: add_local_def)
next
  case (6 c stmts b b')
  with add_statement_wf [of b "SCompactIf c stmts"] show ?case by (auto simp: compact_if_def)
next
  case (7 b b')
  with with_current_block_wf [of b push_blank] show ?case by (auto simp: add_blank_def)
next
  case (1 b r)
  then show ?case by (simp add: wf_builder_def push_anchor_def)
next
  case (2 b b')
  then show ?case by (auto simp: wf_builder_def pop_anchor_def split: list.splits)
qed (auto simp: begin_do_def begin_while_def begin_numeric_for_def begin_function_def begin_if_def
    intro: push_frame_wf)

lemma builder_reaches_wf: "builder_reaches b \<Longrightarrow> wf_builder b"
proof (induction rule: builder_reaches.induct)
  case new
  show ?case by (simp add: Builder_new_def wf_builder_def)
next
  case (step b b')
  then show ?case using builder_step_wf by blast
qed

lemma finish_wf:
  assumes "wf_builder b"
  shows "(\<exists>block. finish b = Return block) \<longleftrightarrow> length (frames b) = 1"
proof -
  obtain inner root where fr: "frames b = inner @ [FRoot root]" using assms by (auto simp: wf_builder_def)
  show ?thesis
  proof (cases inner)
    case (Cons x rest)
    with fr show ?thesis by (cases x; cases rest) (simp_all add: finish_def)
  qed (use fr in \<open>simp add: finish_def\<close>)
qed

text \<open>
  C24. A builder that code generation can reach panics only on the misuses it asserts: adding a
  statement or a blank line always succeeds, closing a block fails exactly at the root, taking
  the result fails exactly while a block is open, and an \<open>else\<close> or \<open>elseif\<close> fails exactly
  when the innermost block is not an \<open>if\<close> still without an \<open>else\<close>.
\<close>

theorem builder_panics_only_on_misuse:
  assumes "builder_reaches b"
  shows "add_statement s b \<noteq> Panic \<and> add_blank b \<noteq> Panic
    \<and> (end_block b = Panic \<longleftrightarrow> length (frames b) = 1)
    \<and> (finish b = Panic \<longleftrightarrow> length (frames b) \<noteq> 1)
    \<and> (begin_else b = Panic \<longleftrightarrow> \<not> (\<exists>branches act rest. frames b = FIf branches None act # rest))
    \<and> (begin_else_if c b = Panic \<longleftrightarrow> begin_else b = Panic)"
proof -
  have wf: "wf_builder b" by (rule builder_reaches_wf [OF assms])
  have "frames b \<noteq> []" using wf by (auto simp: wf_builder_def)
  then have "end_block b = Panic \<longleftrightarrow> length (frames b) = 1"
  proof (cases "length (frames b) > 1")
    case True
    from end_block_wf [OF wf True] obtain b' where "end_block b = Return b'" .
    with True show ?thesis by simp
  next
    case False
    moreover from this \<open>frames b \<noteq> []\<close> have "length (frames b) = 1" by (cases "frames b") auto
    ultimately show ?thesis by (simp add: end_block_def)
  qed
  moreover have "finish b = Panic \<longleftrightarrow> length (frames b) \<noteq> 1"
    using finish_wf [OF wf] not_Panic_iff [of "finish b"] by blast
  moreover have "begin_else b = Panic \<longleftrightarrow> \<not> (\<exists>branches act rest. frames b = FIf branches None act # rest)"
    "begin_else_if c b = Panic \<longleftrightarrow> begin_else b = Panic"
    by (auto simp: begin_else_def begin_else_if_def assert_outcome_def split: list.splits Frame.splits)
  moreover have "add_statement s b \<noteq> Panic" using add_statement_wf [OF wf] by (metis outcome.distinct(1))
  moreover have "add_blank b \<noteq> Panic"
    using with_current_block_wf [OF wf] unfolding add_blank_def by (metis outcome.distinct(1))
  ultimately show ?thesis by blast
qed

lemma builder_panics_only_on_misuse_witness:
  "add_statement SBreak (begin_do Builder_new) \<noteq> Panic \<and> finish (begin_do Builder_new) = Panic"
proof -
  have "builder_reaches (begin_do Builder_new)"
    by (rule builder_reaches.step [OF builder_reaches.new builder_step.intros(8)])
  from builder_panics_only_on_misuse [OF this, of SBreak ENil]
  show ?thesis by (simp add: begin_do_def push_frame_def Builder_new_def)
qed

section \<open>The printer appends whole lines\<close>

definition whole_lines :: "bytes \<Rightarrow> bool" where
  "whole_lines s \<longleftrightarrow> s = [] \<or> last s = LF"

lemma whole_lines_simps [simp]:
  "whole_lines []" "whole_lines (s @ [LF])"
  "whole_lines s \<Longrightarrow> whole_lines t \<Longrightarrow> whole_lines (s @ t)"
  by (cases "t = []"; simp add: whole_lines_def)+

text \<open>Two mappings are nested one in the other or disjoint.\<close>

definition nested :: "SourceMapping \<Rightarrow> SourceMapping \<Rightarrow> bool" where
  "nested m n \<longleftrightarrow>
     generated_end m \<le> generated_start n \<or> generated_end n \<le> generated_start m
     \<or> (generated_start m \<le> generated_start n \<and> generated_end n \<le> generated_end m)
     \<or> (generated_start n \<le> generated_start m \<and> generated_end m \<le> generated_end n)"

text \<open>
  \<open>mapped s lo m\<close>: the mapping cuts the text \<open>s\<close> from offset \<open>lo\<close> on at line starts.
\<close>

definition mapped :: "bytes \<Rightarrow> nat \<Rightarrow> SourceMapping \<Rightarrow> bool" where
  "mapped s lo m \<longleftrightarrow>
     lo \<le> generated_start m \<and> generated_start m \<le> generated_end m \<and> generated_end m \<le> length s
     \<and> whole_lines (slice s lo (generated_start m))
     \<and> whole_lines (slice s (generated_start m) (generated_end m))"

definition extends :: "Printer \<Rightarrow> Printer \<Rightarrow> bool" where
  "extends p q \<longleftrightarrow> (\<exists>t ms.
     out q = out p @ t \<and> whole_lines t
     \<and> mappings q = mappings p @ ms
     \<and> (\<forall>m \<in> set ms. mapped (out q) (length (out p)) m)
     \<and> (\<forall>m \<in> set ms. \<forall>n \<in> set ms. nested m n))"

lemma extends_refl [simp]: "extends p p"
  by (simp add: extends_def)

lemma slice_append_left: "b \<le> length s \<Longrightarrow> slice (s @ t) a b = slice s a b"
  by (simp add: slice_def)

lemma mapped_append: "mapped s lo m \<Longrightarrow> mapped (s @ t) lo m"
  by (auto simp: mapped_def slice_append_left)

lemma mapped_earlier:
  assumes "mapped s mid m" and "lo \<le> mid" and "whole_lines (slice s lo mid)"
  shows "mapped s lo m"
proof -
  have "slice s lo (generated_start m) = slice s lo mid @ slice s mid (generated_start m)"
    using assms(1,2) by (simp add: mapped_def slice_append)
  with assms show ?thesis by (simp add: mapped_def)
qed

lemma extends_trans [trans]:
  assumes "extends p q" and "extends q r"
  shows "extends p r"
proof -
  obtain t ms where t: "out q = out p @ t" "whole_lines t" "mappings q = mappings p @ ms"
    and m1: "\<And>m. m \<in> set ms \<Longrightarrow> mapped (out q) (length (out p)) m"
    and n1: "\<And>m n. m \<in> set ms \<Longrightarrow> n \<in> set ms \<Longrightarrow> nested m n"
    using assms(1) unfolding extends_def by metis
  obtain u ns where u: "out r = out q @ u" "whole_lines u" "mappings r = mappings q @ ns"
    and m2: "\<And>m. m \<in> set ns \<Longrightarrow> mapped (out r) (length (out q)) m"
    and n2: "\<And>m n. m \<in> set ns \<Longrightarrow> n \<in> set ns \<Longrightarrow> nested m n"
    using assms(2) unfolding extends_def by metis
  have "slice (out r) (length (out p)) (length (out q)) = t"
    using t(1) u(1) by (simp add: slice_def)
  then have m2': "mapped (out r) (length (out p)) m" if "m \<in> set ns" for m
    using mapped_earlier [OF m2 [OF that]] t by simp
  have m1': "mapped (out r) (length (out p)) m" if "m \<in> set ms" for m
    using mapped_append [OF m1 [OF that]] u(1) by simp
  have "nested m n \<and> nested n m" if "m \<in> set ms" "n \<in> set ns" for m n
    using m1 [OF that(1)] m2 [OF that(2)] by (auto simp: mapped_def nested_def)
  with t u m1' m2' n1 n2 show ?thesis
    unfolding extends_def by (intro exI [of _ "t @ u"] exI [of _ "ms @ ns"]) auto
qed

lemma extends_line [simp]: "extends p (print_line indent source p)"
  by (auto simp: extends_def print_line_def)
     (metis append.assoc append_Nil2 whole_lines_simps(2))

lemma extends_blank: "extends p (p\<lparr>out := out p @ [LF]\<rparr>)"
  by (auto simp: extends_def whole_lines_def)

lemma extends_fold_lines:
  "(\<And>x p. extends p (f x p)) \<Longrightarrow> extends p (fold f xs p)"
  by (induction xs arbitrary: p) (auto intro: extends_trans)

lemma extends_raw: "extends p (print_raw source indent p)"
  by (auto simp: print_raw_def Let_def intro: extends_fold_lines)

lemma extends_table_return: "extends p (print_table_return indent entries p)"
  unfolding print_table_return_def
  by (rule extends_trans [OF extends_line extends_trans [OF extends_fold_lines extends_line]]) simp

lemma extends_return: "extends p (print_return indent vals p)"
  by (auto simp: print_return_def extends_table_return split: list.splits Expr.splits)

lemma extends_mapping:
  assumes "extends p q"
  shows "extends p (add_mapping anchor (length (out p)) q)"
proof (cases anchor)
  case (Some source)
  let ?m = "\<lparr>generated_start = length (out p), generated_end = length (out q), mapping_source = source\<rparr>"
  obtain t ms where t: "out q = out p @ t" "whole_lines t" "mappings q = mappings p @ ms"
    and m1: "\<And>m. m \<in> set ms \<Longrightarrow> mapped (out q) (length (out p)) m"
    and n1: "\<And>m n. m \<in> set ms \<Longrightarrow> n \<in> set ms \<Longrightarrow> nested m n"
    using assms unfolding extends_def by metis
  have "nested ?m m \<and> nested m ?m" if "m \<in> set ms" for m
    using m1 [OF that] by (auto simp: mapped_def nested_def)
  moreover have "mapped (out q) (length (out p)) ?m" "nested ?m ?m"
    using t by (simp_all add: mapped_def nested_def slice_def)
  ultimately show ?thesis
    using t m1 n1 Some unfolding extends_def add_mapping_def
    by (intro exI [of _ t] exI [of _ "ms @ [?m]"]) auto
qed (use assms in \<open>simp add: add_mapping_def\<close>)

lemma extends_body:
  "extends (print_line indent source p) q \<Longrightarrow> extends p (print_line indent' source' q)"
  by (rule extends_trans [OF extends_line extends_trans [OF _ extends_line]])

lemma print_extends:
  "extends p (print_block block indent p)"
  "extends p (print_entries es indent p)"
  "extends p (print_entry e indent p)"
  "extends p (print_stmt s indent p)"
  "extends p (print_branches bs keyword indent p)"
proof (induction block indent p and es indent p and e indent p and s indent p and bs keyword indent p
    rule: print_block_print_entries_print_entry_print_stmt_print_branches.induct)
  case (5 anchor s indent p)
  then show ?case by (simp add: extends_mapping)
next
  case (19 branches else_body indent p)
  let ?p1 = "print_branches branches ''if'' indent p"
  show ?case
  proof (cases else_body)
    case None
    with 19 show ?thesis by (auto intro: extends_trans)
  next
    case (Some body)
    have "extends ?p1 (print_block body (indent + 1) (print_line indent ''else'' ?p1))"
      using "19.IH"(2) [OF refl Some] extends_trans [OF extends_line] by blast
    with 19(1) Some show ?thesis by (auto intro: extends_trans)
  qed
next
  case (22 condition body rest keyword indent p)
  then show ?case by (auto intro: extends_trans [OF extends_trans [OF extends_line]])
next
  case (3 e es indent p)
  then show ?case by (auto intro: extends_trans)
qed (auto simp: extends_blank extends_raw extends_return intro: extends_body)

section \<open>Every anchor is mapped\<close>

fun block_anchors :: "Block \<Rightarrow> SourceRange list"
and entries_anchors :: "Entry list \<Rightarrow> SourceRange list"
and entry_anchors :: "Entry \<Rightarrow> SourceRange list"
and stmt_anchors :: "Statement \<Rightarrow> SourceRange list"
and branches_anchors :: "IfBranch list \<Rightarrow> SourceRange list" where
  "block_anchors (Block es) = entries_anchors es"
| "entries_anchors [] = []"
| "entries_anchors (e # es) = entry_anchors e @ entries_anchors es"
| "entry_anchors Blank = []"
| "entry_anchors (Anchored a s) = stmt_anchors s @ (case a of None \<Rightarrow> [] | Some r \<Rightarrow> [r])"
| "stmt_anchors (SDo body) = block_anchors body"
| "stmt_anchors (SWhile c body) = block_anchors body"
| "stmt_anchors (SNumericFor v a b st body) = block_anchors body"
| "stmt_anchors (SFunction t ps body) = block_anchors body"
| "stmt_anchors (SIf bs e) = branches_anchors bs @ (case e of None \<Rightarrow> [] | Some body \<Rightarrow> block_anchors body)"
| "stmt_anchors _ = []"
| "branches_anchors [] = []"
| "branches_anchors (IfBranch c body # bs) = block_anchors body @ branches_anchors bs"

lemma mappings_line [simp]: "mappings (print_line indent source p) = mappings p"
  by (simp add: print_line_def)

lemma mappings_fold_line: "(\<And>x p. mappings (f x p) = mappings p) \<Longrightarrow> mappings (fold f xs p) = mappings p"
  by (induction xs arbitrary: p) auto

lemma mappings_leaf [simp]:
  "mappings (print_raw source indent p) = mappings p"
  "mappings (print_return indent vals p) = mappings p"
  by (auto simp: print_raw_def print_return_def print_table_return_def Let_def mappings_fold_line
      split: list.splits Expr.splits)

lemma print_anchors:
  "map mapping_source (mappings (print_block block indent p)) = map mapping_source (mappings p) @ block_anchors block"
  "map mapping_source (mappings (print_entries es indent p)) = map mapping_source (mappings p) @ entries_anchors es"
  "map mapping_source (mappings (print_entry e indent p)) = map mapping_source (mappings p) @ entry_anchors e"
  "map mapping_source (mappings (print_stmt s indent p)) = map mapping_source (mappings p) @ stmt_anchors s"
  "map mapping_source (mappings (print_branches bs keyword indent p)) =
     map mapping_source (mappings p) @ branches_anchors bs"
proof (induction block indent p and es indent p and e indent p and s indent p and bs keyword indent p
    rule: print_block_print_entries_print_entry_print_stmt_print_branches.induct)
  case (5 anchor s indent p)
  then show ?case by (simp add: add_mapping_def split: option.splits)
next
  case (19 branches else_body indent p)
  then show ?case by (cases else_body) (simp_all add: Let_def)
qed (simp_all add: Let_def)

text \<open>
  C25. The printed source is a sequence of whole lines, and its source map is sound: the
  mappings are exactly the anchors of the block, sorted by their generated range; each spans
  whole lines of the printed source; and any two are disjoint or one encloses the other.
\<close>

theorem print_with_source_map_sound:
  "let r = print_with_source_map block; s = printed_source r; ms = printed_mappings r in
     whole_lines s
     \<and> mset (map mapping_source ms) = mset (block_anchors block)
     \<and> sorted (map mapping_key ms)
     \<and> list_all (mapped s 0) ms
     \<and> list_all (\<lambda>m. list_all (nested m) ms) ms"
proof -
  let ?e = "\<lparr>out = [], mappings = []\<rparr>"
  let ?p = "print_block block 0 ?e"
  have "extends ?e ?p" by (rule print_extends(1))
  then have ext: "whole_lines (out ?p)" "list_all (mapped (out ?p) 0) (mappings ?p)"
    "list_all (\<lambda>m. list_all (nested m) (mappings ?p)) (mappings ?p)"
    by (auto simp: extends_def list_all_iff)
  have "map mapping_source (mappings ?p) = block_anchors block" using print_anchors(1) [of block 0 ?e] by simp
  then have "mset (map mapping_source (sort_key mapping_key (mappings ?p))) = mset (block_anchors block)"
    by (metis mset_map mset_sort)
  with ext show ?thesis
    by (simp add: print_with_source_map_def Let_def list_all_iff)
qed

section \<open>Replaying a block through the builder\<close>

text \<open>The calls code generation makes to build a block, in order.\<close>

fun emit_block :: "Block \<Rightarrow> Builder \<Rightarrow> Builder outcome"
and emit_entries :: "Entry list \<Rightarrow> Builder \<Rightarrow> Builder outcome"
and emit_entry :: "Entry \<Rightarrow> Builder \<Rightarrow> Builder outcome"
and emit_stmt :: "Statement \<Rightarrow> Builder \<Rightarrow> Builder outcome"
and emit_branches :: "IfBranch list \<Rightarrow> Builder \<Rightarrow> Builder outcome" where
  "emit_block (Block es) b = emit_entries es b"
| "emit_entries [] b = Return b"
| "emit_entries (e # es) b = bind_outcome (emit_entry e b) (emit_entries es)"
| "emit_entry Blank b = add_blank b"
| "emit_entry (Anchored None s) b = emit_stmt s b"
| "emit_entry (Anchored (Some r) s) b = bind_outcome (emit_stmt s (push_anchor r b)) pop_anchor"
| "emit_stmt (SAnnotation source) b = add_annotation source b"
| "emit_stmt (SRaw source) b = add_raw source b"
| "emit_stmt (SExpression e) b = add_expression e b"
| "emit_stmt (SLocal names vals) b = add_local names vals b"
| "emit_stmt (SAssign [t] [v]) b = add_assign t v b"
| "emit_stmt (SAssign _ _) b = Panic"
| "emit_stmt (SReturn vals) b = return_values vals b"
| "emit_stmt SBreak b = break_statement b"
| "emit_stmt (SGoto l) b = add_goto l b"
| "emit_stmt (SLabel l) b = add_label l b"
| "emit_stmt (SDo body) b = bind_outcome (emit_block body (begin_do b)) end_block"
| "emit_stmt (SWhile c body) b = bind_outcome (emit_block body (begin_while c b)) end_block"
| "emit_stmt (SNumericFor v start stop step body) b =
     bind_outcome (emit_block body (begin_numeric_for v start stop step b)) end_block"
| "emit_stmt (SFunction t ps body) b = bind_outcome (emit_block body (begin_function t ps b)) end_block"
| "emit_stmt (SIf [] e) b = Panic"
| "emit_stmt (SIf (IfBranch c body # bs) e) b =
     bind_outcome (emit_block body (begin_if c b)) (\<lambda>b1.
     bind_outcome (emit_branches bs b1) (\<lambda>b2.
     bind_outcome (case e of None \<Rightarrow> Return b2
                   | Some else_body \<Rightarrow> bind_outcome (begin_else b2) (emit_block else_body))
       end_block))"
| "emit_stmt (SCompactIf c stmts) b = compact_if c stmts b"
| "emit_branches [] b = Return b"
| "emit_branches (IfBranch c body # bs) b =
     bind_outcome (begin_else_if c b) (\<lambda>b1. bind_outcome (emit_block body b1) (emit_branches bs))"

text \<open>
  The blocks that can arise: no two blank lines in a row, statements as the methods assert
  them, and inside an anchored statement every statement anchored.
\<close>

fun block_ok :: "SourceRange option \<Rightarrow> Block \<Rightarrow> bool"
and entries_ok :: "SourceRange option \<Rightarrow> Entry list \<Rightarrow> bool"
and entry_ok :: "SourceRange option \<Rightarrow> Entry \<Rightarrow> bool"
and stmt_ok :: "SourceRange option \<Rightarrow> Statement \<Rightarrow> bool"
and branches_ok :: "SourceRange option \<Rightarrow> IfBranch list \<Rightarrow> bool" where
  "block_ok a (Block es) = entries_ok a es"
| "entries_ok a [] = True"
| "entries_ok a (e # es) = (entry_ok a e \<and> entries_ok a es \<and> \<not> (e = Blank \<and> es \<noteq> [] \<and> hd es = Blank))"
| "entry_ok a Blank = True"
| "entry_ok a (Anchored x s) = ((x = None \<longrightarrow> a = None) \<and> stmt_ok x s)"
| "stmt_ok a (SExpression e) = is_statement_call e"
| "stmt_ok a (SLocal names vals) = (names \<noteq> [] \<and> (vals = [] \<or> length vals \<le> length names))"
| "stmt_ok a (SAssign ts vs) = (length ts = 1 \<and> length vs = 1)"
| "stmt_ok a (SDo body) = block_ok a body"
| "stmt_ok a (SWhile c body) = block_ok a body"
| "stmt_ok a (SNumericFor v start stop step body) = block_ok a body"
| "stmt_ok a (SFunction t ps body) = block_ok a body"
| "stmt_ok a (SIf bs e) = (bs \<noteq> [] \<and> branches_ok a bs \<and> (case e of None \<Rightarrow> True | Some body \<Rightarrow> block_ok a body))"
| "stmt_ok a (SCompactIf c stmts) = (stmts \<noteq> [])"
| "stmt_ok a _ = True"
| "branches_ok a [] = True"
| "branches_ok a (IfBranch c body # bs) = (block_ok a body \<and> branches_ok a bs)"

definition appended :: "Entry list \<Rightarrow> Block \<Rightarrow> Block" where
  "appended es block = Block (entries_of block @ es)"

lemma appended_simps [simp]:
  "appended [] = id" "appended [e] = push_entry e" "entries_of (appended es block) = entries_of block @ es"
  "appended es (Block xs) = Block (xs @ es)"
  by (auto simp: appended_def push_entry_def fun_eq_iff)

lemma appended_comp: "appended ys \<circ> appended xs = appended (xs @ ys)"
  by (simp add: appended_def fun_eq_iff)

fun frame_block :: "Frame \<Rightarrow> Block" where
  "frame_block (FRoot block) = block"
| "frame_block (FDo block) = block"
| "frame_block (FWhile c block) = block"
| "frame_block (FNumericFor v a b s block) = block"
| "frame_block (FFunction t ps block) = block"
| "frame_block (FIf bs e (ActiveBranch i)) = (case bs ! i of IfBranch c block \<Rightarrow> block)"
| "frame_block (FIf bs e ActiveElse) = (case e of None \<Rightarrow> Block [] | Some block \<Rightarrow> block)"

definition current_block :: "Builder \<Rightarrow> Block" where
  "current_block b = frame_block (hd (frames b))"

lemma branch_update_comp: "branch_update g (branch_update f br) = branch_update (g \<circ> f) br"
  by (cases br) simp

lemma update_block_comp:
  "update_block f fr = Return fr' \<Longrightarrow> update_block g fr' = update_block (g \<circ> f) fr"
  by (cases "(f, fr)" rule: update_block.cases) (auto simp: branch_update_comp split: if_splits option.splits)

lemma update_block_block: "update_block f fr = Return fr' \<Longrightarrow> frame_block fr' = f (frame_block fr)"
proof (cases "(f, fr)" rule: update_block.cases)
  case (6 f' branches e i)
  assume "update_block f fr = Return fr'"
  with 6 show ?thesis by (cases "branches ! i") (auto split: if_splits)
qed (auto split: option.splits)

lemma update_block_cong: "f (frame_block fr) = g (frame_block fr) \<Longrightarrow> update_block f fr = update_block g fr"
proof (cases "(f, fr)" rule: update_block.cases)
  case (6 f' branches e i)
  assume "f (frame_block fr) = g (frame_block fr)"
  with 6 have "i < length branches \<Longrightarrow> branch_update f (branches ! i) = branch_update g (branches ! i)"
    by (cases "branches ! i") simp
  with 6 show ?thesis by simp
qed (auto split: option.splits)

lemma update_block_id: "update_block id fr = Return fr' \<Longrightarrow> fr' = fr"
proof (cases "(id :: Block \<Rightarrow> Block, fr)" rule: update_block.cases)
  case (6 f' branches e i)
  have "branch_update id br = br" for br by (cases br) simp
  moreover assume "update_block id fr = Return fr'"
  ultimately show ?thesis using 6 by (auto split: if_splits)
qed (auto split: option.splits)

lemma with_current_block_comp:
  "with_current_block f b = Return b' \<Longrightarrow> with_current_block g b' = with_current_block (g \<circ> f) b"
  by (auto simp: with_current_block_def update_block_comp split: list.splits)

lemma with_current_block_block:
  "with_current_block f b = Return b' \<Longrightarrow> current_block b' = f (current_block b)"
  by (auto simp: with_current_block_def current_block_def update_block_block split: list.splits)

lemma with_current_block_cong:
  assumes "f (current_block b) = g (current_block b)"
  shows "with_current_block f b = with_current_block g b"
proof (cases "frames b")
  case (Cons fr rest)
  with assms have "update_block f fr = update_block g fr"
    by (intro update_block_cong) (simp add: current_block_def)
  with Cons show ?thesis by (simp add: with_current_block_def)
qed (simp add: with_current_block_def)

lemma with_current_block_id: "wf_builder b \<Longrightarrow> with_current_block id b = Return b"
proof -
  assume "wf_builder b"
  then obtain b' where b': "with_current_block id b = Return b'" using with_current_block_wf by blast
  then obtain fr rest fr' where "frames b = fr # rest" "update_block id fr = Return fr'" "b' = b\<lparr>frames := fr' # rest\<rparr>"
    by (auto simp: with_current_block_def split: list.splits)
  with update_block_id [of fr fr'] b' show ?thesis by simp
qed

lemma with_current_block_anchors:
  "with_current_block f (b\<lparr>anchors := as\<rparr>) = map_outcome (\<lambda>b'. b'\<lparr>anchors := as\<rparr>) (with_current_block f b)"
  by (cases "frames b"; cases "update_block f (hd (frames b))") (auto simp: with_current_block_def)

definition ends_blank :: "Builder \<Rightarrow> bool" where
  "ends_blank b \<longleftrightarrow> entries_of (current_block b) \<noteq> [] \<and> last (entries_of (current_block b)) = Blank"

lemma add_blank_appended: "\<not> ends_blank b \<Longrightarrow> add_blank b = with_current_block (appended [Blank]) b"
  unfolding add_blank_def by (intro with_current_block_cong) (auto simp: ends_blank_def push_blank_def)

lemma end_block_frame:
  assumes "wf_builder b" and "frame_statement fr = Return s"
  shows "end_block (push_frame fr b) = add_statement s b"
proof -
  have "frames b \<noteq> []" using assms(1) by (auto simp: wf_builder_def)
  then show ?thesis using assms(2) by (simp add: end_block_def push_frame_def)
qed

lemma last_anchor_frame [simp]: "last_anchor (push_frame fr b) = last_anchor b"
  by (simp add: last_anchor_def push_frame_def)

lemma current_block_frame [simp]: "current_block (push_frame fr b) = frame_block fr"
  by (simp add: current_block_def push_frame_def)

lemma with_current_block_frame [simp]:
  "with_current_block f (push_frame fr b) = map_outcome (\<lambda>fr'. push_frame fr' b) (update_block f fr)"
  by (cases "update_block f fr") (auto simp: with_current_block_def push_frame_def)

lemma begin_else_frame [simp]:
  "begin_else (push_frame (FIf bs None act) b) = Return (push_frame (FIf bs (Some (Block [])) ActiveElse) b)"
  "begin_else_if c (push_frame (FIf bs None act) b) =
     Return (push_frame (FIf (bs @ [IfBranch c (Block [])]) None (ActiveBranch (length bs))) b)"
  by (simp_all add: begin_else_def begin_else_if_def push_frame_def)

text \<open>What a replay does to a builder in a given anchor context.\<close>

lemma emit_appends:
  "block_ok a block \<Longrightarrow> wf_builder b \<Longrightarrow> last_anchor b = a \<Longrightarrow> entries_of (current_block b) = [] \<Longrightarrow>
     emit_block block b = with_current_block (appended (entries_of block)) b"
  "entries_ok a es \<Longrightarrow> wf_builder b \<Longrightarrow> last_anchor b = a \<Longrightarrow>
     \<not> (ends_blank b \<and> es \<noteq> [] \<and> hd es = Blank) \<Longrightarrow>
     emit_entries es b = with_current_block (appended es) b"
  "entry_ok a e \<Longrightarrow> wf_builder b \<Longrightarrow> last_anchor b = a \<Longrightarrow> \<not> (ends_blank b \<and> e = Blank) \<Longrightarrow>
     emit_entry e b = with_current_block (appended [e]) b"
  "stmt_ok a s \<Longrightarrow> wf_builder b \<Longrightarrow> last_anchor b = a \<Longrightarrow> emit_stmt s b = add_statement s b"
  "branches_ok a bs \<Longrightarrow> wf_builder b0 \<Longrightarrow> last_anchor b0 = a \<Longrightarrow>
     (bs0 \<noteq> [] \<longrightarrow> emit_branches bs (push_frame (FIf bs0 None (ActiveBranch (length bs0 - 1))) b0) =
       Return (push_frame (FIf (bs0 @ bs) None (ActiveBranch (length (bs0 @ bs) - 1))) b0))
     \<and> (\<forall>c body rest. bs = IfBranch c body # rest \<longrightarrow>
          bind_outcome (emit_block body (begin_if c b0)) (emit_branches rest) =
          Return (push_frame (FIf bs None (ActiveBranch (length bs - 1))) b0))"
proof (induction a block and a es and a e and a s and a bs arbitrary: b and b and b and b and b0 bs0
    rule: block_ok_entries_ok_entry_ok_stmt_ok_branches_ok.induct)
  case (1 a es)
  then show ?case by (simp add: ends_blank_def)
next
  case (2 a)
  then show ?case by (simp only: emit_entries.simps appended_simps(1) with_current_block_id)
next
  case (3 a e es)
  have e: "emit_entry e b = with_current_block (appended [e]) b" using 3 by auto
  obtain b1 where b1: "with_current_block (appended [e]) b = Return b1" and wf1: "wf_builder b1"
    and an: "anchors b1 = anchors b"
    using with_current_block_wf [OF "3.prems"(2)] by metis
  have "current_block b1 = appended [e] (current_block b)" by (rule with_current_block_block [OF b1])
  then have "ends_blank b1 \<longleftrightarrow> e = Blank" by (simp add: ends_blank_def push_entry_def)
  then have "emit_entries es b1 = with_current_block (appended es) b1"
    using 3 wf1 an by (simp add: last_anchor_def)
  also have "\<dots> = with_current_block (appended (e # es)) b"
    using with_current_block_comp [OF b1, of "appended es"] by (simp only: appended_comp append_Cons append_Nil)
  finally show ?case using e b1 by simp
next
  case (4 a)
  then show ?case using add_blank_appended by simp
next
  case (5 a x s)
  show ?case
  proof (cases x)
    case None
    with 5 show ?thesis by (simp add: add_statement_def)
  next
    case (Some r)
    have wf: "wf_builder (push_anchor r b)" using 5 by (simp add: wf_builder_def push_anchor_def)
    have "emit_stmt s (push_anchor r b) = add_statement s (push_anchor r b)"
      using 5 Some wf by (simp add: last_anchor_def push_anchor_def)
    moreover obtain b1 where b1: "with_current_block (appended [Anchored x s]) b = Return b1"
      and an: "anchors b1 = anchors b"
      using with_current_block_wf [OF "5.prems"(2)] by metis
    moreover have "b1\<lparr>anchors := anchors b\<rparr> = b1" using an by simp
    ultimately show ?thesis
      using Some by (simp add: add_statement_def push_anchor_def with_current_block_anchors last_anchor_def
          pop_anchor_def)
  qed
next
  case (9 a body)
  have "emit_block body (begin_do b) = Return (push_frame (FDo body) b)"
    using 9 by (simp add: begin_do_def push_frame_wf)
  with 9 show ?case by (simp add: end_block_frame)
next
  case (10 a c body)
  have "emit_block body (begin_while c b) = Return (push_frame (FWhile c body) b)"
    using 10 by (simp add: begin_while_def push_frame_wf)
  with 10 show ?case by (simp add: end_block_frame)
next
  case (11 a v start stop step body)
  have "emit_block body (begin_numeric_for v start stop step b) =
      Return (push_frame (FNumericFor v start stop step body) b)"
    using 11 by (simp add: begin_numeric_for_def push_frame_wf)
  with 11 show ?case by (simp add: end_block_frame)
next
  case (12 a t ps body)
  have "emit_block body (begin_function t ps b) = Return (push_frame (FFunction t ps body) b)"
    using 12 by (simp add: begin_function_def push_frame_wf)
  with 12 show ?case by (simp add: end_block_frame)
next
  case (13 a bs e)
  then obtain c body rest where bs: "bs = IfBranch c body # rest"
    by (metis IfBranch.exhaust neq_Nil_conv stmt_ok.simps(8))
  have br: "bind_outcome (emit_block body (begin_if c b)) (emit_branches rest) =
      Return (push_frame (FIf bs None (ActiveBranch (length bs - 1))) b)"
    using 13 bs by (metis stmt_ok.simps(8))
  let ?b2 = "push_frame (FIf bs None (ActiveBranch (length bs - 1))) b"
  let ?else = "\<lambda>b2. case e of None \<Rightarrow> Return b2
                 | Some else_body \<Rightarrow> bind_outcome (begin_else b2) (emit_block else_body)"
  have seq: "bind_outcome (emit_block body (begin_if c b)) (\<lambda>b1. bind_outcome (emit_branches rest b1) g) = g ?b2"
    for g :: "Builder \<Rightarrow> Builder outcome"
    using br by (cases "emit_block body (begin_if c b)") simp_all
  have els: "?else ?b2 = Return (push_frame (FIf bs e (if e = None then ActiveBranch (length bs - 1) else ActiveElse)) b)"
  proof (cases e)
    case (Some else_body)
    have "emit_block else_body (push_frame (FIf bs (Some (Block [])) ActiveElse) b) =
        Return (push_frame (FIf bs (Some else_body) ActiveElse) b)"
      using 13 Some bs by (simp add: push_frame_wf)
    with Some show ?thesis by simp
  qed simp
  have "emit_stmt (SIf bs e) b = bind_outcome (?else ?b2) end_block"
    unfolding bs emit_stmt.simps seq [unfolded bs] ..
  also have "\<dots> = end_block (push_frame (FIf bs e (if e = None then ActiveBranch (length bs - 1) else ActiveElse)) b)"
    unfolding els by simp
  also have "\<dots> = add_statement (SIf bs e) b"
    using "13.prems" by (simp add: end_block_frame)
  finally show ?case .
next
  case (17 a c body bs)
  have body: "emit_block body (push_frame (FIf (bs0 @ [IfBranch c (Block [])]) None (ActiveBranch (length bs0))) b0) =
      Return (push_frame (FIf (bs0 @ [IfBranch c body]) None (ActiveBranch (length bs0))) b0)" for bs0
    using "17.IH"(1) [of "push_frame (FIf (bs0 @ [IfBranch c (Block [])]) None (ActiveBranch (length bs0))) b0"]
      "17.prems" by (simp add: push_frame_wf)
  have rest: "emit_branches bs (push_frame (FIf (bs0 @ [IfBranch c body]) None (ActiveBranch (length bs0))) b0) =
      Return (push_frame (FIf (bs0 @ IfBranch c body # bs) None (ActiveBranch (length bs0 + length bs))) b0)" for bs0
    using "17.IH"(2) [of b0 "bs0 @ [IfBranch c body]"] "17.prems" by simp
  show ?case using body rest body [of "[]"] rest [of "[]"] by (simp add: begin_if_def)
next
  case (8 a ts vs)
  then show ?case by (auto simp: length_Suc_conv add_assign_def)
qed (auto simp: add_annotation_def add_raw_def add_expression_def add_local_def
    return_values_def break_statement_def add_goto_def add_label_def compact_if_def)

text \<open>
  C26. The builder builds every block it should: replaying the block's statements through the
  builder's methods in order, opening and closing each nested block, returns exactly that block.
\<close>

theorem builder_replays_block:
  assumes "block_ok None block"
  shows "bind_outcome (emit_block block Builder_new) finish = Return block"
proof -
  have "wf_builder Builder_new" by (intro builder_reaches_wf builder_reaches.new)
  with assms have "emit_block block Builder_new = with_current_block (appended (entries_of block)) Builder_new"
    by (intro emit_appends(1)) (simp_all add: last_anchor_def Builder_new_def current_block_def)
  also have "\<dots> = Return \<lparr>frames = [FRoot block], anchors = []\<rparr>"
    by (simp add: with_current_block_def Builder_new_def)
  finally show ?thesis by (simp add: finish_def)
qed

lemma builder_replays_block_witness:
  "bind_outcome (emit_block (Block [Anchored None (SIf [IfBranch (EBool True) (Block [Anchored None SBreak])]
       (Some (Block [Blank, Anchored None (SReturn [])])))]) Builder_new) finish
   = Return (Block [Anchored None (SIf [IfBranch (EBool True) (Block [Anchored None SBreak])]
       (Some (Block [Blank, Anchored None (SReturn [])])))])"
  by (rule builder_replays_block) simp

end
