(* ===== verification/Spec2Isabelle.thy ===== *)
theory Spec2Isabelle
  imports Backend_Props Front_End Cst_Runs Hir_Program_Props Lex_Props Diagnostics Cfg Project Tokenize_Props Lua_Expr_Props Lua_Block_Props
begin

text \<open>
  A verification development for the Rua toolchain.
\<close>

end
